(* ===== verification/AvcPrelude.thy ===== *)
theory AvcPrelude
  imports Main "HOL-Library.Word" "HOL-Library.Monad_Syntax" "HOL-Library.Multiset"
begin

text \<open>
  Shared vocabulary of the development: the C integer types, the conversions between them, the
  bit-list view of words and bytes (most significant bit first, the order of an H.264 bit string),
  and the generic list lemmas of the component theories.

  Conventions of every theory: a C \<open>uint\<close> is a \<open>32 word\<close>, a C \<open>uint8\<close> an \<open>8 word\<close>, a C
  \<open>int\<close> an \<open>int\<close> with \<open>c_int\<close> written where a value is converted; a function whose C body can
  run into undefined behaviour (a shift by a negative amount or by the width of the operand, an
  access outside an array) returns an \<open>option\<close>, and \<open>None\<close> is exactly that.
\<close>

unbundle bit_operations_syntax

type_synonym uint = "32 word"
type_synonym uint8 = "8 word"

named_theorems bits_simps \<open>bit-list views of words, bytes and numbers\<close>
named_theorems consume_intros \<open>which bits a syntax element consumes\<close>
named_theorems emit_intros \<open>which bits a syntax element emits\<close>
named_theorems frame_simps \<open>fields an operation leaves alone\<close>

section \<open>C integer conversions and macros\<close>

definition c_int :: "int \<Rightarrow> int" where
  "c_int x = signed_take_bit 31 x"

definition c_uint :: "int \<Rightarrow> int" where
  "c_uint x = take_bit 32 x"

definition AVC_MAX :: "int \<Rightarrow> int \<Rightarrow> int" where
  "AVC_MAX x y = (if x > y then x else y)"

definition AVC_MIN :: "int \<Rightarrow> int \<Rightarrow> int" where
  "AVC_MIN x y = (if x < y then x else y)"

definition AVC_CLIP3 :: "int \<Rightarrow> int \<Rightarrow> int \<Rightarrow> int" where
  "AVC_CLIP3 a b x = AVC_MAX a (AVC_MIN x b)"

definition AVC_MEDIAN :: "int \<Rightarrow> int \<Rightarrow> int \<Rightarrow> int" where
  "AVC_MEDIAN A B C =
     (if A > B then (if A < C then A else if B > C then B else C)
      else if B < C then B else if C > A then C else A)"

lemma c_int_id [simp]: "- 2147483648 \<le> x \<Longrightarrow> x < 2147483648 \<Longrightarrow> c_int x = x"
  by (simp add: c_int_def signed_take_bit_int_eq_self)

lemma c_uint_id [simp]: "0 \<le> x \<Longrightarrow> x < 4294967296 \<Longrightarrow> c_uint x = x"
  by (simp add: c_uint_def take_bit_int_eq_self)

section \<open>Array reads\<close>

definition nth_opt :: "'a list \<Rightarrow> int \<Rightarrow> 'a option" where
  "nth_opt xs i = (if 0 \<le> i \<and> i < int (length xs) then Some (xs ! nat i) else None)"

lemma nth_opt_Some [simp]:
  "0 \<le> i \<Longrightarrow> i < int (length xs) \<Longrightarrow> nth_opt xs i = Some (xs ! nat i)"
  by (simp add: nth_opt_def)

lemma nth_opt_nat [simp]: "nth_opt xs (int n) = (if n < length xs then Some (xs ! n) else None)"
  by (simp add: nth_opt_def)

lemma nth_opt_eq_Some_iff:
  "nth_opt xs i = Some x \<longleftrightarrow> 0 \<le> i \<and> i < int (length xs) \<and> xs ! nat i = x"
  by (auto simp: nth_opt_def)

section \<open>Bit lists\<close>

fun bits_val :: "bool list \<Rightarrow> nat" where
  "bits_val [] = 0"
| "bits_val (b # bs) = of_bool b * 2 ^ length bs + bits_val bs"

definition nat_bits :: "nat \<Rightarrow> nat \<Rightarrow> bool list" where
  "nat_bits n v = map (\<lambda>i. bit v (n - 1 - i)) [0..<n]"

definition word_bits :: "32 word \<Rightarrow> nat \<Rightarrow> bool list" where
  "word_bits w n = map (\<lambda>i. bit w (31 - i)) [0..<n]"

definition byte_bits :: "uint8 \<Rightarrow> bool list" where
  "byte_bits b = map (\<lambda>i. bit b (7 - i)) [0..<8]"

definition bytes_bits :: "uint8 list \<Rightarrow> bool list" where
  "bytes_bits bs = concat (map byte_bits bs)"

definition bits_word :: "bool list \<Rightarrow> 32 word" where
  "bits_word bs = word_of_nat (bits_val bs)"

lemma length_nat_bits [simp, bits_simps]: "length (nat_bits n v) = n"
  by (simp add: nat_bits_def)

lemma length_word_bits [simp, bits_simps]: "length (word_bits w n) = n"
  by (simp add: word_bits_def)

lemma length_byte_bits [simp, bits_simps]: "length (byte_bits b) = 8"
  by (simp add: byte_bits_def)

lemma length_bytes_bits [simp, bits_simps]: "length (bytes_bits bs) = 8 * length bs"
  by (induction bs) (simp_all add: bytes_bits_def)

lemma bytes_bits_simps [simp, bits_simps]:
  "bytes_bits [] = []"
  "bytes_bits (b # bs) = byte_bits b @ bytes_bits bs"
  "bytes_bits (bs @ cs) = bytes_bits bs @ bytes_bits cs"
  by (simp_all add: bytes_bits_def)

lemma bits_val_less: "bits_val bs < 2 ^ length bs"
  by (induction bs) (auto simp: of_bool_def)

lemma bits_val_append: "bits_val (bs @ cs) = bits_val bs * 2 ^ length cs + bits_val cs"
  by (induction bs) (simp_all add: algebra_simps power_add)

lemma bits_val_replicate_False [simp]: "bits_val (replicate n False) = 0"
  by (induction n) simp_all

lemma nat_bits_0 [simp]: "nat_bits 0 v = []"
  by (simp add: nat_bits_def)

lemma nat_bits_Suc: "nat_bits (Suc n) v = bit v n # nat_bits n v"
proof -
  have "[0..<Suc n] = 0 # map Suc [0..<n]"
    by (simp add: upt_conv_Cons map_Suc_upt del: upt_Suc)
  then show ?thesis by (simp add: nat_bits_def o_def del: upt_Suc)
qed

lemma nth_nat_bits [simp]: "i < n \<Longrightarrow> nat_bits n v ! i = bit v (n - 1 - i)"
  by (simp add: nat_bits_def)

lemma nat_bits_append: "nat_bits (a + b) v = nat_bits a (drop_bit b v) @ nat_bits b v"
  by (rule nth_equalityI) (auto simp: nth_append bit_drop_bit_eq intro!: arg_cong [of _ _ "bit v"])

lemma bits_val_nat_bits: "bits_val (nat_bits n v) = v mod 2 ^ n"
proof (induction n)
  case (Suc n)
  have "v mod 2 ^ Suc n = of_bool (bit v n) * 2 ^ n + v mod 2 ^ n"
    using take_bit_Suc_from_most [of n v] by (simp add: take_bit_eq_mod algebra_simps)
  with Suc show ?case by (simp add: nat_bits_Suc)
qed simp

lemma nat_bits_bits_val: "nat_bits (length bs) (bits_val bs) = bs"
proof (induction bs)
  case (Cons b bs)
  let ?v = "of_bool b * 2 ^ length bs + bits_val bs"
  have less: "bits_val bs < 2 ^ length bs" by (rule bits_val_less)
  have div: "?v div 2 ^ length bs = of_bool b" using less by simp
  have head: "bit ?v (length bs) = b"
    by (simp only: bit_iff_odd div) simp
  have tail: "bit ?v k = bit (bits_val bs) k" if "k < length bs" for k
  proof -
    have "take_bit (length bs) ?v = take_bit (length bs) (bits_val bs)"
      by (simp add: take_bit_eq_mod)
    then show ?thesis using that by (metis bit_take_bit_iff)
  qed
  have "nat_bits (length bs) ?v = nat_bits (length bs) (bits_val bs)"
    using tail by (auto simp: nat_bits_def)
  then show ?case using Cons head by (simp add: nat_bits_Suc)
qed simp

lemma bits_val_inject: "length bs = length cs \<Longrightarrow> bits_val bs = bits_val cs \<Longrightarrow> bs = cs"
  by (metis nat_bits_bits_val)

section \<open>Words as bit lists\<close>

lemma nth_word_bits [simp]: "i < n \<Longrightarrow> word_bits w n ! i = bit w (31 - i)"
  by (simp add: word_bits_def)

lemma take_word_bits: "n \<le> m \<Longrightarrow> take n (word_bits w m) = word_bits w n"
  by (simp add: word_bits_def take_map)

lemma word_bits_0 [simp]: "word_bits w 0 = []"
  by (simp add: word_bits_def)

lemma word_bits_nat_bits:
  assumes "n \<le> 32"
  shows "word_bits w n = nat_bits n (unat (drop_bit (32 - n) w))"
proof (rule nth_equalityI)
  fix i assume "i < length (word_bits w n)"
  then have i: "i < n" by simp
  have "bit (unat (drop_bit (32 - n) w)) (n - Suc i) = bit w (31 - i)"
    using i assms by (simp add: bit_drop_bit_eq bit_unsigned_iff)
  then show "word_bits w n ! i = nat_bits n (unat (drop_bit (32 - n) w)) ! i"
    using i by (simp add: nat_bits_def)
qed simp

lemma unat_drop_bit_word_bits:
  assumes "n \<le> 32"
  shows "unat (drop_bit (32 - n) w) = bits_val (word_bits w n)"
proof -
  have "unat (drop_bit (32 - n) w) < 2 ^ n"
  proof -
    have "unat w < 2 ^ (n + (32 - n))" using unsigned_less [of w] assms by simp
    then have "unat w div 2 ^ (32 - n) < 2 ^ n"
      by (simp add: power_add less_mult_imp_div_less mult.commute)
    then show ?thesis by (metis unat_drop_bit_eq drop_bit_eq_div)
  qed
  then show ?thesis by (simp add: word_bits_nat_bits [OF assms] bits_val_nat_bits)
qed

lemma drop_bit_word_bits: "n \<le> 32 \<Longrightarrow> drop_bit (32 - n) w = bits_word (word_bits w n)"
  by (simp add: bits_word_def flip: unat_drop_bit_word_bits)

text \<open>A cache word holds its bits at the most significant end, zeros below.\<close>

definition top_only :: "32 word \<Rightarrow> nat \<Rightarrow> bool" where
  "top_only w n \<longleftrightarrow> take_bit (32 - n) w = 0"

lemma top_only_iff: "top_only w n \<longleftrightarrow> (\<forall>i < 32 - n. \<not> bit w i)"
  unfolding top_only_def by (auto simp: bit_eq_iff bit_take_bit_iff)

lemma top_only_bit: "top_only w n \<Longrightarrow> n \<le> i \<Longrightarrow> i < 32 \<Longrightarrow> \<not> bit w (31 - i)"
  by (simp add: top_only_iff)

lemma word_bits_or_drop:
  assumes "top_only w n" and "n \<le> m" and "m \<le> 32"
  shows "word_bits (w OR drop_bit n v) m = word_bits w n @ word_bits v (m - n)"
proof (rule nth_equalityI)
  fix i assume "i < length (word_bits (w OR drop_bit n v) m)"
  then have i: "i < m" by simp
  show "word_bits (w OR drop_bit n v) m ! i = (word_bits w n @ word_bits v (m - n)) ! i"
  proof (cases "i < n")
    case True
    then have "\<not> bit v (n + (31 - i))"
      using i assms(3) by (auto dest: bit_imp_le_length)
    with True i show ?thesis by (simp add: nth_append bit_or_iff bit_drop_bit_eq)
  next
    case False
    then have "\<not> bit w (31 - i)" using top_only_bit [OF assms(1)] i assms(3) by simp
    moreover have "n + (31 - i) = 31 - (i - n)" using False i assms by simp
    ultimately show ?thesis
      using False i by (simp add: nth_append bit_or_iff bit_drop_bit_eq)
  qed
qed (use assms in simp)

lemma word_bits_push:
  assumes "n + k \<le> 32"
  shows "word_bits (push_bit k w) n = drop k (word_bits w (n + k))"
proof (rule nth_equalityI)
  fix i assume "i < length (word_bits (push_bit k w) n)"
  then have i: "i < n" by simp
  have "31 - i - k = 31 - (k + i)" by simp
  moreover have "k \<le> 31 - i" using i assms by simp
  moreover have "31 - i < 32" by simp
  ultimately show "word_bits (push_bit k w) n ! i = drop k (word_bits w (n + k)) ! i"
    using i assms by (simp add: bit_push_bit_iff)
qed simp

lemma top_only_push: "top_only w n \<Longrightarrow> k \<le> n \<Longrightarrow> n \<le> 32 \<Longrightarrow> top_only (push_bit k w) (n - k)"
  by (auto simp: top_only_iff bit_push_bit_iff)

lemma top_only_full [simp]: "top_only w 32"
  by (simp add: top_only_def)

lemma top_only_zero [simp]: "top_only 0 n"
  by (simp add: top_only_def)

lemma top_only_mono: "top_only w n \<Longrightarrow> n \<le> m \<Longrightarrow> top_only w m"
  by (simp add: top_only_iff)

lemma top_only_or_drop:
  "top_only w n \<Longrightarrow> top_only v k \<Longrightarrow> n + k \<le> m \<Longrightarrow> top_only (w OR drop_bit n v) m"
  by (auto simp: top_only_iff bit_or_iff bit_drop_bit_eq)

section \<open>Assembling words from bytes\<close>

definition be_word :: "uint8 \<Rightarrow> uint8 \<Rightarrow> uint8 \<Rightarrow> uint8 \<Rightarrow> uint" where
  "be_word a b c d =
     push_bit 24 (ucast a) OR push_bit 16 (ucast b) OR push_bit 8 (ucast c) OR ucast d"

lemma upt8: "[0..<8] = [0, 1, 2, 3, 4, 5, 6, 7::nat]"
  by (simp add: upt_rec)

lemma bit_byte_high: "8 \<le> i \<Longrightarrow> \<not> bit (b :: uint8) i"
  by (auto dest: bit_imp_le_length)

lemma word_bits_be_word:
  "word_bits (be_word a b c d) 32 = byte_bits a @ byte_bits b @ byte_bits c @ byte_bits d"
proof -
  have "[0..<32] = [0..<8] @ map ((+) 8) [0..<8] @ map ((+) 16) [0..<8] @ map ((+) 24) [0..<8]"
    by (simp add: upt_rec)
  then show ?thesis
    by (simp add: word_bits_def byte_bits_def be_word_def upt8 bit_or_iff bit_push_bit_iff
        bit_ucast_iff bit_byte_high)
qed

end
