(* ===== verification/BitIO.thy ===== *)
theory BitIO
  imports AvcPrelude
begin

text \<open>
  The interfaces between the bitstream objects and the entropy coders on top of them.
  \<open>bit_source\<close> is what a syntax-element decoder relies on (read, show, flush), \<open>bit_sink\<close> what a
  syntax-element encoder relies on (write); the decoder's and the encoder's bitstream theories
  interpret them. \<open>consumes\<close> and \<open>emits\<close> relate an operation to the bits it takes or gives.
\<close>

section \<open>Consuming a bit string\<close>

definition consumes ::
  "('s \<Rightarrow> bool) \<Rightarrow> ('s \<Rightarrow> bool list) \<Rightarrow> ('s \<Rightarrow> ('a \<times> 's) option) \<Rightarrow> bool list \<Rightarrow> 'a \<Rightarrow> bool" where
  "consumes valid bits p bs x \<longleftrightarrow>
     (\<forall>s rest. valid s \<longrightarrow> bits s = bs @ rest \<longrightarrow> (\<exists>s'. p s = Some (x, s') \<and> valid s' \<and> bits s' = rest))"

lemma consumesI:
  "(\<And>s rest. valid s \<Longrightarrow> bits s = bs @ rest \<Longrightarrow> \<exists>s'. p s = Some (x, s') \<and> valid s' \<and> bits s' = rest)
     \<Longrightarrow> consumes valid bits p bs x"
  by (simp add: consumes_def)

lemma consumesE:
  assumes "consumes valid bits p bs x" and "valid s" and "bits s = bs @ rest"
  obtains s' where "p s = Some (x, s')" and "valid s'" and "bits s' = rest"
  using assms by (auto simp: consumes_def)

lemma consumes_return [consume_intros]: "consumes valid bits (\<lambda>s. Some (x, s)) [] x"
  by (simp add: consumes_def)

lemma consumes_bind [consume_intros]:
  assumes "consumes valid bits p bs x" and "consumes valid bits (q x) cs y"
  shows "consumes valid bits (\<lambda>s. Option.bind (p s) (\<lambda>(v, t). q v t)) (bs @ cs) y"
proof (rule consumesI)
  fix s rest assume "valid s" and "bits s = (bs @ cs) @ rest"
  then obtain s' where "p s = Some (x, s')" "valid s'" "bits s' = cs @ rest"
    by (auto elim: consumesE [OF assms(1), of s "cs @ rest"])
  then show "\<exists>s'. Option.bind (p s) (\<lambda>(v, t). q v t) = Some (y, s') \<and> valid s' \<and> bits s' = rest"
    by (auto elim: consumesE [OF assms(2), of s' rest])
qed

lemma consumes_cong: "(\<And>s. p s = q s) \<Longrightarrow> consumes valid bits p bs x = consumes valid bits q bs x"
  by (simp add: consumes_def)

lemma consumes_map:
  assumes "consumes valid bits p bs x" and "y = f x"
  shows "consumes valid bits (\<lambda>s. Option.bind (p s) (\<lambda>(v, t). Some (f v, t))) bs y"
  using consumes_bind [OF assms(1), of "\<lambda>v t. Some (f v, t)" "[]" y]
    consumes_return [of valid bits "f x"] assms(2) by simp

section \<open>What a decoder needs of its stream\<close>

locale bit_source =
  fixes valid :: "'s \<Rightarrow> bool"
    and bits :: "'s \<Rightarrow> bool list"
    and cached :: "'s \<Rightarrow> nat"
    and rd :: "'s \<Rightarrow> int \<Rightarrow> (uint \<times> 's) option"
    and sh :: "'s \<Rightarrow> int \<Rightarrow> (uint \<times> 's) option"
    and fl :: "'s \<Rightarrow> int \<Rightarrow> 's option"
  assumes rd_law: "valid s \<Longrightarrow> 1 \<le> n \<Longrightarrow> n \<le> 31 \<Longrightarrow> n \<le> length (bits s) \<Longrightarrow>
      \<exists>s'. rd s (int n) = Some (bits_word (take n (bits s)), s') \<and> valid s' \<and> bits s' = drop n (bits s)"
    and sh_law: "valid s \<Longrightarrow> 1 \<le> n \<Longrightarrow> n \<le> 32 \<Longrightarrow>
      \<exists>s'. sh s (int n) = Some (bits_word (take n (bits s @ replicate n False)), s')
         \<and> valid s' \<and> bits s' = bits s \<and> min n (length (bits s)) \<le> cached s'"
    and fl_law: "valid s \<Longrightarrow> n \<le> 31 \<Longrightarrow> n \<le> cached s \<Longrightarrow>
      \<exists>s'. fl s (int n) = Some s' \<and> valid s' \<and> bits s' = drop n (bits s)"
begin

lemma consumes_rd:
  assumes "length bs = n" and "1 \<le> n" and "n \<le> 31"
  shows "consumes valid bits (\<lambda>s. rd s (int n)) bs (bits_word bs)"
proof (rule consumesI)
  fix s rest assume s: "valid s" "bits s = bs @ rest"
  then show "\<exists>s'. rd s (int n) = Some (bits_word bs, s') \<and> valid s' \<and> bits s' = rest"
    using rd_law [OF s(1) assms(2,3)] assms(1) by simp
qed

text \<open>
  The pattern of every table-driven code: show \<open>n\<close> bits, look the value and its length up, flush
  that length. It consumes \<open>bs\<close> as soon as the table maps every word that starts with \<open>bs\<close> to the
  value and to the length of \<open>bs\<close>.
\<close>

lemma consumes_vlc:
  assumes n: "1 \<le> n" "n \<le> 32" and len: "length bs \<le> n" "length bs \<le> 31"
    and f: "\<And>t. length t = n - length bs \<Longrightarrow> f (bits_word (bs @ t)) = Some (x, int (length bs))"
  shows "consumes valid bits
    (\<lambda>s. do { (c, s1) \<leftarrow> sh s (int n); (y, l) \<leftarrow> f c; s2 \<leftarrow> fl s1 l; Some (y, s2) }) bs x"
proof (rule consumesI)
  fix s rest assume s: "valid s" "bits s = bs @ rest"
  define t where "t = take (n - length bs) (rest @ replicate n False)"
  have t: "length t = n - length bs" "take n (bits s @ replicate n False) = bs @ t"
    using s(2) len by (simp_all add: t_def min_def)
  obtain s1 where s1: "sh s (int n) = Some (bits_word (bs @ t), s1)" "valid s1" "bits s1 = bits s"
      "min n (length (bits s)) \<le> cached s1"
    using sh_law [OF s(1) n] t(2) by auto
  have "length bs \<le> cached s1" using s1(4) s(2) len by simp
  from fl_law [OF s1(2) len(2) this] obtain s2 where
    "fl s1 (int (length bs)) = Some s2" "valid s2" "bits s2 = drop (length bs) (bits s1)"
    by blast
  then show "\<exists>s'. (do { (c, s1) \<leftarrow> sh s (int n); (y, l) \<leftarrow> f c; s2 \<leftarrow> fl s1 l; Some (y, s2) })
      = Some (x, s') \<and> valid s' \<and> bits s' = rest"
    using s1 f [OF t(1)] s(2) by simp
qed

end

section \<open>What an encoder needs of its stream\<close>

text \<open>
  Writing needs room in the buffer: \<open>room s\<close> is the number of bits that are sure to be accepted, and an
  operation that emits \<open>bs\<close> takes at most that many away from it.
\<close>

definition emits ::
  "('s \<Rightarrow> bool) \<Rightarrow> ('s \<Rightarrow> bool list) \<Rightarrow> ('s \<Rightarrow> nat) \<Rightarrow> ('s \<Rightarrow> ('e \<times> 's) option) \<Rightarrow> 'e \<Rightarrow> bool list \<Rightarrow> bool"
  where
  "emits valid bits room p ok bs \<longleftrightarrow>
     (\<forall>s. valid s \<longrightarrow> length bs \<le> room s \<longrightarrow>
       (\<exists>s'. p s = Some (ok, s') \<and> valid s' \<and> bits s' = bits s @ bs \<and> room s \<le> room s' + length bs))"

lemma emitsI:
  "(\<And>s. valid s \<Longrightarrow> length bs \<le> room s \<Longrightarrow>
       \<exists>s'. p s = Some (ok, s') \<and> valid s' \<and> bits s' = bits s @ bs \<and> room s \<le> room s' + length bs)
     \<Longrightarrow> emits valid bits room p ok bs"
  by (simp add: emits_def)

lemma emitsE:
  assumes "emits valid bits room p ok bs" and "valid s" and "length bs \<le> room s"
  obtains s' where "p s = Some (ok, s')" and "valid s'" and "bits s' = bits s @ bs"
    and "room s \<le> room s' + length bs"
  using assms by (auto simp: emits_def)

lemma emits_return [emit_intros]: "emits valid bits room (\<lambda>s. Some (ok, s)) ok []"
  by (simp add: emits_def)

lemma emits_seq [emit_intros]:
  assumes "emits valid bits room p ok bs" and "emits valid bits room (q ok) ok cs"
  shows "emits valid bits room (\<lambda>s. Option.bind (p s) (\<lambda>(e, t). q e t)) ok (bs @ cs)"
proof (rule emitsI)
  fix s assume s: "valid s" "length (bs @ cs) \<le> room s"
  then obtain s' where s': "p s = Some (ok, s')" "valid s'" "bits s' = bits s @ bs"
      "room s \<le> room s' + length bs"
    using emitsE [OF assms(1), of s] by auto
  have "length cs \<le> room s'" using s(2) s'(4) by simp
  then obtain s'' where "q ok s' = Some (ok, s'')" "valid s''" "bits s'' = bits s' @ cs"
      "room s' \<le> room s'' + length cs"
    using emitsE [OF assms(2) s'(2)] by metis
  then show "\<exists>s'. Option.bind (p s) (\<lambda>(e, t). q e t) = Some (ok, s') \<and> valid s'
      \<and> bits s' = bits s @ bs @ cs \<and> room s \<le> room s' + length (bs @ cs)"
    using s' by auto
qed

lemma emits_cong: "(\<And>s. p s = q s) \<Longrightarrow> emits valid bits room p ok bs = emits valid bits room q ok bs"
  by (simp add: emits_def)

locale bit_sink =
  fixes valid :: "'s \<Rightarrow> bool"
    and bits :: "'s \<Rightarrow> bool list"
    and room :: "'s \<Rightarrow> nat"
    and ok :: "'e"
    and wr :: "'s \<Rightarrow> int \<Rightarrow> uint \<Rightarrow> ('e \<times> 's) option"
  assumes wr_law: "valid s \<Longrightarrow> 1 \<le> n \<Longrightarrow> n \<le> 31 \<Longrightarrow> unat code < 2 ^ n \<Longrightarrow> n \<le> room s \<Longrightarrow>
      \<exists>s'. wr s (int n) code = Some (ok, s') \<and> valid s' \<and> bits s' = bits s @ nat_bits n (unat code)
         \<and> room s \<le> room s' + n"
begin

lemma emits_wr:
  assumes "1 \<le> n" and "n \<le> 31" and "unat code < 2 ^ n"
  shows "emits valid bits room (\<lambda>s. wr s (int n) code) ok (nat_bits n (unat code))"
  by (rule emitsI) (use wr_law [OF _ assms] in auto)

lemma emits_wr_bits:
  assumes "length bs = n" and "1 \<le> n" and "n \<le> 31"
  shows "emits valid bits room (\<lambda>s. wr s (int n) (bits_word bs)) ok bs"
proof -
  have less: "bits_val bs < 2 ^ n" using bits_val_less [of bs] assms(1) by simp
  have "(2::nat) ^ n \<le> 2 ^ 31" using assms(3) by (rule power_increasing) simp
  then have "unat (bits_word bs) = bits_val bs"
    using less by (simp add: bits_word_def unat_of_nat take_bit_eq_mod)
  then show ?thesis
    using emits_wr [OF assms(2,3), of "bits_word bs"] less nat_bits_bits_val [of bs] assms(1)
    by simp
qed

end

end
