(* ===== verification/DecBitstream.thy ===== *)
theory DecBitstream
  imports BitIO
begin

text \<open>
  The decoder's bitstream reader, \<open>codecs_v2/video/avc_h264/dec/src/avc_bitstream.cpp\<close>: a byte
  buffer read four bytes at a time into a two-word cache (\<open>curr_word\<close> with \<open>incnt\<close> valid bits,
  \<open>next_word\<close> with \<open>incnt_next\<close>). The operations are translated with their shifts, and \<open>None\<close>
  marks a shift C leaves undefined (by a negative amount or by 32) or a byte read outside the
  buffer. \<open>dec_bits\<close> is the abstract value of a stream, the bits that are still to be read, and the
  refinement lemmas state every operation on it.
\<close>

record AVCDecBitstream =
  bitstreamBuffer :: "uint8 list"
  nal_size :: int
  data_end_pos :: int
  read_pos :: int
  curr_word :: uint
  next_word :: uint
  incnt :: int
  incnt_next :: int
  bitcnt :: int

section \<open>Checked shifts\<close>

definition shr32 :: "uint \<Rightarrow> int \<Rightarrow> uint option" where
  "shr32 w k = (if 0 \<le> k \<and> k < 32 then Some (drop_bit (nat k) w) else None)"

definition shl32 :: "uint \<Rightarrow> int \<Rightarrow> uint option" where
  "shl32 w k = (if 0 \<le> k \<and> k < 32 then Some (push_bit (nat k) w) else None)"

lemma shr32_Some [simp]: "0 \<le> k \<Longrightarrow> k < 32 \<Longrightarrow> shr32 w k = Some (drop_bit (nat k) w)"
  by (simp add: shr32_def)

lemma shl32_Some [simp]: "0 \<le> k \<Longrightarrow> k < 32 \<Longrightarrow> shl32 w k = Some (push_bit (nat k) w)"
  by (simp add: shl32_def)

section \<open>The operations\<close>

definition trailing_bits :: "uint list" where
  "trailing_bits = [0, 0x1, 0x2, 0x4, 0x8, 0x10, 0x20, 0x40, 0x80]"

text \<open>The macro \<open>BitstreamFlushBits\<close>.\<close>

definition BitstreamFlushBits :: "AVCDecBitstream \<Rightarrow> int \<Rightarrow> AVCDecBitstream option" where
  "BitstreamFlushBits s n =
     do { w \<leftarrow> shl32 (curr_word s) n;
          Some (s\<lparr>bitcnt := bitcnt s + n, incnt := incnt s - n, curr_word := w\<rparr>) }"

text \<open>The loop that gathers the last one to three bytes of the buffer into a word.\<close>

fun gather_tail :: "uint8 list \<Rightarrow> int \<Rightarrow> nat \<Rightarrow> uint option" where
  "gather_tail buf pos 0 = Some 0"
| "gather_tail buf pos (Suc i) =
     do { w \<leftarrow> gather_tail buf pos i;
          b \<leftarrow> nth_opt buf (pos + int i);
          t \<leftarrow> shl32 (ucast b) ((3 - int i) * 8);
          Some (w OR t) }"

definition AVC_BitstreamFillCache :: "AVCDecBitstream \<Rightarrow> AVCDecBitstream option" where
  "AVC_BitstreamFillCache s =
     do { t \<leftarrow> shr32 (next_word s) (incnt s);
          let cw = curr_word s OR t;
          nw1 \<leftarrow> shl32 (next_word s) (31 - incnt s);
          let nw = push_bit 1 nw1;
          let num_bits = incnt_next s + incnt s;
          if num_bits \<ge> 32 then
            Some (s\<lparr>curr_word := cw, next_word := nw,
                    incnt_next := incnt_next s - (32 - incnt s), incnt := 32\<rparr>)
          else if read_pos s > data_end_pos s - 4 then
            if data_end_pos s \<le> read_pos s then
              Some (s\<lparr>curr_word := cw, next_word := nw, incnt := num_bits, incnt_next := 0\<rparr>)
            else
              do { let i = data_end_pos s - read_pos s;
                   w \<leftarrow> gather_tail (bitstreamBuffer s) (read_pos s) (nat i);
                   u \<leftarrow> shr32 w num_bits;
                   nw2 \<leftarrow> shl32 w (31 - num_bits);
                   let nb = i * 8;
                   let ic = incnt s + incnt_next s;
                   let icn = nb - (32 - ic);
                   let s' = s\<lparr>curr_word := cw OR u, next_word := push_bit 1 nw2,
                              read_pos := data_end_pos s\<rparr>;
                   if icn < 0 then Some (s'\<lparr>incnt := ic + nb, incnt_next := 0\<rparr>)
                   else Some (s'\<lparr>incnt := 32, incnt_next := icn\<rparr>) }
          else
            do { b0 \<leftarrow> nth_opt (bitstreamBuffer s) (read_pos s);
                 b1 \<leftarrow> nth_opt (bitstreamBuffer s) (read_pos s + 1);
                 b2 \<leftarrow> nth_opt (bitstreamBuffer s) (read_pos s + 2);
                 b3 \<leftarrow> nth_opt (bitstreamBuffer s) (read_pos s + 3);
                 let w = be_word b0 b1 b2 b3;
                 u \<leftarrow> shr32 w num_bits;
                 nw2 \<leftarrow> shl32 w (31 - num_bits);
                 Some (s\<lparr>curr_word := cw OR u, next_word := push_bit 1 nw2,
                         read_pos := read_pos s + 4,
                         incnt_next := incnt_next s + incnt s, incnt := 32\<rparr>) } }"

definition BitstreamShowBits :: "AVCDecBitstream \<Rightarrow> int \<Rightarrow> (uint \<times> AVCDecBitstream) option" where
  "BitstreamShowBits s nBits =
     do { s' \<leftarrow> (if incnt s < nBits then AVC_BitstreamFillCache s else Some s);
          code \<leftarrow> shr32 (curr_word s') (32 - nBits);
          Some (code, s') }"

definition BitstreamReadBits :: "AVCDecBitstream \<Rightarrow> int \<Rightarrow> (uint \<times> AVCDecBitstream) option" where
  "BitstreamReadBits s nBits =
     do { s' \<leftarrow> (if incnt s < nBits then AVC_BitstreamFillCache s else Some s);
          code \<leftarrow> shr32 (curr_word s') (32 - nBits);
          s'' \<leftarrow> BitstreamFlushBits s' nBits;
          Some (code, s'') }"

definition BitstreamRead1Bit :: "AVCDecBitstream \<Rightarrow> (uint \<times> AVCDecBitstream) option" where
  "BitstreamRead1Bit s =
     do { s' \<leftarrow> (if incnt s < 1 then AVC_BitstreamFillCache s else Some s);
          code \<leftarrow> shr32 (curr_word s') 31;
          s'' \<leftarrow> BitstreamFlushBits s' 1;
          Some (code, s'') }"

definition BitstreamByteAlign :: "AVCDecBitstream \<Rightarrow> AVCDecBitstream option" where
  "BitstreamByteAlign s =
     do { let n_stuffed = (8 - bitcnt s mod 8) mod 8;
          let bc = bitcnt s + n_stuffed;
          let ic = incnt s - n_stuffed;
          w \<leftarrow> shl32 (curr_word s) n_stuffed;
          Some (if ic < 0 then s\<lparr>bitcnt := bc + ic, incnt := 0, curr_word := w\<rparr>
                else s\<lparr>bitcnt := bc, incnt := ic, curr_word := w\<rparr>) }"

definition more_rbsp_data :: "AVCDecBitstream \<Rightarrow> (bool \<times> AVCDecBitstream) option" where
  "more_rbsp_data s =
     (if read_pos s \<ge> nal_size s then
        let total_bit_left = incnt_next s + incnt s in
        if total_bit_left \<le> 0 then Some (False, s)
        else if total_bit_left \<le> 8 then
          do { (code, s') \<leftarrow> BitstreamShowBits s total_bit_left;
               t \<leftarrow> nth_opt trailing_bits total_bit_left;
               Some (code \<noteq> t, s') }
        else Some (True, s)
      else Some (True, s))"

section \<open>Invariant and abstract value\<close>

definition unread_bytes :: "AVCDecBitstream \<Rightarrow> uint8 list" where
  "unread_bytes s = take (nat (data_end_pos s - read_pos s)) (drop (nat (read_pos s)) (bitstreamBuffer s))"

definition dec_bits :: "AVCDecBitstream \<Rightarrow> bool list" where
  "dec_bits s = word_bits (curr_word s) (nat (incnt s)) @ word_bits (next_word s) (nat (incnt_next s))
     @ bytes_bits (unread_bytes s)"

definition dec_inv :: "AVCDecBitstream \<Rightarrow> bool" where
  "dec_inv s \<longleftrightarrow> 0 \<le> incnt s \<and> incnt s \<le> 32 \<and> 0 \<le> incnt_next s \<and> incnt_next s < 32
     \<and> top_only (curr_word s) (nat (incnt s)) \<and> top_only (next_word s) (nat (incnt_next s))
     \<and> 0 \<le> read_pos s \<and> read_pos s \<le> data_end_pos s
     \<and> data_end_pos s \<le> int (length (bitstreamBuffer s)) \<and> nal_size s = data_end_pos s"

lemma length_unread: "dec_inv s \<Longrightarrow> length (unread_bytes s) = nat (data_end_pos s - read_pos s)"
  by (auto simp: unread_bytes_def dec_inv_def)

lemma length_dec_bits:
  "dec_inv s \<Longrightarrow>
   int (length (dec_bits s)) = incnt s + incnt_next s + 8 * (data_end_pos s - read_pos s)"
  by (simp add: dec_bits_def length_unread) (simp add: dec_inv_def)

section \<open>The cache refill\<close>

lemma gather_tail_spec:
  assumes "n \<le> 3" and "0 \<le> pos" and "pos + int n \<le> int (length buf)"
  shows "\<exists>w. gather_tail buf pos n = Some w \<and> top_only w (8 * n)
           \<and> word_bits w (8 * n) = bytes_bits (take n (drop (nat pos) buf))"
  using assms
proof (induction n)
  case 0
  then show ?case by simp
next
  case (Suc n)
  then obtain w where w: "gather_tail buf pos n = Some w" "top_only w (8 * n)"
      "word_bits w (8 * n) = bytes_bits (take n (drop (nat pos) buf))"
    by auto
  let ?b = "buf ! nat (pos + int n)"
  let ?t = "push_bit (nat ((3 - int n) * 8)) (ucast ?b :: uint)"
  have pos: "nat (pos + int n) = nat pos + n" using Suc.prems by simp
  have k: "nat ((3 - int n) * 8) = 24 - 8 * n" using Suc.prems by simp
  have t: "?t = drop_bit (8 * n) (push_bit 24 (ucast ?b))"
    unfolding k by (rule bit_word_eqI)
      (use Suc.prems in \<open>auto simp: bit_push_bit_iff bit_drop_bit_eq bit_ucast_iff
         add.commute dest: bit_imp_le_length\<close>)
  have byte: "word_bits (push_bit 24 (ucast ?b)) 8 = byte_bits ?b"
    by (simp add: word_bits_def byte_bits_def upt8 bit_push_bit_iff bit_ucast_iff)
  have top: "top_only (push_bit 24 (ucast ?b) :: uint) 8"
    by (simp add: top_only_iff bit_push_bit_iff)
  have "word_bits (w OR ?t) (8 * Suc n) = word_bits w (8 * n) @ byte_bits ?b"
    using word_bits_or_drop [OF w(2), of "8 * Suc n" "push_bit 24 (ucast ?b)"] Suc.prems byte
    unfolding t by simp
  moreover have "take (Suc n) (drop (nat pos) buf) = take n (drop (nat pos) buf) @ [?b]"
    using Suc.prems pos by (simp add: take_Suc_conv_app_nth)
  moreover have "top_only (w OR ?t) (8 * Suc n)"
    unfolding t by (rule top_only_or_drop [OF w(2) top]) simp
  ultimately show ?case
    using Suc.prems w(1,3) by (simp del: take_drop)
qed

lemma word_bits_split: "n \<le> m \<Longrightarrow> m \<le> 32 \<Longrightarrow> word_bits w m = word_bits w n @ word_bits (push_bit n w) (m - n)"
  by (metis append_take_drop_id le_add_diff_inverse2 take_word_bits word_bits_push)

text \<open>
  The core step of a refill: a word \<open>v\<close> of \<open>m\<close> valid bits is poured behind the \<open>n\<close> valid bits of
  \<open>c\<close>; what does not fit stays in the shifted \<open>v\<close>.
\<close>

lemma pour:
  assumes "top_only c n" and "top_only v m" and "n < 32" and "m \<le> 32"
  shows "word_bits (c OR drop_bit n v) (min 32 (n + m)) @ word_bits (push_bit (32 - n) v) (n + m - 32)
           = word_bits c n @ word_bits v m"
    and "top_only (c OR drop_bit n v) (min 32 (n + m))"
    and "top_only (push_bit (32 - n) v) (n + m - 32)"
proof -
  show "word_bits (c OR drop_bit n v) (min 32 (n + m)) @ word_bits (push_bit (32 - n) v) (n + m - 32)
           = word_bits c n @ word_bits v m"
  proof (cases "n + m \<le> 32")
    case True
    then show ?thesis using word_bits_or_drop [OF assms(1), of "n + m" v] by simp
  next
    case False
    then show ?thesis
      using word_bits_or_drop [OF assms(1), of 32 v] word_bits_split [of "32 - n" m v] assms(3,4)
      by (simp add: add.commute)
  qed
  show "top_only (c OR drop_bit n v) (min 32 (n + m))"
    by (cases "n + m \<le> 32") (use top_only_or_drop [OF assms(1,2)] in \<open>simp_all add: min_def\<close>)
  show "top_only (push_bit (32 - n) v) (n + m - 32)"
    using assms(2-4) by (auto simp: top_only_iff bit_push_bit_iff)
qed

lemma fill_finish:
  assumes inv: "dec_inv s" "incnt s < 32"
    and v: "top_only v m" "m \<le> 32" "word_bits v m @ rest = word_bits (next_word s) (nat (incnt_next s)) @ bs"
    and n: "n = nat (incnt s)"
  shows "word_bits (curr_word s OR drop_bit n v) (min 32 (n + m))
           @ word_bits (push_bit (32 - n) v) (n + m - 32) @ rest
         = word_bits (curr_word s) n @ word_bits (next_word s) (nat (incnt_next s)) @ bs"
proof -
  have "top_only (curr_word s) n" "n < 32" using inv n by (auto simp: dec_inv_def)
  from pour(1) [OF this(1) v(1) this(2) v(2)] v(3) show ?thesis by (metis append.assoc)
qed

lemma push_bit_step:
  assumes "k < 32"
  shows "push_bit (31 - k) w * 2 = push_bit (32 - k) (w :: uint)"
proof -
  have "32 - k = Suc (31 - k)" using assms by simp
  then show ?thesis by (simp only: push_bit_eq_mult power_Suc ac_simps)
qed

definition same_frame :: "AVCDecBitstream \<Rightarrow> AVCDecBitstream \<Rightarrow> bool" where
  "same_frame s s' \<longleftrightarrow> bitstreamBuffer s' = bitstreamBuffer s \<and> nal_size s' = nal_size s
     \<and> data_end_pos s' = data_end_pos s"

text \<open>
  The refill keeps the invariant and the abstract value, and leaves all 32 bits of \<open>curr_word\<close>
  valid unless the stream has fewer bits left. Each case of the code is a separate lemma.
\<close>

lemma fill_cache_next:
  assumes inv: "dec_inv s" and lt: "incnt s < 32" and enough: "incnt_next s + incnt s \<ge> 32"
  shows "\<exists>s'. AVC_BitstreamFillCache s = Some s' \<and> dec_inv s' \<and> dec_bits s' = dec_bits s
           \<and> incnt s' = 32 \<and> bitcnt s' = bitcnt s \<and> same_frame s s'"
proof -
  define n m where "n = nat (incnt s)" and "m = nat (incnt_next s)"
  have ic: "incnt s = int n" "incnt_next s = int m" "n < 32" "m < 32" "32 \<le> n + m"
    using inv lt enough by (auto simp: n_def m_def dec_inv_def)
  have tops: "top_only (curr_word s) n" "top_only (next_word s) m"
    using inv by (auto simp: dec_inv_def n_def m_def)
  note p = pour [OF tops ic(3), simplified]
  let ?s' = "s\<lparr>curr_word := curr_word s OR drop_bit n (next_word s),
    next_word := push_bit (32 - n) (next_word s), incnt_next := int m - (32 - int n), incnt := 32\<rparr>"
  have "AVC_BitstreamFillCache s = Some ?s'"
    using ic by (simp add: AVC_BitstreamFillCache_def push_bit_step nat_diff_distrib)
  moreover have mn: "nat (int m - (32 - int n)) = n + m - 32" using ic by simp
  moreover have "dec_bits ?s' = dec_bits s"
    using p(1) ic unfolding dec_bits_def unread_bytes_def by (simp add: mn)
  moreover have "dec_inv ?s'"
    using inv p(3) ic by (simp add: dec_inv_def mn)
  ultimately show ?thesis by (intro exI [of _ ?s']) (simp add: same_frame_def)
qed

lemma fill_cache_empty:
  assumes inv: "dec_inv s" and lt: "incnt s < 32" and few: "incnt_next s + incnt s < 32"
    and at_end: "data_end_pos s \<le> read_pos s"
  shows "\<exists>s'. AVC_BitstreamFillCache s = Some s' \<and> dec_inv s' \<and> dec_bits s' = dec_bits s
           \<and> incnt s' = incnt s + incnt_next s \<and> bitcnt s' = bitcnt s \<and> same_frame s s'"
proof -
  define n m where "n = nat (incnt s)" and "m = nat (incnt_next s)"
  have ic: "incnt s = int n" "incnt_next s = int m" "n < 32" "m < 32" "n + m < 32"
    using inv lt few by (auto simp: n_def m_def dec_inv_def)
  have tops: "top_only (curr_word s) n" "top_only (next_word s) m"
    using inv by (auto simp: dec_inv_def n_def m_def)
  note p = pour [OF tops ic(3)]
  let ?s' = "s\<lparr>curr_word := curr_word s OR drop_bit n (next_word s),
    next_word := push_bit (32 - n) (next_word s), incnt := int m + int n, incnt_next := 0\<rparr>"
  have "AVC_BitstreamFillCache s = Some ?s'"
    using ic at_end by (simp add: AVC_BitstreamFillCache_def push_bit_step nat_diff_distrib)
  moreover have mn: "nat (int m + int n) = n + m" by simp
  moreover have "dec_bits ?s' = dec_bits s"
    using p(1) ic unfolding dec_bits_def unread_bytes_def by (simp add: mn)
  moreover have "dec_inv ?s'"
    using inv p(2,3) ic by (simp add: dec_inv_def mn)
  ultimately show ?thesis using ic by (intro exI [of _ ?s']) (simp add: same_frame_def)
qed

text \<open>Two pours in a row, the second of freshly read bytes.\<close>

lemma pour_twice:
  assumes c: "top_only c n" and x: "top_only x m" and v: "top_only v k"
    and sz: "n < 32" "n + m < 32" "k \<le> 32"
  defines "c' \<equiv> (c OR drop_bit n x) OR drop_bit (n + m) v"
  shows "word_bits c' (min 32 (n + m + k)) @ word_bits (push_bit (32 - (n + m)) v) (n + m + k - 32)
           = word_bits c n @ word_bits x m @ word_bits v k"
    and "top_only c' (min 32 (n + m + k))"
    and "top_only (push_bit (32 - (n + m)) v) (n + m + k - 32)"
proof -
  have m32: "m \<le> 32" using sz by simp
  have top1: "top_only (c OR drop_bit n x) (n + m)"
    by (rule top_only_or_drop [OF c x]) simp
  have bits1: "word_bits (c OR drop_bit n x) (n + m) = word_bits c n @ word_bits x m"
    using word_bits_or_drop [OF c, of "n + m" x] sz by simp
  note p = pour [OF top1 v sz(2,3)]
  show "word_bits c' (min 32 (n + m + k)) @ word_bits (push_bit (32 - (n + m)) v) (n + m + k - 32)
           = word_bits c n @ word_bits x m @ word_bits v k"
    using p(1) bits1 by (simp add: c'_def)
  show "top_only c' (min 32 (n + m + k))" using p(2) by (simp add: c'_def)
  show "top_only (push_bit (32 - (n + m)) v) (n + m + k - 32)" by (rule p(3))
qed

lemma fill_cache_tail:
  assumes inv: "dec_inv s" and lt: "incnt s < 32" and few: "incnt_next s + incnt s < 32"
    and tail: "read_pos s > data_end_pos s - 4" "read_pos s < data_end_pos s"
  shows "\<exists>s'. AVC_BitstreamFillCache s = Some s' \<and> dec_inv s' \<and> dec_bits s' = dec_bits s
           \<and> incnt s' = min 32 (int (length (dec_bits s))) \<and> bitcnt s' = bitcnt s \<and> same_frame s s'"
proof -
  define n m i where "n = nat (incnt s)" and "m = nat (incnt_next s)"
    and "i = nat (data_end_pos s - read_pos s)"
  have ic: "incnt s = int n" "incnt_next s = int m" "n < 32" "m < 32" "n + m < 32"
    using inv lt few by (auto simp: n_def m_def dec_inv_def)
  have i: "data_end_pos s - read_pos s = int i" "data_end_pos s = read_pos s + int i" "1 \<le> i" "i \<le> 3"
    using tail by (auto simp: i_def)
  have pos: "0 \<le> read_pos s" "read_pos s + int i \<le> int (length (bitstreamBuffer s))"
    using inv i(2) by (auto simp: dec_inv_def)
  obtain w where w: "gather_tail (bitstreamBuffer s) (read_pos s) i = Some w" "top_only w (8 * i)"
      "word_bits w (8 * i) = bytes_bits (unread_bytes s)"
    using gather_tail_spec [OF i(4) pos] by (auto simp: unread_bytes_def i_def)
  have tops: "top_only (curr_word s) n" "top_only (next_word s) m"
    using inv by (auto simp: dec_inv_def n_def m_def)
  have i8: "8 * i \<le> 32" using i by simp
  note p = pour_twice [OF tops w(2) ic(3,5) i8]
  let ?c = "(curr_word s OR drop_bit n (next_word s)) OR drop_bit (n + m) w"
  let ?s' = "s\<lparr>curr_word := ?c, next_word := push_bit (32 - (n + m)) w, read_pos := data_end_pos s,
    incnt := int (min 32 (n + m + 8 * i)), incnt_next := int (n + m + 8 * i - 32)\<rparr>"
  have nm: "nat (int m + int n) = n + m" "nat (31 - (int m + int n)) = 31 - (n + m)"
    "nat (31 - int n) = 31 - n" by simp_all
  have step: "push_bit (31 - (n + m)) w * 2 = push_bit (32 - (n + m)) w"
    using ic by (intro push_bit_step) simp
  have "AVC_BitstreamFillCache s = Some ?s'"
    using ic tail i w(1)
    by (simp add: AVC_BitstreamFillCache_def nm step min_def) (simp add: Let_def mult.commute)
  moreover have "dec_bits ?s' = dec_bits s"
    using p(1) w(3) by (simp add: dec_bits_def unread_bytes_def ic)
  moreover have "dec_inv ?s'"
    using inv p(2,3) ic i by (simp add: dec_inv_def)
  moreover have "int (length (dec_bits s)) = int (n + m + 8 * i)"
    using length_dec_bits [OF inv] ic i by simp
  ultimately show ?thesis by (intro exI [of _ ?s']) (simp add: same_frame_def)
qed

lemma fill_cache_word:
  assumes inv: "dec_inv s" and lt: "incnt s < 32" and few: "incnt_next s + incnt s < 32"
    and full: "read_pos s \<le> data_end_pos s - 4"
  shows "\<exists>s'. AVC_BitstreamFillCache s = Some s' \<and> dec_inv s' \<and> dec_bits s' = dec_bits s
           \<and> incnt s' = 32 \<and> bitcnt s' = bitcnt s \<and> same_frame s s'"
proof -
  define n m r where "n = nat (incnt s)" and "m = nat (incnt_next s)" and "r = nat (read_pos s)"
  have ic: "incnt s = int n" "incnt_next s = int m" "n < 32" "m < 32" "n + m < 32"
    using inv lt few by (auto simp: n_def m_def dec_inv_def)
  have pos: "read_pos s = int r" "r + 4 \<le> length (bitstreamBuffer s)" "r + 4 \<le> nat (data_end_pos s)"
    "data_end_pos s \<le> int (length (bitstreamBuffer s))"
    using inv full by (auto simp: dec_inv_def r_def)
  let ?b = "bitstreamBuffer s"
  let ?w = "be_word (?b ! r) (?b ! (r + 1)) (?b ! (r + 2)) (?b ! (r + 3))"
  have tops: "top_only (curr_word s) n" "top_only (next_word s) m"
    using inv by (auto simp: dec_inv_def n_def m_def)
  have "32 \<le> (32::nat)" by simp
  note p = pour_twice [OF tops top_only_full [of ?w] ic(3,5) this]
  let ?c = "(curr_word s OR drop_bit n (next_word s)) OR drop_bit (n + m) ?w"
  let ?s' = "s\<lparr>curr_word := ?c, next_word := push_bit (32 - (n + m)) ?w, read_pos := read_pos s + 4,
    incnt_next := incnt_next s + incnt s, incnt := 32\<rparr>"
  have unread: "unread_bytes s = [?b ! r, ?b ! (r + 1), ?b ! (r + 2), ?b ! (r + 3)] @ unread_bytes ?s'"
  proof -
    have d: "drop r ?b = ?b ! r # ?b ! (r + 1) # ?b ! (r + 2) # ?b ! (r + 3) # drop (r + 4) ?b"
      using pos(2) by (simp add: Cons_nth_drop_Suc numeral_eq_Suc)
    have "nat (data_end_pos s - int r) = Suc (Suc (Suc (Suc (nat (data_end_pos s - (int r + 4))))))"
      using pos by simp
    then show ?thesis by (simp add: unread_bytes_def pos(1) d nat_add_distrib)
  qed
  have nm: "nat (int m + int n) = n + m" "nat (31 - (int m + int n)) = 31 - (n + m)"
    "nat (31 - int n) = 31 - n" "nat (int r + 1) = r + 1" "nat (int r + 2) = r + 2" "nat (int r + 3) = r + 3"
    by simp_all
  have step: "push_bit (31 - (n + m)) v * 2 = push_bit (32 - (n + m)) v" for v :: uint
    using ic by (intro push_bit_step) simp
  have "AVC_BitstreamFillCache s = Some ?s'"
    using ic pos full
    by (simp add: AVC_BitstreamFillCache_def nm) (simp only: Let_def step)
  moreover have "dec_bits ?s' = dec_bits s"
    using p(1) by (simp add: dec_bits_def ic unread word_bits_be_word nm(1) add.commute [of "int n"])
  moreover have "dec_inv ?s'"
    using inv p(3) ic full by (simp add: dec_inv_def nm(1) add.commute [of "int n"])
  ultimately show ?thesis by (intro exI [of _ ?s']) (simp add: same_frame_def)
qed

lemma fill_cache_spec:
  assumes inv: "dec_inv s" and lt: "incnt s < 32"
  shows "\<exists>s'. AVC_BitstreamFillCache s = Some s' \<and> dec_inv s' \<and> dec_bits s' = dec_bits s
           \<and> incnt s' = min 32 (int (length (dec_bits s))) \<and> bitcnt s' = bitcnt s \<and> same_frame s s'"
proof -
  have len: "int (length (dec_bits s)) = incnt s + incnt_next s + 8 * (data_end_pos s - read_pos s)"
    by (rule length_dec_bits [OF inv])
  have le: "read_pos s \<le> data_end_pos s" using inv by (simp add: dec_inv_def)
  consider "incnt_next s + incnt s \<ge> 32"
    | "incnt_next s + incnt s < 32" "data_end_pos s \<le> read_pos s"
    | "incnt_next s + incnt s < 32" "read_pos s > data_end_pos s - 4" "read_pos s < data_end_pos s"
    | "incnt_next s + incnt s < 32" "read_pos s \<le> data_end_pos s - 4"
    by linarith
  then show ?thesis
  proof cases
    case 1
    then have "min 32 (int (length (dec_bits s))) = 32" using len le by simp
    then show ?thesis using fill_cache_next [OF inv lt 1] by simp
  next
    case 2
    then have "min 32 (int (length (dec_bits s))) = incnt s + incnt_next s" using len le by simp
    then show ?thesis using fill_cache_empty [OF inv lt 2] by simp
  next
    case 3
    then show ?thesis by (rule fill_cache_tail [OF inv lt])
  next
    case 4
    have "0 \<le> incnt s" "0 \<le> incnt_next s" using inv by (simp_all add: dec_inv_def)
    then have "min 32 (int (length (dec_bits s))) = 32" using len 4 by simp
    then show ?thesis using fill_cache_word [OF inv lt 4] by simp
  qed
qed

section \<open>Refinement of the reading operations\<close>

lemma cached_code:
  assumes "dec_inv s" and "n \<le> 32"
    and "int n \<le> incnt s \<or> incnt s = int (length (dec_bits s))"
  shows "drop_bit (32 - n) (curr_word s) = bits_word (take n (dec_bits s @ replicate n False))"
proof -
  define c where "c = nat (incnt s)"
  have c: "c \<le> 32" "top_only (curr_word s) c" "incnt s = int c" using assms(1) by (auto simp: dec_inv_def c_def)
  have "word_bits (curr_word s) n = take n (dec_bits s @ replicate n False)"
  proof (cases "n \<le> c")
    case True
    then show ?thesis by (simp add: dec_bits_def take_word_bits flip: c_def)
  next
    case False
    then have "int (length (dec_bits s)) = int c" using assms(3) c(3) by simp
    moreover have "dec_bits s = word_bits (curr_word s) c @ word_bits (next_word s) (nat (incnt_next s))
        @ bytes_bits (unread_bytes s)"
      by (simp add: dec_bits_def c_def)
    ultimately have "dec_bits s = word_bits (curr_word s) c"
      by (metis append.right_neutral append_eq_conv_conj length_append length_word_bits
          of_nat_eq_iff take_all_iff take_append order_refl)
    moreover have "word_bits (curr_word s) n = word_bits (curr_word s) c @ replicate (n - c) False"
      using False assms(2) top_only_bit [OF c(2)]
      by (intro nth_equalityI) (auto simp: nth_append)
    ultimately show ?thesis using False by simp
  qed
  then show ?thesis using drop_bit_word_bits [OF assms(2)] by metis
qed

lemma ensure_spec:
  assumes inv: "dec_inv s" and n: "n \<le> 32"
  shows "\<exists>s'. (if incnt s < int n then AVC_BitstreamFillCache s else Some s) = Some s'
     \<and> dec_inv s' \<and> dec_bits s' = dec_bits s \<and> bitcnt s' = bitcnt s \<and> same_frame s s'
     \<and> (int n \<le> incnt s' \<or> incnt s' = int (length (dec_bits s)))"
proof (cases "incnt s < int n")
  case True
  then have "incnt s < 32" using n by simp
  from fill_cache_spec [OF inv this] show ?thesis using True n by auto
next
  case False
  then show ?thesis using inv by (simp add: same_frame_def)
qed

lemma flush_spec:
  assumes inv: "dec_inv s" and n: "n \<le> 31" "int n \<le> incnt s"
  shows "\<exists>s'. BitstreamFlushBits s (int n) = Some s' \<and> dec_inv s' \<and> dec_bits s' = drop n (dec_bits s)
     \<and> bitcnt s' = bitcnt s + int n \<and> incnt s' = incnt s - int n \<and> same_frame s s'"
proof -
  define c where "c = nat (incnt s)"
  have c: "c \<le> 32" "top_only (curr_word s) c" "incnt s = int c" "n \<le> c"
    using inv n by (auto simp: dec_inv_def c_def)
  let ?s' = "s\<lparr>bitcnt := bitcnt s + int n, incnt := incnt s - int n, curr_word := push_bit n (curr_word s)\<rparr>"
  have k: "nat (int c - int n) = c - n" using c by simp
  have "BitstreamFlushBits s (int n) = Some ?s'" using n by (simp add: BitstreamFlushBits_def)
  moreover have "dec_bits ?s' = drop n (dec_bits s)"
    using c word_bits_push [of "c - n" n] by (simp add: dec_bits_def unread_bytes_def k)
  moreover have "dec_inv ?s'"
    using inv c top_only_push [OF c(2) c(4) c(1)] by (simp add: dec_inv_def k)
  ultimately show ?thesis by (auto simp: same_frame_def)
qed

lemma show_spec:
  assumes "dec_inv s" and "1 \<le> n" and "n \<le> 32"
  shows "\<exists>s'. BitstreamShowBits s (int n) = Some (bits_word (take n (dec_bits s @ replicate n False)), s')
     \<and> dec_inv s' \<and> dec_bits s' = dec_bits s \<and> bitcnt s' = bitcnt s \<and> same_frame s s'
     \<and> (int n \<le> incnt s' \<or> incnt s' = int (length (dec_bits s)))"
proof -
  obtain s' where s': "(if incnt s < int n then AVC_BitstreamFillCache s else Some s) = Some s'"
      "dec_inv s'" "dec_bits s' = dec_bits s" "bitcnt s' = bitcnt s" "same_frame s s'"
      "int n \<le> incnt s' \<or> incnt s' = int (length (dec_bits s))"
    using ensure_spec [OF assms(1,3)] by blast
  have "nat (32 - int n) = 32 - n" by simp
  then have "BitstreamShowBits s (int n) = Some (bits_word (take n (dec_bits s @ replicate n False)), s')"
    using s' assms(2,3) cached_code [OF s'(2) assms(3)] by (simp add: BitstreamShowBits_def)
  then show ?thesis using s' by auto
qed

lemma read_spec:
  assumes "dec_inv s" and "1 \<le> n" and "n \<le> 31" and "n \<le> length (dec_bits s)"
  shows "\<exists>s'. BitstreamReadBits s (int n) = Some (bits_word (take n (dec_bits s)), s')
     \<and> dec_inv s' \<and> dec_bits s' = drop n (dec_bits s) \<and> bitcnt s' = bitcnt s + int n \<and> same_frame s s'"
proof -
  have n32: "n \<le> 32" using assms(3) by simp
  obtain s' where s': "(if incnt s < int n then AVC_BitstreamFillCache s else Some s) = Some s'"
      "dec_inv s'" "dec_bits s' = dec_bits s" "bitcnt s' = bitcnt s" "same_frame s s'"
      "int n \<le> incnt s' \<or> incnt s' = int (length (dec_bits s))"
    using ensure_spec [OF assms(1) n32] by blast
  have "int n \<le> incnt s'" using s'(6) assms(4) by auto
  from flush_spec [OF s'(2) assms(3) this] obtain s'' where s'': "BitstreamFlushBits s' (int n) = Some s''"
      "dec_inv s''" "dec_bits s'' = drop n (dec_bits s')" "bitcnt s'' = bitcnt s' + int n" "same_frame s' s''"
    by blast
  have "nat (32 - int n) = 32 - n" by simp
  then have "BitstreamReadBits s (int n) = Some (bits_word (take n (dec_bits s)), s'')"
    using s' s'' assms cached_code [OF s'(2) n32] by (simp add: BitstreamReadBits_def)
  then show ?thesis using s' s'' by (auto simp: same_frame_def)
qed

lemma Read1Bit_ReadBits: "BitstreamRead1Bit s = BitstreamReadBits s 1"
  by (simp add: BitstreamRead1Bit_def BitstreamReadBits_def)

interpretation dec: bit_source dec_inv dec_bits "\<lambda>s. nat (incnt s)"
  BitstreamReadBits BitstreamShowBits BitstreamFlushBits
proof unfold_locales
  fix s and n :: nat
  assume *: "dec_inv s" "1 \<le> n"
  show "\<exists>s'. BitstreamReadBits s (int n) = Some (bits_word (take n (dec_bits s)), s')
      \<and> dec_inv s' \<and> dec_bits s' = drop n (dec_bits s)" if "n \<le> 31" "n \<le> length (dec_bits s)"
    using read_spec [OF * that] by blast
  show "\<exists>s'. BitstreamShowBits s (int n) = Some (bits_word (take n (dec_bits s @ replicate n False)), s')
      \<and> dec_inv s' \<and> dec_bits s' = dec_bits s \<and> min n (length (dec_bits s)) \<le> nat (incnt s')" if "n \<le> 32"
    using show_spec [OF * that] by (auto simp: min_def)
next
  fix s and n :: nat
  assume *: "dec_inv s" "n \<le> 31" "n \<le> nat (incnt s)"
  have "int n \<le> incnt s" using *(1,3) by (simp add: dec_inv_def le_nat_iff)
  then show "\<exists>s'. BitstreamFlushBits s (int n) = Some s' \<and> dec_inv s' \<and> dec_bits s' = drop n (dec_bits s)"
    using flush_spec [OF *(1,2)] by blast
qed

section \<open>Reading past the end\<close>

text \<open>
  The reader does not check that the bits it is asked for are there: it returns zeros, leaves
  \<open>incnt\<close> negative, and the next refill shifts by that negative amount.
\<close>

lemma read_past_end:
  assumes inv: "dec_inv s" and n: "1 \<le> n" "n \<le> 31" "length (dec_bits s) < n"
  shows "\<exists>s'. BitstreamReadBits s (int n) = Some (bits_word (take n (dec_bits s @ replicate n False)), s')
     \<and> incnt s' < 0"
proof -
  have n32: "n \<le> 32" using n by simp
  obtain s' where s': "(if incnt s < int n then AVC_BitstreamFillCache s else Some s) = Some s'"
      "dec_inv s'" "dec_bits s' = dec_bits s" "int n \<le> incnt s' \<or> incnt s' = int (length (dec_bits s))"
    using ensure_spec [OF inv n32] by blast
  have "incnt s' \<le> int (length (dec_bits s'))"
    using length_dec_bits [OF s'(2)] s'(2) by (simp add: dec_inv_def)
  then have ic: "incnt s' = int (length (dec_bits s))" using s'(3,4) n(3) by simp
  have "nat (32 - int n) = 32 - n" by simp
  then show ?thesis
    using s' n ic cached_code [OF s'(2) n32]
    by (simp add: BitstreamReadBits_def BitstreamFlushBits_def)
qed

lemma read_after_overrun: "incnt s < 0 \<Longrightarrow> 0 \<le> n \<Longrightarrow> BitstreamReadBits s n = None"
  by (simp add: BitstreamReadBits_def AVC_BitstreamFillCache_def shr32_def)

section \<open>More data, alignment\<close>

lemma trailing_bits_nth:
  assumes "1 \<le> k" and "k \<le> 8"
  shows "nth_opt trailing_bits (int k) = Some (bits_word (True # replicate (k - 1) False))"
proof -
  have "k \<in> {1, 2, 3, 4, 5, 6, 7, 8}" using assms by auto
  then show ?thesis by (auto simp: trailing_bits_def bits_word_def)
qed

lemma bits_word_inject:
  assumes "length bs = length cs" and "length bs \<le> 32"
  shows "bits_word bs = bits_word cs \<longleftrightarrow> bs = cs"
proof
  assume eq: "bits_word bs = bits_word cs"
  have "(2::nat) ^ length bs \<le> 2 ^ 32" using assms(2) by (rule power_increasing) simp
  then have "bits_val bs < 2 ^ 32" "bits_val cs < 2 ^ 32"
    using bits_val_less [of bs] bits_val_less [of cs] assms(1) by simp_all
  then have "bits_val bs = bits_val cs"
    using arg_cong [OF eq, of unat] by (simp add: bits_word_def unat_of_nat take_bit_eq_mod)
  then show "bs = cs" by (rule bits_val_inject [OF assms(1)])
qed simp

text \<open>
  \<open>more_rbsp_data\<close> answers no exactly when the buffer is wholly in the cache and nothing, or
  nothing but a stop bit and at most seven zeros, is left.
\<close>

definition only_trailing :: "bool list \<Rightarrow> bool" where
  "only_trailing bs \<longleftrightarrow> bs = [] \<or> (length bs \<le> 8 \<and> bs = True # replicate (length bs - 1) False)"

lemma more_rbsp_data_spec:
  assumes inv: "dec_inv s"
  shows "\<exists>s'. more_rbsp_data s = Some (\<not> (read_pos s = data_end_pos s \<and> only_trailing (dec_bits s)), s')
    \<and> dec_inv s' \<and> dec_bits s' = dec_bits s"
proof (cases "read_pos s \<ge> nal_size s")
  case False
  then have "read_pos s \<noteq> data_end_pos s" using inv by (simp add: dec_inv_def)
  then show ?thesis using False inv by (simp add: more_rbsp_data_def)
next
  case True
  then have at_end: "read_pos s = data_end_pos s" using inv by (simp add: dec_inv_def)
  define k where "k = length (dec_bits s)"
  have total: "incnt_next s + incnt s = int k" using length_dec_bits [OF inv] at_end by (simp add: k_def)
  consider "k = 0" | "1 \<le> k" "k \<le> 8" | "8 < k" by linarith
  then show ?thesis
  proof cases
    case 1
    then show ?thesis using True at_end total inv by (simp add: more_rbsp_data_def only_trailing_def k_def)
  next
    case 2
    have "k \<le> 32" using 2 by simp
    from show_spec [OF inv 2(1) this] obtain s' where s':
      "BitstreamShowBits s (int k) = Some (bits_word (dec_bits s), s')" "dec_inv s'" "dec_bits s' = dec_bits s"
      by (auto simp: k_def)
    have tb: "nth_opt trailing_bits (int k) = Some (bits_word (True # replicate (k - 1) False))"
      by (rule trailing_bits_nth [OF 2])
    have "bits_word (dec_bits s) = bits_word (True # replicate (k - 1) False)
        \<longleftrightarrow> dec_bits s = True # replicate (k - 1) False"
      using 2 by (intro bits_word_inject) (simp_all add: k_def)
    also have "\<dots> \<longleftrightarrow> only_trailing (dec_bits s)"
      unfolding only_trailing_def k_def [symmetric] using 2 k_def by (cases "dec_bits s") simp_all
    finally have iff: "bits_word (dec_bits s) = bits_word (True # replicate (k - 1) False)
        \<longleftrightarrow> only_trailing (dec_bits s)" .
    have "more_rbsp_data s = Some (bits_word (dec_bits s) \<noteq> bits_word (True # replicate (k - 1) False), s')"
      unfolding more_rbsp_data_def total Let_def using True 2 s'(1) tb by (simp del: nth_opt_nat)
    then show ?thesis unfolding iff using s'(2,3) at_end by simp
  next
    case 3
    then have "dec_bits s \<noteq> []" by (auto simp: k_def)
    then show ?thesis unfolding more_rbsp_data_def total Let_def using True 3 inv
      by (simp add: only_trailing_def k_def)
  qed
qed

lemma more_rbsp_data_enough:
  assumes "dec_inv s" and "8 < length (dec_bits s) \<or> \<not> only_trailing (dec_bits s)"
  shows "\<exists>s'. more_rbsp_data s = Some (True, s') \<and> dec_inv s' \<and> dec_bits s' = dec_bits s"
  using more_rbsp_data_spec [OF assms(1)] assms(2) by (auto simp: only_trailing_def)

lemma byte_align_spec:
  assumes inv: "dec_inv s" and k: "k = nat ((8 - bitcnt s mod 8) mod 8)" "int k \<le> incnt s"
  shows "\<exists>s'. BitstreamByteAlign s = Some s' \<and> dec_inv s' \<and> dec_bits s' = drop k (dec_bits s)
     \<and> bitcnt s' mod 8 = 0"
proof -
  have kk: "(8 - bitcnt s mod 8) mod 8 = int k" and k7: "k \<le> 7" using k(1) by auto
  have "(bitcnt s + int k) mod 8 = 0" unfolding kk [symmetric] by presburger
  moreover have "BitstreamByteAlign s = BitstreamFlushBits s (int k)"
    unfolding BitstreamByteAlign_def BitstreamFlushBits_def Let_def kk using k(2) k7 by simp
  ultimately show ?thesis using flush_spec [OF inv _ k(2)] k7 by fastforce
qed

end
