(* ===== verification/NalUnit.thy ===== *)
theory NalUnit
  imports DecBitstream
begin

text \<open>
  From a byte stream to a bit stream: \<open>PVAVCAnnexBGetNALUnit\<close>, \<open>PVAVCDecGetNALType\<close> and
  \<open>EBSPtoRBSP\<close> of \<open>codecs_v2/video/avc_h264/dec/src/avcdec_api.cpp\<close>, and \<open>BitstreamInit\<close> of
  \<open>avc_bitstream.cpp\<close>. The loops are translated with their indices; a read or a write outside the
  buffer is \<open>None\<close>. \<open>esc\<close> and \<open>unesc\<close> are the specification: the escaping the encoder does, and its
  inverse on byte lists.
\<close>

datatype AVCDec_Status =
    AVCDEC_NO_DATA | AVCDEC_PACKET_LOSS | AVCDEC_NO_BUFFER | AVCDEC_MEMORY_FAIL | AVCDEC_FAIL
  | AVCDEC_SUCCESS | AVCDEC_PICTURE_OUTPUT_READY | AVCDEC_PICTURE_READY | AVCDEC_NO_NEXT_SC
  | AVCDEC_REDUNDANT_FRAME | AVCDEC_CONCEALED_FRAME

section \<open>Removing the emulation prevention bytes\<close>

text \<open>
  The loop of \<open>EBSPtoRBSP\<close>, in place: \<open>i\<close> reads, \<open>j\<close> writes, \<open>count\<close> counts the zeros just copied.
\<close>

function EBSP_loop :: "uint8 list \<Rightarrow> int \<Rightarrow> int \<Rightarrow> int \<Rightarrow> int \<Rightarrow> (uint8 list \<times> int) option" where
  "EBSP_loop nal_unit sz i j cnt =
     (if i < sz then
        (case nth_opt nal_unit i of
          None \<Rightarrow> None
        | Some b \<Rightarrow>
            let skip = (cnt = 2 \<and> b = 0x03);
                i1 = (if skip then i + 1 else i);
                count1 = (if skip then 0 else cnt)
            in (case nth_opt nal_unit i1 of
                 None \<Rightarrow> None
               | Some c \<Rightarrow>
                   if 0 \<le> j \<and> j < int (length nal_unit) then
                     EBSP_loop (nal_unit[nat j := c]) sz (i1 + 1) (j + 1)
                       (if c = 0x00 then count1 + 1 else 0)
                   else None))
      else Some (nal_unit, j))"
  by pat_completeness auto
termination
  by (relation "measure (\<lambda>(nal_unit, sz, i, j, cnt). nat (sz - i))") (auto simp: Let_def)

declare EBSP_loop.simps [simp del]

definition EBSPtoRBSP :: "uint8 list \<Rightarrow> int \<Rightarrow> (uint8 list \<times> int) option" where
  "EBSPtoRBSP nal_unit sz = EBSP_loop nal_unit sz 0 0 0"

definition BitstreamInit :: "uint8 list \<Rightarrow> int \<Rightarrow> AVCDecBitstream option" where
  "BitstreamInit buffer sz0 =
     do { (buf, sz) \<leftarrow> EBSPtoRBSP buffer sz0;
          Some \<lparr>bitstreamBuffer = buf, nal_size = sz, data_end_pos = sz, read_pos = 0,
                curr_word = 0, next_word = 0, incnt = 0, incnt_next = 0, bitcnt = 0\<rparr> }"

subsection \<open>The specification\<close>

fun unesc :: "nat \<Rightarrow> uint8 list \<Rightarrow> uint8 list" where
  "unesc c [] = []"
| "unesc c (b # bs) =
     (if c = 2 \<and> b = 3 then
        (case bs of [] \<Rightarrow> [] | b' # bs' \<Rightarrow> b' # unesc (if b' = 0 then 1 else 0) bs')
      else b # unesc (if b = 0 then c + 1 else 0) bs)"

fun esc :: "nat \<Rightarrow> uint8 list \<Rightarrow> uint8 list" where
  "esc c [] = []"
| "esc c (b # bs) =
     (if b \<noteq> 0 then b # esc 0 bs
      else if c + 1 = 2 then 0 # 3 # esc 0 bs
      else 0 # esc (c + 1) bs)"

fun zeros_after :: "nat \<Rightarrow> uint8 list \<Rightarrow> nat" where
  "zeros_after c [] = c"
| "zeros_after c (b # bs) =
     zeros_after (if b \<noteq> 0 then 0 else if c + 1 = 2 then 0 else c + 1) bs"

lemma esc_append: "esc c (xs @ ys) = esc c xs @ esc (zeros_after c xs) ys"
  by (induction c xs rule: esc.induct) simp_all

lemma zeros_after_append: "zeros_after c (xs @ ys) = zeros_after (zeros_after c xs) ys"
  by (induction c xs rule: zeros_after.induct) simp_all

lemma zeros_after_le: "c \<le> 1 \<Longrightarrow> zeros_after c xs \<le> 1"
  by (induction c xs rule: zeros_after.induct) auto

text \<open>Right after an inserted 3 the reader copies the next byte unexamined; the writer agrees.\<close>

lemma unesc_esc: "c \<le> 1 \<Longrightarrow> unesc c (esc c xs) = xs"
proof (induction xs arbitrary: c rule: length_induct)
  case (1 xs)
  show ?case
  proof (cases xs)
    case Nil
    then show ?thesis by simp
  next
    case (Cons x ys)
    have IH: "unesc d (esc d ys) = ys" "ys = y # zs \<Longrightarrow> unesc d (esc d zs) = zs" if "d \<le> 1" for d y zs
      using 1(1) Cons that by simp_all
    show ?thesis
    proof (cases "x = 0 \<and> c = 1")
      case False
      then show ?thesis using Cons IH(1) [of "if x = 0 then c + 1 else 0"] 1(2) by (auto simp: le_Suc_eq)
    next
      case True
      then show ?thesis
      proof (cases ys)
        case Nil
        then show ?thesis using True Cons by simp
      next
        case (Cons y zs)
        then show ?thesis using True \<open>xs = x # ys\<close> IH(2) [OF _ Cons] by simp
      qed
    qed
  qed
qed

text \<open>When the escaped bytes do not end with the sequence 0, 0, 3, the last read is inside the NAL.\<close>

fun stops_inside :: "nat \<Rightarrow> uint8 list \<Rightarrow> bool" where
  "stops_inside c [] = True"
| "stops_inside c (b # bs) =
     (if c = 2 \<and> b = 3 then
        (case bs of [] \<Rightarrow> False | b' # bs' \<Rightarrow> stops_inside (if b' = 0 then 1 else 0) bs')
      else stops_inside (if b = 0 then c + 1 else 0) bs)"

lemma EBSP_loop_spec:
  assumes "0 \<le> j" "j \<le> i" "i + int (length bs) \<le> int (length buf)" "sz = i + int (length bs)"
    and "take (length bs) (drop (nat i) buf) = bs" and "stops_inside c bs"
  shows "\<exists>buf'. EBSP_loop buf sz i j (int c) = Some (buf', j + int (length (unesc c bs)))
     \<and> length buf' = length buf
     \<and> take (nat j + length (unesc c bs)) buf' = take (nat j) buf @ unesc c bs"
  using assms
proof (induction bs arbitrary: buf i j c rule: length_induct)
  case (1 bs)
  show ?case
  proof (cases bs)
    case Nil
    then show ?thesis using 1(2-) by (simp add: EBSP_loop.simps)
  next
    case (Cons b bs1)
    have nth: "buf ! (nat i + k) = bs ! k" if "k < length bs" for k
    proof -
      have "bs ! k = take (length bs) (drop (nat i) buf) ! k" using 1(6) by simp
      then show ?thesis using that 1(2-4) by simp
    qed
    have bi: "nth_opt buf i = Some b" using nth [of 0] Cons 1(2-5) by simp
    show ?thesis
    proof (cases "c = 2 \<and> b = 3")
      case False
      have rest: "take (length bs1) (drop (nat (i + 1)) (buf[nat j := b])) = bs1"
      proof -
        have "drop (nat (i + 1)) (buf[nat j := b]) = drop (nat (i + 1)) buf"
          using 1(2,3) by (simp add: drop_update_cancel)
        moreover have "take (length bs1) (drop (nat (i + 1)) buf) = bs1"
          using 1(2-4) Cons nth [of "Suc k" for k]
          by (intro nth_equalityI) (auto simp: nat_add_distrib)
        ultimately show ?thesis by simp
      qed
      have IH: "\<exists>buf'. EBSP_loop (buf[nat j := b]) sz (i + 1) (j + 1) (int (if b = 0 then c + 1 else 0))
          = Some (buf', j + 1 + int (length (unesc (if b = 0 then c + 1 else 0) bs1)))
         \<and> length buf' = length (buf[nat j := b])
         \<and> take (nat (j + 1) + length (unesc (if b = 0 then c + 1 else 0) bs1)) buf'
           = take (nat (j + 1)) (buf[nat j := b]) @ unesc (if b = 0 then c + 1 else 0) bs1"
        using 1(2-) Cons False rest by (intro 1(1)[rule_format]) auto
      have "take (nat (j + 1)) (buf[nat j := b]) = take (nat j) buf @ [b]"
        using 1(2-4) Cons by (simp add: nat_add_distrib take_Suc_conv_app_nth)
      then show ?thesis
        using IH 1(2-) Cons False bi
        by (subst EBSP_loop.simps) (auto simp: Let_def nat_add_distrib add_ac split: if_splits)
    next
      case True
      then obtain b' bs2 where bs1: "bs1 = b' # bs2" using 1(7) Cons by (cases bs1) auto
      have bi1: "nth_opt buf (i + 1) = Some b'"
        using nth [of 1] Cons bs1 1(2-5) by (simp add: nat_add_distrib)
      have rest: "take (length bs2) (drop (nat (i + 2)) (buf[nat j := b'])) = bs2"
      proof -
        have "drop (nat (i + 2)) (buf[nat j := b']) = drop (nat (i + 2)) buf"
          using 1(2,3) by (simp add: drop_update_cancel)
        moreover have "take (length bs2) (drop (nat (i + 2)) buf) = bs2"
          using 1(2-4) Cons bs1 nth [of "Suc (Suc k)" for k]
          by (intro nth_equalityI) (auto simp: nat_add_distrib)
        ultimately show ?thesis by simp
      qed
      have IH: "\<exists>buf'. EBSP_loop (buf[nat j := b']) sz (i + 2) (j + 1) (int (if b' = 0 then 1 else 0))
          = Some (buf', j + 1 + int (length (unesc (if b' = 0 then 1 else 0) bs2)))
         \<and> length buf' = length (buf[nat j := b'])
         \<and> take (nat (j + 1) + length (unesc (if b' = 0 then 1 else 0) bs2)) buf'
           = take (nat (j + 1)) (buf[nat j := b']) @ unesc (if b' = 0 then 1 else 0) bs2"
        using 1(2-) Cons True bs1 rest by (intro 1(1)[rule_format]) auto
      have "take (nat (j + 1)) (buf[nat j := b']) = take (nat j) buf @ [b']"
        using 1(2-4) Cons by (simp add: nat_add_distrib take_Suc_conv_app_nth)
      then show ?thesis
        using IH 1(2-) Cons True bs1 bi bi1
        by (subst EBSP_loop.simps) (auto simp: Let_def nat_add_distrib add_ac split: if_splits)
    qed
  qed
qed

lemma EBSPtoRBSP_spec:
  assumes "length buf \<ge> n" and "stops_inside 0 (take n buf)"
  shows "\<exists>buf'. EBSPtoRBSP buf (int n) = Some (buf', int (length (unesc 0 (take n buf))))
     \<and> length buf' = length buf
     \<and> take (length (unesc 0 (take n buf))) buf' = unesc 0 (take n buf)"
  using EBSP_loop_spec [of 0 0 "take n buf" buf "int n" 0] assms
  by (simp add: EBSPtoRBSP_def min_def)

lemma length_unesc_le: "length (unesc c bs) \<le> length bs"
proof (induction bs arbitrary: c rule: length_induct)
  case (1 bs)
  then show ?case by (cases bs) (fastforce split: list.splits intro: le_SucI)+
qed

lemma BitstreamInit_spec:
  assumes "length buf \<ge> n" and "stops_inside 0 (take n buf)"
  shows "\<exists>s. BitstreamInit buf (int n) = Some s \<and> dec_inv s
     \<and> dec_bits s = bytes_bits (unesc 0 (take n buf)) \<and> bitcnt s = 0"
proof -
  obtain buf' where b: "EBSPtoRBSP buf (int n) = Some (buf', int (length (unesc 0 (take n buf))))"
      "length buf' = length buf" "take (length (unesc 0 (take n buf))) buf' = unesc 0 (take n buf)"
    using EBSPtoRBSP_spec [OF assms] by blast
  have "length (unesc 0 (take n buf)) \<le> length buf"
    using length_unesc_le [of 0 "take n buf"] assms(1) by simp
  then show ?thesis
    using b by (auto simp: BitstreamInit_def dec_inv_def dec_bits_def unread_bytes_def)
qed

text \<open>An escaped unit whose last payload byte is not zero always stops inside.\<close>

lemma stops_inside_esc:
  assumes "c \<le> 1" and "xs = [] \<or> last xs \<noteq> 0"
  shows "stops_inside c (esc c xs)"
  using assms
proof (induction xs arbitrary: c rule: length_induct)
  case (1 xs)
  show ?case
  proof (cases xs)
    case Nil
    then show ?thesis by simp
  next
    case (Cons x ys)
    have l: "ys = [] \<or> last ys \<noteq> 0" using 1(3) Cons by auto
    have IH: "stops_inside d (esc d ys)" if "d \<le> 1" for d
      using 1(1) [rule_format, of ys d] Cons that l by (cases "ys = []") simp_all
    show ?thesis
    proof (cases "x = 0 \<and> c = 1")
      case False
      then show ?thesis using Cons IH [of "if x = 0 then c + 1 else 0"] 1(2) by (auto simp: le_Suc_eq)
    next
      case True
      then obtain y zs where ys: "ys = y # zs" using 1(3) Cons by (cases ys) auto
      then have "stops_inside d (esc d zs)" if "d \<le> 1" for d
        using 1(1) [rule_format, of zs d] Cons that l by (cases "zs = []") simp_all
      then show ?thesis using True Cons ys by simp
    qed
  qed
qed

section \<open>Splitting an Annex B byte stream\<close>

text \<open>The three inner loops of \<open>PVAVCAnnexBGetNALUnit\<close>, with the reads in the code's order.\<close>

function skip_zeros :: "uint8 list \<Rightarrow> int \<Rightarrow> int \<Rightarrow> int option" where
  "skip_zeros bitstream sz i =
     (case nth_opt bitstream i of
        None \<Rightarrow> None
      | Some b \<Rightarrow> if b = 0 \<and> i < sz then skip_zeros bitstream sz (i + 1) else Some i)"
  by pat_completeness auto
termination by (relation "measure (\<lambda>(bitstream, sz, i). nat (sz - i))") auto

function seek_two_zeros :: "uint8 list \<Rightarrow> int \<Rightarrow> int \<Rightarrow> int option" where
  "seek_two_zeros bitstream sz j =
     (if j + 1 < sz then
        (case (nth_opt bitstream j, nth_opt bitstream (j + 1)) of
           (Some b0, Some b1) \<Rightarrow>
             if b0 \<noteq> 0 \<or> b1 \<noteq> 0 then seek_two_zeros bitstream sz (j + 1) else Some j
         | (_, _) \<Rightarrow> None)
      else Some j)"
  by pat_completeness auto
termination by (relation "measure (\<lambda>(bitstream, sz, j). nat (sz - j))") auto

function pass_zeros :: "uint8 list \<Rightarrow> int \<Rightarrow> int \<Rightarrow> int option" where
  "pass_zeros bitstream sz j =
     (if j + 2 < sz then
        (case nth_opt bitstream (j + 2) of
           None \<Rightarrow> None
         | Some b \<Rightarrow> if b = 0 then pass_zeros bitstream sz (j + 1) else Some j)
      else Some j)"
  by pat_completeness auto
termination by (relation "measure (\<lambda>(bitstream, sz, j). nat (sz - j))") auto

declare skip_zeros.simps [simp del] seek_two_zeros.simps [simp del] pass_zeros.simps [simp del]

lemma seek_two_zeros_ge: "seek_two_zeros bitstream sz j = Some k \<Longrightarrow> j \<le> k"
proof (induction bitstream sz j rule: seek_two_zeros.induct)
  case (1 bitstream sz j)
  show ?case
    using 1(2) by (subst (asm) seek_two_zeros.simps) (fastforce split: if_splits option.splits dest: 1(1))
qed

lemma pass_zeros_ge: "pass_zeros bitstream sz j = Some k \<Longrightarrow> j \<le> k"
proof (induction bitstream sz j rule: pass_zeros.induct)
  case (1 bitstream sz j)
  show ?case
    using 1(2) by (subst (asm) pass_zeros.simps) (fastforce split: if_splits option.splits dest: 1(1))
qed

text \<open>The outer loop: \<open>Some None\<close> is the exit without a second start code, \<open>Some (Some e)\<close> the one with.\<close>

function next_start_code :: "uint8 list \<Rightarrow> int \<Rightarrow> int \<Rightarrow> int option option" where
  "next_start_code bitstream sz j =
     (case seek_two_zeros bitstream sz j of
        None \<Rightarrow> None
      | Some e \<Rightarrow>
          (case pass_zeros bitstream sz e of
             None \<Rightarrow> None
           | Some j1 \<Rightarrow>
               if j1 + 2 \<ge> sz then Some None
               else
                 (case nth_opt bitstream (j1 + 2) of
                    None \<Rightarrow> None
                  | Some b \<Rightarrow>
                      if b = 0x1 then Some (Some e) else next_start_code bitstream sz (j1 + 2))))"
  by pat_completeness auto
termination
  by (relation "measure (\<lambda>(bitstream, sz, j). nat (sz - j))")
    (auto dest!: seek_two_zeros_ge pass_zeros_ge)

declare next_start_code.simps [simp del]

text \<open>The results: the status, the offset of \<open>*nal_unit\<close> in \<open>bitstream\<close>, and the new \<open>*size\<close>.\<close>

definition PVAVCAnnexBGetNALUnit :: "uint8 list \<Rightarrow> int \<Rightarrow> (AVCDec_Status \<times> int \<times> int) option" where
  "PVAVCAnnexBGetNALUnit bitstream sz =
     do { i0 \<leftarrow> skip_zeros bitstream sz 0;
          if i0 \<ge> sz then Some (AVCDEC_FAIL, 0, sz)
          else
            do { b \<leftarrow> nth_opt bitstream i0;
                 let i = (if b \<noteq> 0x1 then - 1 else i0) + 1;
                 r \<leftarrow> next_start_code bitstream sz i;
                 (case r of
                    None \<Rightarrow> Some (AVCDEC_NO_NEXT_SC, i, sz - i)
                  | Some e \<Rightarrow> Some (AVCDEC_SUCCESS, i, e - i)) } }"

definition PVAVCDecGetNALType :: "uint8 list \<Rightarrow> int \<Rightarrow> (AVCDec_Status \<times> (int \<times> int) option) option" where
  "PVAVCDecGetNALType bitstream sz =
     (if sz > 0 then
        do { b \<leftarrow> nth_opt bitstream 0;
             let forbidden_zero_bit = drop_bit 7 b;
             if forbidden_zero_bit \<noteq> 0 then Some (AVCDEC_FAIL, None)
             else Some (AVCDEC_SUCCESS, Some (uint (b AND 0x1F), uint (drop_bit 5 (b AND 0x60)))) }
      else Some (AVCDEC_FAIL, None))"

subsection \<open>Where the unit ends\<close>

text \<open>No start code and no third zero after two, and no zero at the end: what escaping guarantees.\<close>

definition sc_free :: "uint8 list \<Rightarrow> bool" where
  "sc_free nal \<longleftrightarrow> nal \<noteq> [] \<and> last nal \<noteq> 0
     \<and> (\<forall>k < length nal - 2. nal ! k = 0 \<longrightarrow> nal ! (k + 1) = 0 \<longrightarrow> nal ! (k + 2) \<noteq> 0 \<and> nal ! (k + 2) \<noteq> 1)"

lemma seek_two_zeros_to:
  assumes "p \<le> q" and "q + 1 < length buf" and "buf ! q = 0" and "buf ! (q + 1) = 0"
    and "\<And>k. p \<le> k \<Longrightarrow> k < q \<Longrightarrow> buf ! k \<noteq> 0 \<or> buf ! (k + 1) \<noteq> 0"
  shows "seek_two_zeros buf (int (length buf)) (int p) = Some (int q)"
  using assms(1,5)
proof (induction "q - p" arbitrary: p)
  case 0
  then show ?case using assms(2-4) by (subst seek_two_zeros.simps) (simp add: nat_add_distrib)
next
  case (Suc d)
  have "seek_two_zeros buf (int (length buf)) (int (Suc p)) = Some (int q)"
    by (rule Suc.hyps(1)) (use Suc.hyps(2) Suc.prems in auto)
  then show ?case
    using Suc.prems(2) [of p] Suc.hyps(2) assms(2)
    by (subst seek_two_zeros.simps) (auto simp: nat_add_distrib add.commute)
qed

lemma seek_two_zeros_end:
  assumes "p < length buf"
    and "\<And>k. p \<le> k \<Longrightarrow> k + 1 < length buf \<Longrightarrow> buf ! k \<noteq> 0 \<or> buf ! (k + 1) \<noteq> 0"
  shows "seek_two_zeros buf (int (length buf)) (int p) = Some (int (length buf - 1))"
  using assms
proof (induction "length buf - p" arbitrary: p)
  case (Suc d)
  show ?case
  proof (cases "p + 1 < length buf")
    case True
    have "seek_two_zeros buf (int (length buf)) (int (Suc p)) = Some (int (length buf - 1))"
      by (rule Suc.hyps(1)) (use Suc.hyps(2) Suc.prems True in auto)
    then show ?thesis
      using Suc.prems(2) [of p] True
      by (subst seek_two_zeros.simps) (auto simp: nat_add_distrib add.commute)
  next
    case False
    then show ?thesis using Suc.prems(1) by (subst seek_two_zeros.simps) simp
  qed
qed simp

lemma pass_zeros_to:
  assumes "p \<le> q" and "q + 2 < length buf" and "buf ! (q + 2) \<noteq> 0"
    and "\<And>k. p \<le> k \<Longrightarrow> k < q \<Longrightarrow> buf ! (k + 2) = 0"
  shows "pass_zeros buf (int (length buf)) (int p) = Some (int q)"
  using assms(1,4)
proof (induction "q - p" arbitrary: p)
  case 0
  then show ?case using assms(2,3) by (subst pass_zeros.simps) (simp add: nat_add_distrib)
next
  case (Suc d)
  have "pass_zeros buf (int (length buf)) (int (Suc p)) = Some (int q)"
    by (rule Suc.hyps(1)) (use Suc.hyps(2) Suc.prems in auto)
  then show ?case
    using Suc.prems(2) [of p] Suc.hyps(2) assms(2)
    by (subst pass_zeros.simps) (auto simp: nat_add_distrib add.commute)
qed

lemma skip_zeros_to:
  assumes "q < length buf" and "buf ! q \<noteq> 0" and "\<And>k. k < q \<Longrightarrow> buf ! k = 0" and "p \<le> q"
  shows "skip_zeros buf (int (length buf)) (int p) = Some (int q)"
  using assms(4)
proof (induction "q - p" arbitrary: p)
  case 0
  then show ?case using assms(1,2) by (subst skip_zeros.simps) simp
next
  case (Suc d)
  have "skip_zeros buf (int (length buf)) (int (Suc p)) = Some (int q)"
    by (rule Suc.hyps(1)) (use Suc.hyps(2) Suc.prems in auto)
  then show ?case
    using assms(3) [of p] Suc.hyps(2) assms(1)
    by (subst skip_zeros.simps) (auto simp: add.commute)
qed

text \<open>
  What follows the unit: nothing, or zeros and the 1 of the next start code. \<open>tail_result\<close> is what the
  scan then answers, for a unit that ends at \<open>e\<close>.
\<close>

definition next_tail :: "uint8 list \<Rightarrow> bool" where
  "next_tail after \<longleftrightarrow> (\<exists>m rest. 2 \<le> m \<and> after = replicate m 0 @ 1 # rest)"

definition tail_result :: "uint8 list \<Rightarrow> nat \<Rightarrow> int option" where
  "tail_result after e = (if after = [] then None else Some (int e))"

lemma next_start_code_end:
  assumes buf: "buf = pre @ nal @ after" and after: "after = [] \<or> next_tail after" and last: "nal \<noteq> []" "last nal \<noteq> 0"
    and p: "length pre \<le> p" "p < length pre + length nal"
    and none: "\<And>k. p \<le> k \<Longrightarrow> k + 1 < length pre + length nal \<Longrightarrow> buf ! k \<noteq> 0 \<or> buf ! (k + 1) \<noteq> 0"
  shows "next_start_code buf (int (length buf)) (int p) = Some (tail_result after (length pre + length nal))"
proof -
  let ?e = "length pre + length nal"
  have at_last: "buf ! (?e - 1) \<noteq> 0"
    using last by (cases nal rule: rev_cases) (simp_all add: buf nth_append)
  show ?thesis
  proof (cases "after = []")
    case True
    have "seek_two_zeros buf (int (length buf)) (int p) = Some (int (length buf - 1))"
      using p none by (intro seek_two_zeros_end) (simp_all add: buf True)
    moreover have "pass_zeros buf (int (length buf)) (int (length buf - 1)) = Some (int (length buf - 1))"
      using p True by (subst pass_zeros.simps) (simp add: buf)
    moreover have "int (length buf) \<le> int (length buf - 1) + 2" using p by (simp add: buf)
    ultimately show ?thesis by (subst next_start_code.simps) (simp add: tail_result_def True)
  next
    case False
    then obtain m rest where m: "2 \<le> m" "after = replicate m 0 @ 1 # rest" using after by (auto simp: next_tail_def)
    have len: "length buf = ?e + m + 1 + length rest" by (simp add: buf m)
    have zero: "buf ! (?e + k) = 0" if "k < m" for k using that by (simp add: buf m nth_append)
    have one: "buf ! (?e + m) = 1" by (simp add: buf m nth_append)
    have "buf ! k \<noteq> 0 \<or> buf ! (k + 1) \<noteq> 0" if "p \<le> k" "k < ?e" for k
    proof (cases "k + 1 < ?e")
      case False
      then have "k = ?e - 1" using that by simp
      then show ?thesis using at_last by simp
    qed (use none that in simp)
    then have seek: "seek_two_zeros buf (int (length buf)) (int p) = Some (int ?e)"
      using p zero [of 0] zero [of 1] m(1) len by (intro seek_two_zeros_to) auto
    have z2: "buf ! (k + 2) = 0" if "?e \<le> k" "k < ?e + m - 2" for k
      using zero [of "k + 2 - ?e"] that by simp
    have e2: "?e + m - 2 + 2 = ?e + m" using m(1) by simp
    have pass: "pass_zeros buf (int (length buf)) (int ?e) = Some (int (?e + m - 2))"
      by (rule pass_zeros_to) (use m(1) len one z2 e2 in \<open>simp_all\<close>)
    have ne: "after \<noteq> []" using m by simp
    have j: "int (?e + m - 2) + 2 = int (?e + m)" using m(1) by simp
    have "nth_opt buf (int (?e + m)) = Some 1" using one len by (simp del: of_nat_add)
    moreover have "\<not> int (?e + m) \<ge> int (length buf)" using len by simp
    ultimately show ?thesis
      using ne by (subst next_start_code.simps) (simp only: seek pass j option.case if_False if_True
          refl tail_result_def)
  qed
qed

lemma next_start_code_spec:
  assumes buf: "buf = pre @ nal @ after" and after: "after = [] \<or> next_tail after" and nal: "sc_free nal"
    and p: "length pre \<le> p" "p < length pre + length nal"
  shows "next_start_code buf (int (length buf)) (int p) = Some (tail_result after (length pre + length nal))"
  using p
proof (induction "length pre + length nal - p" arbitrary: p rule: less_induct)
  case less
  let ?e = "length pre + length nal"
  let ?pair = "\<lambda>k. p \<le> k \<and> k + 1 < ?e \<and> buf ! k = 0 \<and> buf ! (k + 1) = 0"
  have last: "nal \<noteq> []" "last nal \<noteq> 0" using nal by (simp_all add: sc_free_def)
  show ?case
  proof (cases "\<exists>k. ?pair k")
    case False
    then show ?thesis
      by (intro next_start_code_end [OF buf after last less(2,3)]) auto
  next
    case True
    define q where "q = (LEAST k. ?pair k)"
    have q: "?pair q" unfolding q_def using True by (rule LeastI_ex)
    have least: "\<not> ?pair k" if "k < q" for k using that unfolding q_def by (rule not_less_Least)
    define r where "r = q - length pre"
    have r: "q = length pre + r" "r + 1 < length nal" using q less(2) by (auto simp: r_def)
    have nth: "buf ! (length pre + k) = nal ! k" if "k < length nal" for k
      using that by (simp add: buf nth_append)
    have z: "nal ! r = 0" "nal ! (r + 1) = 0" using q r nth [of r] nth [of "r + 1"] by simp_all
    have "r + 1 \<noteq> length nal - 1" using z(2) last by (auto simp: last_conv_nth)
    then have r2: "r + 2 < length nal" using r(2) by simp
    then have third: "nal ! (r + 2) \<noteq> 0" "nal ! (r + 2) \<noteq> 1"
      using nal z by (auto simp: sc_free_def)
    have len: "?e \<le> length buf" by (simp add: buf)
    have q2: "buf ! (q + 2) = nal ! (r + 2)" using nth [of "r + 2"] r2 by (simp add: r(1) add.assoc)
    have seek: "seek_two_zeros buf (int (length buf)) (int p) = Some (int q)"
      using q least len by (intro seek_two_zeros_to) auto
    have pass: "pass_zeros buf (int (length buf)) (int q) = Some (int q)"
      using r2 r(1) len q2 third by (intro pass_zeros_to) auto
    have "next_start_code buf (int (length buf)) (int (q + 2)) = Some (tail_result after ?e)"
      using q r r2 by (intro less(1)) auto
    then have "next_start_code buf (int (length buf)) (int q + 2) = Some (tail_result after ?e)"
      by (simp only: of_nat_add of_nat_numeral)
    then show ?thesis
      using seek pass q2 third r2 len
      by (subst next_start_code.simps) (simp add: nat_add_distrib r(1))
  qed
qed

text \<open>The unit found, whatever number of zeros precede it.\<close>

lemma AnnexB_unit:
  assumes nal: "sc_free nal" and after: "after = [] \<or> next_tail after" and buf: "buf = replicate z 0 @ 1 # nal @ after"
  shows "PVAVCAnnexBGetNALUnit buf (int (length buf))
    = Some (if after = [] then AVCDEC_NO_NEXT_SC else AVCDEC_SUCCESS, int z + 1, int (length nal))"
proof -
  have skip: "skip_zeros buf (int (length buf)) (int 0) = Some (int z)"
    by (rule skip_zeros_to) (simp_all add: buf nth_append)
  have b: "buf ! z = 1" by (simp add: buf nth_append)
  have split: "buf = (replicate z 0 @ [1]) @ nal @ after" by (simp add: buf)
  have "nal \<noteq> []" using nal by (simp add: sc_free_def)
  then have "next_start_code buf (int (length buf)) (int (z + 1)) = Some (tail_result after (z + 1 + length nal))"
    using next_start_code_spec [OF split after nal, of "z + 1"] by simp
  moreover have "z < length buf" by (simp add: buf)
  ultimately show ?thesis
    using skip b by (simp add: PVAVCAnnexBGetNALUnit_def tail_result_def buf add.commute)
qed

subsection \<open>Escaped units contain no start code\<close>

definition no_triple :: "uint8 list \<Rightarrow> bool" where
  "no_triple bs \<longleftrightarrow>
     (\<forall>k < length bs - 2. bs ! k = 0 \<longrightarrow> bs ! (k + 1) = 0 \<longrightarrow> bs ! (k + 2) \<noteq> 0 \<and> bs ! (k + 2) \<noteq> 1)"

lemma no_triple_Nil [simp]: "no_triple []"
  by (simp add: no_triple_def)

lemma no_triple_Cons:
  "no_triple (b # bs) \<longleftrightarrow> no_triple bs
     \<and> (b = 0 \<longrightarrow> 2 \<le> length bs \<longrightarrow> bs ! 0 = 0 \<longrightarrow> bs ! 1 \<noteq> 0 \<and> bs ! 1 \<noteq> 1)"
  (is "?l \<longleftrightarrow> ?r")
proof
  assume l: ?l
  have "bs ! (k + 2) \<noteq> 0 \<and> bs ! (k + 2) \<noteq> 1" if "k < length bs - 2" "bs ! k = 0" "bs ! (k + 1) = 0" for k
    using l [unfolded no_triple_def, rule_format, of "Suc k"] that by simp
  moreover have "bs ! 1 \<noteq> 0 \<and> bs ! 1 \<noteq> 1" if "b = 0" "2 \<le> length bs" "bs ! 0 = 0"
    using l [unfolded no_triple_def, rule_format, of 0] that by simp
  ultimately show ?r by (simp add: no_triple_def)
next
  assume r: ?r
  show ?l unfolding no_triple_def
  proof (intro allI impI)
    fix k assume k: "k < length (b # bs) - 2" "(b # bs) ! k = 0" "(b # bs) ! (k + 1) = 0"
    show "(b # bs) ! (k + 2) \<noteq> 0 \<and> (b # bs) ! (k + 2) \<noteq> 1"
    proof (cases k)
      case 0
      then show ?thesis using r k by simp
    next
      case (Suc k')
      then show ?thesis using r k by (auto simp: no_triple_def)
    qed
  qed
qed

lemma no_triple_esc: "no_triple (esc 0 xs)" "no_triple (0 # esc 1 xs)"
  by (induction xs) (auto simp: no_triple_Cons)

lemma sc_free_esc:
  assumes "xs \<noteq> []" and "last xs \<noteq> 0"
  shows "sc_free (esc 0 xs)"
proof -
  obtain ys x where xs: "xs = ys @ [x]" "x \<noteq> 0" using assms by (cases xs rule: rev_cases) auto
  then have "esc 0 xs = esc 0 ys @ [x]" by (simp add: esc_append)
  then show ?thesis using no_triple_esc(1) [of xs] xs(2) by (simp add: sc_free_def no_triple_def)
qed

end
