(* ===== verification/ExpGolomb.thy ===== *)
theory ExpGolomb
  imports AvcPrelude
begin

text \<open>
  The Exp-Golomb code of H.264 (9.1) as bit lists: what the encoder's \<open>SetEGBitstring\<close> is to emit and
  the decoder's \<open>ue_v\<close>, \<open>se_v\<close> are to consume.
\<close>

section \<open>Binary length\<close>

fun bit_length :: "nat \<Rightarrow> nat" where
  "bit_length n = (if n = 0 then 0 else Suc (bit_length (n div 2)))"

declare bit_length.simps [simp del]

lemma bit_length_0 [simp]: "bit_length 0 = 0"
  by (simp add: bit_length.simps)

lemma bit_length_bounds: "0 < n \<Longrightarrow> 2 ^ (bit_length n - 1) \<le> n \<and> n < 2 ^ bit_length n"
proof (induction n rule: bit_length.induct)
  case (1 n)
  show ?case
  proof (cases "n div 2 = 0")
    case True
    then have "n = 1" using 1(2) by simp
    then show ?thesis by (simp add: bit_length.simps)
  next
    case False
    then have IH: "2 ^ (bit_length (n div 2) - 1) \<le> n div 2" "n div 2 < 2 ^ bit_length (n div 2)"
      using 1 by simp_all
    have "bit_length (n div 2) \<noteq> 0" using False by (simp add: bit_length.simps [of "n div 2"])
    then obtain k where k: "bit_length (n div 2) = Suc k" by (cases "bit_length (n div 2)") auto
    have "bit_length n = Suc (Suc k)" using 1(2) k by (simp add: bit_length.simps [of n])
    have "2 * 2 ^ k \<le> n" using IH(1) unfolding k by simp
    moreover have "n < 2 * (2 * 2 ^ k)" using IH(2) unfolding k by simp
    ultimately show ?thesis using \<open>bit_length n = Suc (Suc k)\<close> by simp
  qed
qed

lemma bit_length_pos: "0 < n \<Longrightarrow> 0 < bit_length n"
  by (simp add: bit_length.simps)

lemma bit_length_unique:
  assumes "2 ^ k \<le> n" and "n < 2 ^ Suc k"
  shows "bit_length n = Suc k"
proof -
  have n: "0 < n" using assms(1) by (meson less_le_trans zero_less_numeral zero_less_power)
  note b = bit_length_bounds [OF n]
  have "k < bit_length n" using b assms(1) by (meson le_less_trans nat_power_less_imp_less zero_less_numeral)
  moreover have "bit_length n - 1 < Suc k"
    using b assms(2) by (meson le_less_trans nat_power_less_imp_less zero_less_numeral)
  ultimately show ?thesis by simp
qed

lemma bit_length_le: "n < 2 ^ k \<Longrightarrow> bit_length n \<le> k"
proof (cases "n = 0")
  case False
  assume "n < 2 ^ k"
  then have "2 ^ (bit_length n - 1) < (2::nat) ^ k"
    using bit_length_bounds [of n] False by (meson le_less_trans neq0_conv)
  then have "bit_length n - 1 < k" by (rule nat_power_less_imp_less [rotated]) simp
  then show ?thesis by simp
qed simp

section \<open>Code words\<close>

definition eg_bits :: "nat \<Rightarrow> bool list" where
  "eg_bits k = replicate (bit_length (k + 1) - 1) False @ nat_bits (bit_length (k + 1)) (k + 1)"

text \<open>The mapping of signed values to code numbers (9.1.1).\<close>

definition se_num :: "int \<Rightarrow> nat" where
  "se_num v = (if v \<le> 0 then nat (- v * 2) else nat (v * 2 - 1))"

lemma length_eg_bits: "length (eg_bits k) = 2 * (bit_length (k + 1) - 1) + 1"
  using bit_length_pos [of "k + 1"] by (simp add: eg_bits_def)

lemma eg_bits_Nil [simp]: "eg_bits k \<noteq> []"
  using length_eg_bits [of k] by (metis add_is_0 list.size(3) one_neq_zero)

lemma bits_val_eg: "bits_val (eg_bits k) = k + 1"
  using bit_length_bounds [of "k + 1"]
  by (simp add: eg_bits_def bits_val_append bits_val_nat_bits)

lemma eg_bits_shape:
  "eg_bits k = replicate (bit_length (k + 1) - 1) False @ True # nat_bits (bit_length (k + 1) - 1) (k + 1)"
proof -
  obtain m where m: "bit_length (k + 1) = Suc m" using bit_length_pos [of "k + 1"] by (cases "bit_length (k + 1)") auto
  have b: "2 ^ m \<le> k + 1" "k + 1 < 2 ^ Suc m" using bit_length_bounds [of "k + 1"] m by simp_all
  then have "(k + 1) div 2 ^ m = 1" by (intro div_nat_eqI) simp_all
  then have "bit (k + 1) m" by (metis bit_iff_odd odd_one)
  then show ?thesis unfolding eg_bits_def m nat_bits_Suc by simp
qed

lemma takeWhile_replicate_False: "takeWhile Not (replicate n False @ True # xs) = replicate n False"
  by (induction n) simp_all

text \<open>Every value has one code word, and no code word is a prefix of another.\<close>

lemma eg_bits_prefix_free:
  assumes "eg_bits j @ xs = eg_bits k @ ys"
  shows "j = k"
proof -
  let ?m = "bit_length (j + 1) - 1" and ?n = "bit_length (k + 1) - 1"
  have "takeWhile Not (eg_bits j @ xs) = replicate ?m False"
    unfolding eg_bits_shape by (simp add: takeWhile_replicate_False)
  moreover have "takeWhile Not (eg_bits k @ ys) = replicate ?n False"
    unfolding eg_bits_shape by (simp add: takeWhile_replicate_False)
  ultimately have "?m = ?n" using assms by (metis length_replicate)
  then have "length (eg_bits j) = length (eg_bits k)" by (simp add: length_eg_bits)
  then have "eg_bits j = eg_bits k" using assms by (rule append_eq_append_conv [THEN iffD1, THEN conjunct1, OF disjI1])
  then have "j + 1 = k + 1" using bits_val_eg by metis
  then show ?thesis by simp
qed

lemma se_num_inject: "se_num v = se_num w \<Longrightarrow> v = w"
  by (auto simp: se_num_def nat_eq_iff split: if_splits) presburger+

end
