(* ===== verification/MbData.thy ===== *)
theory MbData
  imports AvcPrelude
begin

text \<open>
  The data of the macroblock layer that the encoder and the decoder share, from
  \<open>codecs_v2/video/avc_h264/common/include/avcint_common.h\<close>: the macroblock modes, \<open>AVCMacroblock\<close> (list 0 only,
  as the profile has no B slices) and the macroblock fields of \<open>AVCCommonObj\<close>. A motion vector, two 16-bit numbers
  packed in an \<open>int32\<close>, is a pair; prediction modes are the numbers of their enumerations.
\<close>

datatype AVCMBMode =
    AVC_I4 | AVC_I16 | AVC_I_PCM | AVC_SI4
  | AVC_BDirect16 | AVC_P16 | AVC_P16x8 | AVC_P8x16 | AVC_P8 | AVC_P8ref0 | AVC_SKIP

datatype AVCSubMBMode = AVC_BDirect8 | AVC_8x8 | AVC_8x4 | AVC_4x8 | AVC_4x4

type_synonym mv = "int \<times> int"

record AVCMacroblock =
  intra_chroma_pred_mode :: int
  mvL0 :: "mv list"
  ref_idx_L0 :: "int list"
  RefIdxs :: "int list"
  mb_intra :: bool
  mbMode :: AVCMBMode
  subMbMode :: "AVCSubMBMode list"
  CBP :: uint
  i16Mode :: int
  i4Mode :: "int list"
  NumMbPart :: nat
  MbPartWidth :: nat
  MbPartHeight :: nat
  NumSubMbPart :: "nat list"
  SubMbPartWidth :: "nat list"
  SubMbPartHeight :: "nat list"
  nz_coeff :: "int list"
  mb_QPy :: int
  mb_QPc :: int
  slice_id :: int

text \<open>The address of the current macroblock (\<open>currMB\<close>) is its index in \<open>mblock\<close>.\<close>

record AVCMbObj =
  mblock :: "AVCMacroblock list"
  currMbAddr :: nat
  mb_x :: int
  mb_y :: int
  mbAddrA :: int
  mbAddrB :: int
  mbAddrC :: int
  mbAddrD :: int
  mbAvailA :: bool
  mbAvailB :: bool
  mbAvailC :: bool
  mbAvailD :: bool
  intraAvailA :: bool
  intraAvailB :: bool
  intraAvailC :: bool
  intraAvailD :: bool
  mvd_l0 :: "mv list list"
  mb_skip_run :: int
  QPy :: int
  QPc :: int
  v_QPy_div_6 :: int
  v_QPy_mod_6 :: int
  v_QPc_div_6 :: int
  v_QPc_mod_6 :: int
  mb_block :: "int list"
  cbp4x4 :: uint

text \<open>What the macroblock layer reads of the slice header, of the picture parameter set and of the reference lists.\<close>

record AVCSliceCtx =
  ctx_slice_type :: int
  ctx_num_ref_idx_l0_active_minus1 :: uint
  ctx_refList0Size :: int
  ctx_RefIdx :: "int list"
  ctx_constrained_intra_pred_flag :: bool
  ctx_chroma_qp_index_offset :: int

definition currMB :: "AVCMbObj \<Rightarrow> AVCMacroblock" where
  "currMB ob = mblock ob ! currMbAddr ob"

definition upd_currMB :: "(AVCMacroblock \<Rightarrow> AVCMacroblock) \<Rightarrow> AVCMbObj \<Rightarrow> AVCMbObj" where
  "upd_currMB f ob = ob\<lparr>mblock := (mblock ob)[currMbAddr ob := f (currMB ob)]\<rparr>"

definition blank_mb :: AVCMacroblock where
  "blank_mb = \<lparr>intra_chroma_pred_mode = 0, mvL0 = replicate 16 (0, 0), ref_idx_L0 = replicate 4 0, RefIdxs = replicate 4 0,
     mb_intra = False, mbMode = AVC_P16, subMbMode = replicate 4 AVC_8x8, CBP = 0, i16Mode = 0, i4Mode = replicate 16 0,
     NumMbPart = 1, MbPartWidth = 16, MbPartHeight = 16, NumSubMbPart = [1, 0, 0, 0], SubMbPartWidth = [16, 0, 0, 0],
     SubMbPartHeight = [16, 0, 0, 0], nz_coeff = replicate 24 0, mb_QPy = 0, mb_QPc = 0, slice_id = 0\<rparr>"

text \<open>Chroma quantisation parameter of a luma quantisation parameter.\<close>

definition mapQPi2QPc :: "int list" where
  "mapQPi2QPc = [0, 1, 2, 3, 4, 5, 6, 7, 8, 9, 10, 11, 12, 13, 14, 15, 16, 17, 18, 19, 20, 21, 22, 23, 24, 25, 26, 27, 28, 29,
     29, 30, 31, 32, 32, 33, 34, 34, 35, 35, 36, 36, 37, 37, 37, 38, 38, 38, 39, 39, 39, 39]"

end
