(* ===== verification/DecVlc.thy ===== *)
theory DecVlc
  imports NalUnit ExpGolomb MbData
begin

text \<open>
  The decoder's entropy decoding, \<open>codecs_v2/video/avc_h264/dec/src/vlc.cpp\<close> with \<open>PV_NO_CLZ\<close> defined as
  the file defines it: Exp-Golomb elements, the coded block pattern and the CAVLC tables. A function
  whose only status is \<open>AVCDEC_SUCCESS\<close> returns its output and the stream.
\<close>

section \<open>Counting leading zeros\<close>

text \<open>
  The macro \<open>PV_CLZ\<close>, a loop without a bound: it does not end when the low sixteen bits of \<open>B\<close> are
  zero, which is the value \<open>None\<close>.
\<close>

partial_function (option) PV_CLZ :: "int \<Rightarrow> uint \<Rightarrow> int option" where
  [code]: "PV_CLZ A B = (if B AND 0x8000 = 0 then PV_CLZ (A + 1) (push_bit 1 B) else Some A)"

lemma and_8000: "(w :: uint) AND 0x8000 = 0 \<longleftrightarrow> \<not> bit w 15"
  using and_exp_eq_0_iff_not_bit [of w 15] by simp

lemma PV_CLZ_spec:
  assumes "k \<le> 15" and "\<And>i. i < k \<Longrightarrow> \<not> bit w (15 - i)" and "bit w (15 - k)"
  shows "PV_CLZ a w = Some (a + int k)"
  using assms
proof (induction k arbitrary: a w)
  case 0
  then show ?case by (simp add: PV_CLZ.simps [of a w] and_8000)
next
  case (Suc k)
  have step: "bit (push_bit 1 w) (15 - i) = bit w (15 - Suc i)" if "i < 15" for i
    using that unfolding bit_push_bit_iff by auto
  have "PV_CLZ (a + 1) (push_bit 1 w) = Some (a + 1 + int k)"
  proof (rule Suc.IH)
    show "\<not> bit (push_bit 1 w) (15 - i)" if "i < k" for i
      unfolding step [OF less_le_trans [OF that Suc_leD [OF Suc.prems(1)]]]
      by (rule Suc.prems(2)) (use that in simp)
    show "bit (push_bit 1 w) (15 - k)" using step [of k] Suc.prems(1,3) by simp
  qed (use Suc.prems(1) in simp)
  then show ?case
    using Suc.prems(2) [of 0] by (subst PV_CLZ.simps) (simp add: and_8000)
qed

text \<open>A sixteen-bit word with the stop bit set always ends the count, at fifteen at most.\<close>

lemma bit_bits_word:
  assumes "length bs \<le> 32"
  shows "bit (bits_word bs) i \<longleftrightarrow> i < length bs \<and> bs ! (length bs - 1 - i)"
proof (cases "i < length bs")
  case True
  have "bs ! (length bs - 1 - i) = nat_bits (length bs) (bits_val bs) ! (length bs - 1 - i)"
    by (simp add: nat_bits_bits_val)
  also have "\<dots> = bit (bits_val bs) i" using True by simp
  finally show ?thesis using True assms by (simp add: bits_word_def bit_of_nat_iff)
next
  case False
  have "bits_val bs < 2 ^ i"
    using bits_val_less [of bs] False by (meson less_le_trans not_less one_le_numeral power_increasing)
  then have "\<not> bit (bits_val bs) i" by (simp add: bit_iff_odd)
  then show ?thesis using False by (simp add: bits_word_def bit_of_nat_iff)
qed

lemma bit_one_uint: "bit (1 :: uint) i \<longleftrightarrow> i = 0"
  by (auto simp: bit_1_iff)

lemma PV_CLZ_shown:
  assumes "length t = 15 - k" and "k \<le> 15"
  shows "PV_CLZ a (bits_word (replicate k False @ True # t) OR 1) = Some (a + int k)"
proof (rule PV_CLZ_spec [OF assms(2)])
  let ?bs = "replicate k False @ True # t"
  have len: "length ?bs = 16" using assms by simp
  have bit: "bit (bits_word ?bs OR 1) (15 - i) \<longleftrightarrow> ?bs ! i \<or> i = 15" if "i \<le> 15" for i
    using that len by (auto simp: bit_or_iff bit_bits_word bit_one_uint)
  show "\<not> bit (bits_word ?bs OR 1) (15 - i)" if "i < k" for i
    using that assms(2) by (simp add: bit nth_append)
  show "bit (bits_word ?bs OR 1) (15 - k)"
    using assms(2) by (simp add: bit nth_append)
qed

lemma PV_CLZ_zero: "PV_CLZ a (bits_word (replicate 16 False) OR 1) = Some (a + 15)"
  using PV_CLZ_spec [of 15 1 a] by (simp add: bits_word_def bit_one_uint)

lemma drop_bit_bits_word:
  assumes "length (bs @ t) \<le> 32"
  shows "drop_bit (length t) (bits_word (bs @ t)) = bits_word bs"
  by (rule bit_word_eqI)
    (use assms in \<open>auto simp: bit_drop_bit_eq bit_bits_word nth_append\<close>)

section \<open>Exp-Golomb elements\<close>

definition ue_v :: "AVCDecBitstream \<Rightarrow> (uint \<times> AVCDecBitstream) option" where
  "ue_v s =
     do { (temp, s1) \<leftarrow> BitstreamShowBits s 16;
          lz \<leftarrow> PV_CLZ 0 (temp OR 0x1);
          if lz < 8 then
            do { t \<leftarrow> shr32 temp (15 - lz * 2);
                 s2 \<leftarrow> BitstreamFlushBits s1 (lz * 2 + 1);
                 Some (t - 1, s2) }
          else
            do { (t, s2) \<leftarrow> BitstreamReadBits s1 (lz * 2 + 1);
                 Some (t - 1, s2) } }"

definition se_v :: "AVCDecBitstream \<Rightarrow> (int \<times> AVCDecBitstream) option" where
  "se_v s =
     do { (temp, s1) \<leftarrow> BitstreamShowBits s 16;
          lz \<leftarrow> PV_CLZ 0 (temp OR 0x1);
          (t, s2) \<leftarrow> (if lz < 8 then
                        do { t \<leftarrow> shr32 temp (15 - lz * 2);
                             s2 \<leftarrow> BitstreamFlushBits s1 (lz * 2 + 1);
                             Some (t, s2) }
                      else BitstreamReadBits s1 (lz * 2 + 1));
          let v = c_int (uint (drop_bit 1 t));
          Some (if t AND 0x01 \<noteq> 0 then - v else v, s2) }"

definition te_v :: "AVCDecBitstream \<Rightarrow> uint \<Rightarrow> (uint \<times> AVCDecBitstream) option" where
  "te_v s rng =
     (if rng > 1 then ue_v s
      else do { (v, s1) \<leftarrow> BitstreamRead1Bit s; Some (1 - v, s1) })"

text \<open>The loop of \<open>GetEGBitstring32bit\<close> over the zero bits, also without a bound.\<close>

partial_function (option) count_zero_bits :: "AVCDecBitstream \<Rightarrow> int \<Rightarrow> (int \<times> AVCDecBitstream) option" where
  [code]: "count_zero_bits s lz =
     do { (bit_value, s1) \<leftarrow> BitstreamRead1Bit s;
          if bit_value = 0 then count_zero_bits s1 (lz + 1) else Some (lz, s1) }"

definition GetEGBitstring32bit :: "AVCDecBitstream \<Rightarrow> (int \<times> uint \<times> AVCDecBitstream) option" where
  "GetEGBitstring32bit s =
     do { (lz, s1) \<leftarrow> count_zero_bits s 0;
          if lz > 0 then
            do { (info, s2) \<leftarrow> BitstreamReadBits s1 lz;
                 Some (lz, info, s2) }
          else Some (lz, 0, s1) }"

definition se_v32bit :: "AVCDecBitstream \<Rightarrow> (int \<times> AVCDecBitstream) option" where
  "se_v32bit s =
     do { (lz, infobits, s1) \<leftarrow> GetEGBitstring32bit s;
          one \<leftarrow> shl32 1 lz;
          let codeNum = one - 1 + infobits;
          let v = c_int (uint ((codeNum + 1) div 2));
          Some (if codeNum AND 0x01 = 0 then - v else v, s1) }"

subsection \<open>Decoding a code word\<close>

lemma eg_read:
  assumes inv: "dec_inv s" and bits: "dec_bits s = eg_bits k @ rest" and k: "k + 1 < 2 ^ 16"
  obtains lz temp s1 s2 where "BitstreamShowBits s 16 = Some (temp, s1)"
    and "PV_CLZ 0 (temp OR 1) = Some (int lz)"
    and "lz < 8 \<Longrightarrow> shr32 temp (15 - int lz * 2) = Some (of_nat (k + 1))"
    and "lz < 8 \<Longrightarrow> BitstreamFlushBits s1 (int lz * 2 + 1) = Some s2"
    and "8 \<le> lz \<Longrightarrow> BitstreamReadBits s1 (int lz * 2 + 1) = Some (of_nat (k + 1), s2)"
    and "dec_inv s2" and "dec_bits s2 = rest"
proof -
  let ?bs = "eg_bits k"
  define lz where "lz = bit_length (k + 1) - 1"
  have lz: "lz \<le> 15" using bit_length_le [OF k] by (simp add: lz_def)
  have len: "length ?bs = 2 * lz + 1" by (simp add: length_eg_bits lz_def)
  have val: "bits_word ?bs = of_nat (k + 1)" by (simp only: bits_word_def bits_val_eg)
  have shape: "?bs = replicate lz False @ True # nat_bits lz (k + 1)"
    using eg_bits_shape [of k] by (simp only: lz_def)
  define shown where "shown = take 16 (dec_bits s @ replicate 16 False)"
  obtain s1 where s1: "BitstreamShowBits s 16 = Some (bits_word shown, s1)" "dec_inv s1" "dec_bits s1 = dec_bits s"
      "min 16 (length (dec_bits s)) \<le> nat (incnt s1)"
    using dec.sh_law [OF inv, of 16] by (auto simp: shown_def)
  define t where "t = take (15 - lz) (nat_bits lz (k + 1) @ rest @ replicate 16 False)"
  have "shown = replicate lz False @ True # t"
    using lz by (simp add: shown_def bits shape t_def take_Cons')
  moreover have "length t = 15 - lz" by (simp add: t_def)
  ultimately have clz: "PV_CLZ 0 (bits_word shown OR 1) = Some (int lz)"
    using PV_CLZ_shown [of t lz 0] lz by simp
  show thesis
  proof (cases "lz < 8")
    case True
    define u where "u = take (15 - 2 * lz) (rest @ replicate 16 False)"
    have u: "shown = ?bs @ u" "length u = 15 - 2 * lz"
      using True len by (simp_all add: shown_def bits u_def)
    have "nat (15 - int lz * 2) = length u" using u(2) True by simp
    then have shr: "shr32 (bits_word shown) (15 - int lz * 2) = Some (of_nat (k + 1))"
      using True drop_bit_bits_word [of ?bs u] u len val by simp
    have "2 * lz + 1 \<le> 31" "2 * lz + 1 \<le> nat (incnt s1)" using True s1(4) bits len by simp_all
    from dec.fl_law [OF s1(2) this] obtain s2 where s2:
      "BitstreamFlushBits s1 (int (2 * lz + 1)) = Some s2" "dec_inv s2" "dec_bits s2 = drop (2 * lz + 1) (dec_bits s1)"
      by blast
    have i: "int (2 * lz + 1) = int lz * 2 + 1" by simp
    show thesis
      using that [OF s1(1) clz _ _ _ s2(2)] shr s2(1) [unfolded i] s2(3) s1(3) bits len True by simp
  next
    case False
    have "1 \<le> 2 * lz + 1" "2 * lz + 1 \<le> 31" "2 * lz + 1 \<le> length (dec_bits s1)"
      using lz s1(3) bits len by simp_all
    from dec.rd_law [OF s1(2) this] obtain s2 where s2:
      "BitstreamReadBits s1 (int (2 * lz + 1)) = Some (bits_word (take (2 * lz + 1) (dec_bits s1)), s2)"
      "dec_inv s2" "dec_bits s2 = drop (2 * lz + 1) (dec_bits s1)"
      by blast
    have i: "int (2 * lz + 1) = int lz * 2 + 1" by simp
    show thesis
      using that [OF s1(1) clz _ _ _ s2(2)] s2(1) [unfolded i] s2(3) s1(3) bits len val False by simp
  qed
qed

lemma ue_v_consumes [consume_intros]:
  assumes "k < 65535"
  shows "consumes dec_inv dec_bits ue_v (eg_bits k) (of_nat k)"
proof (rule consumesI)
  fix s rest assume s: "dec_inv s" "dec_bits s = eg_bits k @ rest"
  have k: "k + 1 < 2 ^ 16" using assms by simp
  show "\<exists>s'. ue_v s = Some (of_nat k, s') \<and> dec_inv s' \<and> dec_bits s' = rest"
  proof (rule eg_read [OF s k])
    fix lz temp s1 s2
    assume "BitstreamShowBits s 16 = Some (temp, s1)" "PV_CLZ 0 (temp OR 1) = Some (int lz)"
      "lz < 8 \<Longrightarrow> shr32 temp (15 - int lz * 2) = Some (of_nat (k + 1))"
      "lz < 8 \<Longrightarrow> BitstreamFlushBits s1 (int lz * 2 + 1) = Some s2"
      "8 \<le> lz \<Longrightarrow> BitstreamReadBits s1 (int lz * 2 + 1) = Some (of_nat (k + 1), s2)"
      "dec_inv s2" "dec_bits s2 = rest"
    then show ?thesis by (cases "lz < 8") (simp_all add: ue_v_def)
  qed
qed

lemma odd_of_nat_uint: "(of_nat n :: uint) AND 1 = 0 \<longleftrightarrow> even n"
  using and_exp_eq_0_iff_not_bit [of "of_nat n :: uint" 0] by (simp add: bit_of_nat_iff bit_0)

lemma se_v_value:
  assumes "\<bar>v\<bar> < 32768"
  defines "t \<equiv> of_nat (se_num v + 1) :: uint"
  shows "(if t AND 1 \<noteq> 0 then - c_int (uint (drop_bit 1 t)) else c_int (uint (drop_bit 1 t))) = v"
proof -
  let ?k = "se_num v"
  have k: "?k + 1 < 2 ^ 16" using assms by (auto simp: se_num_def)
  have half: "uint (drop_bit 1 t) = int ((?k + 1) div 2)"
  proof -
    have "unat t = ?k + 1" using k unfolding t_def
      by (simp add: unat_of_nat take_bit_eq_mod del: of_nat_Suc of_nat_add)
    then have "unat (drop_bit 1 t) = (?k + 1) div 2"
      by (simp only: unat_drop_bit_eq [of 1 t]) (simp add: drop_bit_Suc)
    then show ?thesis by (simp only: uint_nat)
  qed
  have "int ((?k + 1) div 2) < 2147483648" using k by simp
  then have ci: "c_int (int ((?k + 1) div 2)) = int ((?k + 1) div 2)" by (intro c_int_id) simp_all
  have par: "t AND 1 = 0 \<longleftrightarrow> even (?k + 1)" unfolding t_def by (rule odd_of_nat_uint)
  show ?thesis
  proof (cases "v \<le> 0")
    case True
    then have "?k = 2 * nat (- v)" by (simp add: se_num_def)
    then show ?thesis unfolding half ci par using True by simp
  next
    case False
    then have "?k + 1 = 2 * nat v" by (simp add: se_num_def)
    then show ?thesis unfolding half ci par using False by simp
  qed
qed

lemma se_v_consumes [consume_intros]:
  assumes "\<bar>v\<bar> < 32768"
  shows "consumes dec_inv dec_bits se_v (eg_bits (se_num v)) v"
proof (rule consumesI)
  let ?k = "se_num v"
  fix s rest assume s: "dec_inv s" "dec_bits s = eg_bits ?k @ rest"
  have k: "?k + 1 < 2 ^ 16" using assms by (auto simp: se_num_def)
  show "\<exists>s'. se_v s = Some (v, s') \<and> dec_inv s' \<and> dec_bits s' = rest"
  proof (rule eg_read [OF s k])
    fix lz temp s1 s2
    define w where "w = (of_nat (?k + 1) :: uint)"
    have v: "(if w AND 1 \<noteq> 0 then - c_int (uint (drop_bit 1 w)) else c_int (uint (drop_bit 1 w))) = v"
      using se_v_value [OF assms] by (simp only: w_def)
    assume "BitstreamShowBits s 16 = Some (temp, s1)" "PV_CLZ 0 (temp OR 1) = Some (int lz)"
      "lz < 8 \<Longrightarrow> shr32 temp (15 - int lz * 2) = Some (of_nat (?k + 1))"
      "lz < 8 \<Longrightarrow> BitstreamFlushBits s1 (int lz * 2 + 1) = Some s2"
      "8 \<le> lz \<Longrightarrow> BitstreamReadBits s1 (int lz * 2 + 1) = Some (of_nat (?k + 1), s2)"
      "dec_inv s2" "dec_bits s2 = rest"
    then show ?thesis
      using v unfolding w_def [symmetric] by (cases "lz < 8") (simp_all add: se_v_def Let_def del: One_nat_def split: if_splits)
  qed
qed

end
