(* ===== verification/EncBitstream.thy ===== *)
theory EncBitstream
  imports NalUnit
begin

text \<open>
  The encoder's bitstream writer, \<open>codecs_v2/video/avc_h264/enc/src/bitstream_io.cpp\<close>: bits are
  gathered in \<open>current_word\<close>, a full word goes to the buffer byte by byte with an emulation prevention
  byte after every second zero, and when the buffer is full the overrun buffer of the encoder object
  takes over. Buffers are blocks of a heap (the two pointers may name the same block), and the
  application's \<open>CBAVC_Malloc\<close> is the parameter \<open>malloc\<close>. \<open>enc_bits\<close> is the abstract value, the bits
  written so far.
\<close>

datatype AVCEnc_Status =
    AVCENC_TRAILINGONES_FAIL | AVCENC_SLICE_EMPTY | AVCENC_POC_FAIL | AVCENC_CONSECUTIVE_NONREF
   | AVCENC_CABAC_FAIL | AVCENC_PRED_WEIGHT_TAB_FAIL | AVCENC_DEC_REF_PIC_MARK_FAIL
   | AVCENC_SPS_FAIL | AVCENC_BITSTREAM_BUFFER_FULL | AVCENC_BITSTREAM_INIT_FAIL
   | AVCENC_CHROMA_QP_FAIL | AVCENC_INIT_QS_FAIL | AVCENC_INIT_QP_FAIL | AVCENC_WEIGHTED_BIPRED_FAIL
   | AVCENC_INVALID_INTRA_PERIOD | AVCENC_INVALID_CHANGE_RATE | AVCENC_INVALID_BETA_OFFSET
   | AVCENC_INVALID_ALPHA_OFFSET | AVCENC_INVALID_DEBLOCK_IDC | AVCENC_INVALID_REDUNDANT_PIC
   | AVCENC_INVALID_FRAMERATE | AVCENC_INVALID_NUM_SLICEGROUP | AVCENC_INVALID_POC_LSB
   | AVCENC_INVALID_NUM_REF | AVCENC_INVALID_FMO_TYPE | AVCENC_ENCPARAM_MEM_FAIL
   | AVCENC_LEVEL_NOT_SUPPORTED | AVCENC_LEVEL_FAIL | AVCENC_PROFILE_NOT_SUPPORTED
   | AVCENC_TOOLS_NOT_SUPPORTED | AVCENC_WRONG_STATE | AVCENC_UNINITIALIZED
   | AVCENC_ALREADY_INITIALIZED | AVCENC_NOT_SUPPORTED | AVCENC_MEMORY_FAIL | AVCENC_FAIL
   | AVCENC_SUCCESS | AVCENC_PICTURE_READY | AVCENC_NEW_IDR | AVCENC_SKIPPED_PICTURE

type_synonym addr = nat
type_synonym heap = "addr \<Rightarrow> uint8 list option"
type_synonym malloc = "heap \<Rightarrow> int \<Rightarrow> (addr \<times> heap) option"

text \<open>
  The stream, with the two fields of the encoder object it reaches through \<open>encvid\<close> and the heap.
\<close>

record AVCEncBitstream =
  mem :: heap
  bitstreamBuffer :: addr
  buf_size :: int
  write_pos :: int
  count_zeros :: int
  current_word :: uint
  bit_left :: int
  overrunBuffer :: "addr option"
  oBSize :: int
  encvid_overrunBuffer :: "addr option"
  encvid_oBSize :: int

section \<open>The operations\<close>

definition WORD_SIZE :: int where
  "WORD_SIZE = 32"

definition enc_trailing_bits :: "uint list" where
  "enc_trailing_bits = [0, 0x1, 0x2, 0x4, 0x8, 0x10, 0x20, 0x40, 0x80]"

definition BitstreamEncInit ::
  "AVCEncBitstream \<Rightarrow> addr option \<Rightarrow> int \<Rightarrow> addr option \<Rightarrow> int \<Rightarrow> AVCEnc_Status \<times> AVCEncBitstream" where
  "BitstreamEncInit stream buffer bufsz overrun oBS =
     (case buffer of
        None \<Rightarrow> (AVCENC_BITSTREAM_INIT_FAIL, stream)
      | Some b \<Rightarrow>
          if bufsz \<le> 0 then (AVCENC_BITSTREAM_INIT_FAIL, stream)
          else (AVCENC_SUCCESS,
                stream\<lparr>bitstreamBuffer := b, buf_size := bufsz, write_pos := 0, count_zeros := 0,
                       current_word := 0, bit_left := WORD_SIZE, overrunBuffer := overrun,
                       oBSize := oBS\<rparr>))"

text \<open>\<open>oscl_memcpy(dst, src, n)\<close> on distinct blocks; reading or writing past a block is \<open>None\<close>.\<close>

definition oscl_memcpy :: "heap \<Rightarrow> addr \<Rightarrow> addr \<Rightarrow> int \<Rightarrow> heap option" where
  "oscl_memcpy h dst src n =
     do { d \<leftarrow> h dst;
          s \<leftarrow> h src;
          if 0 \<le> n \<and> nat n \<le> length d \<and> nat n \<le> length s
          then Some (h(dst := Some (take (nat n) s @ drop (nat n) d)))
          else None }"

definition CBAVC_Free :: "heap \<Rightarrow> addr \<Rightarrow> heap" where
  "CBAVC_Free h a = h(a := None)"

definition grown_size :: "int \<Rightarrow> int \<Rightarrow> int" where
  "grown_size wpos extra = (wpos + extra + 100) AND (NOT 3)"

definition AVCBitstreamUseOverrunBuffer ::
  "malloc \<Rightarrow> AVCEncBitstream \<Rightarrow> int \<Rightarrow> (AVCEnc_Status \<times> AVCEncBitstream) option" where
  "AVCBitstreamUseOverrunBuffer malloc s numExtraBytes =
     (case overrunBuffer s of
        None \<Rightarrow> Some (AVCENC_FAIL, s)
      | Some ob \<Rightarrow>
          if bitstreamBuffer s \<noteq> ob then
            let use_it = (\<lambda>t. case overrunBuffer t of
                    None \<Rightarrow> Some (AVCENC_FAIL, t)
                  | Some o1 \<Rightarrow>
                      do { h \<leftarrow> oscl_memcpy (mem t) o1 (bitstreamBuffer t) (write_pos t);
                           Some (AVCENC_SUCCESS,
                                 t\<lparr>mem := h, bitstreamBuffer := o1, buf_size := oBSize t\<rparr>) })
            in if write_pos s + numExtraBytes \<ge> oBSize s then
                 let sz = grown_size (write_pos s) numExtraBytes;
                     h = (case encvid_overrunBuffer s of None \<Rightarrow> mem s | Some e \<Rightarrow> CBAVC_Free (mem s) e)
                 in (case malloc h sz of
                       None \<Rightarrow> use_it (s\<lparr>mem := h, oBSize := sz, encvid_oBSize := sz,
                                        encvid_overrunBuffer := None, overrunBuffer := None\<rparr>)
                     | Some (a, h') \<Rightarrow>
                         use_it (s\<lparr>mem := h', oBSize := sz, encvid_oBSize := sz,
                                   encvid_overrunBuffer := Some a, overrunBuffer := Some a\<rparr>))
               else use_it s
          else
            let sz = grown_size (write_pos s) numExtraBytes
            in (case malloc (mem s) sz of
                  None \<Rightarrow> Some (AVCENC_FAIL, s\<lparr>oBSize := sz, encvid_oBSize := sz, encvid_overrunBuffer := None\<rparr>)
                | Some (a, h) \<Rightarrow>
                    do { h1 \<leftarrow> oscl_memcpy h a ob (write_pos s);
                         Some (AVCENC_SUCCESS,
                               s\<lparr>mem := CBAVC_Free h1 ob, oBSize := sz, encvid_oBSize := sz,
                                 encvid_overrunBuffer := Some a, overrunBuffer := Some a,
                                 bitstreamBuffer := a, buf_size := sz\<rparr>) }))"

text \<open>One byte through \<open>*write_pnt++ = b; stream->write_pos++\<close>.\<close>

definition put_byte :: "AVCEncBitstream \<Rightarrow> uint8 \<Rightarrow> AVCEncBitstream option" where
  "put_byte s b =
     do { buf \<leftarrow> mem s (bitstreamBuffer s);
          if 0 \<le> write_pos s \<and> write_pos s < int (length buf)
          then Some (s\<lparr>mem := (mem s)(bitstreamBuffer s := Some (buf[nat (write_pos s) := b])),
                       write_pos := write_pos s + 1\<rparr>)
          else None }"

text \<open>The loop over the bytes of \<open>current_word\<close>, \<open>nb\<close> of them left.\<close>

fun save_bytes :: "AVCEncBitstream \<Rightarrow> uint \<Rightarrow> nat \<Rightarrow> AVCEncBitstream option" where
  "save_bytes s cw 0 = Some s"
| "save_bytes s cw (Suc nb) =
     (let byte = (ucast (drop_bit (8 * nb) cw AND 0xFF) :: uint8)
      in if byte \<noteq> 0 then
           do { s1 \<leftarrow> put_byte s byte;
                save_bytes (s1\<lparr>count_zeros := 0\<rparr>) cw nb }
         else
           do { s1 \<leftarrow> put_byte (s\<lparr>count_zeros := count_zeros s + 1\<rparr>) byte;
                s2 \<leftarrow> (if count_zeros s1 = 2
                       then do { t \<leftarrow> put_byte s1 0x3; Some (t\<lparr>count_zeros := 0\<rparr>) }
                       else Some s1);
                save_bytes s2 cw nb })"

definition AVCBitstreamSaveWord ::
  "malloc \<Rightarrow> AVCEncBitstream \<Rightarrow> (AVCEnc_Status \<times> AVCEncBitstream) option" where
  "AVCBitstreamSaveWord malloc s =
     (let num_bits = WORD_SIZE - bit_left s;
          save = (\<lambda>t. do { t1 \<leftarrow> save_bytes t (current_word t) (nat (num_bits div 8));
                           Some (AVCENC_SUCCESS, t1\<lparr>current_word := 0, bit_left := WORD_SIZE\<rparr>) })
      in if num_bits < 0 \<or> num_bits mod 8 \<noteq> 0 then None
         else if buf_size s - write_pos s \<le> num_bits div 8 + 2 then
           do { (st, t) \<leftarrow> AVCBitstreamUseOverrunBuffer malloc s (num_bits div 8 + 2);
                if st \<noteq> AVCENC_SUCCESS then Some (AVCENC_BITSTREAM_BUFFER_FULL, t) else save t }
         else save s)"

definition BitstreamWriteBits ::
  "malloc \<Rightarrow> AVCEncBitstream \<Rightarrow> int \<Rightarrow> uint \<Rightarrow> (AVCEnc_Status \<times> AVCEncBitstream) option" where
  "BitstreamWriteBits malloc s nBits code =
     (if nBits > WORD_SIZE then Some (AVCENC_FAIL, s)
      else if nBits \<le> bit_left s then
        do { w \<leftarrow> shl32 (current_word s) nBits;
             let s1 = s\<lparr>current_word := w OR code, bit_left := bit_left s - nBits\<rparr>;
             if bit_left s1 = 0 then AVCBitstreamSaveWord malloc s1
             else Some (AVCENC_SUCCESS, s1) }
      else
        do { w \<leftarrow> shl32 (current_word s) (bit_left s);
             c \<leftarrow> shr32 code (nBits - bit_left s);
             let n1 = nBits - bit_left s;
             (st, s1) \<leftarrow> AVCBitstreamSaveWord malloc (s\<lparr>current_word := w OR c, bit_left := 0\<rparr>);
             Some (st, s1\<lparr>bit_left := WORD_SIZE - n1, current_word := code\<rparr>) })"

definition BitstreamWrite1Bit ::
  "malloc \<Rightarrow> AVCEncBitstream \<Rightarrow> uint \<Rightarrow> (AVCEnc_Status \<times> AVCEncBitstream) option" where
  "BitstreamWrite1Bit malloc s code =
     (let s1 = s\<lparr>current_word := push_bit 1 (current_word s) OR code, bit_left := bit_left s - 1\<rparr>
      in if bit_left s1 = 0 then AVCBitstreamSaveWord malloc s1 else Some (AVCENC_SUCCESS, s1))"

definition BitstreamTrailingBits ::
  "malloc \<Rightarrow> AVCEncBitstream \<Rightarrow> (AVCEnc_Status \<times> AVCEncBitstream) option" where
  "BitstreamTrailingBits malloc s =
     (let b0 = bit_left s AND 0x7;
          b = (if b0 = 0 then 8 else b0)
      in do { c \<leftarrow> nth_opt enc_trailing_bits b;
              (st, s1) \<leftarrow> BitstreamWriteBits malloc s b c;
              if st \<noteq> AVCENC_SUCCESS then Some (st, s1) else AVCBitstreamSaveWord malloc s1 })"

definition byte_aligned :: "AVCEncBitstream \<Rightarrow> bool" where
  "byte_aligned s \<longleftrightarrow> bit_left s mod 8 = 0"

section \<open>Invariant and abstract value\<close>

definition enc_mem :: "AVCEncBitstream \<Rightarrow> uint8 list \<Rightarrow> nat \<Rightarrow> bool" where
  "enc_mem s ws len \<longleftrightarrow>
     (case mem s (bitstreamBuffer s) of
        None \<Rightarrow> False
      | Some buf \<Rightarrow> length buf = len \<and> write_pos s = int (length ws) \<and> length ws \<le> len
                      \<and> take (length ws) buf = ws)"

definition enc_written :: "AVCEncBitstream \<Rightarrow> uint8 list" where
  "enc_written s =
     (case mem s (bitstreamBuffer s) of None \<Rightarrow> [] | Some buf \<Rightarrow> take (nat (write_pos s)) buf)"

definition enc_capacity :: "AVCEncBitstream \<Rightarrow> nat" where
  "enc_capacity s = (case mem s (bitstreamBuffer s) of None \<Rightarrow> 0 | Some buf \<Rightarrow> length buf)"

definition enc_payload :: "AVCEncBitstream \<Rightarrow> uint8 list" where
  "enc_payload s = unesc 0 (enc_written s)"

definition enc_bits :: "AVCEncBitstream \<Rightarrow> bool list" where
  "enc_bits s = bytes_bits (enc_payload s) @ nat_bits (nat (32 - bit_left s)) (unat (current_word s))"

text \<open>Everything but the range of \<open>bit_left\<close>: what is between the operations and inside them.\<close>

definition enc_core :: "AVCEncBitstream \<Rightarrow> bool" where
  "enc_core s \<longleftrightarrow> enc_mem s (esc 0 (enc_payload s)) (enc_capacity s)
     \<and> count_zeros s = int (zeros_after 0 (enc_payload s)) \<and> buf_size s \<le> int (enc_capacity s)"

definition enc_inv :: "AVCEncBitstream \<Rightarrow> bool" where
  "enc_inv s \<longleftrightarrow> enc_core s \<and> 1 \<le> bit_left s \<and> bit_left s \<le> 32"

text \<open>
  A full word takes at most six bytes, and is accepted while more than six are free.
\<close>

definition enc_room :: "AVCEncBitstream \<Rightarrow> nat" where
  "enc_room s = nat (32 * ((buf_size s - write_pos s - 1) div 6) + bit_left s - 1)"

lemma enc_memD:
  assumes "enc_mem s ws len"
  shows "enc_written s = ws" "enc_capacity s = len" "write_pos s = int (length ws)" "length ws \<le> len"
  using assms by (auto simp: enc_mem_def enc_written_def enc_capacity_def split: option.splits)

lemma enc_mem_payload: "enc_mem s (esc 0 p) len \<Longrightarrow> enc_payload s = p"
  by (simp add: enc_payload_def enc_memD(1) unesc_esc)

lemma enc_core_iff:
  "enc_core s \<longleftrightarrow> (\<exists>p. enc_mem s (esc 0 p) (enc_capacity s) \<and> count_zeros s = int (zeros_after 0 p)
     \<and> buf_size s \<le> int (enc_capacity s))"
  unfolding enc_core_def by (metis enc_mem_payload)

section \<open>Saving a word\<close>

lemma put_byte_spec:
  assumes "enc_mem s ws len" and "length ws < len"
  shows "\<exists>m. put_byte s b = Some (s\<lparr>mem := m, write_pos := int (length ws + 1)\<rparr>)
     \<and> enc_mem (s\<lparr>mem := m, write_pos := int (length ws + 1)\<rparr>) (ws @ [b]) len"
proof -
  obtain buf where buf: "mem s (bitstreamBuffer s) = Some buf" "length buf = len"
      "write_pos s = int (length ws)" "take (length ws) buf = ws"
    using assms(1) by (auto simp: enc_mem_def split: option.splits)
  have "take (Suc (length ws)) (buf[length ws := b]) = ws @ [b]"
    using assms(2) buf by (simp add: take_Suc_conv_app_nth)
  then show ?thesis using assms(2) buf
    by (intro exI [of _ "(mem s)(bitstreamBuffer s \<mapsto> buf[length ws := b])"])
      (simp add: put_byte_def enc_mem_def)
qed

fun word_bytes :: "uint \<Rightarrow> nat \<Rightarrow> uint8 list" where
  "word_bytes cw 0 = []"
| "word_bytes cw (Suc nb) = ucast (drop_bit (8 * nb) cw AND 0xFF) # word_bytes cw nb"

lemma length_word_bytes [simp]: "length (word_bytes cw nb) = nb"
  by (induction nb) simp_all

lemma enc_mem_cong:
  "bitstreamBuffer s = bitstreamBuffer t \<Longrightarrow> mem s = mem t \<Longrightarrow> write_pos s = write_pos t
     \<Longrightarrow> enc_mem s ws len = enc_mem t ws len"
  by (simp add: enc_mem_def split: option.split)

lemma save_bytes_spec:
  assumes "enc_mem s ws len" and "count_zeros s = int c" and "c \<le> 1"
    and "length ws + length (esc c (word_bytes cw nb)) \<le> len"
  shows "\<exists>m. let s' = s\<lparr>mem := m, write_pos := int (length ws + length (esc c (word_bytes cw nb))),
        count_zeros := int (zeros_after c (word_bytes cw nb))\<rparr>
     in save_bytes s cw nb = Some s' \<and> enc_mem s' (ws @ esc c (word_bytes cw nb)) len"
  using assms
proof (induction nb arbitrary: s ws c)
  case 0
  then show ?case by (auto simp: Let_def enc_mem_def split: option.splits intro!: exI [of _ "mem s"])
next
  case (Suc nb)
  define b :: uint8 where "b = ucast (drop_bit (8 * nb) cw AND 0xFF)"
  consider "b \<noteq> 0" | "b = 0" "c = 0" | "b = 0" "c = 1" using Suc.prems(3) by linarith
  then show ?case
  proof cases
    case 1
    have "length ws < len" using Suc.prems(4) 1 by (simp flip: b_def)
    from put_byte_spec [OF Suc.prems(1) this, of b] obtain m where m:
      "put_byte s b = Some (s\<lparr>mem := m, write_pos := int (length ws + 1)\<rparr>)"
      "enc_mem (s\<lparr>mem := m, write_pos := int (length ws + 1)\<rparr>) (ws @ [b]) len"
      by blast
    let ?t = "s\<lparr>mem := m, write_pos := int (length ws + 1), count_zeros := 0\<rparr>"
    have t: "enc_mem ?t (ws @ [b]) len" using m(2) by (simp add: enc_mem_def split: option.splits)
    have "length (ws @ [b]) + length (esc 0 (word_bytes cw nb)) \<le> len"
      using Suc.prems(4) 1 by (simp flip: b_def)
    from Suc.IH [OF t _ _ this] show ?thesis using 1 m(1) by (auto simp: Let_def simp flip: b_def)
  next
    case 2
    have s1: "enc_mem (s\<lparr>count_zeros := 1\<rparr>) ws len"
      using Suc.prems(1) by (simp add: enc_mem_def split: option.splits)
    have "length ws < len" using Suc.prems(4) 2 by (simp flip: b_def)
    from put_byte_spec [OF s1 this, of b] obtain m where m:
      "put_byte (s\<lparr>count_zeros := 1\<rparr>) b = Some (s\<lparr>count_zeros := 1, mem := m, write_pos := int (length ws + 1)\<rparr>)"
      "enc_mem (s\<lparr>count_zeros := 1, mem := m, write_pos := int (length ws + 1)\<rparr>) (ws @ [b]) len"
      by auto
    have "length (ws @ [b]) + length (esc 1 (word_bytes cw nb)) \<le> len"
      using Suc.prems(4) 2 by (simp flip: b_def)
    from Suc.IH [OF m(2) _ _ this] show ?thesis
      using 2 m(1) Suc.prems(2) by (auto simp: Let_def simp flip: b_def)
  next
    case 3
    have s1: "enc_mem (s\<lparr>count_zeros := 2\<rparr>) ws len"
      using Suc.prems(1) by (simp add: enc_mem_def split: option.splits)
    have "length ws < len" using Suc.prems(4) 3 by (simp flip: b_def)
    from put_byte_spec [OF s1 this, of b] obtain m where m:
      "put_byte (s\<lparr>count_zeros := 2\<rparr>) b = Some (s\<lparr>count_zeros := 2, mem := m, write_pos := int (length ws + 1)\<rparr>)"
      "enc_mem (s\<lparr>count_zeros := 2, mem := m, write_pos := int (length ws + 1)\<rparr>) (ws @ [b]) len"
      by auto
    have "length (ws @ [b]) < len" using Suc.prems(4) 3 by (simp flip: b_def)
    from put_byte_spec [OF m(2) this, of 3] obtain m2 where m2:
      "put_byte (s\<lparr>count_zeros := 2, mem := m, write_pos := int (length ws + 1)\<rparr>) 3
        = Some (s\<lparr>count_zeros := 2, mem := m2, write_pos := int (length ws + 2)\<rparr>)"
      "enc_mem (s\<lparr>count_zeros := 2, mem := m2, write_pos := int (length ws + 2)\<rparr>) (ws @ [b, 3]) len"
      by auto
    let ?t = "s\<lparr>mem := m2, write_pos := int (length ws + 2), count_zeros := 0\<rparr>"
    have t: "enc_mem ?t (ws @ [b, 3]) len" using m2(2) by (simp add: enc_mem_def split: option.splits)
    have "length (ws @ [b, 3]) + length (esc 0 (word_bytes cw nb)) \<le> len"
      using Suc.prems(4) 3 by (simp flip: b_def)
    from Suc.IH [OF t _ _ this] show ?thesis
      using 3 m(1) m2(1) Suc.prems(2) by (auto simp: Let_def simp flip: b_def)
  qed
qed

lemma length_esc: "c \<le> 1 \<Longrightarrow> 2 * length (esc c bs) \<le> 3 * length bs + c"
  by (induction c bs rule: esc.induct) (auto simp: le_Suc_eq split: if_splits)

lemma WORD_SIZE_32 [simp]: "WORD_SIZE = 32"
  by (simp add: WORD_SIZE_def)

text \<open>
  Saving \<open>nb\<close> bytes of the current word when they fit with their two possible escapes.
\<close>

lemma SaveWord_spec:
  assumes core: "enc_core s" and nb: "bit_left s = 32 - 8 * int nb" "nb \<le> 4"
    and fits: "buf_size s - write_pos s > int nb + 2"
  shows "\<exists>s'. AVCBitstreamSaveWord malloc s = Some (AVCENC_SUCCESS, s') \<and> enc_core s'
     \<and> enc_payload s' = enc_payload s @ word_bytes (current_word s) nb
     \<and> current_word s' = 0 \<and> bit_left s' = 32 \<and> buf_size s' = buf_size s
     \<and> write_pos s' \<le> write_pos s + int nb + 2"
proof -
  define p c bs where "p = enc_payload s" and "c = zeros_after 0 p" and "bs = word_bytes (current_word s) nb"
  have m: "enc_mem s (esc 0 p) (enc_capacity s)" "count_zeros s = int c" "buf_size s \<le> int (enc_capacity s)"
    using core by (simp_all add: enc_core_def p_def c_def)
  have c1: "c \<le> 1" using zeros_after_le [of 0 p] by (simp add: c_def)
  have len: "length (esc c bs) \<le> nb + 2"
  proof -
    have "length bs = nb" by (simp add: bs_def)
    then show ?thesis using length_esc [OF c1, of bs] nb(2) c1 by linarith
  qed
  have wp: "write_pos s = int (length (esc 0 p))" using enc_memD(3) [OF m(1)] .
  have room: "length (esc 0 p) + length (esc c bs) \<le> enc_capacity s"
    using len fits m(3) wp by linarith
  from save_bytes_spec [OF m(1,2) c1] room obtain h where h:
    "save_bytes s (current_word s) nb = Some (s\<lparr>mem := h, write_pos := int (length (esc 0 p) + length (esc c bs)),
        count_zeros := int (zeros_after c bs)\<rparr>)"
    "enc_mem (s\<lparr>mem := h, write_pos := int (length (esc 0 p) + length (esc c bs)),
        count_zeros := int (zeros_after c bs)\<rparr>) (esc 0 p @ esc c bs) (enc_capacity s)"
    unfolding bs_def Let_def by blast
  let ?s' = "s\<lparr>mem := h, write_pos := int (length (esc 0 p) + length (esc c bs)),
        count_zeros := int (zeros_after c bs), current_word := 0, bit_left := 32\<rparr>"
  have mem': "enc_mem ?s' (esc 0 (p @ bs)) (enc_capacity s)"
    using h(2) by (simp add: enc_mem_def esc_append c_def split: option.splits)
  have "enc_core ?s'"
    using mem' m(3) enc_memD(2) [OF mem'] enc_mem_payload [OF mem']
    by (simp add: enc_core_def zeros_after_append c_def)
  moreover have "AVCBitstreamSaveWord malloc s = Some (AVCENC_SUCCESS, ?s')"
  proof -
    have n: "WORD_SIZE - bit_left s = 8 * int nb" using nb(1) by simp
    show ?thesis using fits h(1) unfolding AVCBitstreamSaveWord_def Let_def n by simp
  qed
  moreover have "enc_payload ?s' = enc_payload s @ bs"
    using enc_mem_payload [OF mem'] by (simp add: p_def)
  ultimately show ?thesis using wp len by (intro exI [of _ ?s']) (simp add: bs_def)
qed

section \<open>Shifting bits into the current word\<close>

lemma bit_unat_high: "unat w < 2 ^ n \<Longrightarrow> n \<le> i \<Longrightarrow> \<not> bit (w :: uint) i"
proof
  assume a: "unat w < 2 ^ n" "n \<le> i" "bit w i"
  then have "bit (unat w) i" by (simp add: bit_unsigned_iff bit_imp_le_length)
  moreover have "unat w < 2 ^ i" using a(1,2) by (meson less_le_trans one_le_numeral power_increasing)
  ultimately show False by (simp add: bit_iff_odd)
qed

lemma nat_bits_shift_or:
  assumes "unat code < 2 ^ n" and "u + n \<le> 32"
  shows "nat_bits (u + n) (unat (push_bit n w OR code :: uint)) = nat_bits u (unat w) @ nat_bits n (unat code)"
proof (rule nth_equalityI)
  fix i assume "i < length (nat_bits (u + n) (unat (push_bit n w OR code)))"
  then have i: "i < u + n" by simp
  have *: "u + n - 1 - i < 32" using i assms(2) by simp
  show "nat_bits (u + n) (unat (push_bit n w OR code)) ! i = (nat_bits u (unat w) @ nat_bits n (unat code)) ! i"
  proof (cases "i < u")
    case True
    then have "\<not> bit code (u + n - 1 - i)" by (intro bit_unat_high [OF assms(1)]) simp
    moreover have "u + n - 1 - i - n = u - 1 - i" "n \<le> u + n - 1 - i" using True by simp_all
    ultimately show ?thesis using i True * assms(2)
      by (simp add: nth_append bit_unsigned_iff bit_or_iff bit_push_bit_iff)
  next
    case False
    then have "n - Suc (i - u) = u + n - 1 - i" "u + n - 1 - i < n" using i by simp_all
    then show ?thesis using i False *
      by (simp add: nth_append bit_unsigned_iff bit_or_iff bit_push_bit_iff)
  qed
qed simp

lemma bytes_bits_word_bytes:
  assumes "nb \<le> 4"
  shows "bytes_bits (word_bytes cw nb) = nat_bits (8 * nb) (unat cw)"
  using assms
proof (induction nb)
  case (Suc nb)
  have "byte_bits (ucast (drop_bit (8 * nb) cw AND 0xFF)) = nat_bits 8 (drop_bit (8 * nb) (unat cw))"
  proof (rule nth_equalityI)
    fix i assume "i < length (byte_bits (ucast (drop_bit (8 * nb) cw AND 0xFF)))"
    then have i: "i < 8" by simp
    have "bit (0xFF :: uint) (7 - i)" using i
      by (auto simp: numeral_eq_Suc less_Suc_eq)
    moreover have "7 - i < 8" by simp
    ultimately show "byte_bits (ucast (drop_bit (8 * nb) cw AND 0xFF)) ! i = nat_bits 8 (drop_bit (8 * nb) (unat cw)) ! i"
      using i Suc.prems
      by (simp add: byte_bits_def bit_ucast_iff bit_and_iff bit_drop_bit_eq bit_unsigned_iff
          bit_imp_le_length)
  qed simp
  then show ?case using Suc nat_bits_append [of 8 "8 * nb" "unat cw"] by simp
qed simp

section \<open>Writing\<close>

lemma enc_core_cong:
  "enc_core (s\<lparr>current_word := w, bit_left := l\<rparr>) = enc_core s"
  "enc_payload (s\<lparr>current_word := w, bit_left := l\<rparr>) = enc_payload s"
  by (simp_all add: enc_core_def enc_payload_def enc_mem_def enc_written_def enc_capacity_def
      split: option.splits)

lemma room_step:
  fixes R R' bl :: int
  assumes "R' \<ge> R - 6" and "0 \<le> bl"
  shows "nat (32 * ((R - 1) div 6) + bl - 1) \<le> nat (32 * ((R' - 1) div 6) + (32 + bl - int n) - 1) + n"
proof -
  have "(R - 1) div 6 - 1 = (R - 1 - 6) div 6" by simp
  also have "\<dots> \<le> (R' - 1) div 6" using assms(1) by (intro zdiv_mono1) simp_all
  finally show ?thesis by linarith
qed

lemma WriteBits_spec:
  assumes inv: "enc_inv s" and n: "1 \<le> n" "n \<le> 31" and code: "unat code < 2 ^ n" and room: "n \<le> enc_room s"
  shows "\<exists>s'. BitstreamWriteBits malloc s (int n) code = Some (AVCENC_SUCCESS, s') \<and> enc_inv s'
     \<and> enc_bits s' = enc_bits s @ nat_bits n (unat code) \<and> enc_room s \<le> enc_room s' + n"
proof -
  define u where "u = nat (32 - bit_left s)"
  have bl: "bit_left s = 32 - int u" "u \<le> 31" and core: "enc_core s"
    using inv by (auto simp: u_def enc_inv_def)
  have full: "6 < buf_size s - write_pos s" if "bit_left s \<le> int n"
  proof -
    have "1 \<le> 32 * ((buf_size s - write_pos s - 1) div 6)"
      using room n(1) that by (simp add: enc_room_def)
    then have "1 \<le> (buf_size s - write_pos s - 1) div 6" by linarith
    then show ?thesis by linarith
  qed
  show ?thesis
  proof (cases "int n \<le> bit_left s")
    case le: True
    define w where "w = push_bit n (current_word s) OR code"
    let ?s1 = "s\<lparr>current_word := w, bit_left := bit_left s - int n\<rparr>"
    have bits: "nat_bits (u + n) (unat w) = nat_bits u (unat (current_word s)) @ nat_bits n (unat code)"
      unfolding w_def by (rule nat_bits_shift_or [OF code]) (use le bl in simp)
    show ?thesis
    proof (cases "bit_left s = int n")
      case False
      then have "BitstreamWriteBits malloc s (int n) code = Some (AVCENC_SUCCESS, ?s1)"
        using le n by (simp add: BitstreamWriteBits_def w_def Let_def)
      moreover have "enc_inv ?s1" using le False core bl n by (simp add: enc_inv_def enc_core_cong)
      moreover have "nat (32 - (bit_left s - int n)) = u + n" using bl by simp
      then have "enc_bits ?s1 = enc_bits s @ nat_bits n (unat code)"
        using bits by (simp add: enc_bits_def enc_core_cong flip: u_def)
      moreover have "enc_room s \<le> enc_room ?s1 + n" by (simp add: enc_room_def)
      ultimately show ?thesis by blast
    next
      case True
      have un: "u + n = 32" using True bl n by simp
      have core1: "enc_core ?s1" using core by (simp add: enc_core_cong)
      have "bit_left ?s1 = 32 - 8 * int 4" using True by simp
      from SaveWord_spec [OF core1 this, of malloc] obtain s' where s':
        "AVCBitstreamSaveWord malloc ?s1 = Some (AVCENC_SUCCESS, s')" "enc_core s'"
        "enc_payload s' = enc_payload s @ word_bytes w 4" "current_word s' = 0" "bit_left s' = 32"
        "buf_size s' = buf_size s" "write_pos s' \<le> write_pos s + 6"
        using full True by (auto simp: enc_core_cong)
      have "BitstreamWriteBits malloc s (int n) code = Some (AVCENC_SUCCESS, s')"
        using s'(1) True n by (simp add: BitstreamWriteBits_def w_def Let_def)
      moreover have "enc_inv s'" using s'(2,5) by (simp add: enc_inv_def)
      moreover have "enc_bits s' = enc_bits s @ nat_bits n (unat code)"
        using bits un by (simp add: enc_bits_def s' bytes_bits_word_bytes flip: u_def)
      moreover have "enc_room s \<le> enc_room s' + n"
        using room_step [of "buf_size s - write_pos s" "buf_size s' - write_pos s'" "bit_left s" n] s' True
        by (simp add: enc_room_def)
      ultimately show ?thesis by blast
    qed
  next
    case False
    define l where "l = nat (bit_left s)"
    have l: "bit_left s = int l" "1 \<le> l" "l < n" "u + l = 32" using inv False bl by (auto simp: l_def enc_inv_def)
    define w where "w = push_bit l (current_word s) OR drop_bit (n - l) code"
    let ?s1 = "s\<lparr>current_word := w, bit_left := 0\<rparr>"
    have "unat (drop_bit (n - l) code) = unat code div 2 ^ (n - l)"
      by (metis unat_drop_bit_eq drop_bit_eq_div)
    moreover have "unat code < 2 ^ l * 2 ^ (n - l)" using code l by (simp flip: power_add)
    ultimately have small: "unat (drop_bit (n - l) code) < 2 ^ l" by (simp add: less_mult_imp_div_less)
    have bits: "nat_bits (u + l) (unat w)
        = nat_bits u (unat (current_word s)) @ nat_bits l (unat (drop_bit (n - l) code))"
      unfolding w_def by (rule nat_bits_shift_or [OF small]) (use l in simp)
    have core1: "enc_core ?s1" using core by (simp add: enc_core_cong)
    have "bit_left ?s1 = 32 - 8 * int 4" by simp
    from SaveWord_spec [OF core1 this, of malloc] obtain s' where s':
      "AVCBitstreamSaveWord malloc ?s1 = Some (AVCENC_SUCCESS, s')" "enc_core s'"
      "enc_payload s' = enc_payload s @ word_bytes w 4" "current_word s' = 0" "bit_left s' = 32"
      "buf_size s' = buf_size s" "write_pos s' \<le> write_pos s + 6"
      using full False by (auto simp: enc_core_cong)
    let ?s2 = "s'\<lparr>bit_left := 32 - (int n - int l), current_word := code\<rparr>"
    have k: "nat (int n - int l) = n - l" and lu: "nat (32 - int l) = u" using l by simp_all
    have "BitstreamWriteBits malloc s (int n) code = Some (AVCENC_SUCCESS, ?s2)"
      using s'(1) l n by (simp add: BitstreamWriteBits_def w_def Let_def k)
    moreover have "?s2 = s'\<lparr>current_word := code, bit_left := 32 - (int n - int l)\<rparr>" by simp
    then have cong: "enc_core ?s2" "enc_payload ?s2 = enc_payload s'" using s'(2) enc_core_cong by metis+
    moreover have "enc_inv ?s2" using cong l n by (simp add: enc_inv_def)
    moreover have "nat_bits n (unat code) = nat_bits l (unat (drop_bit (n - l) code)) @ nat_bits (n - l) (unat code)"
      using nat_bits_append [of l "n - l" "unat code"] l by (simp add: unat_drop_bit_eq)
    then have "enc_bits ?s2 = enc_bits s @ nat_bits n (unat code)"
      using bits l by (simp add: enc_bits_def cong s' bytes_bits_word_bytes k lu)
    moreover have "enc_room s \<le> enc_room ?s2 + n"
      using room_step [of "buf_size s - write_pos s" "buf_size s' - write_pos s'" "bit_left s" n] s' l
      by (simp add: enc_room_def algebra_simps)
    ultimately show ?thesis by blast
  qed
qed

lemma Write1Bit_WriteBits:
  "1 \<le> bit_left s \<Longrightarrow> BitstreamWrite1Bit malloc s code = BitstreamWriteBits malloc s 1 code"
  by (simp add: BitstreamWrite1Bit_def BitstreamWriteBits_def Let_def)

interpretation enc: bit_sink enc_inv enc_bits enc_room AVCENC_SUCCESS "BitstreamWriteBits malloc" for malloc
  by unfold_locales (rule WriteBits_spec)

lemma EncInit_spec:
  assumes "mem s a = Some buf" and "0 < n" and "n \<le> int (length buf)"
  shows "\<exists>s'. BitstreamEncInit s (Some a) n ob obs = (AVCENC_SUCCESS, s') \<and> enc_inv s' \<and> enc_bits s' = []
     \<and> enc_room s' = nat (32 * ((n - 1) div 6) + 31) \<and> mem s' = mem s \<and> bitstreamBuffer s' = a"
  using assms
  by (simp add: BitstreamEncInit_def enc_inv_def enc_core_def enc_mem_def enc_payload_def
      enc_written_def enc_capacity_def enc_bits_def enc_room_def)

section \<open>Closing a NAL unit\<close>

definition stop_bits :: "nat \<Rightarrow> bool list" where
  "stop_bits b = True # replicate (b - 1) False"

lemma enc_trailing_bits_nth:
  assumes "1 \<le> b" and "b \<le> 8"
  shows "\<exists>c. nth_opt enc_trailing_bits (int b) = Some c \<and> unat c < 2 ^ b \<and> nat_bits b (unat c) = stop_bits b"
proof -
  have "list_all (\<lambda>b. case nth_opt enc_trailing_bits (int b) of None \<Rightarrow> False
      | Some c \<Rightarrow> unat c < 2 ^ b \<and> nat_bits b (unat c) = stop_bits b) [1, 2, 3, 4, 5, 6, 7, 8]"
    by code_simp
  moreover have "b \<in> set [1, 2, 3, 4, 5, 6, 7, 8]" using assms by auto
  ultimately have "case nth_opt enc_trailing_bits (int b) of None \<Rightarrow> False
      | Some c \<Rightarrow> unat c < 2 ^ b \<and> nat_bits b (unat c) = stop_bits b"
    unfolding list_all_iff by blast
  then show ?thesis by (auto split: option.splits simp del: nth_opt_nat)
qed

lemma and_7: "(x::int) AND 7 = x mod 8"
  using take_bit_eq_mask [of 3 x] by (simp add: take_bit_eq_mod mask_numeral)

lemma stop_byte_nonzero:
  assumes "bytes_bits (xs @ [x]) = bs @ stop_bits b" and "1 \<le> b" and "b \<le> 8"
  shows "x \<noteq> 0"
proof
  assume "x = 0"
  then have "byte_bits x = replicate 8 False" by (simp add: byte_bits_def upt8 numeral_eq_Suc)
  then have eq: "bs @ stop_bits b = bytes_bits xs @ replicate 8 False" using assms(1) by simp
  have "length (bs @ stop_bits b) = length bs + b" using assms(2) by (simp add: stop_bits_def)
  then have len: "length bs + b = 8 * length xs + 8" using arg_cong [OF eq, of length] by simp
  have "(bs @ stop_bits b) ! length bs = True" by (simp add: stop_bits_def nth_append)
  moreover have "(bytes_bits xs @ replicate 8 False) ! length bs = False"
    using len assms(2,3) by (simp add: nth_append)
  ultimately show False unfolding eq by simp
qed

text \<open>How many stop bits the code writes: at least one, up to the next byte boundary.\<close>

definition pad_len :: "AVCEncBitstream \<Rightarrow> nat" where
  "pad_len s = (if bit_left s mod 8 = 0 then 8 else nat (bit_left s mod 8))"

lemma TrailingBits_spec:
  assumes inv: "enc_inv s" and room: "40 \<le> enc_room s"
  shows "\<exists>s'. BitstreamTrailingBits malloc s = Some (AVCENC_SUCCESS, s') \<and> enc_inv s' \<and> bit_left s' = 32
     \<and> enc_bits s' = enc_bits s @ stop_bits (pad_len s)"
proof -
  define b where "b = pad_len s"
  have b: "1 \<le> b" "b \<le> 8" by (auto simp: b_def pad_len_def split: if_splits)
  have bb: "(if bit_left s AND 7 = 0 then 8 else bit_left s AND 7) = int b"
    by (simp add: b_def pad_len_def and_7)
  obtain c where c: "nth_opt enc_trailing_bits (int b) = Some c" "unat c < 2 ^ b" "nat_bits b (unat c) = stop_bits b"
    using enc_trailing_bits_nth [OF b] by blast
  have "b \<le> 31" "b \<le> enc_room s" using b room by simp_all
  from WriteBits_spec [OF inv b(1) this(1) c(2) this(2), of malloc] obtain s1 where s1:
    "BitstreamWriteBits malloc s (int b) c = Some (AVCENC_SUCCESS, s1)" "enc_inv s1"
    "enc_bits s1 = enc_bits s @ stop_bits b" "enc_room s \<le> enc_room s1 + b"
    using c(3) by auto
  have "(bit_left s - int b) mod 8 = 0"
    using b by (simp add: b_def pad_len_def mod_diff_right_eq)
  moreover have "8 * int (length (enc_payload s1)) - bit_left s1
      = 8 * int (length (enc_payload s)) - bit_left s + int b"
  proof -
    have "length (enc_bits s1) = length (enc_bits s) + b" using s1(3) b by (simp add: stop_bits_def)
    then show ?thesis using inv s1(2) unfolding enc_bits_def enc_inv_def
      by (simp only: length_append length_bytes_bits length_nat_bits) linarith
  qed
  ultimately have "bit_left s1 mod 8 = 0" by presburger
  then obtain k where k: "bit_left s1 = 8 * k" by (auto dest: mod_0_imp_dvd elim: dvdE)
  then have "1 \<le> k" "k \<le> 4" using s1(2) by (simp_all add: enc_inv_def)
  then obtain nb where nb: "bit_left s1 = 32 - 8 * int nb" "nb \<le> 3"
    using that [of "nat (4 - k)"] k by simp
  have "32 \<le> enc_room s1" using room s1(4) b by simp
  then have "1 \<le> (buf_size s1 - write_pos s1 - 1) div 6"
    using nb by (simp add: enc_room_def)
  then have fits: "buf_size s1 - write_pos s1 > int nb + 2" using nb(2) by linarith
  have core: "enc_core s1" using s1(2) by (simp add: enc_inv_def)
  have "nb \<le> 4" using nb by simp
  from SaveWord_spec [OF core nb(1) this fits, of malloc] obtain s' where s':
    "AVCBitstreamSaveWord malloc s1 = Some (AVCENC_SUCCESS, s')" "enc_core s'"
    "enc_payload s' = enc_payload s1 @ word_bytes (current_word s1) nb" "current_word s' = 0" "bit_left s' = 32"
    by blast
  have "BitstreamTrailingBits malloc s = Some (AVCENC_SUCCESS, s')"
    unfolding BitstreamTrailingBits_def Let_def bb using c(1) s1(1) s'(1) by simp
  moreover have "enc_inv s'" using s' by (simp add: enc_inv_def)
  moreover have "enc_bits s' = enc_bits s1"
    using s' nb by (simp add: enc_bits_def bytes_bits_word_bytes nat_mult_distrib)
  ultimately show ?thesis using s'(5) s1(3) by (auto simp: b_def)
qed

text \<open>
  What the closed unit looks like in the buffer: the escaped payload, which contains no start code
  and which the decoder's \<open>BitstreamInit\<close> turns back into the bits written.
\<close>

definition nal_bytes :: "AVCEncBitstream \<Rightarrow> uint8 list" where
  "nal_bytes s = enc_written s"

lemma closed_unit:
  assumes inv: "enc_inv s" "bit_left s = 32" and bits: "enc_bits s = bs @ stop_bits b" "1 \<le> b" "b \<le> 8"
  shows "sc_free (nal_bytes s)"
    and "\<exists>d. BitstreamInit (nal_bytes s @ rest) (int (length (nal_bytes s))) = Some d \<and> dec_inv d
           \<and> dec_bits d = bs @ stop_bits b"
proof -
  define p where "p = enc_payload s"
  have w: "nal_bytes s = esc 0 p"
    using inv(1) by (auto simp: p_def nal_bytes_def enc_inv_def enc_core_def dest: enc_memD(1))
  have pb: "bytes_bits p = bs @ stop_bits b"
    using bits(1) inv(2) by (simp add: enc_bits_def p_def)
  then have "p \<noteq> []" by (auto simp: stop_bits_def)
  then obtain xs x where p: "p = xs @ [x]" by (cases p rule: rev_cases) auto
  have last: "last p \<noteq> 0"
    using stop_byte_nonzero [of xs x bs b] pb bits(2,3) unfolding p by simp
  show "sc_free (nal_bytes s)" unfolding w by (rule sc_free_esc [OF \<open>p \<noteq> []\<close> last])
  have "stops_inside 0 (esc 0 p)" by (rule stops_inside_esc) (use last in simp_all)
  then show "\<exists>d. BitstreamInit (nal_bytes s @ rest) (int (length (nal_bytes s))) = Some d \<and> dec_inv d
           \<and> dec_bits d = bs @ stop_bits b"
    using BitstreamInit_spec [of "length (esc 0 p)" "esc 0 p @ rest"] pb unesc_esc [of 0 p]
    unfolding w by auto
qed

section \<open>The overrun buffer\<close>

text \<open>
  What is documented of the allocator: a block of the size asked for, at an address not in use,
  and nothing else changed.
\<close>

definition malloc_ok :: "malloc \<Rightarrow> bool" where
  "malloc_ok malloc \<longleftrightarrow>
     (\<forall>h n a h'. malloc h n = Some (a, h') \<longrightarrow> h a = None \<and> (\<exists>blk. int (length blk) = n \<and> h' = h(a \<mapsto> blk)))"

lemma malloc_okE:
  assumes "malloc_ok malloc" and "malloc h n = Some ah"
  obtains a d where "malloc h n = Some (a, h(a \<mapsto> d))" and "h a = None" and "int (length d) = n"
  using assms unfolding malloc_ok_def by (metis surj_pair)

text \<open>The stream and the encoder object agree on the overrun buffer, which is \<open>oBSize\<close> bytes long.\<close>

definition overrun_ok :: "AVCEncBitstream \<Rightarrow> bool" where
  "overrun_ok s \<longleftrightarrow> encvid_overrunBuffer s = overrunBuffer s \<and>
     (case overrunBuffer s of
        None \<Rightarrow> True
      | Some ob \<Rightarrow> (case mem s ob of None \<Rightarrow> False | Some blk \<Rightarrow> int (length blk) = oBSize s))"

lemma and_not_split: "(x::int) = (x AND NOT m) + (x AND m)"
proof -
  have "(x AND NOT m) AND (x AND m) = 0" by (rule bit_eqI) (auto simp: bit_and_iff bit_not_iff)
  moreover have "(x AND NOT m) OR (x AND m) = x" by (rule bit_eqI) (auto simp: bit_and_iff bit_or_iff bit_not_iff)
  ultimately show ?thesis using plus_and_or [of "x AND NOT m" "x AND m"] by simp
qed

lemma grown_size_bounds:
  assumes "0 \<le> wpos + extra"
  shows "wpos + extra + 97 \<le> grown_size wpos extra"
proof -
  define x where "x = wpos + extra + 100"
  have "x = (x AND NOT 3) + (x AND 3)" by (rule and_not_split)
  moreover have "x AND 3 = x mod 4" using take_bit_eq_mask [of 2 x] by (simp add: take_bit_eq_mod mask_numeral)
  ultimately have "x AND NOT 3 = x - x mod 4" by simp
  moreover have "x mod 4 < 4" by simp
  ultimately show ?thesis by (simp add: grown_size_def x_def) 
qed

lemma memcpy_spec:
  assumes "h dst = Some d" and "h src = Some sb" and "n \<le> length d" and "n \<le> length sb"
  shows "oscl_memcpy h dst src (int n) = Some (h(dst \<mapsto> take n sb @ drop n d))"
  using assms by (simp add: oscl_memcpy_def)

lemma UseOverrunBuffer_spec:
  assumes core: "enc_core s" and over: "overrun_ok s" and malloc: "malloc_ok malloc" and extra: "0 \<le> extra"
  shows "\<exists>st s'. AVCBitstreamUseOverrunBuffer malloc s extra = Some (st, s')
     \<and> (st = AVCENC_SUCCESS \<or> st = AVCENC_FAIL) \<and> enc_core s' \<and> enc_payload s' = enc_payload s
     \<and> write_pos s' = write_pos s \<and> bit_left s' = bit_left s \<and> current_word s' = current_word s
     \<and> (st = AVCENC_SUCCESS \<longrightarrow> overrun_ok s' \<and> extra < buf_size s' - write_pos s')"
proof -
  define p where "p = enc_payload s"
  let ?ws = "esc 0 p"
  obtain buf where buf: "mem s (bitstreamBuffer s) = Some buf" "write_pos s = int (length ?ws)"
      "length ?ws \<le> length buf" "take (length ?ws) buf = ?ws"
    using core by (auto simp: enc_core_def enc_mem_def p_def split: option.splits)
  have cz: "count_zeros s = int (zeros_after 0 p)" and bsz: "buf_size s \<le> int (length buf)"
    using core buf by (simp_all add: enc_core_def p_def enc_capacity_def)
  have moved: "enc_core t \<and> enc_payload t = p"
    if "mem t (bitstreamBuffer t) = Some (?ws @ r)" "write_pos t = write_pos s" "count_zeros t = count_zeros s"
      "buf_size t \<le> int (length ?ws + length r)" for t r
  proof -
    have m: "enc_mem t ?ws (enc_capacity t)" using that buf by (simp add: enc_mem_def enc_capacity_def)
    then show ?thesis using that cz enc_mem_payload [OF m] by (simp add: enc_core_def enc_capacity_def)
  qed
  have same: "enc_core t \<and> enc_payload t = p"
    if "mem t (bitstreamBuffer t) = Some buf" "write_pos t = write_pos s" "count_zeros t = count_zeros s"
      "buf_size t = buf_size s" for t
    using moved [of t "drop (length ?ws) buf"] that buf bsz
    by (metis append_take_drop_id length_append of_nat_add)
  show ?thesis
  proof (cases "overrunBuffer s")
    case None
    then show ?thesis using core by (simp add: AVCBitstreamUseOverrunBuffer_def)
  next
    case (Some ob)
    obtain blk where blk: "mem s ob = Some blk" "int (length blk) = oBSize s"
      "encvid_overrunBuffer s = Some ob"
      using over Some by (auto simp: overrun_ok_def split: option.splits)
    let ?sz = "grown_size (write_pos s) extra"
    have sz: "write_pos s + extra + 97 \<le> ?sz" using buf(2) extra by (intro grown_size_bounds) simp
    have copy: "oscl_memcpy h a (bitstreamBuffer s) (write_pos s) = Some (h(a \<mapsto> ?ws @ drop (length ?ws) d))"
      if "h a = Some d" "h (bitstreamBuffer s) = Some buf" "length ?ws \<le> length d" for h a d
      using memcpy_spec [OF that(1,2) _ buf(3)] that(3) buf(2,4) by simp
    show ?thesis
    proof (cases "bitstreamBuffer s = ob")
      case False
      show ?thesis
      proof (cases "write_pos s + extra \<ge> oBSize s")
        case ge: True
        let ?h = "CBAVC_Free (mem s) ob"
        have hb: "?h (bitstreamBuffer s) = Some buf" using False buf by (simp add: CBAVC_Free_def)
        show ?thesis
        proof (cases "malloc ?h ?sz")
          case m: None
          let ?t = "s\<lparr>mem := ?h, oBSize := ?sz, encvid_oBSize := ?sz, encvid_overrunBuffer := None,
            overrunBuffer := None\<rparr>"
          have "AVCBitstreamUseOverrunBuffer malloc s extra = Some (AVCENC_FAIL, ?t)"
            using Some False ge blk m by (simp add: AVCBitstreamUseOverrunBuffer_def Let_def)
          then show ?thesis using same [of ?t] hb by (simp add: p_def)
        next
          case (Some ah)
          then obtain a d where m: "malloc ?h ?sz = Some (a, ?h(a \<mapsto> d))" "?h a = None" "int (length d) = ?sz"
            by (rule malloc_okE [OF malloc])
          have ab: "a \<noteq> bitstreamBuffer s" using m(2) hb by auto
          have "length ?ws \<le> length d" using m(3) sz buf(2) extra by linarith
          from copy [of "?h(a \<mapsto> d)" a d, OF _ _ this]
          have c: "oscl_memcpy (?h(a \<mapsto> d)) a (bitstreamBuffer s) (write_pos s)
              = Some (?h(a \<mapsto> ?ws @ drop (length ?ws) d))" using hb ab by simp
          let ?t = "s\<lparr>mem := ?h(a \<mapsto> ?ws @ drop (length ?ws) d), oBSize := ?sz, encvid_oBSize := ?sz,
            encvid_overrunBuffer := Some a, overrunBuffer := Some a, bitstreamBuffer := a, buf_size := ?sz\<rparr>"
          have "AVCBitstreamUseOverrunBuffer malloc s extra = Some (AVCENC_SUCCESS, ?t)"
            using \<open>overrunBuffer s = Some ob\<close> False ge blk m(1) c
            by (simp add: AVCBitstreamUseOverrunBuffer_def Let_def)
          moreover have "length ?ws + (length d - length ?ws) = length d" using \<open>length ?ws \<le> length d\<close> by simp
          ultimately show ?thesis
            using moved [of ?t "drop (length ?ws) d"] m(3) sz by (auto simp: p_def overrun_ok_def)
        qed
      next
        case lt: False
        have le: "length ?ws \<le> length blk" using lt blk(2) buf(2) extra by linarith
        let ?t = "s\<lparr>mem := (mem s)(ob \<mapsto> ?ws @ drop (length ?ws) blk), bitstreamBuffer := ob,
          buf_size := oBSize s\<rparr>"
        have "AVCBitstreamUseOverrunBuffer malloc s extra = Some (AVCENC_SUCCESS, ?t)"
          using Some False lt copy [OF blk(1) buf(1) le]
          by (simp add: AVCBitstreamUseOverrunBuffer_def Let_def)
        moreover have "length ?ws + (length blk - length ?ws) = length blk" using le by simp
        ultimately show ?thesis
          using moved [of ?t "drop (length ?ws) blk"] blk lt Some by (auto simp: p_def overrun_ok_def)
      qed
    next
      case True
      show ?thesis
      proof (cases "malloc (mem s) ?sz")
        case m: None
        let ?t = "s\<lparr>oBSize := ?sz, encvid_oBSize := ?sz, encvid_overrunBuffer := None\<rparr>"
        have "AVCBitstreamUseOverrunBuffer malloc s extra = Some (AVCENC_FAIL, ?t)"
          using Some True m by (simp add: AVCBitstreamUseOverrunBuffer_def Let_def)
        then show ?thesis using same [of ?t] buf by (simp add: p_def)
      next
        case (Some ah)
        then obtain a d where m: "malloc (mem s) ?sz = Some (a, (mem s)(a \<mapsto> d))" "mem s a = None"
            "int (length d) = ?sz"
          by (rule malloc_okE [OF malloc])
        have ab: "a \<noteq> ob" using m(2) blk by auto
        have le: "length ?ws \<le> length d" using m(3) sz buf(2) extra by linarith
        have c: "oscl_memcpy ((mem s)(a \<mapsto> d)) a ob (write_pos s)
            = Some ((mem s)(a \<mapsto> ?ws @ drop (length ?ws) d))"
          using copy [of "(mem s)(a \<mapsto> d)" a d] le True ab buf(1) by simp
        let ?t = "s\<lparr>mem := CBAVC_Free ((mem s)(a \<mapsto> ?ws @ drop (length ?ws) d)) ob, oBSize := ?sz,
          encvid_oBSize := ?sz, encvid_overrunBuffer := Some a, overrunBuffer := Some a,
          bitstreamBuffer := a, buf_size := ?sz\<rparr>"
        have "AVCBitstreamUseOverrunBuffer malloc s extra = Some (AVCENC_SUCCESS, ?t)"
          using \<open>overrunBuffer s = Some ob\<close> True m(1) c
          by (simp add: AVCBitstreamUseOverrunBuffer_def Let_def)
        moreover have "length ?ws + (length d - length ?ws) = length d" using le by simp
        ultimately show ?thesis
          using moved [of ?t "drop (length ?ws) d"] m(3) sz ab by (auto simp: p_def overrun_ok_def CBAVC_Free_def)
      qed
    qed
  qed
qed

lemma SaveWord_overrun:
  assumes core: "enc_core s" and over: "overrun_ok s" and malloc: "malloc_ok malloc"
    and nb: "bit_left s = 32 - 8 * int nb" "nb \<le> 4"
  shows "\<exists>st s'. AVCBitstreamSaveWord malloc s = Some (st, s') \<and> enc_core s'
     \<and> (st = AVCENC_SUCCESS \<and> enc_payload s' = enc_payload s @ word_bytes (current_word s) nb
          \<and> current_word s' = 0 \<and> bit_left s' = 32
        \<or> st = AVCENC_BITSTREAM_BUFFER_FULL \<and> enc_payload s' = enc_payload s)"
proof (cases "buf_size s - write_pos s > int nb + 2")
  case True
  then show ?thesis using SaveWord_spec [OF core nb] by blast
next
  case False
  have n: "WORD_SIZE - bit_left s = 8 * int nb" using nb(1) by simp
  have "0 \<le> int nb + 2" by simp
  from UseOverrunBuffer_spec [OF core over malloc this] obtain st t where t:
    "AVCBitstreamUseOverrunBuffer malloc s (int nb + 2) = Some (st, t)"
    "st = AVCENC_SUCCESS \<or> st = AVCENC_FAIL" "enc_core t" "enc_payload t = enc_payload s"
    "write_pos t = write_pos s" "bit_left t = bit_left s" "current_word t = current_word s"
    "st = AVCENC_SUCCESS \<longrightarrow> overrun_ok t \<and> int nb + 2 < buf_size t - write_pos t"
    by blast
  show ?thesis
  proof (cases "st = AVCENC_SUCCESS")
    case fail: False
    then have "AVCBitstreamSaveWord malloc s = Some (AVCENC_BITSTREAM_BUFFER_FULL, t)"
      unfolding AVCBitstreamSaveWord_def Let_def n using False t(1) by simp
    then show ?thesis using t by blast
  next
    case True
    have bt: "bit_left t = 32 - 8 * int nb" using t(6) nb(1) by simp
    have fits: "buf_size t - write_pos t > int nb + 2" using t(8) True by simp
    have nt: "WORD_SIZE - bit_left t = 8 * int nb" using bt by simp
    have "AVCBitstreamSaveWord malloc s = AVCBitstreamSaveWord malloc t"
      unfolding AVCBitstreamSaveWord_def Let_def n nt using False True t(1) fits by simp
    then show ?thesis using SaveWord_spec [OF t(3) bt nb(2) fits, of malloc] t(4,7) by auto
  qed
qed

end
