(* ===== verification/EncVlc.thy ===== *)
theory EncVlc
  imports EncBitstream ExpGolomb MbData
begin

text \<open>
  The encoder's entropy coding, \<open>codecs_v2/video/avc_h264/enc/src/vlc_encode.cpp\<close>: Exp-Golomb elements,
  the coded block pattern and the CAVLC tables. The names of the decoder's functions of the same name
  are kept with the prefix \<open>enc_\<close>.
\<close>

section \<open>Exp-Golomb elements\<close>

text \<open>The loop that finds \<open>leadingZeros\<close>: the shift of an \<open>int\<close> by 32 it never makes is \<open>None\<close>.\<close>

function eg_search :: "uint \<Rightarrow> int \<Rightarrow> int option" where
  "eg_search codeNum leadingZeros =
     (case shl32 1 leadingZeros of
        None \<Rightarrow> None
      | Some p \<Rightarrow> if p < codeNum + 2 then eg_search codeNum (leadingZeros + 1) else Some leadingZeros)"
  by pat_completeness auto
termination
  by (relation "measure (\<lambda>(codeNum, leadingZeros). nat (32 - leadingZeros))")
    (auto simp: shl32_def split: if_splits)

declare eg_search.simps [simp del]

definition SetEGBitstring ::
  "malloc \<Rightarrow> AVCEncBitstream \<Rightarrow> uint \<Rightarrow> (AVCEnc_Status \<times> AVCEncBitstream) option" where
  "SetEGBitstring malloc s codeNum =
     (if codeNum = 0 then BitstreamWrite1Bit malloc s 1
      else
        do { lz1 \<leftarrow> eg_search codeNum 1;
             let lz = lz1 - 1;
             p \<leftarrow> shl32 1 lz;
             let infobits = codeNum - p + 1;
             (_, s1) \<leftarrow> BitstreamWriteBits malloc s lz 0;
             BitstreamWriteBits malloc s1 (lz + 1) (infobits OR p) })"

definition enc_ue_v ::
  "malloc \<Rightarrow> AVCEncBitstream \<Rightarrow> uint \<Rightarrow> (AVCEnc_Status \<times> AVCEncBitstream) option" where
  "enc_ue_v malloc s codeNum =
     do { (st, s1) \<leftarrow> SetEGBitstring malloc s codeNum;
          Some (if st \<noteq> AVCENC_SUCCESS then AVCENC_FAIL else AVCENC_SUCCESS, s1) }"

definition enc_se_v ::
  "malloc \<Rightarrow> AVCEncBitstream \<Rightarrow> int \<Rightarrow> (AVCEnc_Status \<times> AVCEncBitstream) option" where
  "enc_se_v malloc s v =
     (let codeNum = (if v \<le> 0 then word_of_int (- v * 2) else word_of_int (v * 2 - 1))
      in enc_ue_v malloc s codeNum)"

definition enc_te_v ::
  "malloc \<Rightarrow> AVCEncBitstream \<Rightarrow> uint \<Rightarrow> uint \<Rightarrow> (AVCEnc_Status \<times> AVCEncBitstream) option" where
  "enc_te_v malloc s v rng =
     (if rng > 1 then enc_ue_v malloc s v else BitstreamWrite1Bit malloc s (1 - v))"

section \<open>Coded block pattern\<close>

definition MapCBP2code :: "(uint \<times> uint) list" where
  "MapCBP2code =
      [(3, 0), (29, 2), (30, 3), (17, 7), (31, 4), (18, 8), (37, 17), (8, 13), (32, 5),
      (38, 18), (19, 9), (9, 14), (20, 10), (10, 15), (11, 16), (2, 11), (16, 1), (33, 32),
      (34, 33), (21, 36), (35, 34), (22, 37), (39, 44), (4, 40), (36, 35), (40, 45), (23, 38),
      (5, 41), (24, 39), (6, 42), (7, 43), (1, 19), (41, 6), (42, 24), (43, 25), (25, 20),
      (44, 26), (26, 21), (46, 46), (12, 28), (45, 27), (47, 47), (27, 22), (13, 29), (28, 23),
      (14, 30), (15, 31), (0, 12)]"

definition EncodeCBP ::
  "malloc \<Rightarrow> AVCMacroblock \<Rightarrow> AVCEncBitstream \<Rightarrow> (AVCEnc_Status \<times> AVCEncBitstream) option" where
  "EncodeCBP malloc mb stream =
     do { e \<leftarrow> nth_opt MapCBP2code (uint (CBP mb));
          enc_ue_v malloc stream (if mbMode mb = AVC_I4 then fst e else snd e) }"

section \<open>CAVLC elements\<close>

definition totCoeffTrailOne :: "(int \<times> uint) list list list" where
  "totCoeffTrailOne =
      [[[(1, 1), (6, 5), (8, 7), (9, 7), (10, 7), (11, 7), (13, 15), (13, 11), (13, 8),
      (14, 15), (14, 11), (15, 15), (15, 11), (16, 15), (16, 11), (16, 7), (16, 4)], [(0, 0),
      (2, 1), (6, 4), (8, 6), (9, 6), (10, 6), (11, 6), (13, 14), (13, 10), (14, 14), (14, 10),
      (15, 14), (15, 10), (15, 1), (16, 14), (16, 10), (16, 6)], [(0, 0), (0, 0), (3, 1),
      (7, 5), (8, 5), (9, 5), (10, 5), (11, 5), (13, 13), (13, 9), (14, 13), (14, 9), (15, 13),
      (15, 9), (16, 13), (16, 9), (16, 5)], [(0, 0), (0, 0), (0, 0), (5, 3), (6, 3), (7, 4),
      (8, 4), (9, 4), (10, 4), (11, 4), (13, 12), (14, 12), (14, 8), (15, 12), (15, 8),
      (16, 12), (16, 8)]], [[(2, 3), (6, 11), (6, 7), (7, 7), (8, 7), (8, 4), (9, 7), (11, 15),
      (11, 11), (12, 15), (12, 11), (12, 8), (13, 15), (13, 11), (13, 7), (14, 9), (14, 7)], [
      (0, 0), (2, 2), (5, 7), (6, 10), (6, 6), (7, 6), (8, 6), (9, 6), (11, 14), (11, 10),
      (12, 14), (12, 10), (13, 14), (13, 10), (14, 11), (14, 8), (14, 6)], [(0, 0), (0, 0),
      (3, 3), (6, 9), (6, 5), (7, 5), (8, 5), (9, 5), (11, 13), (11, 9), (12, 13), (12, 9),
      (13, 13), (13, 9), (13, 6), (14, 10), (14, 5)], [(0, 0), (0, 0), (0, 0), (4, 5), (4, 4),
      (5, 6), (6, 8), (6, 4), (7, 4), (9, 4), (11, 12), (11, 8), (12, 12), (13, 12), (13, 8),
      (13, 1), (14, 4)]], [[(4, 15), (6, 15), (6, 11), (6, 8), (7, 15), (7, 11), (7, 9), (7, 8),
      (8, 15), (8, 11), (9, 15), (9, 11), (9, 8), (10, 13), (10, 9), (10, 5), (10, 1)], [(0, 0),
      (4, 14), (5, 15), (5, 12), (5, 10), (5, 8), (6, 14), (6, 10), (7, 14), (8, 14), (8, 10),
      (9, 14), (9, 10), (9, 7), (10, 12), (10, 8), (10, 4)], [(0, 0), (0, 0), (4, 13), (5, 14),
      (5, 11), (5, 9), (6, 13), (6, 9), (7, 13), (7, 10), (8, 13), (8, 9), (9, 13), (9, 9),
      (10, 11), (10, 7), (10, 3)], [(0, 0), (0, 0), (0, 0), (4, 12), (4, 11), (4, 10), (4, 9),
      (4, 8), (5, 13), (6, 12), (7, 12), (8, 12), (8, 8), (9, 12), (10, 10), (10, 6), (10, 2)]]]"

definition enc_ce_TotalCoeffTrailingOnes ::
  "malloc \<Rightarrow> AVCEncBitstream \<Rightarrow> int \<Rightarrow> int \<Rightarrow> int \<Rightarrow> (AVCEnc_Status \<times> AVCEncBitstream) option" where
  "enc_ce_TotalCoeffTrailingOnes malloc stream TrailingOnes TotalCoeff nC =
     (if TrailingOnes > 3 then Some (AVCENC_TRAILINGONES_FAIL, stream)
      else if nC \<ge> 8 then
        BitstreamWriteBits malloc stream 6
          (if TotalCoeff \<noteq> 0 then word_of_int (push_bit 2 (TotalCoeff - 1) OR TrailingOnes) else 3)
      else
        let vlcnum = (if nC < 2 then 0 else if nC < 4 then 1 else 2)
        in do { a \<leftarrow> nth_opt totCoeffTrailOne vlcnum;
                b \<leftarrow> nth_opt a TrailingOnes;
                (len, code) \<leftarrow> nth_opt b TotalCoeff;
                BitstreamWriteBits malloc stream len code })"

definition totCoeffTrailOneChrom :: "(int \<times> uint) list list" where
  "totCoeffTrailOneChrom =
      [[(2, 1), (6, 7), (6, 4), (6, 3), (6, 2)], [(0, 0), (1, 1), (6, 6), (7, 3), (8, 3)], [
      (0, 0), (0, 0), (3, 1), (7, 2), (8, 2)], [(0, 0), (0, 0), (0, 0), (6, 5), (7, 0)]]"

definition enc_ce_TotalCoeffTrailingOnesChromaDC ::
  "malloc \<Rightarrow> AVCEncBitstream \<Rightarrow> int \<Rightarrow> int \<Rightarrow> (AVCEnc_Status \<times> AVCEncBitstream) option" where
  "enc_ce_TotalCoeffTrailingOnesChromaDC malloc stream TrailingOnes TotalCoeff =
     do { a \<leftarrow> nth_opt totCoeffTrailOneChrom TrailingOnes;
          (len, code) \<leftarrow> nth_opt a TotalCoeff;
          BitstreamWriteBits malloc stream len code }"

definition lenTotalZeros :: "int list list" where
  "lenTotalZeros =
      [[1, 3, 3, 4, 4, 5, 5, 6, 6, 7, 7, 8, 8, 9, 9, 9], [3, 3, 3, 3, 3, 4, 4, 4, 4, 5, 5, 6, 6,
      6, 6, 0], [4, 3, 3, 3, 4, 4, 3, 3, 4, 5, 5, 6, 5, 6, 0, 0], [5, 3, 4, 4, 3, 3, 3, 4, 3, 4,
      5, 5, 5, 0, 0, 0], [4, 4, 4, 3, 3, 3, 3, 3, 4, 5, 4, 5, 0, 0, 0, 0], [6, 5, 3, 3, 3, 3, 3,
      3, 4, 3, 6, 0, 0, 0, 0, 0], [6, 5, 3, 3, 3, 2, 3, 4, 3, 6, 0, 0, 0, 0, 0, 0], [6, 4, 5, 3,
      2, 2, 3, 3, 6, 0, 0, 0, 0, 0, 0, 0], [6, 6, 4, 2, 2, 3, 2, 5, 0, 0, 0, 0, 0, 0, 0, 0], [5,
      5, 3, 2, 2, 2, 4, 0, 0, 0, 0, 0, 0, 0, 0, 0], [4, 4, 3, 3, 1, 3, 0, 0, 0, 0, 0, 0, 0, 0,
      0, 0], [4, 4, 2, 1, 3, 0, 0, 0, 0, 0, 0, 0, 0, 0, 0, 0], [3, 3, 1, 2, 0, 0, 0, 0, 0, 0, 0,
      0, 0, 0, 0, 0], [2, 2, 1, 0, 0, 0, 0, 0, 0, 0, 0, 0, 0, 0, 0, 0], [1, 1, 0, 0, 0, 0, 0, 0,
      0, 0, 0, 0, 0, 0, 0, 0]]"

definition codTotalZeros :: "uint list list" where
  "codTotalZeros =
      [[1, 3, 2, 3, 2, 3, 2, 3, 2, 3, 2, 3, 2, 3, 2, 1], [7, 6, 5, 4, 3, 5, 4, 3, 2, 3, 2, 3, 2,
      1, 0, 0], [5, 7, 6, 5, 4, 3, 4, 3, 2, 3, 2, 1, 1, 0, 0, 0], [3, 7, 5, 4, 6, 5, 4, 3, 3, 2,
      2, 1, 0, 0, 0, 0], [5, 4, 3, 7, 6, 5, 4, 3, 2, 1, 1, 0, 0, 0, 0, 0], [1, 1, 7, 6, 5, 4, 3,
      2, 1, 1, 0, 0, 0, 0, 0, 0], [1, 1, 5, 4, 3, 3, 2, 1, 1, 0, 0, 0, 0, 0, 0, 0], [1, 1, 1, 3,
      3, 2, 2, 1, 0, 0, 0, 0, 0, 0, 0, 0], [1, 0, 1, 3, 2, 1, 1, 1, 0, 0, 0, 0, 0, 0, 0, 0], [1,
      0, 1, 3, 2, 1, 1, 0, 0, 0, 0, 0, 0, 0, 0, 0], [0, 1, 1, 2, 1, 3, 0, 0, 0, 0, 0, 0, 0, 0,
      0, 0], [0, 1, 1, 1, 1, 0, 0, 0, 0, 0, 0, 0, 0, 0, 0, 0], [0, 1, 1, 1, 0, 0, 0, 0, 0, 0, 0,
      0, 0, 0, 0, 0], [0, 1, 1, 0, 0, 0, 0, 0, 0, 0, 0, 0, 0, 0, 0, 0], [0, 1, 0, 0, 0, 0, 0, 0,
      0, 0, 0, 0, 0, 0, 0, 0]]"

definition enc_ce_TotalZeros ::
  "malloc \<Rightarrow> AVCEncBitstream \<Rightarrow> int \<Rightarrow> int \<Rightarrow> (AVCEnc_Status \<times> AVCEncBitstream) option" where
  "enc_ce_TotalZeros malloc stream total_zeros TotalCoeff =
     do { lens \<leftarrow> nth_opt lenTotalZeros (TotalCoeff - 1);
          len \<leftarrow> nth_opt lens total_zeros;
          codes \<leftarrow> nth_opt codTotalZeros (TotalCoeff - 1);
          code \<leftarrow> nth_opt codes total_zeros;
          BitstreamWriteBits malloc stream len code }"

definition lenTotalZerosChromaDC :: "int list list" where
  "lenTotalZerosChromaDC =
      [[1, 2, 3, 3], [1, 2, 2, 0], [1, 1, 0, 0]]"

definition codTotalZerosChromaDC :: "uint list list" where
  "codTotalZerosChromaDC =
      [[1, 1, 1, 0], [1, 1, 0, 0], [1, 0, 0, 0]]"

definition enc_ce_TotalZerosChromaDC ::
  "malloc \<Rightarrow> AVCEncBitstream \<Rightarrow> int \<Rightarrow> int \<Rightarrow> (AVCEnc_Status \<times> AVCEncBitstream) option" where
  "enc_ce_TotalZerosChromaDC malloc stream total_zeros TotalCoeff =
     do { lens \<leftarrow> nth_opt lenTotalZerosChromaDC (TotalCoeff - 1);
          len \<leftarrow> nth_opt lens total_zeros;
          codes \<leftarrow> nth_opt codTotalZerosChromaDC (TotalCoeff - 1);
          code \<leftarrow> nth_opt codes total_zeros;
          BitstreamWriteBits malloc stream len code }"

definition lenRunBefore :: "int list list" where
  "lenRunBefore =
      [[1, 1, 0, 0, 0, 0, 0, 0, 0, 0, 0, 0, 0, 0, 0, 0], [1, 2, 2, 0, 0, 0, 0, 0, 0, 0, 0, 0, 0,
      0, 0, 0], [2, 2, 2, 2, 0, 0, 0, 0, 0, 0, 0, 0, 0, 0, 0, 0], [2, 2, 2, 3, 3, 0, 0, 0, 0, 0,
      0, 0, 0, 0, 0, 0], [2, 2, 3, 3, 3, 3, 0, 0, 0, 0, 0, 0, 0, 0, 0, 0], [2, 3, 3, 3, 3, 3, 3,
      0, 0, 0, 0, 0, 0, 0, 0, 0], [3, 3, 3, 3, 3, 3, 3, 4, 5, 6, 7, 8, 9, 10, 11, 0]]"

definition codRunBefore :: "uint list list" where
  "codRunBefore =
      [[1, 0, 0, 0, 0, 0, 0, 0, 0, 0, 0, 0, 0, 0, 0, 0], [1, 1, 0, 0, 0, 0, 0, 0, 0, 0, 0, 0, 0,
      0, 0, 0], [3, 2, 1, 0, 0, 0, 0, 0, 0, 0, 0, 0, 0, 0, 0, 0], [3, 2, 1, 1, 0, 0, 0, 0, 0, 0,
      0, 0, 0, 0, 0, 0], [3, 2, 3, 2, 1, 0, 0, 0, 0, 0, 0, 0, 0, 0, 0, 0], [3, 0, 1, 3, 2, 5, 4,
      0, 0, 0, 0, 0, 0, 0, 0, 0], [7, 6, 5, 4, 3, 2, 1, 1, 1, 1, 1, 1, 1, 1, 1, 0]]"

definition enc_ce_RunBefore ::
  "malloc \<Rightarrow> AVCEncBitstream \<Rightarrow> int \<Rightarrow> int \<Rightarrow> (AVCEnc_Status \<times> AVCEncBitstream) option" where
  "enc_ce_RunBefore malloc stream run_before zerosLeft =
     (let row = (if zerosLeft \<le> 6 then zerosLeft - 1 else 6)
      in do { lens \<leftarrow> nth_opt lenRunBefore row;
              len \<leftarrow> nth_opt lens run_before;
              codes \<leftarrow> nth_opt codRunBefore row;
              code \<leftarrow> nth_opt codes run_before;
              BitstreamWriteBits malloc stream len code })"

section \<open>What the Exp-Golomb functions emit\<close>

abbreviation enc_emits :: "(AVCEncBitstream \<Rightarrow> (AVCEnc_Status \<times> AVCEncBitstream) option) \<Rightarrow> bool list \<Rightarrow> bool" where
  "enc_emits p bs \<equiv> emits enc_inv enc_bits enc_room p AVCENC_SUCCESS bs"

lemma unat_of_nat_small: "k < 2 ^ 32 \<Longrightarrow> unat (of_nat k :: uint) = k"
  by (simp add: unat_of_nat take_bit_eq_mod)

lemma unat_push_1: "i < 32 \<Longrightarrow> unat (push_bit i 1 :: uint) = 2 ^ i"
  using unat_of_nat_small [of "2 ^ i"] power_strict_increasing [of i 32 "2::nat"]
  by (simp add: push_bit_eq_mult)

lemma eg_search_spec:
  assumes "j \<le> m" and "m \<le> 31" and "\<And>i. i < m \<Longrightarrow> 2 ^ i < k + 2" and "k + 2 \<le> 2 ^ m"
  shows "eg_search (of_nat k) (int j) = Some (int m)"
  using assms(1)
proof (induction "m - j" arbitrary: j)
  have "(2::nat) ^ m \<le> 2 ^ 31" using assms(2) by (rule power_increasing) simp
  then have "k + 2 < 2 ^ 32" using assms(4) by simp
  then have u: "unat (of_nat k + 2 :: uint) = k + 2"
    using unat_of_nat_small [of "k + 2"] by (simp add: add.commute)
  have less: "(push_bit i 1 :: uint) < of_nat k + 2 \<longleftrightarrow> 2 ^ i < k + 2" if "i < 32" for i
    using that by (simp only: word_less_nat_alt u unat_push_1)
  {
    case 0
    then show ?case using assms(2,4) less [of m] by (subst eg_search.simps) simp
  next
    case (Suc d)
    have "eg_search (of_nat k) (int (Suc j)) = Some (int m)"
      by (rule Suc.hyps(1)) (use Suc.hyps(2) Suc.prems in auto)
    then show ?case
      using assms(2) assms(3) [of j] Suc.hyps(2) less [of j]
      by (subst eg_search.simps) (auto simp: add.commute)
  }
qed

lemma SetEGBitstring_emits:
  assumes "k + 1 < 2 ^ 31"
  shows "enc_emits (\<lambda>s. SetEGBitstring malloc s (of_nat k)) (eg_bits k)"
proof (cases "k = 0")
  case True
  have eq: "nat_bits 1 (unat (1 :: uint)) = eg_bits k"
    using True by (simp add: eg_bits_def bit_length.simps)
  have "enc_emits (\<lambda>s. BitstreamWriteBits malloc s (int 1) 1) (eg_bits k)"
    unfolding eq [symmetric] by (rule enc.emits_wr) simp_all
  moreover have "BitstreamWrite1Bit malloc s 1 = BitstreamWriteBits malloc s 1 1" if "enc_inv s" for s
    using Write1Bit_WriteBits that by (simp add: enc_inv_def)
  ultimately show ?thesis using True by (simp add: SetEGBitstring_def emits_def)
next
  case False
  define m where "m = bit_length (k + 1)"
  have b: "2 ^ (m - 1) \<le> k + 1" "k + 1 < 2 ^ m" using bit_length_bounds [of "k + 1"] by (simp_all add: m_def)
  have m31: "m \<le> 31" using bit_length_le [OF assms] by (simp add: m_def)
  have m2: "2 \<le> m"
  proof (rule ccontr)
    assume "\<not> 2 \<le> m"
    then have "(2::nat) ^ m \<le> 2 ^ 1" by (intro power_increasing) simp_all
    then show False using b(2) False by simp
  qed
  define z where "z = m - 1"
  have mz: "m = Suc z" and z: "1 \<le> z" "z \<le> 30" using m2 m31 by (simp_all add: z_def)
  have "2 ^ i < k + 2" if "i < m" for i
  proof -
    have "(2::nat) ^ i \<le> 2 ^ (m - 1)" using that by (intro power_increasing) simp_all
    then show ?thesis using b(1) by linarith
  qed
  then have search: "eg_search (of_nat k) (int 1) = Some (int m)"
    using m2 m31 b(2) by (intro eg_search_spec) simp_all
  let ?p = "push_bit z 1 :: uint"
  have info: "(of_nat k - ?p + 1) OR ?p = of_nat (k + 1)"
  proof -
    have pz: "?p = of_nat (2 ^ z)" by (simp add: push_bit_eq_mult)
    have ge: "2 ^ z \<le> k + 1" using b(1) by (simp add: z_def)
    define r where "r = k + 1 - 2 ^ z"
    have r: "k + 1 = r + 2 ^ z" "r < 2 ^ z" using ge b(2) by (simp_all add: r_def mz)
    have "of_nat k - ?p + 1 = (of_nat (k + 1) - of_nat (2 ^ z) :: uint)" by (simp add: pz)
    also have "\<dots> = of_nat r" using ge by (simp add: r_def of_nat_diff)
    finally have eq: "of_nat k - ?p + 1 = (of_nat r :: uint)" .
    have "of_nat r AND ?p = (0 :: uint)"
    proof (rule bit_word_eqI)
      fix i assume i: "i < LENGTH(32)"
      have "\<not> bit r z" using r(2) by (simp add: bit_iff_odd)
      moreover have "bit ?p i \<longleftrightarrow> i = z" using i by (auto simp only: bit_push_bit_iff bit_1_iff possible_bit_word)
      ultimately show "bit (of_nat r AND ?p) i = bit (0 :: uint) i"
        unfolding bit_and_iff by (auto simp: bit_of_nat_iff)
    qed
    then have "of_nat r OR ?p = of_nat r + ?p" by (rule disjunctive_add_eq_or [symmetric])
    then show ?thesis unfolding eq by (simp only: pz r(1) of_nat_add)
  qed
  have u: "unat (of_nat (k + 1) :: uint) = k + 1" using assms by (intro unat_of_nat_small) simp
  have p1: "enc_emits (\<lambda>s. BitstreamWriteBits malloc s (int z) 0) (replicate z False)"
    using enc.emits_wr [of z 0 malloc] z by (simp add: nat_bits_def map_replicate_const)
  have p2: "enc_emits (\<lambda>s. BitstreamWriteBits malloc s (int m) (of_nat (k + 1))) (nat_bits m (k + 1))"
    using enc.emits_wr [of m "of_nat (k + 1)" malloc] m2 m31 b(2) by (simp only: u)
  have bits: "eg_bits k = replicate z False @ nat_bits m (k + 1)" by (simp add: eg_bits_def m_def z_def)
  have "SetEGBitstring malloc s (of_nat k)
      = Option.bind (BitstreamWriteBits malloc s (int z) 0)
          (\<lambda>(e, t). BitstreamWriteBits malloc t (int m) (of_nat (k + 1)))" for s
  proof -
    have "of_nat k \<noteq> (0 :: uint)" using False assms unat_of_nat_small [of k] by auto
    then show ?thesis
      unfolding SetEGBitstring_def using search z info
      by (simp add: Let_def case_prod_unfold mz add.commute)
  qed
  then show ?thesis unfolding bits by (simp only: emits_seq [OF p1 p2])
qed

lemma enc_ue_v_emits [emit_intros]:
  assumes "k + 1 < 2 ^ 31"
  shows "enc_emits (\<lambda>s. enc_ue_v malloc s (of_nat k)) (eg_bits k)"
  using SetEGBitstring_emits [OF assms, of malloc] by (fastforce simp: emits_def enc_ue_v_def)

lemma enc_se_v_emits [emit_intros]:
  assumes "\<bar>v\<bar> < 2 ^ 29"
  shows "enc_emits (\<lambda>s. enc_se_v malloc s v) (eg_bits (se_num v))"
proof -
  have "se_num v + 1 < 2 ^ 31" using assms by (auto simp: se_num_def)
  moreover have "enc_se_v malloc s v = enc_ue_v malloc s (of_nat (se_num v))" for s
    by (simp add: enc_se_v_def se_num_def Let_def)
  ultimately show ?thesis using enc_ue_v_emits by simp
qed

lemma enc_te_v_bit: "enc_emits (\<lambda>s. enc_te_v malloc s (of_bool b) 1) [\<not> b]"
proof -
  have "enc_emits (\<lambda>s. BitstreamWriteBits malloc s (int 1) (1 - of_bool b))
      (nat_bits 1 (unat (1 - of_bool b :: uint)))"
    by (rule enc.emits_wr) simp_all
  moreover have "nat_bits 1 (unat (1 - of_bool b :: uint)) = [\<not> b]"
    by (cases b) (simp_all add: nat_bits_def bit_0)
  moreover have "BitstreamWrite1Bit malloc s c = BitstreamWriteBits malloc s 1 c" if "enc_inv s" for s c
    using Write1Bit_WriteBits that by (simp add: enc_inv_def)
  ultimately show ?thesis by (simp add: enc_te_v_def emits_def)
qed

end
