(* ===== verification/SyntaxElements.thy ===== *)
theory SyntaxElements
  imports DecVlc EncVlc
begin

text \<open>
  Sequences of syntax elements, as the headers are made of them: a fixed-length code (\<open>u(n)\<close>), a flag,
  an unsigned or a signed Exp-Golomb code, each written by the encoder's operation and read by the
  decoder's. A sequence closed with the trailing bits is one NAL unit; \<open>write_unit\<close> and \<open>read_unit\<close>
  compose the two bitstream objects, the escaping and the framing.
\<close>

datatype syntax_element = U nat uint | Flag bool | UE nat | SE int

fun elem_ok :: "syntax_element \<Rightarrow> bool" where
  "elem_ok (U n c) \<longleftrightarrow> 1 \<le> n \<and> n \<le> 31 \<and> unat c < 2 ^ n"
| "elem_ok (Flag b) \<longleftrightarrow> True"
| "elem_ok (UE k) \<longleftrightarrow> k < 65535"
| "elem_ok (SE v) \<longleftrightarrow> \<bar>v\<bar> < 32768"

fun elem_bits :: "syntax_element \<Rightarrow> bool list" where
  "elem_bits (U n c) = nat_bits n (unat c)"
| "elem_bits (Flag b) = [b]"
| "elem_bits (UE k) = eg_bits k"
| "elem_bits (SE v) = eg_bits (se_num v)"

definition unit_bits :: "syntax_element list \<Rightarrow> bool list" where
  "unit_bits es = concat (map elem_bits es)"

fun write_elem :: "malloc \<Rightarrow> syntax_element \<Rightarrow> AVCEncBitstream \<Rightarrow> (AVCEnc_Status \<times> AVCEncBitstream) option" where
  "write_elem malloc (U n c) s = BitstreamWriteBits malloc s (int n) c"
| "write_elem malloc (Flag b) s = BitstreamWrite1Bit malloc s (of_bool b)"
| "write_elem malloc (UE k) s = enc_ue_v malloc s (of_nat k)"
| "write_elem malloc (SE v) s = enc_se_v malloc s v"

fun write_elems :: "malloc \<Rightarrow> syntax_element list \<Rightarrow> AVCEncBitstream \<Rightarrow> (AVCEnc_Status \<times> AVCEncBitstream) option" where
  "write_elems malloc [] s = Some (AVCENC_SUCCESS, s)"
| "write_elems malloc (e # es) s =
     Option.bind (write_elem malloc e s) (\<lambda>(st, t). if st \<noteq> AVCENC_SUCCESS then Some (st, t) else write_elems malloc es t)"

text \<open>The reader knows the kinds of the elements; the values in its first argument are not looked at.\<close>

fun read_elem :: "syntax_element \<Rightarrow> AVCDecBitstream \<Rightarrow> (syntax_element \<times> AVCDecBitstream) option" where
  "read_elem (U n _) s = Option.bind (BitstreamReadBits s (int n)) (\<lambda>(c, t). Some (U n c, t))"
| "read_elem (Flag _) s = Option.bind (BitstreamRead1Bit s) (\<lambda>(c, t). Some (Flag (c \<noteq> 0), t))"
| "read_elem (UE _) s = Option.bind (ue_v s) (\<lambda>(c, t). Some (UE (unat c), t))"
| "read_elem (SE _) s = Option.bind (se_v s) (\<lambda>(v, t). Some (SE v, t))"

fun read_elems :: "syntax_element list \<Rightarrow> AVCDecBitstream \<Rightarrow> (syntax_element list \<times> AVCDecBitstream) option" where
  "read_elems [] s = Some ([], s)"
| "read_elems (e # es) s =
     Option.bind (read_elem e s) (\<lambda>(x, t). Option.bind (read_elems es t) (\<lambda>(xs, u). Some (x # xs, u)))"

definition write_unit ::
  "malloc \<Rightarrow> AVCEncBitstream \<Rightarrow> addr \<Rightarrow> int \<Rightarrow> syntax_element list \<Rightarrow> (AVCEnc_Status \<times> AVCEncBitstream) option" where
  "write_unit malloc s a n es =
     (let (st, s0) = BitstreamEncInit s (Some a) n None 0
      in if st \<noteq> AVCENC_SUCCESS then Some (st, s0)
         else Option.bind (write_elems malloc es s0) (\<lambda>(st, s1).
           if st \<noteq> AVCENC_SUCCESS then Some (st, s1) else BitstreamTrailingBits malloc s1))"

definition read_unit :: "uint8 list \<Rightarrow> syntax_element list \<Rightarrow> (syntax_element list \<times> AVCDecBitstream) option" where
  "read_unit buf es =
     do { (st, off, sz) \<leftarrow> PVAVCAnnexBGetNALUnit buf (int (length buf));
          if st = AVCDEC_FAIL then None
          else do { d \<leftarrow> BitstreamInit (drop (nat off) buf) sz; read_elems es d } }"

section \<open>One element\<close>

lemma nat_bits_flag [simp]: "nat_bits (Suc 0) (unat (of_bool b :: uint)) = [b]"
  by (cases b) (simp_all add: nat_bits_def bit_0)

lemma write_elem_emits: "elem_ok e \<Longrightarrow> enc_emits (write_elem malloc e) (elem_bits e)"
proof (cases e)
  case (U n c)
  assume "elem_ok e"
  then show ?thesis using enc.emits_wr [of n c malloc] U by (simp add: emits_def)
next
  case (Flag b)
  have "enc_emits (\<lambda>s. BitstreamWriteBits malloc s (int 1) (of_bool b)) (nat_bits 1 (unat (of_bool b :: uint)))"
    by (rule enc.emits_wr) (cases b; simp)+
  moreover have "BitstreamWrite1Bit malloc s c = BitstreamWriteBits malloc s 1 c" if "enc_inv s" for s c
    using Write1Bit_WriteBits that by (simp add: enc_inv_def)
  ultimately show ?thesis using Flag by (simp add: emits_def del: of_bool_eq split del: if_split)
next
  case (UE k)
  assume "elem_ok e"
  then show ?thesis using enc_ue_v_emits [of k malloc] UE by (simp add: emits_def)
next
  case (SE v)
  assume "elem_ok e"
  then show ?thesis using enc_se_v_emits [of v malloc] SE by (simp add: emits_def)
qed

lemma read_elem_consumes: "elem_ok e \<Longrightarrow> consumes dec_inv dec_bits (read_elem e) (elem_bits e) e"
proof (cases e)
  case (U n c)
  assume "elem_ok e"
  then have n: "1 \<le> n" "n \<le> 31" "unat c < 2 ^ n" using U by simp_all
  have c: "bits_word (nat_bits n (unat c)) = c" using n(3) by (simp add: bits_word_def bits_val_nat_bits)
  show ?thesis
    using consumes_map [OF dec.consumes_rd [of "nat_bits n (unat c)" n], of e "U n"] n c U by (simp add: consumes_def)
next
  case (Flag b)
  have "bits_word [b] \<noteq> 0 \<longleftrightarrow> b" by (cases b) (simp_all add: bits_word_def)
  then show ?thesis
    using consumes_map [OF dec.consumes_rd [of "[b]" 1], of e "\<lambda>c. Flag (c \<noteq> 0)"] Flag
    by (simp add: Read1Bit_ReadBits consumes_def)
next
  case (UE k)
  assume "elem_ok e"
  then have k: "k < 65535" using UE by simp
  then show ?thesis
    using consumes_map [OF ue_v_consumes, of k e "\<lambda>c. UE (unat c)"] UE by (simp add: unat_of_nat_small consumes_def)
next
  case (SE v)
  assume "elem_ok e"
  then show ?thesis using consumes_map [OF se_v_consumes, of v e SE] SE by (simp add: consumes_def)
qed

section \<open>Sequences and units\<close>

lemma write_elems_emits: "list_all elem_ok es \<Longrightarrow> enc_emits (write_elems malloc es) (unit_bits es)"
proof (induction es)
  case Nil
  then show ?case using emits_return [of enc_inv enc_bits enc_room AVCENC_SUCCESS]
    by (simp add: unit_bits_def emits_def)
next
  case (Cons e es)
  let ?q = "\<lambda>st t. if st \<noteq> AVCENC_SUCCESS then Some (st, t) else write_elems malloc es t"
  have "enc_emits (?q AVCENC_SUCCESS) (unit_bits es)" using Cons by (simp add: emits_def)
  moreover have "enc_emits (write_elem malloc e) (elem_bits e)" using Cons.prems by (intro write_elem_emits) simp
  ultimately show ?case using emits_seq [of enc_inv enc_bits enc_room "write_elem malloc e" AVCENC_SUCCESS "elem_bits e" ?q]
    by (simp add: unit_bits_def emits_def)
qed

lemma read_elems_consumes: "list_all elem_ok es \<Longrightarrow> consumes dec_inv dec_bits (read_elems es) (unit_bits es) es"
proof (induction es)
  case Nil
  then show ?case by (simp add: unit_bits_def consumes_def)
next
  case (Cons e es)
  then have IH: "consumes dec_inv dec_bits (read_elems es) (unit_bits es) es" by simp
  have one: "consumes dec_inv dec_bits (read_elem e) (elem_bits e) e"
    using Cons.prems by (intro read_elem_consumes) simp
  have "consumes dec_inv dec_bits (\<lambda>t. Option.bind (read_elems es t) (\<lambda>(xs, u). Some (e # xs, u))) (unit_bits es) (e # es)"
    by (rule consumes_map [OF IH]) simp
  from consumes_bind [where q = "\<lambda>x t. Option.bind (read_elems es t) (\<lambda>(xs, u). Some (x # xs, u))", OF one this]
  show ?case by (simp add: unit_bits_def)
qed

lemma write_unit_spec:
  assumes ok: "list_all elem_ok es" and buf: "mem s a = Some buf" "n \<le> int (length buf)"
    and room: "int (length (unit_bits es)) + 9 \<le> 32 * ((n - 1) div 6)" "0 < n"
  shows "\<exists>s' b. write_unit malloc s a n es = Some (AVCENC_SUCCESS, s') \<and> enc_inv s' \<and> bit_left s' = 32
    \<and> enc_bits s' = unit_bits es @ stop_bits b \<and> 1 \<le> b \<and> b \<le> 8"
proof -
  obtain s0 where s0: "BitstreamEncInit s (Some a) n None 0 = (AVCENC_SUCCESS, s0)" "enc_inv s0" "enc_bits s0 = []"
      "enc_room s0 = nat (32 * ((n - 1) div 6) + 31)"
    using EncInit_spec [OF buf(1) room(2) buf(2), of None 0] by blast
  have "length (unit_bits es) \<le> enc_room s0" using s0(4) room(1) by simp
  then obtain s1 where s1: "write_elems malloc es s0 = Some (AVCENC_SUCCESS, s1)" "enc_inv s1"
      "enc_bits s1 = unit_bits es" "enc_room s0 \<le> enc_room s1 + length (unit_bits es)"
    using emitsE [OF write_elems_emits [OF ok, of malloc] s0(2)] s0(3) by auto
  have "40 \<le> enc_room s1" using s1(4) s0(4) room(1) by linarith
  from TrailingBits_spec [OF s1(2) this] obtain s2 where s2: "BitstreamTrailingBits malloc s1 = Some (AVCENC_SUCCESS, s2)"
      "enc_inv s2" "bit_left s2 = 32" "enc_bits s2 = unit_bits es @ stop_bits (pad_len s1)"
    using s1(3) by metis
  have "1 \<le> pad_len s1 \<and> pad_len s1 \<le> 8" by (auto simp: pad_len_def split: if_splits)
  then show ?thesis using s0(1) s1(1) s2 by (auto simp: write_unit_def)
qed

lemma read_unit_spec:
  assumes ok: "list_all elem_ok es" and inv: "enc_inv s" "bit_left s = 32"
    and bits: "enc_bits s = unit_bits es @ stop_bits b" "1 \<le> b" "b \<le> 8" and after: "after = [] \<or> next_tail after"
  shows "\<exists>d. read_unit (replicate z 0 @ 1 # nal_bytes s @ after) es = Some (es, d) \<and> dec_inv d \<and> dec_bits d = stop_bits b"
proof -
  note unit = closed_unit [OF inv bits]
  let ?buf = "replicate z 0 @ 1 # nal_bytes s @ after"
  have split: "PVAVCAnnexBGetNALUnit ?buf (int (length ?buf))
      = Some (if after = [] then AVCDEC_NO_NEXT_SC else AVCDEC_SUCCESS, int z + 1, int (length (nal_bytes s)))"
    by (rule AnnexB_unit [OF unit(1) after refl])
  have "drop (nat (int z + 1)) ?buf = nal_bytes s @ after" by (simp add: nat_add_distrib)
  moreover obtain d where d: "BitstreamInit (nal_bytes s @ after) (int (length (nal_bytes s))) = Some d" "dec_inv d"
      "dec_bits d = unit_bits es @ stop_bits b"
    using unit(2) [of after] by blast
  moreover obtain d' where "read_elems es d = Some (es, d')" "dec_inv d'" "dec_bits d' = stop_bits b"
    using read_elems_consumes [OF ok] d(2,3) by (rule consumesE)
  ultimately show ?thesis unfolding read_unit_def split by simp
qed

end
