(* ===== verification/StreamProps.thy ===== *)
theory StreamProps
  imports SyntaxElements
begin

text \<open>
  The properties of the two bitstream objects, of the NAL unit layer and of the Exp-Golomb codes, each
  with a witness at a concrete stream.
\<close>

section \<open>Concrete streams\<close>

definition demo_enc :: AVCEncBitstream where
  "demo_enc = \<lparr>mem = [0 \<mapsto> replicate 64 0], bitstreamBuffer = 0, buf_size = 64, write_pos = 0, count_zeros = 0,
     current_word = 0, bit_left = 32, overrunBuffer = None, oBSize = 0, encvid_overrunBuffer = None, encvid_oBSize = 0\<rparr>"

text \<open>A stream whose buffer of four bytes is too small for a full word with its escapes.\<close>

definition full_enc :: AVCEncBitstream where
  "full_enc = demo_enc\<lparr>mem := [0 \<mapsto> replicate 4 0], buf_size := 4, bit_left := 0, current_word := 0x01020304\<rparr>"

definition demo_malloc :: malloc where
  "demo_malloc h n = (if h 1 = None \<and> 0 \<le> n then Some (1, h(1 \<mapsto> replicate (nat n) 0)) else None)"

definition demo_dec :: AVCDecBitstream where
  "demo_dec = the (BitstreamInit [0x12, 0x34, 0x56, 0x78, 0x9A] 5)"

definition short_dec :: AVCDecBitstream where
  "short_dec = the (BitstreamInit [0x80] 1)"

lemma demo_enc_ok: "enc_inv demo_enc" "enc_room demo_enc = 351"
  by (simp_all add: demo_enc_def enc_inv_def enc_core_def enc_mem_def enc_payload_def enc_written_def
      enc_capacity_def enc_room_def)

lemma full_enc_ok: "enc_core full_enc" "bit_left full_enc = 32 - 8 * int 4" "overrun_ok full_enc"
  by (simp_all add: full_enc_def demo_enc_def enc_core_def enc_mem_def enc_payload_def enc_written_def
      enc_capacity_def overrun_ok_def)

lemma demo_malloc_ok: "malloc_ok demo_malloc"
  by (auto simp: malloc_ok_def demo_malloc_def split: if_splits intro!: exI [of _ "replicate _ 0"])

lemma demo_dec_ok: "dec_inv demo_dec" "dec_bits demo_dec = bytes_bits [0x12, 0x34, 0x56, 0x78, 0x9A]" "incnt demo_dec = 0"
  using BitstreamInit_spec [of 5 "[0x12, 0x34, 0x56, 0x78, 0x9A]"]
  by (auto simp: demo_dec_def BitstreamInit_def bind_eq_Some_conv)

lemma short_dec_ok: "dec_inv short_dec" "dec_bits short_dec = bytes_bits [0x80]"
  using BitstreamInit_spec [of 1 "[0x80]"] by (auto simp: short_dec_def)

section \<open>A whole unit\<close>

text \<open>C1: what the encoder writes into a NAL unit the decoder reads back. A sequence of syntax elements
  (fixed-length codes, flags, unsigned and signed Exp-Golomb codes) written with \<open>BitstreamWriteBits\<close>,
  \<open>ue_v\<close> and \<open>se_v\<close>, closed with \<open>BitstreamTrailingBits\<close>, put after a start code and possibly before a
  next one, is found by \<open>PVAVCAnnexBGetNALUnit\<close>, unescaped by \<open>BitstreamInit\<close> and read as the same
  sequence, whatever emulation prevention bytes went in between.\<close>

theorem unit_roundtrip:
  assumes "list_all elem_ok es" and "mem s a = Some buf" and "0 < n" "n \<le> int (length buf)"
    and "int (length (unit_bits es)) + 9 \<le> 32 * ((n - 1) div 6)" and "after = [] \<or> next_tail after"
  shows "\<exists>s' d. write_unit malloc s a n es = Some (AVCENC_SUCCESS, s') \<and>
    read_unit (replicate z 0 @ 1 # nal_bytes s' @ after) es = Some (es, d)"
proof -
  obtain s' b where s': "write_unit malloc s a n es = Some (AVCENC_SUCCESS, s')" "enc_inv s'" "bit_left s' = 32"
      "enc_bits s' = unit_bits es @ stop_bits b" "1 \<le> b" "b \<le> 8"
    using write_unit_spec [OF assms(1,2,4,5,3)] by blast
  then show ?thesis using read_unit_spec [OF assms(1) s'(2-6) assms(6)] by blast
qed

definition demo_elems :: "syntax_element list" where
  "demo_elems = [U 8 66, Flag True, UE 0, UE 7, SE (- 3), U 24 0]"

lemma demo_elems_ok: "list_all elem_ok demo_elems" "int (length (unit_bits demo_elems)) + 9 \<le> 32 * ((64 - 1) div 6)"
  by (simp_all add: demo_elems_def unit_bits_def length_eg_bits se_num_def bit_length.simps)

lemma unit_roundtrip_witness:
  "\<exists>s' d. write_unit demo_malloc demo_enc 0 64 demo_elems = Some (AVCENC_SUCCESS, s') \<and>
    read_unit (replicate 3 0 @ 1 # nal_bytes s' @ []) demo_elems = Some (demo_elems, d)"
  by (rule unit_roundtrip [where buf = "replicate 64 0"])
    (use demo_elems_ok in \<open>simp_all add: demo_enc_def\<close>)

section \<open>The decoder's reader\<close>

text \<open>C22: \<open>BitstreamReadBits\<close> refines reading from a list of bits: it returns the next \<open>n\<close> bits, at most
  31, as a number, keeps the invariant of the two-word cache and leaves the rest of the bits.\<close>

theorem ReadBits_refines:
  assumes "dec_inv s" and "1 \<le> n" "n \<le> 31" and "n \<le> length (dec_bits s)"
  shows "\<exists>s'. BitstreamReadBits s (int n) = Some (bits_word (take n (dec_bits s)), s')
     \<and> dec_inv s' \<and> dec_bits s' = drop n (dec_bits s) \<and> bitcnt s' = bitcnt s + int n"
  using read_spec [OF assms] by blast

lemma ReadBits_refines_witness:
  "\<exists>s'. BitstreamReadBits demo_dec (int 12) = Some (bits_word (take 12 (dec_bits demo_dec)), s')
     \<and> dec_inv s' \<and> dec_bits s' = drop 12 (dec_bits demo_dec) \<and> bitcnt s' = bitcnt demo_dec + int 12"
  by (rule ReadBits_refines) (simp_all add: demo_dec_ok)

text \<open>C24: refilling the cache changes no unread bit: \<open>AVC_BitstreamFillCache\<close> keeps the invariant, and
  afterwards the first word is full or holds everything that is left.\<close>

theorem FillCache_keeps:
  assumes "dec_inv s" and "incnt s < 32"
  shows "\<exists>s'. AVC_BitstreamFillCache s = Some s' \<and> dec_inv s' \<and> dec_bits s' = dec_bits s
     \<and> incnt s' = min 32 (int (length (dec_bits s))) \<and> bitcnt s' = bitcnt s"
  using fill_cache_spec [OF assms] by blast

lemma FillCache_keeps_witness:
  "\<exists>s'. AVC_BitstreamFillCache demo_dec = Some s' \<and> dec_inv s' \<and> dec_bits s' = dec_bits demo_dec
     \<and> incnt s' = min 32 (int (length (dec_bits demo_dec))) \<and> bitcnt s' = bitcnt demo_dec"
  by (rule FillCache_keeps) (simp_all add: demo_dec_ok)

text \<open>C40: a read past the end of the data answers the bits that are left followed by zeros, and the next
  read has no defined result: \<open>incnt\<close> is negative then, and the refill shifts by it.\<close>

theorem Read_past_end:
  assumes "dec_inv s" and "1 \<le> n" "n \<le> 31" and "length (dec_bits s) < n" and "0 \<le> m"
  shows "\<exists>s'. BitstreamReadBits s (int n) = Some (bits_word (take n (dec_bits s @ replicate n False)), s')
     \<and> BitstreamReadBits s' m = None"
  using read_past_end [OF assms(1-4)] read_after_overrun [OF _ assms(5)] by blast

lemma Read_past_end_witness:
  "\<exists>s'. BitstreamReadBits short_dec (int 9) = Some (bits_word (take 9 (dec_bits short_dec @ replicate 9 False)), s')
     \<and> BitstreamReadBits s' 1 = None"
  by (rule Read_past_end) (simp_all add: short_dec_ok)



section \<open>NAL units\<close>

text \<open>C30: \<open>EBSPtoRBSP\<close>, which works in place, undoes the encoder's escaping: whatever follows the escaped
  unit in the buffer, the payload comes out, with its length.\<close>

theorem EBSPtoRBSP_undoes:
  assumes "xs = [] \<or> last xs \<noteq> 0"
  shows "\<exists>buf'. EBSPtoRBSP (esc 0 xs @ rest) (int (length (esc 0 xs))) = Some (buf', int (length xs))
     \<and> take (length xs) buf' = xs"
  using EBSPtoRBSP_spec [of "length (esc 0 xs)" "esc 0 xs @ rest"] stops_inside_esc [OF _ assms, of 0]
    unesc_esc [of 0 xs]
  by auto

lemma EBSPtoRBSP_undoes_witness:
  "\<exists>buf'. EBSPtoRBSP (esc 0 [0, 0, 0, 0, 1] @ [7]) (int (length (esc 0 [0, 0, 0, 0, 1]))) = Some (buf', int (length [0, 0, 0, 0, 1 :: uint8]))
     \<and> take (length [0, 0, 0, 0, 1 :: uint8]) buf' = [0, 0, 0, 0, 1]"
  by (rule EBSPtoRBSP_undoes) simp

text \<open>C31: \<open>PVAVCAnnexBGetNALUnit\<close> finds the unit between its start code and the next one, or the end of
  the buffer: the offset, the length and the status are the right ones for every unit without an
  embedded start code.\<close>

theorem AnnexB_finds_unit:
  assumes "sc_free nal" and "after = [] \<or> next_tail after"
  shows "PVAVCAnnexBGetNALUnit (replicate z 0 @ 1 # nal @ after) (int (length (replicate z 0 @ 1 # nal @ after)))
    = Some (if after = [] then AVCDEC_NO_NEXT_SC else AVCDEC_SUCCESS, int z + 1, int (length nal))"
  by (rule AnnexB_unit [OF assms refl])

lemma AnnexB_finds_unit_witness:
  "PVAVCAnnexBGetNALUnit (replicate 2 0 @ 1 # [0x67, 0, 5] @ [0, 0, 1, 9]) (int (length (replicate 2 0 @ 1 # [0x67, 0, 5] @ [0, 0, 1, 9 :: uint8])))
    = Some (if [0, 0, 1, 9 :: uint8] = [] then AVCDEC_NO_NEXT_SC else AVCDEC_SUCCESS, int 2 + 1, int (length [0x67, 0, 5 :: uint8]))"
proof (rule AnnexB_finds_unit)
  show "sc_free [0x67, 0, 5]" by (simp add: sc_free_def)
  have "next_tail [0, 0, 1, 9]" unfolding next_tail_def by (intro exI [of _ 2] exI [of _ "[9]"]) (simp add: numeral_2_eq_2)
  then show "[0, 0, 1, 9 :: uint8] = [] \<or> next_tail [0, 0, 1, 9]" ..
qed

section \<open>The encoder's writer\<close>

text \<open>C23: \<open>BitstreamWriteBits\<close> refines appending to a list of bits: the \<open>n\<close> bits of the code, most
  significant first, are what is added, across the flush of a full word with its emulation prevention.\<close>

theorem WriteBits_refines:
  assumes "enc_inv s" and "1 \<le> n" "n \<le> 31" and "unat code < 2 ^ n" and "n \<le> enc_room s"
  shows "\<exists>s'. BitstreamWriteBits malloc s (int n) code = Some (AVCENC_SUCCESS, s') \<and> enc_inv s'
     \<and> enc_bits s' = enc_bits s @ nat_bits n (unat code) \<and> enc_room s \<le> enc_room s' + n"
  by (rule WriteBits_spec [OF assms])

lemma WriteBits_refines_witness:
  "\<exists>s'. BitstreamWriteBits demo_malloc demo_enc (int 10) 515 = Some (AVCENC_SUCCESS, s') \<and> enc_inv s'
     \<and> enc_bits s' = enc_bits demo_enc @ nat_bits 10 (unat (515 :: uint)) \<and> enc_room demo_enc \<le> enc_room s' + 10"
  by (rule WriteBits_refines) (simp_all add: demo_enc_ok)

text \<open>\<open>BitstreamTrailingBits\<close> adds a one and the zeros up to the next byte boundary and empties the
  word; a write that the buffer has no room for is what it would fail on.\<close>

theorem TrailingBits_align:
  assumes "enc_inv s" and "40 \<le> enc_room s"
  shows "\<exists>s'. BitstreamTrailingBits malloc s = Some (AVCENC_SUCCESS, s') \<and> enc_inv s' \<and> bit_left s' = 32
     \<and> enc_bits s' = enc_bits s @ stop_bits (pad_len s) \<and> length (enc_bits s') mod 8 = 0"
proof -
  obtain s' where s': "BitstreamTrailingBits malloc s = Some (AVCENC_SUCCESS, s')" "enc_inv s'" "bit_left s' = 32"
      "enc_bits s' = enc_bits s @ stop_bits (pad_len s)"
    using TrailingBits_spec [OF assms] by blast
  have "enc_bits s' = bytes_bits (enc_payload s')" unfolding enc_bits_def s'(3) by simp
  then have "length (enc_bits s') mod 8 = 0" by (simp only: length_bytes_bits mod_mult_self1_is_0)
  with s' show ?thesis by (intro exI [of _ s'] conjI)
qed

lemma TrailingBits_align_witness:
  "\<exists>s'. BitstreamTrailingBits demo_malloc demo_enc = Some (AVCENC_SUCCESS, s') \<and> enc_inv s' \<and> bit_left s' = 32
     \<and> enc_bits s' = enc_bits demo_enc @ stop_bits (pad_len demo_enc) \<and> length (enc_bits s') mod 8 = 0"
  by (rule TrailingBits_align) (simp_all add: demo_enc_ok)

text \<open>C29: when the buffer has no room for a word, \<open>AVCBitstreamSaveWord\<close> moves the stream to the overrun
  buffer, growing it if need be, or reports a full buffer; in every case no byte written before is lost,
  and on success the bytes of the word follow them.\<close>

theorem SaveWord_never_loses:
  assumes "enc_core s" and "overrun_ok s" and "malloc_ok malloc" and "bit_left s = 32 - 8 * int nb" "nb \<le> 4"
  shows "\<exists>st s'. AVCBitstreamSaveWord malloc s = Some (st, s') \<and> enc_core s'
     \<and> (st = AVCENC_SUCCESS \<and> enc_payload s' = enc_payload s @ word_bytes (current_word s) nb
          \<and> current_word s' = 0 \<and> bit_left s' = 32
        \<or> st = AVCENC_BITSTREAM_BUFFER_FULL \<and> enc_payload s' = enc_payload s)"
  by (rule SaveWord_overrun [OF assms])

lemma SaveWord_never_loses_witness:
  "\<exists>st s'. AVCBitstreamSaveWord demo_malloc full_enc = Some (st, s') \<and> enc_core s'
     \<and> (st = AVCENC_SUCCESS \<and> enc_payload s' = enc_payload full_enc @ word_bytes (current_word full_enc) 4
          \<and> current_word s' = 0 \<and> bit_left s' = 32
        \<or> st = AVCENC_BITSTREAM_BUFFER_FULL \<and> enc_payload s' = enc_payload full_enc)"
  by (rule SaveWord_never_loses [OF full_enc_ok(1,3) demo_malloc_ok full_enc_ok(2)]) simp

section \<open>Exp-Golomb codes\<close>

text \<open>C32: the unsigned Exp-Golomb code of \<open>k\<close> that the encoder's \<open>ue_v\<close> emits is what the decoder's
  \<open>ue_v\<close> consumes, for every value of up to fifteen leading zeros.\<close>

theorem ue_v_roundtrip:
  assumes "k < 65535"
  shows "enc_emits (\<lambda>s. enc_ue_v malloc s (of_nat k)) (eg_bits k) \<and> consumes dec_inv dec_bits ue_v (eg_bits k) (of_nat k)"
  using enc_ue_v_emits [of k malloc] ue_v_consumes [OF assms] assms by simp

lemma ue_v_roundtrip_witness:
  "enc_emits (\<lambda>s. enc_ue_v demo_malloc s (of_nat 300)) (eg_bits 300) \<and> consumes dec_inv dec_bits ue_v (eg_bits 300) (of_nat 300)"
  by (rule ue_v_roundtrip) simp

text \<open>C33: the same for the signed code, with the sign mapped by \<open>se_num\<close>.\<close>

theorem se_v_roundtrip:
  assumes "\<bar>v\<bar> < 32768"
  shows "enc_emits (\<lambda>s. enc_se_v malloc s v) (eg_bits (se_num v)) \<and> consumes dec_inv dec_bits se_v (eg_bits (se_num v)) v"
  using enc_se_v_emits [of v malloc] se_v_consumes [OF assms] assms by simp

lemma se_v_roundtrip_witness:
  "enc_emits (\<lambda>s. enc_se_v demo_malloc s (- 26)) (eg_bits (se_num (- 26))) \<and> consumes dec_inv dec_bits se_v (eg_bits (se_num (- 26))) (- 26)"
  by (rule se_v_roundtrip) simp

end
