(* ===== verification/ParamSets.thy ===== *)
theory ParamSets
  imports AvcPrelude
begin

text \<open>
  The parameter sets and the slice header, the structures \<open>tagHRDParams\<close>, \<open>tagVUIParam\<close>,
  \<open>tagSeqParamSet\<close>, \<open>tagPicParamSet\<close> and \<open>tagSliceHeader\<close> of
  \<open>codecs_v2/video/avc_h264/common/include/avcint_common.h\<close>, field by field in the order of the code.
  One-bit fields that are only written from one bit and only tested are \<open>bool\<close>; the other \<open>uint\<close>
  fields of a sequence parameter set are their value, an \<open>int\<close> of \<open>0 \<dots> 2\<^sup>3\<^sup>2 - 1\<close>. Arrays of fixed length are
  lists. A field name that two structures share has the prefix of its structure in one of them
  (\<open>pps_\<close>, \<open>sh_\<close>).
\<close>

record AVCHRDParams =
  cpb_cnt_minus1 :: uint
  bit_rate_scale :: uint
  cpb_size_scale :: uint
  bit_rate_value_minus1 :: "uint list"
  cpb_size_value_minus1 :: "uint list"
  cbr_flag :: "uint list"
  initial_cpb_removal_delay_length_minus1 :: uint
  cpb_removal_delay_length_minus1 :: uint
  dpb_output_delay_length_minus1 :: uint
  time_offset_length :: uint

record AVCVUIParams =
  aspect_ratio_info_present_flag :: bool
  aspect_ratio_idc :: uint
  sar_width :: uint
  sar_height :: uint
  overscan_info_present_flag :: bool
  overscan_appropriate_flag :: bool
  video_signal_type_present_flag :: bool
  video_format :: uint
  video_full_range_flag :: bool
  colour_description_present_flag :: bool
  colour_primaries :: uint
  transfer_characteristics :: uint
  matrix_coefficients :: uint
  chroma_location_info_present_flag :: bool
  chroma_sample_loc_type_top_field :: uint
  chroma_sample_loc_type_bottom_field :: uint
  timing_info_present_flag :: bool
  num_units_in_tick :: uint
  time_scale :: uint
  fixed_frame_rate_flag :: bool
  nal_hrd_parameters_present_flag :: bool
  nal_hrd_parameters :: AVCHRDParams
  vcl_hrd_parameters_present_flag :: bool
  vcl_hrd_parameters :: AVCHRDParams
  low_delay_hrd_flag :: bool
  pic_struct_present_flag :: bool
  bitstream_restriction_flag :: bool
  motion_vectors_over_pic_boundaries_flag :: bool
  max_bytes_per_pic_denom :: uint
  max_bits_per_mb_denom :: uint
  log2_max_mv_length_vertical :: uint
  log2_max_mv_length_horizontal :: uint
  max_dec_frame_reordering :: uint
  max_dec_frame_buffering :: uint

record AVCSeqParamSet =
  Valid :: bool
  profile_idc :: int
  constrained_set0_flag :: bool
  constrained_set1_flag :: bool
  constrained_set2_flag :: bool
  constrained_set3_flag :: bool
  level_idc :: int
  seq_parameter_set_id :: int
  log2_max_frame_num_minus4 :: int
  pic_order_cnt_type :: int
  log2_max_pic_order_cnt_lsb_minus4 :: int
  delta_pic_order_always_zero_flag :: bool
  offset_for_non_ref_pic :: int
  offset_for_top_to_bottom_field :: int
  num_ref_frames_in_pic_order_cnt_cycle :: int
  offset_for_ref_frame :: "int list"
  num_ref_frames :: int
  gaps_in_frame_num_value_allowed_flag :: bool
  pic_width_in_mbs_minus1 :: int
  pic_height_in_map_units_minus1 :: int
  frame_mbs_only_flag :: bool
  mb_adaptive_frame_field_flag :: bool
  direct_8x8_inference_flag :: bool
  frame_cropping_flag :: bool
  frame_crop_left_offset :: int
  frame_crop_right_offset :: int
  frame_crop_top_offset :: int
  frame_crop_bottom_offset :: int
  vui_parameters_present_flag :: bool
  vui_parameters :: AVCVUIParams

record AVCPicParamSet =
  pic_parameter_set_id :: int
  pps_seq_parameter_set_id :: int
  entropy_coding_mode_flag :: bool
  pic_order_present_flag :: bool
  num_slice_groups_minus1 :: int
  slice_group_map_type :: int
  run_length_minus1 :: "uint list"
  top_left :: "uint list"
  bottom_right :: "uint list"
  slice_group_change_direction_flag :: bool
  slice_group_change_rate_minus1 :: uint
  pic_size_in_map_units_minus1 :: uint
  slice_group_id :: "uint list"
  pps_num_ref_idx_l0_active_minus1 :: uint
  pps_num_ref_idx_l1_active_minus1 :: uint
  weighted_pred_flag :: bool
  weighted_bipred_idc :: uint
  pic_init_qp_minus26 :: int
  pic_init_qs_minus26 :: int
  chroma_qp_index_offset :: int
  deblocking_filter_control_present_flag :: bool
  constrained_intra_pred_flag :: bool
  redundant_pic_cnt_present_flag :: bool

record AVCSliceHeader =
  first_mb_in_slice :: uint
  sh_slice_type :: int
  sh_pic_parameter_set_id :: uint
  frame_num :: int
  field_pic_flag :: bool
  bottom_field_flag :: bool
  idr_pic_id :: uint
  pic_order_cnt_lsb :: uint
  delta_pic_order_cnt_bottom :: int
  delta_pic_order_cnt :: "int list"
  redundant_pic_cnt :: uint
  direct_spatial_mv_pred_flag :: bool
  num_ref_idx_active_override_flag :: bool
  num_ref_idx_l0_active_minus1 :: uint
  num_ref_idx_l1_active_minus1 :: uint
  ref_pic_list_reordering_flag_l0 :: bool
  reordering_of_pic_nums_idc_l0 :: "uint list"
  abs_diff_pic_num_minus1_l0 :: "uint list"
  long_term_pic_num_l0 :: "uint list"
  ref_pic_list_reordering_flag_l1 :: bool
  reordering_of_pic_nums_idc_l1 :: "uint list"
  abs_diff_pic_num_minus1_l1 :: "uint list"
  long_term_pic_num_l1 :: "uint list"
  no_output_of_prior_pics_flag :: bool
  long_term_reference_flag :: bool
  adaptive_ref_pic_marking_mode_flag :: bool
  memory_management_control_operation :: "uint list"
  difference_of_pic_nums_minus1 :: "uint list"
  long_term_pic_num :: "uint list"
  long_term_frame_idx :: "uint list"
  max_long_term_frame_idx_plus1 :: "uint list"
  cabac_init_idc :: uint
  slice_qp_delta :: int
  sp_for_switch_flag :: bool
  slice_qs_delta :: int
  disable_deblocking_filter_idc :: uint
  slice_alpha_c0_offset_div2 :: int
  slice_beta_offset_div_2 :: int
  slice_group_change_cycle :: uint

section \<open>Memory filled with zeros\<close>

definition blank_hrd :: AVCHRDParams where
  "blank_hrd = \<lparr>cpb_cnt_minus1 = 0, bit_rate_scale = 0, cpb_size_scale = 0, bit_rate_value_minus1 = replicate 32 0,
     cpb_size_value_minus1 = replicate 32 0, cbr_flag = replicate 32 0, initial_cpb_removal_delay_length_minus1 = 0,
     cpb_removal_delay_length_minus1 = 0, dpb_output_delay_length_minus1 = 0, time_offset_length = 0\<rparr>"

definition blank_vui :: AVCVUIParams where
  "blank_vui = \<lparr>aspect_ratio_info_present_flag = False, aspect_ratio_idc = 0, sar_width = 0, sar_height = 0,
     overscan_info_present_flag = False, overscan_appropriate_flag = False, video_signal_type_present_flag = False,
     video_format = 0, video_full_range_flag = False, colour_description_present_flag = False, colour_primaries = 0,
     transfer_characteristics = 0, matrix_coefficients = 0, chroma_location_info_present_flag = False,
     chroma_sample_loc_type_top_field = 0, chroma_sample_loc_type_bottom_field = 0, timing_info_present_flag = False,
     num_units_in_tick = 0, time_scale = 0, fixed_frame_rate_flag = False, nal_hrd_parameters_present_flag = False,
     nal_hrd_parameters = blank_hrd, vcl_hrd_parameters_present_flag = False, vcl_hrd_parameters = blank_hrd,
     low_delay_hrd_flag = False, pic_struct_present_flag = False, bitstream_restriction_flag = False,
     motion_vectors_over_pic_boundaries_flag = False, max_bytes_per_pic_denom = 0, max_bits_per_mb_denom = 0,
     log2_max_mv_length_vertical = 0, log2_max_mv_length_horizontal = 0, max_dec_frame_reordering = 0,
     max_dec_frame_buffering = 0\<rparr>"

definition blank_sps :: AVCSeqParamSet where
  "blank_sps = \<lparr>Valid = False, profile_idc = 0, constrained_set0_flag = False, constrained_set1_flag = False,
     constrained_set2_flag = False, constrained_set3_flag = False, level_idc = 0, seq_parameter_set_id = 0,
     log2_max_frame_num_minus4 = 0, pic_order_cnt_type = 0, log2_max_pic_order_cnt_lsb_minus4 = 0,
     delta_pic_order_always_zero_flag = False, offset_for_non_ref_pic = 0, offset_for_top_to_bottom_field = 0,
     num_ref_frames_in_pic_order_cnt_cycle = 0, offset_for_ref_frame = replicate 255 0, num_ref_frames = 0,
     gaps_in_frame_num_value_allowed_flag = False, pic_width_in_mbs_minus1 = 0, pic_height_in_map_units_minus1 = 0,
     frame_mbs_only_flag = False, mb_adaptive_frame_field_flag = False, direct_8x8_inference_flag = False,
     frame_cropping_flag = False, frame_crop_left_offset = 0, frame_crop_right_offset = 0, frame_crop_top_offset = 0,
     frame_crop_bottom_offset = 0, vui_parameters_present_flag = False, vui_parameters = blank_vui\<rparr>"

definition blank_pps :: AVCPicParamSet where
  "blank_pps = \<lparr>pic_parameter_set_id = 0, pps_seq_parameter_set_id = 0, entropy_coding_mode_flag = False,
     pic_order_present_flag = False, num_slice_groups_minus1 = 0, slice_group_map_type = 0,
     run_length_minus1 = replicate 8 0, top_left = replicate 7 0, bottom_right = replicate 7 0,
     slice_group_change_direction_flag = False, slice_group_change_rate_minus1 = 0, pic_size_in_map_units_minus1 = 0,
     slice_group_id = [], pps_num_ref_idx_l0_active_minus1 = 0, pps_num_ref_idx_l1_active_minus1 = 0,
     weighted_pred_flag = False, weighted_bipred_idc = 0, pic_init_qp_minus26 = 0, pic_init_qs_minus26 = 0,
     chroma_qp_index_offset = 0, deblocking_filter_control_present_flag = False, constrained_intra_pred_flag = False,
     redundant_pic_cnt_present_flag = False\<rparr>"

definition blank_hdr :: AVCSliceHeader where
  "blank_hdr = \<lparr>first_mb_in_slice = 0, sh_slice_type = 0, sh_pic_parameter_set_id = 0, frame_num = 0,
     field_pic_flag = False, bottom_field_flag = False, idr_pic_id = 0, pic_order_cnt_lsb = 0,
     delta_pic_order_cnt_bottom = 0, delta_pic_order_cnt = [0, 0], redundant_pic_cnt = 0,
     direct_spatial_mv_pred_flag = False, num_ref_idx_active_override_flag = False, num_ref_idx_l0_active_minus1 = 0,
     num_ref_idx_l1_active_minus1 = 0, ref_pic_list_reordering_flag_l0 = False,
     reordering_of_pic_nums_idc_l0 = replicate 32 0, abs_diff_pic_num_minus1_l0 = replicate 32 0,
     long_term_pic_num_l0 = replicate 32 0, ref_pic_list_reordering_flag_l1 = False,
     reordering_of_pic_nums_idc_l1 = replicate 32 0, abs_diff_pic_num_minus1_l1 = replicate 32 0,
     long_term_pic_num_l1 = replicate 32 0, no_output_of_prior_pics_flag = False, long_term_reference_flag = False,
     adaptive_ref_pic_marking_mode_flag = False, memory_management_control_operation = replicate 64 0,
     difference_of_pic_nums_minus1 = replicate 64 0, long_term_pic_num = replicate 64 0,
     long_term_frame_idx = replicate 64 0, max_long_term_frame_idx_plus1 = replicate 64 0, cabac_init_idc = 0,
     slice_qp_delta = 0, sp_for_switch_flag = False, slice_qs_delta = 0, disable_deblocking_filter_idc = 0,
     slice_alpha_c0_offset_div2 = 0, slice_beta_offset_div_2 = 0, slice_group_change_cycle = 0\<rparr>"

section \<open>Array bounds\<close>

definition MAXIMUMVALUEOFcpb_cnt :: nat where
  "MAXIMUMVALUEOFcpb_cnt = 32"

definition MAX_NUM_SLICE_GROUP :: nat where
  "MAX_NUM_SLICE_GROUP = 8"

definition MAX_NUM_REF_FRAMES_IN_PIC_ORDER_CNT_CYCLE :: nat where
  "MAX_NUM_REF_FRAMES_IN_PIC_ORDER_CNT_CYCLE = 255"

section \<open>Numbers as words\<close>

lemma uint_word_small: "0 \<le> x \<Longrightarrow> x < 4294967296 \<Longrightarrow> uint (word_of_int x :: uint) = x"
  by (simp add: uint_word_of_int_eq take_bit_int_eq_self)

lemma unat_word_small: "0 \<le> x \<Longrightarrow> x < 4294967296 \<Longrightarrow> unat (word_of_int x :: uint) = nat x"
  by (metis nat_uint_eq uint_word_small)

section \<open>Checked array writes\<close>

text \<open>A write outside an array is undefined behaviour.\<close>

definition set_opt :: "'a list \<Rightarrow> int \<Rightarrow> 'a \<Rightarrow> 'a list option" where
  "set_opt xs i x = (if 0 \<le> i \<and> i < int (length xs) then Some (xs[nat i := x]) else None)"

lemma set_opt_Some [simp]: "0 \<le> i \<Longrightarrow> i < int (length xs) \<Longrightarrow> set_opt xs i x = Some (xs[nat i := x])"
  by (simp add: set_opt_def)

lemma set_opt_length: "set_opt xs i x = Some ys \<Longrightarrow> length ys = length xs"
  by (auto simp: set_opt_def split: if_splits)

lemma set_opt_eq_Some_iff:
  "set_opt xs i x = Some ys \<longleftrightarrow> 0 \<le> i \<and> i < int (length xs) \<and> ys = xs[nat i := x]"
  by (auto simp: set_opt_def)

text \<open>A loop \<open>for (i = a; i < b; i++)\<close> whose body can fail.\<close>

fun for_range :: "nat \<Rightarrow> nat \<Rightarrow> (nat \<Rightarrow> 's \<Rightarrow> 's option) \<Rightarrow> 's \<Rightarrow> 's option" where
  "for_range a 0 body s = Some s"
| "for_range a (Suc n) body s = Option.bind (body a s) (for_range (Suc a) n body)"

text \<open>The loop fails as soon as its body does; a loop that keeps an invariant ends in a state that has it.\<close>

lemma for_range_inv:
  assumes "P a s" and "\<And>i t. a \<le> i \<Longrightarrow> i < a + n \<Longrightarrow> P i t \<Longrightarrow> \<exists>u. body i t = Some u \<and> P (Suc i) u"
  shows "\<exists>t. for_range a n body s = Some t \<and> P (a + n) t"
  using assms
proof (induction n arbitrary: a s)
  case (Suc n)
  obtain u where u: "body a s = Some u" "P (Suc a) u" using Suc.prems(2) [of a s] Suc.prems(1) by auto
  have "\<exists>t. for_range (Suc a) n body u = Some t \<and> P (Suc a + n) t"
    by (rule Suc.IH [OF u(2)]) (use Suc.prems(2) in auto)
  then show ?case using u(1) by simp
qed simp

end
