(* ===== verification/HeaderSyntax.thy ===== *)
theory HeaderSyntax
  imports SyntaxElements ParamSets
begin

text \<open>
  Reading and writing the syntax of the headers: the optional parts and the counted loops the headers are
  made of, and rules that run a parser or a writer along the list of syntax elements of a header.
  \<open>reads p es P\<close>: on a stream that starts with the elements \<open>es\<close> the parser takes exactly them and its
  result satisfies \<open>P\<close>. \<open>writes w ok es\<close>: the writer appends the elements \<open>es\<close> and answers \<open>ok\<close>.
\<close>

section \<open>Optional parts and loops\<close>

text \<open>\<open>BitstreamRead1Bit(stream, &temp); if (temp) { \<dots> }\<close>, with nothing kept.\<close>

definition flagged ::
  "(AVCDecBitstream \<Rightarrow> (unit \<times> AVCDecBitstream) option) \<Rightarrow> AVCDecBitstream \<Rightarrow> (unit \<times> AVCDecBitstream) option" where
  "flagged p s = do { (temp, s1) \<leftarrow> BitstreamRead1Bit s; if temp \<noteq> 0 then p s1 else Some ((), s1) }"

text \<open>\<open>for (i = a; i < a + n; i++)\<close> around a part that reads: the state of the loop is passed on.\<close>

fun read_loop ::
  "(nat \<Rightarrow> 'a \<Rightarrow> AVCDecBitstream \<Rightarrow> ('a \<times> AVCDecBitstream) option) \<Rightarrow> nat \<Rightarrow> nat \<Rightarrow> 'a \<Rightarrow> AVCDecBitstream
    \<Rightarrow> ('a \<times> AVCDecBitstream) option" where
  "read_loop body i 0 x s = Some (x, s)"
| "read_loop body i (Suc n) x s = do { (y, s1) \<leftarrow> body i x s; read_loop body (Suc i) n y s1 }"

text \<open>The same around a part that writes: the status is that of the last turn.\<close>

fun write_loop ::
  "(nat \<Rightarrow> AVCEncBitstream \<Rightarrow> ('e \<times> AVCEncBitstream) option) \<Rightarrow> nat \<Rightarrow> nat \<Rightarrow> 'e \<Rightarrow> AVCEncBitstream
    \<Rightarrow> ('e \<times> AVCEncBitstream) option" where
  "write_loop w i 0 st s = Some (st, s)"
| "write_loop w i (Suc n) st s = do { (st1, s1) \<leftarrow> w i s; write_loop w (Suc i) n st1 s1 }"

text \<open>A part that can return early: what follows runs only after a success.\<close>

definition on_success ::
  "('s \<Rightarrow> ((AVCDec_Status \<times> 'a) \<times> 's) option) \<Rightarrow> ('a \<Rightarrow> 's \<Rightarrow> ((AVCDec_Status \<times> 'a) \<times> 's) option)
    \<Rightarrow> 's \<Rightarrow> ((AVCDec_Status \<times> 'a) \<times> 's) option" where
  "on_success p q s =
     do { ((st, x), s1) \<leftarrow> p s; if st \<noteq> AVCDEC_SUCCESS then Some ((st, x), s1) else q x s1 }"

text \<open>\<open>numBits = 0; while (i > 0) { numBits++; i >>= 1; }\<close>\<close>

fun count_bits :: "nat \<Rightarrow> nat" where
  "count_bits i = (if i > 0 then Suc (count_bits (i div 2)) else 0)"

declare count_bits.simps [simp del]

section \<open>The 32-bit signed code\<close>

lemma count_bits_length: "count_bits i = bit_length i"
  by (induction i rule: count_bits.induct) (subst count_bits.simps, subst bit_length.simps, simp)

lemma eg_bits_split:
  assumes "n = bit_length (k + 1) - 1"
  shows "eg_bits k = replicate n False @ [True] @ nat_bits n (k + 1)" "2 ^ n + (k + 1) mod 2 ^ n = k + 1"
proof -
  show "eg_bits k = replicate n False @ [True] @ nat_bits n (k + 1)" using eg_bits_shape [of k] assms by simp
  have "0 < bit_length (k + 1)" by (rule bit_length_pos) simp
  then have b: "2 ^ n \<le> k + 1" "k + 1 < 2 * 2 ^ n" using bit_length_bounds [of "k + 1"] assms by (simp_all flip: power_Suc)
  then have "(k + 1) div 2 ^ n = 1" by (intro div_nat_eqI) simp_all
  then show "2 ^ n + (k + 1) mod 2 ^ n = k + 1" using div_mult_mod_eq [of "k + 1" "2 ^ n"] by simp
qed

lemma read1_consumes: "consumes dec_inv dec_bits BitstreamRead1Bit [b] (of_bool b)"
proof -
  have "bits_word [b] = of_bool b" by (cases b) (simp_all add: bits_word_def)
  then show ?thesis using dec.consumes_rd [of "[b]" 1] by (simp add: Read1Bit_ReadBits consumes_def)
qed

lemma count_zero_bits_consumes:
  "consumes dec_inv dec_bits (\<lambda>s. count_zero_bits s lz) (replicate n False @ [True]) (lz + int n)"
proof (induction n arbitrary: lz)
  case 0
  have "consumes dec_inv dec_bits (\<lambda>s. count_zero_bits s lz) ([True] @ []) lz"
    unfolding count_zero_bits.simps [of _ lz]
    by (rule consumes_bind [OF read1_consumes]) (simp add: consumes_return)
  then show ?case by simp
next
  case (Suc n)
  have "consumes dec_inv dec_bits (\<lambda>s. count_zero_bits s lz) ([False] @ replicate n False @ [True]) (lz + 1 + int n)"
    unfolding count_zero_bits.simps [of _ lz]
    by (rule consumes_bind [OF read1_consumes]) (simp add: Suc.IH)
  then show ?case by (simp add: algebra_simps)
qed

lemma GetEG32_consumes:
  assumes k: "k < 65535" and n: "n = bit_length (k + 1) - 1"
  shows "consumes dec_inv dec_bits (\<lambda>s. do { (lz, info, t) \<leftarrow> GetEGBitstring32bit s; Some ((lz, info), t) })
    (eg_bits k) (int n, of_nat ((k + 1) mod 2 ^ n))"
proof -
  have "bit_length (k + 1) \<le> 16" by (rule bit_length_le) (use k in simp)
  then have n15: "n \<le> 15" using n by simp
  have info: "bits_word (nat_bits n (k + 1)) = of_nat ((k + 1) mod 2 ^ n)" by (simp add: bits_word_def bits_val_nat_bits)
  let ?q = "\<lambda>lz s1. if lz > 0 then do { (info, s2) \<leftarrow> BitstreamReadBits s1 lz; Some ((lz, info), s2) } else Some ((lz, 0), s1)"
  have "consumes dec_inv dec_bits (?q (int n)) (nat_bits n (k + 1)) (int n, of_nat ((k + 1) mod 2 ^ n))"
  proof (cases "n = 0")
    case True
    then show ?thesis by (simp add: consumes_return)
  next
    case False
    have "consumes dec_inv dec_bits (\<lambda>s. BitstreamReadBits s (int n)) (nat_bits n (k + 1)) (bits_word (nat_bits n (k + 1)))"
      by (rule dec.consumes_rd) (use False n15 in simp_all)
    from consumes_map [OF this, of "(int n, of_nat ((k + 1) mod 2 ^ n))" "\<lambda>i. (int n, i)"] False info
    show ?thesis by simp
  qed
  from consumes_bind [OF count_zero_bits_consumes [of 0 n, unfolded add_0], of ?q, OF this]
  have "consumes dec_inv dec_bits (\<lambda>s. do { (lz, s1) \<leftarrow> count_zero_bits s 0; ?q lz s1 }) (eg_bits k)
     (int n, of_nat ((k + 1) mod 2 ^ n))"
    using eg_bits_split(1) [OF n] by (simp only: append_assoc)
  then show ?thesis
    by (rule back_subst [where P = "\<lambda>p. consumes _ _ p _ _"])
      (auto simp: fun_eq_iff GetEGBitstring32bit_def split: Option.bind_split)
qed

lemma se_v32bit_consumes:
  assumes "\<bar>v\<bar> < 32768"
  shows "consumes dec_inv dec_bits se_v32bit (eg_bits (se_num v)) v"
proof -
  define k where "k = se_num v"
  define n where "n = bit_length (k + 1) - 1"
  have k: "k < 65535" using assms by (auto simp: k_def se_num_def)
  have "bit_length (k + 1) \<le> 16" by (rule bit_length_le) (use k in simp)
  then have n15: "n \<le> 15" using n_def by simp
  let ?f = "\<lambda>(lz, info). do { one \<leftarrow> shl32 1 lz;
      let codeNum = one - 1 + info; let w = c_int (uint ((codeNum + 1) div 2));
      Some (if codeNum AND 0x01 = 0 then - w else w) }"
  have "push_bit n 1 - 1 + of_nat ((k + 1) mod 2 ^ n) + 1 = (of_nat (2 ^ n + (k + 1) mod 2 ^ n) :: uint)"
    by (simp add: push_bit_eq_mult)
  then have code: "push_bit n 1 - 1 + of_nat ((k + 1) mod 2 ^ n) = (of_nat (k + 1) :: uint) - 1"
    unfolding eg_bits_split(2) [OF n_def] by (simp add: algebra_simps)
  let ?t = "of_nat (k + 1) :: uint"
  have half: "(?t - 1 + 1) div 2 = drop_bit 1 ?t" by (simp add: drop_bit_eq_div add.commute)
  have par: "(?t - 1) AND 1 = 0 \<longleftrightarrow> ?t AND 1 \<noteq> 0"
    using odd_of_nat_uint [of "k + 1"] odd_of_nat_uint [of k] by simp
  have "?f (int n, of_nat ((k + 1) mod 2 ^ n)) = Some v"
    using se_v_value [OF assms, folded k_def] n15 unfolding Let_def
    by (simp only: case_prod_conv shl32_Some of_nat_0_le_iff nat_int code half par bind.bind_lunit)
  then have one: "consumes dec_inv dec_bits (\<lambda>s. Option.bind (?f (int n, of_nat ((k + 1) mod 2 ^ n))) (\<lambda>w. Some (w, s))) [] v"
    by (simp add: consumes_return)
  from consumes_bind [OF GetEG32_consumes [OF k n_def], of "\<lambda>x s. Option.bind (?f x) (\<lambda>w. Some (w, s))", OF one]
  have "consumes dec_inv dec_bits (\<lambda>s. Option.bind (do { (lz, info, t) \<leftarrow> GetEGBitstring32bit s; Some ((lz, info), t) })
      (\<lambda>(x, t). Option.bind (?f x) (\<lambda>w. Some (w, t)))) (eg_bits k) v" by simp
  then show ?thesis unfolding k_def
    by (rule back_subst [where P = "\<lambda>p. consumes _ _ p _ _"])
      (auto simp: fun_eq_iff se_v32bit_def Let_def split: Option.bind_split)
qed

section \<open>Running a parser along a list of elements\<close>

definition reads ::
  "(AVCDecBitstream \<Rightarrow> ('a \<times> AVCDecBitstream) option) \<Rightarrow> syntax_element list \<Rightarrow> ('a \<Rightarrow> bool) \<Rightarrow> bool" where
  "reads p es P \<longleftrightarrow> (\<exists>x. consumes dec_inv dec_bits p (unit_bits es) x \<and> P x)"

named_theorems reads_intros \<open>one step of a parser\<close>
named_theorems writes_intros \<open>one step of a writer\<close>

lemma unit_bits_simps [simp]:
  "unit_bits [] = []" "unit_bits (e # es) = elem_bits e @ unit_bits es" "unit_bits (as @ bs) = unit_bits as @ unit_bits bs"
  by (simp_all add: unit_bits_def)

lemma readsE:
  assumes "reads p es P" and "dec_inv s" and "dec_bits s = unit_bits es @ rest"
  obtains x s' where "p s = Some (x, s')" "dec_inv s'" "dec_bits s' = rest" "P x"
  using assms unfolding reads_def by (metis consumesE)

lemma reads_weaken: "reads p es P \<Longrightarrow> (\<And>x. P x \<Longrightarrow> Q x) \<Longrightarrow> reads p es Q"
  unfolding reads_def by blast

lemma reads_return: "P x \<Longrightarrow> reads (\<lambda>s. Some (x, s)) [] P"
  unfolding reads_def using consumes_return by fastforce

lemma reads_bind:
  assumes "reads p as Q" and "\<And>x. Q x \<Longrightarrow> reads (q x) bs P"
  shows "reads (\<lambda>s. Option.bind (p s) (\<lambda>(x, t). q x t)) (as @ bs) P"
  using assms unfolding reads_def unit_bits_simps by (metis consumes_bind)

lemma reads_bind_eq:
  assumes "reads p as (\<lambda>x. x = a)" and "reads (q a) bs P"
  shows "reads (\<lambda>s. Option.bind (p s) (\<lambda>(x, t). q x t)) (as @ bs) P"
  by (rule reads_bind [OF assms(1)]) (use assms(2) in simp)

lemma reads_pass: "\<not> b \<Longrightarrow> reads p es P \<Longrightarrow> reads (\<lambda>s. if b then x s else p s) es P"
  by simp

lemma reads_some: "x = Some a \<Longrightarrow> reads (p a) es P \<Longrightarrow> reads (\<lambda>s. Option.bind x (\<lambda>b. p b s)) es P"
  by simp

lemma reads_case_some:
  "x = Some a \<Longrightarrow> reads (p a) es P \<Longrightarrow> reads (\<lambda>s. case x of None \<Rightarrow> n s | Some b \<Rightarrow> p b s) es P"
  by simp

lemma reads_bind_pair:
  assumes "reads p as (\<lambda>x. x = (a, b))" and "reads (q a b) bs P"
  shows "reads (\<lambda>s. Option.bind (p s) (\<lambda>((a, b), t). q a b t)) (as @ bs) P"
  by (rule reads_bind [OF assms(1)]) (use assms(2) in simp)

lemma reads_bind_quad:
  assumes "reads p as (\<lambda>x. x = (a, b, c, d))" and "reads (q a b c d) bs P"
  shows "reads (\<lambda>s. Option.bind (p s) (\<lambda>((a, b, c, d), t). q a b c d t)) (as @ bs) P"
  by (rule reads_bind [OF assms(1)]) (use assms(2) in simp)

lemma reads_bind_none:
  assumes "reads p [] (\<lambda>x. x = a)" and "reads (q a) bs P"
  shows "reads (\<lambda>s. Option.bind (p s) (\<lambda>(x, t). q x t)) bs P"
  using reads_bind [OF assms(1), of q bs P] assms(2) by simp

lemma reads_step:
  assumes "consumes dec_inv dec_bits p (elem_bits e) x" and "reads (q x) es P"
  shows "reads (\<lambda>s. Option.bind (p s) (\<lambda>(v, t). q v t)) (e # es) P"
  using assms unfolding reads_def unit_bits_simps by (metis consumes_bind)

lemma reads_UE [reads_intros]:
  assumes "unat w < 65535" and "reads (q w) es P"
  shows "reads (\<lambda>s. Option.bind (ue_v s) (\<lambda>(v, t). q v t)) (UE (unat w) # es) P"
  by (rule reads_step [where q = q, OF _ assms(2)]) (use ue_v_consumes [OF assms(1)] in simp)

lemma reads_SE [reads_intros]:
  assumes "\<bar>x\<bar> < 32768" and "reads (q x) es P"
  shows "reads (\<lambda>s. Option.bind (se_v s) (\<lambda>(v, t). q v t)) (SE x # es) P"
  by (rule reads_step [where q = q, OF _ assms(2)]) (use se_v_consumes [OF assms(1)] in simp)

lemma reads_SE32 [reads_intros]:
  assumes "\<bar>x\<bar> < 32768" and "reads (q x) es P"
  shows "reads (\<lambda>s. Option.bind (se_v32bit s) (\<lambda>(v, t). q v t)) (SE x # es) P"
  by (rule reads_step [where q = q, OF _ assms(2)]) (use se_v32bit_consumes [OF assms(1)] in simp)

lemma reads_U [reads_intros]:
  assumes "n = int m" "1 \<le> m" "m \<le> 31" "unat w < 2 ^ m" and "reads (q w) es P"
  shows "reads (\<lambda>s. Option.bind (BitstreamReadBits s n) (\<lambda>(v, t). q v t)) (U m w # es) P"
proof (rule reads_step [where q = q, OF _ assms(5)])
  have "bits_word (nat_bits m (unat w)) = w" using assms(4) by (simp add: bits_word_def bits_val_nat_bits)
  then show "consumes dec_inv dec_bits (\<lambda>s. BitstreamReadBits s n) (elem_bits (U m w)) w"
    using dec.consumes_rd [of "nat_bits m (unat w)" m] assms(1-3) by simp
qed

lemma reads_Flag [reads_intros]:
  assumes "reads (q (of_bool b)) es P"
  shows "reads (\<lambda>s. Option.bind (BitstreamRead1Bit s) (\<lambda>(v, t). q v t)) (Flag b # es) P"
  by (rule reads_step [where q = q, OF _ assms]) (use read1_consumes in simp)

text \<open>An optional part, and an early return.\<close>

lemma reads_flagged [reads_intros]:
  assumes "b \<Longrightarrow> reads p as (\<lambda>_. True)" and "reads (q ()) es P"
  shows "reads (\<lambda>s. Option.bind (flagged p s) (\<lambda>(v, t). q v t)) (Flag b # (if b then as else []) @ es) P"
proof -
  have "reads (flagged p) (Flag b # (if b then as else [])) (\<lambda>_. True)" unfolding flagged_def
    by (rule reads_Flag) (use assms(1) in \<open>auto intro: reads_return\<close>)
  from reads_bind [OF this, of q es P] assms(2) show ?thesis by simp
qed

lemma reads_on_success:
  assumes "reads p as (\<lambda>(st, x). st = AVCDEC_SUCCESS \<and> Q x)" and "\<And>x. Q x \<Longrightarrow> reads (q x) bs P"
  shows "reads (on_success p q) (as @ bs) P"
  unfolding on_success_def
  by (rule reads_bind [OF assms(1)]) (use assms(2) in \<open>auto split: prod.splits\<close>)

lemma reads_loop:
  assumes "I i x" and "\<And>j y. i \<le> j \<Longrightarrow> j < i + n \<Longrightarrow> I j y \<Longrightarrow> reads (body j y) (e j) (I (Suc j))"
  shows "reads (read_loop body i n x) (concat (map e [i..<i + n])) (I (i + n))"
  using assms
proof (induction n arbitrary: i x)
  case 0
  then show ?case by (simp add: reads_return)
next
  case (Suc n)
  have "reads (body i x) (e i) (I (Suc i))" using Suc.prems by simp
  from reads_bind [OF this, of "read_loop body (Suc i) n" "concat (map e [Suc i..<Suc i + n])" "I (Suc i + n)"]
  show ?case using Suc.IH [of "Suc i"] Suc.prems(2) by (simp add: upt_conv_Cons del: upt_Suc)
qed

section \<open>Running a writer along a list of elements\<close>

definition writes ::
  "(AVCEncBitstream \<Rightarrow> ('e \<times> AVCEncBitstream) option) \<Rightarrow> 'e \<Rightarrow> syntax_element list \<Rightarrow> bool" where
  "writes w ok es \<longleftrightarrow> emits enc_inv enc_bits enc_room w ok (unit_bits es)"

lemma emits_bind:
  assumes "emits valid bits room p ok bs" and "emits valid bits room (q ok) ok' cs"
  shows "emits valid bits room (\<lambda>s. Option.bind (p s) (\<lambda>(e, t). q e t)) ok' (bs @ cs)"
proof (rule emitsI)
  fix s assume s: "valid s" "length (bs @ cs) \<le> room s"
  then obtain t where t: "p s = Some (ok, t)" "valid t" "bits t = bits s @ bs" "room s \<le> room t + length bs"
    using emitsE [OF assms(1), of s] by auto
  obtain u where "q ok t = Some (ok', u)" "valid u" "bits u = bits t @ cs" "room t \<le> room u + length cs"
    using emitsE [OF assms(2) t(2)] s(2) t(4) by (metis add_le_cancel_right le_trans length_append add.commute)
  then show "\<exists>s'. Option.bind (p s) (\<lambda>(e, t). q e t) = Some (ok', s') \<and> valid s'
      \<and> bits s' = bits s @ bs @ cs \<and> room s \<le> room s' + length (bs @ cs)"
    using t by auto
qed

lemma writes_return: "writes (\<lambda>s. Some (ok, s)) ok []"
  by (simp add: writes_def emits_return)

lemma writes_bind:
  assumes "writes p ok as" and "writes (q ok) ok' bs"
  shows "writes (\<lambda>s. Option.bind (p s) (\<lambda>(e, t). q e t)) ok' (as @ bs)"
  using assms unfolding writes_def unit_bits_simps by (rule emits_bind)

lemma writes_step:
  assumes "elem_ok e" and "p = write_elem malloc e" and "writes (q AVCENC_SUCCESS) ok es"
  shows "writes (\<lambda>s. Option.bind (p s) (\<lambda>(st, t). q st t)) ok (e # es)"
  using emits_bind [OF write_elem_emits [OF assms(1), of malloc], of q ok "unit_bits es"] assms(2,3)
  by (simp add: writes_def)

lemma writes_last:
  assumes "elem_ok e" and "p = write_elem malloc e"
  shows "writes p AVCENC_SUCCESS [e]"
  using write_elem_emits [OF assms(1), of malloc] assms(2) by (simp add: writes_def)

lemma write_elem_eqs:
  "(\<lambda>s. enc_ue_v malloc s w) = write_elem malloc (UE (unat w))"
  "(\<lambda>s. enc_se_v malloc s x) = write_elem malloc (SE x)"
  "n = int m \<Longrightarrow> (\<lambda>s. BitstreamWriteBits malloc s n w) = write_elem malloc (U m w)"
  "(\<lambda>s. BitstreamWrite1Bit malloc s (of_bool b)) = write_elem malloc (Flag b)"
  by (simp_all add: fun_eq_iff)

lemma writes_elems [writes_intros]:
  "unat w < 65535 \<Longrightarrow> writes (q AVCENC_SUCCESS) ok es \<Longrightarrow>
    writes (\<lambda>s. Option.bind (enc_ue_v malloc s w) (\<lambda>(st, t). q st t)) ok (UE (unat w) # es)"
  "\<bar>x\<bar> < 32768 \<Longrightarrow> writes (q AVCENC_SUCCESS) ok es \<Longrightarrow>
    writes (\<lambda>s. Option.bind (enc_se_v malloc s x) (\<lambda>(st, t). q st t)) ok (SE x # es)"
  "n = int m \<Longrightarrow> 1 \<le> m \<Longrightarrow> m \<le> 31 \<Longrightarrow> unat w < 2 ^ m \<Longrightarrow> writes (q AVCENC_SUCCESS) ok es \<Longrightarrow>
    writes (\<lambda>s. Option.bind (BitstreamWriteBits malloc s n w) (\<lambda>(st, t). q st t)) ok (U m w # es)"
  "writes (q AVCENC_SUCCESS) ok es \<Longrightarrow>
    writes (\<lambda>s. Option.bind (BitstreamWrite1Bit malloc s (of_bool b)) (\<lambda>(st, t). q st t)) ok (Flag b # es)"
  by ((rule writes_step [where q = q, OF _ write_elem_eqs(1)] writes_step [where q = q, OF _ write_elem_eqs(2)]
        writes_step [where q = q, OF _ write_elem_eqs(3)] writes_step [where q = q, OF _ write_elem_eqs(4)]; simp)+)

lemma writes_lasts [writes_intros]:
  "unat w < 65535 \<Longrightarrow> writes (\<lambda>s. enc_ue_v malloc s w) AVCENC_SUCCESS [UE (unat w)]"
  "\<bar>x\<bar> < 32768 \<Longrightarrow> writes (\<lambda>s. enc_se_v malloc s x) AVCENC_SUCCESS [SE x]"
  "n = int m \<Longrightarrow> 1 \<le> m \<Longrightarrow> m \<le> 31 \<Longrightarrow> unat w < 2 ^ m \<Longrightarrow>
    writes (\<lambda>s. BitstreamWriteBits malloc s n w) AVCENC_SUCCESS [U m w]"
  "writes (\<lambda>s. BitstreamWrite1Bit malloc s (of_bool b)) AVCENC_SUCCESS [Flag b]"
  by ((rule writes_last [OF _ write_elem_eqs(1)] writes_last [OF _ write_elem_eqs(2)]
        writes_last [OF _ write_elem_eqs(3)] writes_last [OF _ write_elem_eqs(4)]; simp)+)

lemma writes_check [writes_intros]:
  "writes w ok es \<Longrightarrow> writes (\<lambda>s. if AVCENC_SUCCESS \<noteq> AVCENC_SUCCESS then x s else w s) ok es"
  by simp

lemma writes_if:
  assumes "b \<Longrightarrow> writes w ok as"
  shows "writes (\<lambda>s. if b then w s else Some (ok, s)) ok (if b then as else [])"
  using assms by (cases b) (simp_all add: writes_return)

lemma writes_loop:
  assumes "\<And>j. i \<le> j \<Longrightarrow> j < i + n \<Longrightarrow> writes (w j) ok (e j)"
  shows "writes (write_loop w i n ok) ok (concat (map e [i..<i + n]))"
  using assms
proof (induction n arbitrary: i)
  case 0
  then show ?case by (simp add: writes_return)
next
  case (Suc n)
  have "writes (w i) ok (e i)" using Suc.prems by simp
  from writes_bind [OF this, of "write_loop w (Suc i) n" ok "concat (map e [Suc i..<Suc i + n])"]
  show ?case using Suc.IH [of "Suc i"] Suc.prems by (simp add: upt_conv_Cons del: upt_Suc)
qed

end
