(* ===== verification/Dpb.thy ===== *)
theory Dpb
  imports ParamSets
begin

text \<open>
  The decoded picture buffer, \<open>codecs_v2/video/avc_h264/common/src/dpb.cpp\<close> with \<open>PV_MEMORY_POOL\<close> as
  \<open>avcapi_common.h\<close> defines it. \<open>dpb->fs\<close> is a list of frame stores, a picture in
  \<open>RefPicList0\<close> is the index of its store, \<open>currFS\<close> an index into it and
  \<open>currPic\<close> the frame of that store, as in the code, where it is a pointer into it. The application's
  \<open>CBAVC_FrameUnbind\<close> is the log \<open>unbound\<close> of the indices it is called with; \<open>CBAVC_FrameBind\<close> and the
  allocations are parameters. Functions that take an index read \<open>fs\<close> inside its bounds only when
  \<open>dpb_wf\<close> holds, which every operation keeps.
\<close>

section \<open>Data\<close>

datatype AVCStatus = AVC_NO_BUFFER | AVC_MEMORY_FAIL | AVC_FAIL | AVC_SUCCESS | AVC_PICTURE_OUTPUT_READY

datatype AVCPictureType = AVC_FRAME

record AVCPictureData =
  RefIdx :: int
  picType :: AVCPictureType
  Sl :: "int option"
  Scb :: "int option"
  Scr :: "int option"
  isReference :: bool
  isLongTerm :: bool
  pic_PicOrderCnt :: int
  PicNum :: int
  LongTermPicNum :: int
  width :: int
  height :: int
  pitch :: int
  padded :: int

record AVCFrameStore =
  base_dpb :: int
  IsReference :: int
  IsLongTerm :: int
  IsOutputted :: int
  frame :: AVCPictureData
  FrameNum :: int
  FrameNumWrap :: int
  LongTermFrameIdx :: int
  fs_PicOrderCnt :: int

text \<open>
  The fields of \<open>AVCCommonObj\<close> and of its \<open>AVCDecPicBuffer\<close> in use here; \<open>nal_is_IDR\<close> is
  \<open>nal_unit_type == AVC_NALTYPE_IDR\<close>. A buffer pointer is the size allocated for it, if any.
\<close>

record AVCCommonObj =
  fs :: "AVCFrameStore list"
  num_fs :: nat
  dpb_size :: int
  used_size :: int
  currFS :: nat
  unbound :: "nat list"
  RefPicList0 :: "nat option list"
  RefPicList1 :: "nat option list"
  refList0Size :: int
  refList1Size :: int
  slice_type :: int
  MaxFrameNum :: int
  MaxPicNum :: int
  nal_is_IDR :: bool
  MaxLongTermFrameIdx :: int
  mem_mgr_ctrl_eq_5 :: bool
  CurrPicNum :: int
  vid_PicOrderCnt :: int
  padded_size :: int
  PicWidthInSamplesL :: int
  PicHeightInSamplesL :: int
  PicWidthInMbs :: int
  FrameHeightInMbs :: int
  PicSizeInMbs :: int
  PicSizeInMapUnits :: int
  PicHeightInMapUnits :: int
  MapUnitsInSliceGroup0 :: int
  vid_level_idc :: int
  nal_ref_idc :: int
  MaxPicOrderCntLsb :: int
  TopFieldOrderCnt :: int
  BottomFieldOrderCnt :: int
  prevPicOrderCntMsb :: int
  prevPicOrderCntLsb :: int
  PicOrderCntMsb :: int
  prevFrameNumOffset :: int
  FrameNumOffset :: int
  prevFrameNum :: int
  PrevRefFrameNum :: int
  absFrameNum :: int
  picOrderCntCycleCnt :: int
  frameNumInPicOrderCntCycle :: int
  expectedDeltaPerPicOrderCntCycle :: int
  expectedPicOrderCnt :: int
  mblock_slice_ids :: "int list option"
  intra_pred_top :: "int option"
  intra_pred_top_cb :: "int option"
  intra_pred_top_cr :: "int option"
  MbToSliceGroupMap :: "int list option"
  currPicParams :: nat
  currSeqParams :: nat
  vid_seq_parameter_set_id :: int
  PicWidthInSamplesC :: int
  PicHeightInMbs :: int
  PicHeightInSamplesC :: int
  SliceGroupChangeRate :: int
  vid_LongTermFrameIdx :: int
  vid_QPy :: int
  vid_QPc :: int
  QPy_div_6 :: int
  QPy_mod_6 :: int
  QPc_div_6 :: int
  QPc_mod_6 :: int
  FilterOffsetA :: int
  FilterOffsetB :: int
  mbNum :: int

definition MAX_FS :: nat where
  "MAX_FS = 17"

definition MAX_DEC_REF_PIC_MARKING :: nat where
  "MAX_DEC_REF_PIC_MARKING = 64"

definition mapLev2Idx :: "int list" where
  "mapLev2Idx = [255, 255, 255, 255, 255, 255, 255, 255, 255, 1,
     0, 1, 2, 3, 255, 255, 255, 255, 255, 255,
     4, 5, 6, 255, 255, 255, 255, 255, 255, 255,
     7, 8, 9, 255, 255, 255, 255, 255, 255, 255,
     10, 11, 12, 255, 255, 255, 255, 255, 255, 255,
     13, 14, 255, 255, 255, 255, 255, 255, 255, 255, 0]"

definition MaxDPBX2 :: "int list" where
  "MaxDPBX2 = [297, 675, 1782, 1782, 1782, 3564, 6075, 6075,
     13500, 15360, 24576, 24576, 24576, 82620, 138240]"

section \<open>Marking frames\<close>

definition upd_fs :: "nat \<Rightarrow> (AVCFrameStore \<Rightarrow> AVCFrameStore) \<Rightarrow> AVCCommonObj \<Rightarrow> AVCCommonObj" where
  "upd_fs i g v = v\<lparr>fs := (fs v)[i := g (fs v ! i)]\<rparr>"

definition upd_currPic :: "(AVCPictureData \<Rightarrow> AVCPictureData) \<Rightarrow> AVCCommonObj \<Rightarrow> AVCCommonObj" where
  "upd_currPic g v = upd_fs (currFS v) (\<lambda>f. f\<lparr>frame := g (frame f)\<rparr>) v"

definition currPic :: "AVCCommonObj \<Rightarrow> AVCPictureData" where
  "currPic v = frame (fs v ! currFS v)"

definition CBAVC_FrameUnbind :: "nat \<Rightarrow> AVCCommonObj \<Rightarrow> AVCCommonObj" where
  "CBAVC_FrameUnbind i v = v\<lparr>unbound := unbound v @ [i]\<rparr>"

text \<open>A loop \<open>for (ii = 0; ii < dpb->num_fs; ii++)\<close>.\<close>

definition for_fs :: "(nat \<Rightarrow> AVCCommonObj \<Rightarrow> AVCCommonObj) \<Rightarrow> AVCCommonObj \<Rightarrow> AVCCommonObj" where
  "for_fs body v = fold body [0..<num_fs v] v"

definition unmark_for_reference :: "nat \<Rightarrow> AVCCommonObj \<Rightarrow> AVCCommonObj" where
  "unmark_for_reference idx v =
     (let v1 = upd_fs idx (\<lambda>f. f\<lparr>frame := (frame f)\<lparr>isReference := False, isLongTerm := False\<rparr>,
                 IsLongTerm := 0, IsReference := 0, IsOutputted := IsOutputted f OR 0x02\<rparr>) v
      in if IsOutputted (fs v1 ! idx) = 3 then CBAVC_FrameUnbind idx v1 else v1)"

definition unmark_long_term_frame_for_reference_by_frame_idx :: "uint \<Rightarrow> AVCCommonObj \<Rightarrow> AVCCommonObj" where
  "unmark_long_term_frame_for_reference_by_frame_idx ltfi =
     for_fs (\<lambda>ii v. if IsLongTerm (fs v ! ii) \<noteq> 0 \<and> LongTermFrameIdx (fs v ! ii) = sint ltfi
                    then unmark_for_reference ii v else v)"

text \<open>The loops that \<open>return\<close> at the first match stop at the first index that satisfies the test.\<close>

definition first_fs :: "(AVCFrameStore \<Rightarrow> bool) \<Rightarrow> AVCCommonObj \<Rightarrow> nat option" where
  "first_fs P v = List.find (\<lambda>ii. P (fs v ! ii)) [0..<num_fs v]"

definition MemMgrCtrlOp1 :: "uint \<Rightarrow> AVCCommonObj \<Rightarrow> AVCCommonObj" where
  "MemMgrCtrlOp1 diff v =
     (let picNumX = c_int (CurrPicNum v - (sint diff + 1))
      in case first_fs (\<lambda>f. IsReference f = 3 \<and> IsLongTerm f = 0 \<and> PicNum (frame f) = picNumX) v of
           None \<Rightarrow> v
         | Some ii \<Rightarrow> unmark_for_reference ii v)"

definition MemMgrCtrlOp2 :: "uint \<Rightarrow> AVCCommonObj \<Rightarrow> AVCCommonObj" where
  "MemMgrCtrlOp2 ltpn =
     for_fs (\<lambda>ii v. if IsLongTerm (fs v ! ii) = 3 \<and> LongTermPicNum (frame (fs v ! ii)) = sint ltpn
                    then unmark_for_reference ii v else v)"

definition MemMgrCtrlOp3 :: "uint \<Rightarrow> uint \<Rightarrow> AVCCommonObj \<Rightarrow> AVCCommonObj" where
  "MemMgrCtrlOp3 diff ltfi v =
     (let picNumX = c_int (CurrPicNum v - (uint diff + 1));
          v1 = unmark_long_term_frame_for_reference_by_frame_idx ltfi v
      in case first_fs (\<lambda>f. IsReference f = 3 \<and> \<not> isLongTerm (frame f) \<and> PicNum (frame f) = picNumX) v1 of
           None \<Rightarrow> v1
         | Some ii \<Rightarrow>
             upd_fs ii (\<lambda>f. f\<lparr>LongTermFrameIdx := sint ltfi,
               frame := (frame f)\<lparr>LongTermPicNum := sint ltfi, isLongTerm := True\<rparr>, IsLongTerm := 3\<rparr>) v1)"

definition MemMgrCtrlOp4 :: "uint \<Rightarrow> AVCCommonObj \<Rightarrow> AVCCommonObj" where
  "MemMgrCtrlOp4 mx v =
     (let v1 = v\<lparr>MaxLongTermFrameIdx := sint (mx - 1)\<rparr>
      in for_fs (\<lambda>ii u. if IsLongTerm (fs u ! ii) \<noteq> 0 \<and> ii \<noteq> currFS u
                           \<and> LongTermFrameIdx (fs u ! ii) > MaxLongTermFrameIdx u
                        then unmark_for_reference ii u else u) v1)"

definition MemMgrCtrlOp5 :: "AVCCommonObj \<Rightarrow> AVCCommonObj" where
  "MemMgrCtrlOp5 v =
     (let v1 = v\<lparr>MaxLongTermFrameIdx := - 1\<rparr>;
          v2 = for_fs (\<lambda>ii u. if ii \<noteq> currFS u then unmark_for_reference ii u else u) v1
      in v2\<lparr>mem_mgr_ctrl_eq_5 := True\<rparr>)"

definition MemMgrCtrlOp6 :: "uint \<Rightarrow> AVCCommonObj \<Rightarrow> AVCCommonObj" where
  "MemMgrCtrlOp6 ltfi v =
     (let v1 = unmark_long_term_frame_for_reference_by_frame_idx ltfi v
      in upd_fs (currFS v1) (\<lambda>f. f\<lparr>IsLongTerm := 3, IsReference := 3,
           frame := (frame f)\<lparr>isLongTerm := True, isReference := True\<rparr>,
           LongTermFrameIdx := sint ltfi\<rparr>) v1)"

section \<open>The two marking processes\<close>

text \<open>One turn of the \<open>switch\<close>; an operation above 6 does nothing.\<close>

definition mmco_step :: "AVCSliceHeader \<Rightarrow> nat \<Rightarrow> AVCCommonObj \<Rightarrow> AVCCommonObj" where
  "mmco_step sliceHdr ii v =
     (let mmco = memory_management_control_operation sliceHdr ! ii
      in if mmco = 1 then MemMgrCtrlOp1 (difference_of_pic_nums_minus1 sliceHdr ! ii) v
         else if mmco = 2 then MemMgrCtrlOp2 (long_term_pic_num sliceHdr ! ii) v
         else if mmco = 3 then
           MemMgrCtrlOp3 (difference_of_pic_nums_minus1 sliceHdr ! ii) (long_term_frame_idx sliceHdr ! ii) v
         else if mmco = 4 then MemMgrCtrlOp4 (max_long_term_frame_idx_plus1 sliceHdr ! ii) v
         else if mmco = 5 then
           (let v1 = MemMgrCtrlOp5 v
            in upd_fs (currFS v1) (\<lambda>f. f\<lparr>FrameNum := 0, fs_PicOrderCnt := 0\<rparr>) v1)
         else if mmco = 6 then MemMgrCtrlOp6 (long_term_frame_idx sliceHdr ! ii) v
         else v)"

function mmco_loop :: "AVCSliceHeader \<Rightarrow> nat \<Rightarrow> AVCCommonObj \<Rightarrow> nat \<times> AVCCommonObj" where
  "mmco_loop sliceHdr ii v =
     (if ii < MAX_DEC_REF_PIC_MARKING \<and> memory_management_control_operation sliceHdr ! ii \<noteq> 0
      then mmco_loop sliceHdr (ii + 1) (mmco_step sliceHdr ii v)
      else (ii, v))"
  by pat_completeness auto
termination by (relation "measure (\<lambda>(sliceHdr, ii, v). MAX_DEC_REF_PIC_MARKING - ii)") auto

declare mmco_loop.simps [simp del]

definition adaptive_memory_marking :: "AVCSliceHeader \<Rightarrow> AVCCommonObj \<Rightarrow> AVCStatus \<times> AVCCommonObj" where
  "adaptive_memory_marking sliceHdr v =
     (let (ii, v1) = mmco_loop sliceHdr 0 v
      in (if ii = MAX_DEC_REF_PIC_MARKING then AVC_FAIL else AVC_SUCCESS, v1))"

text \<open>The inner search of the sliding window: \<open>MinFrameNumWrap\<close> and \<open>MinIdx\<close>, -1 when there is none.\<close>

definition min_step :: "AVCCommonObj \<Rightarrow> nat \<Rightarrow> int \<times> int \<Rightarrow> int \<times> int" where
  "min_step v ii acc =
     (if IsReference (fs v ! ii) \<noteq> 0 \<and> IsLongTerm (fs v ! ii) = 0 \<and> FrameNumWrap (fs v ! ii) < fst acc
      then (FrameNumWrap (fs v ! ii), int ii) else acc)"

definition min_short_term :: "AVCCommonObj \<Rightarrow> int" where
  "min_short_term v = snd (fold (min_step v) [0..<num_fs v] (0x7FFFFFFF, - 1))"

function slide :: "int \<Rightarrow> int \<Rightarrow> int \<Rightarrow> AVCCommonObj \<Rightarrow> AVCStatus \<times> AVCCommonObj" where
  "slide num_ref numShortTerm numLongTerm v =
     (if numShortTerm + numLongTerm \<ge> num_ref then
        let MinIdx = min_short_term v
        in if MinIdx < 0 then (AVC_FAIL, v)
           else slide num_ref (numShortTerm - 1) numLongTerm (unmark_for_reference (nat MinIdx) v)
      else (AVC_SUCCESS, v))"
  by pat_completeness auto
termination
  by (relation "measure (\<lambda>(num_ref, numShortTerm, numLongTerm, v). nat (numShortTerm + numLongTerm - num_ref + 1))") auto

declare slide.simps [simp del]

definition count_fs :: "(nat \<Rightarrow> bool) \<Rightarrow> AVCCommonObj \<Rightarrow> int" where
  "count_fs P v = int (length (filter P [0..<num_fs v]))"

definition sliding_window_process :: "AVCSeqParamSet \<Rightarrow> AVCCommonObj \<Rightarrow> AVCStatus \<times> AVCCommonObj" where
  "sliding_window_process sps v =
     (let numLongTerm = count_fs (\<lambda>ii. ii \<noteq> currFS v \<and> IsLongTerm (fs v ! ii) \<noteq> 0) v;
          numShortTerm = count_fs (\<lambda>ii. ii \<noteq> currFS v \<and> IsLongTerm (fs v ! ii) = 0
                                          \<and> IsReference (fs v ! ii) \<noteq> 0) v
      in slide (num_ref_frames sps) numShortTerm numLongTerm v)"

section \<open>Storing the current picture\<close>

text \<open>The two loops over the other frames at an IDR picture.\<close>

definition idr_flush :: "nat \<Rightarrow> AVCCommonObj \<Rightarrow> AVCCommonObj" where
  "idr_flush ii v =
     (if ii \<noteq> currFS v then
        let v1 = upd_fs ii (\<lambda>f. f\<lparr>IsReference := 0, IsLongTerm := 0, IsOutputted := IsOutputted f OR 0x02\<rparr>) v
        in if IsOutputted (fs v1 ! ii) = 3 then CBAVC_FrameUnbind ii v1 else v1
      else v)"

definition idr_drop :: "nat \<Rightarrow> AVCCommonObj \<Rightarrow> AVCCommonObj" where
  "idr_drop ii v =
     (if ii \<noteq> currFS v then CBAVC_FrameUnbind ii (upd_fs ii (\<lambda>f. f\<lparr>IsOutputted := 3\<rparr>) v) else v)"

definition store_IDR :: "AVCSliceHeader \<Rightarrow> AVCCommonObj \<Rightarrow> AVCCommonObj" where
  "store_IDR sliceHdr v =
     (let v1 = for_fs idr_flush v;
          v2 = upd_fs (currFS v1) (\<lambda>f. f\<lparr>frame := (frame f)\<lparr>isReference := True\<rparr>, IsReference := 3\<rparr>) v1;
          v3 = (if \<not> long_term_reference_flag sliceHdr then
                  (upd_fs (currFS v2) (\<lambda>f. f\<lparr>frame := (frame f)\<lparr>isLongTerm := False\<rparr>, IsLongTerm := 0\<rparr>) v2)
                    \<lparr>MaxLongTermFrameIdx := - 1\<rparr>
                else
                  (upd_fs (currFS v2) (\<lambda>f. f\<lparr>frame := (frame f)\<lparr>isLongTerm := True\<rparr>, IsLongTerm := 3,
                     LongTermFrameIdx := 0\<rparr>) v2)
                    \<lparr>MaxLongTermFrameIdx := 0\<rparr>);
          v4 = (if no_output_of_prior_pics_flag sliceHdr then for_fs idr_drop v3 else v3)
      in v4\<lparr>mem_mgr_ctrl_eq_5 := True\<rparr>)"

text \<open>From the marking of the current frame to the check of the number of references.\<close>

definition store_finish :: "AVCSeqParamSet \<Rightarrow> AVCCommonObj \<Rightarrow> AVCStatus \<times> AVCCommonObj" where
  "store_finish sps v =
     (let v1 = (if \<not> nal_is_IDR v \<and> \<not> isLongTerm (currPic v) then
                  upd_fs (currFS v) (\<lambda>f. f\<lparr>IsReference := (if isReference (frame f) then 3 else 0),
                    IsLongTerm := 0\<rparr>) v
                else v);
          num_ref = count_fs (\<lambda>ii. IsReference (fs v1 ! ii) \<noteq> 0) v1
      in (if num_ref > num_ref_frames sps then AVC_FAIL else AVC_SUCCESS, v1))"

definition StorePictureInDPB :: "AVCSeqParamSet \<Rightarrow> AVCSliceHeader \<Rightarrow> AVCCommonObj \<Rightarrow> AVCStatus \<times> AVCCommonObj" where
  "StorePictureInDPB sps sliceHdr v =
     (if nal_is_IDR v then store_finish sps (store_IDR sliceHdr v)
      else if isReference (currPic v) then
        (let (st, v1) = (if \<not> adaptive_ref_pic_marking_mode_flag sliceHdr
                         then sliding_window_process sps v
                         else adaptive_memory_marking sliceHdr v)
         in if st \<noteq> AVC_SUCCESS then (st, v1) else store_finish sps v1)
      else store_finish sps v)"

section \<open>Getting and releasing a frame\<close>

text \<open>\<open>fbind ii\<close> is what \<open>CBAVC_FrameBind\<close> answers: the address of the frame memory, or failure.\<close>

definition DPBInitBuffer :: "(nat \<Rightarrow> int option) \<Rightarrow> AVCCommonObj \<Rightarrow> AVCStatus \<times> AVCCommonObj" where
  "DPBInitBuffer fbind v =
     (case first_fs (\<lambda>f. IsReference f = 0 \<and> IsOutputted f = 3) v of
        None \<Rightarrow> (AVC_PICTURE_OUTPUT_READY, v)
      | Some ii \<Rightarrow>
          (case fbind ii of
             None \<Rightarrow> (AVC_NO_BUFFER, v\<lparr>currFS := ii\<rparr>)
           | Some a \<Rightarrow> (AVC_SUCCESS, upd_fs ii (\<lambda>f. f\<lparr>base_dpb := a\<rparr>) (v\<lparr>currFS := ii\<rparr>))))"

definition DPBInitPic :: "AVCSliceHeader \<Rightarrow> int \<Rightarrow> AVCCommonObj \<Rightarrow> AVCCommonObj" where
  "DPBInitPic sliceHdr picNum v =
     (let offset = (if padded_size v \<noteq> 0 then (PicWidthInSamplesL v + 32) * 16 + 16 else 0);
          offsetc = (if padded_size v \<noteq> 0 then offset div 4 + 4 else 0);
          luma_framesize = (if padded_size v \<noteq> 0
                            then (FrameHeightInMbs v + 2) * (PicWidthInMbs v + 2) * 256
                            else PicSizeInMbs v * 256)
      in upd_fs (currFS v) (\<lambda>f.
           let cb = base_dpb f + luma_framesize + offsetc
           in f\<lparr>fs_PicOrderCnt := vid_PicOrderCnt v, FrameNum := frame_num sliceHdr, FrameNumWrap := picNum,
                IsOutputted := 0, IsReference := 0, IsLongTerm := 0,
                frame := (frame f)\<lparr>isReference := False, isLongTerm := False, padded := 0,
                  Sl := Some (base_dpb f + offset), Scb := Some cb, Scr := Some (cb + luma_framesize div 4),
                  pitch := PicWidthInSamplesL v + (if padded_size v = 0 then 0 else 32),
                  height := PicHeightInSamplesL v, width := PicWidthInSamplesL v, PicNum := picNum\<rparr>\<rparr>) v)"

text \<open>The search for the index of \<open>currFS\<close> finds it, if it is one of the \<open>num_fs\<close> stores.\<close>

definition DPBReleaseCurrentFrame :: "AVCCommonObj \<Rightarrow> AVCCommonObj" where
  "DPBReleaseCurrentFrame v =
     (let v1 = upd_fs (currFS v) (\<lambda>f. f\<lparr>IsOutputted := 3\<rparr>) v
      in if currFS v < num_fs v then CBAVC_FrameUnbind (currFS v) v1 else v1)"

section \<open>Allocating and freeing the buffer\<close>

definition dpb_capacity :: "int \<Rightarrow> int \<Rightarrow> int option" where
  "dpb_capacity level size_in_mbs =
     do { idx \<leftarrow> nth_opt mapLev2Idx level;
          m \<leftarrow> nth_opt MaxDPBX2 idx;
          if size_in_mbs = 0 then None else Some ((m * 4) div (3 * size_in_mbs) + 1) }"

definition init_store :: "int \<Rightarrow> AVCFrameStore \<Rightarrow> AVCFrameStore" where
  "init_store refIdx f =
     f\<lparr>IsReference := 0, IsLongTerm := 0, IsOutputted := 3,
       frame := (frame f)\<lparr>RefIdx := refIdx, picType := AVC_FRAME, isLongTerm := False, isReference := False, padded := 0\<rparr>\<rparr>"

text \<open>
  The allocation loop, \<open>k\<close> stores still to go; \<open>alloc i\<close> is the fresh store the \<open>i\<close>-th \<open>CBAVC_Malloc\<close>
  gives, with whatever its memory holds, or \<open>None\<close>.
\<close>

fun alloc_stores :: "(nat \<Rightarrow> AVCFrameStore option) \<Rightarrow> int \<Rightarrow> nat \<Rightarrow> AVCCommonObj \<Rightarrow> AVCStatus \<times> AVCCommonObj" where
  "alloc_stores alloc frame_bytes 0 v = (AVC_SUCCESS, v)"
| "alloc_stores alloc frame_bytes (Suc k) v =
     (let i = length (fs v)
      in case alloc i of
           None \<Rightarrow> (AVC_MEMORY_FAIL, v)
         | Some f \<Rightarrow>
             alloc_stores alloc frame_bytes k
               (v\<lparr>fs := fs v @ [init_store (int i) f], RefPicList0 := (RefPicList0 v)[i := Some i],
                  used_size := used_size v + frame_bytes\<rparr>))"

definition InitDPB ::
  "(nat \<Rightarrow> AVCFrameStore option) \<Rightarrow> AVCSeqParamSet \<Rightarrow> int \<Rightarrow> int \<Rightarrow> bool \<Rightarrow> AVCCommonObj \<Rightarrow> (AVCStatus \<times> AVCCommonObj) option"
  where
  "InitDPB alloc sps FrameHeight PicWidth padding v =
     do { let framesize = FrameHeight * PicWidth * 128 * 3;
          let psize = (if padding then (FrameHeight + 2) * (PicWidth + 2) * 128 * 3 - framesize else 0);
          n0 \<leftarrow> dpb_capacity (level_idc sps) (FrameHeight * PicWidth);
          let n1 = (if n0 > int MAX_FS then int MAX_FS else n0);
          let n = (if num_ref_frames sps + 1 > n1 then num_ref_frames sps + 1 else n1);
          if n > int MAX_FS then None
          else Some (alloc_stores alloc (framesize + psize) (nat n)
                 (v\<lparr>fs := [], num_fs := nat n, padded_size := psize,
                    dpb_size := n * (framesize + psize), used_size := 0\<rparr>)) }"

definition CleanUpDPB :: "AVCCommonObj \<Rightarrow> AVCCommonObj" where
  "CleanUpDPB v = v\<lparr>fs := [], used_size := 0, dpb_size := 0\<rparr>"

text \<open>
  \<open>AVCConfigureSequence\<close>: \<open>mem n\<close> says whether the \<open>n\<close>-th of its own allocations succeeds, and the log
  is the pair \<open>CBAVC_DPBAlloc\<close> is called with. The entries of a fresh map are zeros here; \<open>FMOInit\<close>
  writes the first \<open>PicSizeInMapUnits\<close> of them before any is read.
\<close>

definition AVCConfigureSequence ::
  "(nat \<Rightarrow> AVCFrameStore option) \<Rightarrow> (nat \<Rightarrow> bool) \<Rightarrow> AVCSeqParamSet \<Rightarrow> bool \<Rightarrow> AVCCommonObj
    \<Rightarrow> (AVCStatus \<times> (int \<times> int) option \<times> AVCCommonObj) option" where
  "AVCConfigureSequence alloc mem sps padding v =
     (let w = pic_width_in_mbs_minus1 sps + 1;
          hm = pic_height_in_map_units_minus1 sps + 1;
          fh = (2 - of_bool (frame_mbs_only_flag sps)) * hm;
          units = w * hm
      in if PicSizeInMapUnits v \<noteq> units \<or> level_idc sps \<noteq> vid_level_idc v then
           do { let v1 = for_fs (\<lambda>ii. upd_fs ii (\<lambda>f. f\<lparr>IsReference := 0, IsOutputted := IsOutputted f OR 0x02\<rparr>)) v;
                n0 \<leftarrow> dpb_capacity (level_idc sps) units;
                let n = (if n0 \<ge> int MAX_FS then int MAX_FS else n0);
                let pool = (if padding then (units + (w + 2) * 2 + hm * 2, n) else (units, n));
                (st, v2) \<leftarrow> InitDPB alloc sps fh w padding (CleanUpDPB v1);
                if st \<noteq> AVC_SUCCESS then Some (AVC_FAIL, Some pool, v2)
                else if \<not> mem 0 then Some (AVC_FAIL, Some pool, v2\<lparr>mblock_slice_ids := None\<rparr>)
                else
                  let v3 = v2\<lparr>mblock_slice_ids := Some (replicate (nat (fh * w)) (- 1))\<rparr>
                  in if \<not> mem 1 then Some (AVC_FAIL, Some pool, v3\<lparr>intra_pred_top := None\<rparr>)
                     else if \<not> mem 2 then
                       Some (AVC_FAIL, Some pool, v3\<lparr>intra_pred_top := Some (w * 16), intra_pred_top_cb := None\<rparr>)
                     else if \<not> mem 3 then
                       Some (AVC_FAIL, Some pool, v3\<lparr>intra_pred_top := Some (w * 16),
                         intra_pred_top_cb := Some (w * 8), intra_pred_top_cr := None\<rparr>)
                     else
                       let v4 = v3\<lparr>intra_pred_top := Some (w * 16), intra_pred_top_cb := Some (w * 8),
                                   intra_pred_top_cr := Some (w * 8)\<rparr>
                       in if \<not> mem 4 then Some (AVC_FAIL, Some pool, v4\<lparr>MbToSliceGroupMap := None\<rparr>)
                          else Some (AVC_SUCCESS, Some pool,
                                 v4\<lparr>MbToSliceGroupMap := Some (replicate (nat (units * 2)) 0), PicSizeInMapUnits := units,
                                    vid_level_idc := level_idc sps\<rparr>) }
         else Some (AVC_SUCCESS, None, v))"

end
