(* ===== verification/DecHeader.thy ===== *)
theory DecHeader
  imports HeaderSyntax Dpb
begin

text \<open>
  The parameter sets of the decoder, \<open>dec/src/header.cpp\<close>, and the two functions of
  \<open>dec/src/avcdec_api.cpp\<close> that take a parameter set out of a NAL unit. The status of the element readers is
  not looked at, as in the code. The tables of parameter sets are lists of options (\<open>NULL\<close>); an address of
  a set (\<open>currPicParams\<close>) is its index. What \<open>CBAVC_Malloc\<close> returns is an argument: no block, or a block
  with arbitrary contents. A list of slice group ids that is \<open>NULL\<close> is empty.
\<close>

record AVCDecObject =
  seqParams :: "AVCSeqParamSet option list"
  picParams :: "AVCPicParamSet option list"

section \<open>Sequence parameter set\<close>

text \<open>One turn of the loop over the coded picture buffers: nothing is kept.\<close>

definition hrd_entry :: "nat \<Rightarrow> unit \<Rightarrow> AVCDecBitstream \<Rightarrow> (unit \<times> AVCDecBitstream) option" where
  "hrd_entry i u s = do { (_, s1) \<leftarrow> ue_v s; (_, s2) \<leftarrow> ue_v s1; (_, s3) \<leftarrow> ue_v s2; Some ((), s3) }"

definition hrd_parameters :: "AVCHRDParams \<Rightarrow> AVCDecBitstream \<Rightarrow> (AVCHRDParams \<times> AVCDecBitstream) option" where
  "hrd_parameters HRDParam s =
     do { (cnt, s1) \<leftarrow> ue_v s;
          (_, s2) \<leftarrow> BitstreamReadBits s1 4;
          (_, s3) \<leftarrow> BitstreamReadBits s2 4;
          (_, s4) \<leftarrow> read_loop hrd_entry 0 (unat cnt + 1) () s3;
          (_, s5) \<leftarrow> BitstreamReadBits s4 5;
          (removal, s6) \<leftarrow> BitstreamReadBits s5 5;
          (delay, s7) \<leftarrow> BitstreamReadBits s6 5;
          (offset, s8) \<leftarrow> BitstreamReadBits s7 5;
          Some (HRDParam\<lparr>cpb_cnt_minus1 := cnt, cpb_removal_delay_length_minus1 := removal,
                  dpb_output_delay_length_minus1 := delay, time_offset_length := offset\<rparr>, s8) }"

definition vui_aspect_ratio :: "AVCDecBitstream \<Rightarrow> (unit \<times> AVCDecBitstream) option" where
  "vui_aspect_ratio s =
     do { (aspect_ratio_idc, s1) \<leftarrow> BitstreamReadBits s 8;
          if aspect_ratio_idc = 255 then
            do { (_, s2) \<leftarrow> BitstreamReadBits s1 16; (_, s3) \<leftarrow> BitstreamReadBits s2 16; Some ((), s3) }
          else Some ((), s1) }"

definition vui_overscan :: "AVCDecBitstream \<Rightarrow> (unit \<times> AVCDecBitstream) option" where
  "vui_overscan s = do { (_, s1) \<leftarrow> BitstreamRead1Bit s; Some ((), s1) }"

definition vui_colour :: "AVCDecBitstream \<Rightarrow> (unit \<times> AVCDecBitstream) option" where
  "vui_colour s =
     do { (_, s1) \<leftarrow> BitstreamReadBits s 8; (_, s2) \<leftarrow> BitstreamReadBits s1 8; (_, s3) \<leftarrow> BitstreamReadBits s2 8;
          Some ((), s3) }"

definition vui_video_signal :: "AVCDecBitstream \<Rightarrow> (unit \<times> AVCDecBitstream) option" where
  "vui_video_signal s =
     do { (_, s1) \<leftarrow> BitstreamReadBits s 3; (_, s2) \<leftarrow> BitstreamRead1Bit s1; (_, s3) \<leftarrow> flagged vui_colour s2;
          Some ((), s3) }"

definition vui_chroma_loc :: "AVCDecBitstream \<Rightarrow> (unit \<times> AVCDecBitstream) option" where
  "vui_chroma_loc s = do { (_, s1) \<leftarrow> ue_v s; (_, s2) \<leftarrow> ue_v s1; Some ((), s2) }"

definition vui_timing :: "AVCDecBitstream \<Rightarrow> (unit \<times> AVCDecBitstream) option" where
  "vui_timing s =
     do { (_, s1) \<leftarrow> BitstreamReadBits s 32; (_, s2) \<leftarrow> BitstreamReadBits s1 32; (_, s3) \<leftarrow> BitstreamRead1Bit s2;
          Some ((), s3) }"

definition vui_restriction :: "AVCDecBitstream \<Rightarrow> (unit \<times> AVCDecBitstream) option" where
  "vui_restriction s =
     do { (_, s1) \<leftarrow> BitstreamRead1Bit s; (_, s2) \<leftarrow> ue_v s1; (_, s3) \<leftarrow> ue_v s2; (_, s4) \<leftarrow> ue_v s3;
          (_, s5) \<leftarrow> ue_v s4; (_, s6) \<leftarrow> ue_v s5; (_, s7) \<leftarrow> ue_v s6; Some ((), s7) }"

text \<open>An HRD structure that is present if its flag is.\<close>

definition opt_hrd ::
  "AVCHRDParams \<Rightarrow> AVCDecBitstream \<Rightarrow> ((bool \<times> AVCHRDParams) \<times> AVCDecBitstream) option" where
  "opt_hrd hrd s =
     do { (temp, s1) \<leftarrow> BitstreamRead1Bit s;
          (hrd1, s2) \<leftarrow> (if temp \<noteq> 0 then hrd_parameters hrd s1 else Some (hrd, s1));
          Some ((temp \<noteq> 0, hrd1), s2) }"

definition dec_vui_parameters ::
  "AVCVUIParams \<Rightarrow> AVCDecBitstream \<Rightarrow> ((AVCDec_Status \<times> AVCVUIParams) \<times> AVCDecBitstream) option" where
  "dec_vui_parameters vui s =
     do { (_, s1) \<leftarrow> flagged vui_aspect_ratio s;
          (_, s2) \<leftarrow> flagged vui_overscan s1;
          (_, s3) \<leftarrow> flagged vui_video_signal s2;
          (_, s4) \<leftarrow> flagged vui_chroma_loc s3;
          (_, s5) \<leftarrow> flagged vui_timing s4;
          ((nal, nal_hrd), s6) \<leftarrow> opt_hrd (nal_hrd_parameters vui) s5;
          ((vcl, vcl_hrd), s7) \<leftarrow> opt_hrd (vcl_hrd_parameters vui) s6;
          (_, s8) \<leftarrow> (if nal \<or> vcl then BitstreamRead1Bit s7 else Some (0, s7));
          (pic_struct, s9) \<leftarrow> BitstreamRead1Bit s8;
          (_, s10) \<leftarrow> flagged vui_restriction s9;
          Some ((AVCDEC_SUCCESS, vui\<lparr>nal_hrd_parameters_present_flag := nal, nal_hrd_parameters := nal_hrd,
                  vcl_hrd_parameters_present_flag := vcl, vcl_hrd_parameters := vcl_hrd,
                  pic_struct_present_flag := pic_struct \<noteq> 0\<rparr>), s10) }"

definition offset_entry :: "nat \<Rightarrow> int list \<Rightarrow> AVCDecBitstream \<Rightarrow> (int list \<times> AVCDecBitstream) option" where
  "offset_entry i xs s = do { (v, s1) \<leftarrow> se_v32bit s; ys \<leftarrow> set_opt xs (int i) v; Some (ys, s1) }"

text \<open>The parameters of the picture order count, after its type.\<close>

definition sps_order_cnt :: "AVCSeqParamSet \<Rightarrow> AVCDecBitstream \<Rightarrow> (AVCSeqParamSet \<times> AVCDecBitstream) option" where
  "sps_order_cnt p s =
     (if pic_order_cnt_type p = 0 then
        do { (v, s1) \<leftarrow> ue_v s; Some (p\<lparr>log2_max_pic_order_cnt_lsb_minus4 := uint v\<rparr>, s1) }
      else if pic_order_cnt_type p = 1 then
        do { (b, s1) \<leftarrow> BitstreamRead1Bit s;
             (non_ref, s2) \<leftarrow> se_v32bit s1;
             (top_bottom, s3) \<leftarrow> se_v32bit s2;
             (n, s4) \<leftarrow> ue_v s3;
             (xs, s5) \<leftarrow> read_loop offset_entry 0 (nat (c_int (uint n))) (offset_for_ref_frame p) s4;
             Some (p\<lparr>delta_pic_order_always_zero_flag := b \<noteq> 0, offset_for_non_ref_pic := non_ref,
                     offset_for_top_to_bottom_field := top_bottom, num_ref_frames_in_pic_order_cnt_cycle := uint n,
                     offset_for_ref_frame := xs\<rparr>, s5) }
      else Some (p, s))"

definition sps_cropping :: "AVCDecBitstream \<Rightarrow> ((int \<times> int \<times> int \<times> int) \<times> AVCDecBitstream) option" where
  "sps_cropping s =
     do { (l, s1) \<leftarrow> ue_v s; (r, s2) \<leftarrow> ue_v s1; (t, s3) \<leftarrow> ue_v s2; (b, s4) \<leftarrow> ue_v s3;
          Some ((uint l, uint r, uint t, uint b), s4) }"

text \<open>The frame: from \<open>gaps_in_frame_num_value_allowed_flag\<close> on.\<close>

definition sps_frame ::
  "AVCSeqParamSet \<Rightarrow> AVCDecBitstream \<Rightarrow> ((AVCDec_Status \<times> AVCSeqParamSet) \<times> AVCDecBitstream) option" where
  "sps_frame p s =
     do { (gaps, s1) \<leftarrow> BitstreamRead1Bit s;
          (w, s2) \<leftarrow> ue_v s1;
          (h, s3) \<leftarrow> ue_v s2;
          (mbs_only, s4) \<leftarrow> BitstreamRead1Bit s3;
          (adaptive, s5) \<leftarrow> (if mbs_only = 0 then BitstreamRead1Bit s4 else Some (0, s4));
          (direct, s6) \<leftarrow> BitstreamRead1Bit s5;
          (crop, s7) \<leftarrow> BitstreamRead1Bit s6;
          ((l, r, t, b), s8) \<leftarrow> (if crop \<noteq> 0 then sps_cropping s7 else Some ((0, 0, 0, 0), s7));
          (vui, s9) \<leftarrow> BitstreamRead1Bit s8;
          let q = p\<lparr>gaps_in_frame_num_value_allowed_flag := gaps \<noteq> 0, pic_width_in_mbs_minus1 := uint w,
                    pic_height_in_map_units_minus1 := uint h, frame_mbs_only_flag := mbs_only \<noteq> 0,
                    mb_adaptive_frame_field_flag := adaptive \<noteq> 0, direct_8x8_inference_flag := direct \<noteq> 0,
                    frame_cropping_flag := crop \<noteq> 0, frame_crop_left_offset := l, frame_crop_right_offset := r,
                    frame_crop_top_offset := t, frame_crop_bottom_offset := b, vui_parameters_present_flag := vui \<noteq> 0\<rparr>;
          if vui \<noteq> 0 then
            do { ((st, v), s10) \<leftarrow> dec_vui_parameters (vui_parameters q) s9;
                 Some ((if st \<noteq> AVCDEC_SUCCESS then AVCDEC_FAIL else st, q\<lparr>vui_parameters := v\<rparr>), s10) }
          else Some ((AVCDEC_SUCCESS, q), s9) }"

text \<open>What follows the allocation of the set.\<close>

definition sps_rest ::
  "AVCSeqParamSet \<Rightarrow> AVCDecBitstream \<Rightarrow> ((AVCDec_Status \<times> AVCSeqParamSet) \<times> AVCDecBitstream) option" where
  "sps_rest p s =
     do { (v, s1) \<leftarrow> ue_v s;
          let p1 = p\<lparr>log2_max_frame_num_minus4 := uint v\<rparr>;
          if v > 12 then Some ((AVCDEC_FAIL, p1), s1)
          else
            do { (ty, s2) \<leftarrow> ue_v s1;
                 (p2, s3) \<leftarrow> sps_order_cnt (p1\<lparr>pic_order_cnt_type := uint ty\<rparr>) s2;
                 (n, s4) \<leftarrow> ue_v s3;
                 let p3 = p2\<lparr>num_ref_frames := uint n\<rparr>;
                 if n > 16 then Some ((AVCDEC_FAIL, p3), s4) else sps_frame p3 s4 } }"

definition DecodeSPS ::
  "AVCSeqParamSet option \<Rightarrow> AVCDecObject \<Rightarrow> AVCDecBitstream \<Rightarrow> ((AVCDec_Status \<times> AVCDecObject) \<times> AVCDecBitstream) option"
  where
  "DecodeSPS fresh decvid s =
     do { (profile, s1) \<leftarrow> BitstreamReadBits s 8;
          (c0, s2) \<leftarrow> BitstreamRead1Bit s1;
          (c1, s3) \<leftarrow> BitstreamRead1Bit s2;
          (c2, s4) \<leftarrow> BitstreamRead1Bit s3;
          (_, s5) \<leftarrow> BitstreamReadBits s4 5;
          (level, s6) \<leftarrow> BitstreamReadBits s5 8;
          if level > 51 then Some ((AVCDEC_FAIL, decvid), s6)
          else
            do { idx \<leftarrow> nth_opt mapLev2Idx (uint level);
                 if idx = 255 then Some ((AVCDEC_FAIL, decvid), s6)
                 else
                   do { (sid, s7) \<leftarrow> ue_v s6;
                        if sid > 31 then Some ((AVCDEC_FAIL, decvid), s7)
                        else
                          do { old \<leftarrow> nth_opt (seqParams decvid) (uint sid);
                               case (if old = None then fresh else old) of
                                 None \<Rightarrow> Some ((AVCDEC_MEMORY_FAIL, decvid), s7)
                               | Some p \<Rightarrow>
                                   do { ((st, q), s8) \<leftarrow> sps_rest (p\<lparr>profile_idc := uint profile, constrained_set0_flag := c0 \<noteq> 0,
                                            constrained_set1_flag := c1 \<noteq> 0, constrained_set2_flag := c2 \<noteq> 0,
                                            level_idc := uint level, seq_parameter_set_id := uint sid\<rparr>) s7;
                                        Some ((st, decvid\<lparr>seqParams := (seqParams decvid)[unat sid := Some q]\<rparr>), s8) } } } } }"

section \<open>Picture parameter set\<close>

definition ue_entry :: "nat \<Rightarrow> uint list \<Rightarrow> AVCDecBitstream \<Rightarrow> (uint list \<times> AVCDecBitstream) option" where
  "ue_entry i xs s = do { (v, s1) \<leftarrow> ue_v s; ys \<leftarrow> set_opt xs (int i) v; Some (ys, s1) }"

definition corner_entry ::
  "nat \<Rightarrow> uint list \<times> uint list \<Rightarrow> AVCDecBitstream \<Rightarrow> ((uint list \<times> uint list) \<times> AVCDecBitstream) option" where
  "corner_entry i xy s =
     do { (v, s1) \<leftarrow> ue_v s; xs \<leftarrow> set_opt (fst xy) (int i) v;
          (w, s2) \<leftarrow> ue_v s1; ys \<leftarrow> set_opt (snd xy) (int i) w; Some ((xs, ys), s2) }"

definition group_id_entry :: "nat \<Rightarrow> nat \<Rightarrow> uint list \<Rightarrow> AVCDecBitstream \<Rightarrow> (uint list \<times> AVCDecBitstream) option" where
  "group_id_entry numBits i xs s =
     do { (v, s1) \<leftarrow> BitstreamReadBits s (int numBits); ys \<leftarrow> set_opt xs (int i) v; Some (ys, s1) }"

text \<open>Type 6: the explicit map; \<open>malloc_ids n\<close> is the new block of \<open>n\<close> entries.\<close>

definition pps_group_ids ::
  "(nat \<Rightarrow> uint list option) \<Rightarrow> AVCDecObject \<Rightarrow> AVCPicParamSet \<Rightarrow> AVCDecBitstream
    \<Rightarrow> ((AVCDec_Status \<times> AVCPicParamSet) \<times> AVCDecBitstream) option" where
  "pps_group_ids malloc_ids decvid p s =
     do { (v, s1) \<leftarrow> ue_v s;
          let p1 = p\<lparr>pic_size_in_map_units_minus1 := v\<rparr>;
          let numBits = count_bits (nat (num_slice_groups_minus1 p));
          sps0 \<leftarrow> nth_opt (seqParams decvid) (pps_seq_parameter_set_id p);
          (case sps0 of
             None \<Rightarrow> Some ((AVCDEC_FAIL, p1), s1)
           | Some sps \<Rightarrow>
               let size = (pic_width_in_mbs_minus1 sps + 1) * (pic_height_in_map_units_minus1 sps + 1)
               in if c_int (uint v) \<noteq> size - 1 then Some ((AVCDEC_FAIL, p1), s1)
                  else
                    (case malloc_ids (nat size) of
                       None \<Rightarrow> Some ((AVCDEC_MEMORY_FAIL, p1\<lparr>slice_group_id := []\<rparr>), s1)
                     | Some block \<Rightarrow>
                         do { (ids, s2) \<leftarrow> read_loop (group_id_entry numBits) 0 (nat size) block s1;
                              Some ((AVCDEC_SUCCESS, p1\<lparr>slice_group_id := ids\<rparr>), s2) })) }"

definition pps_groups ::
  "(nat \<Rightarrow> uint list option) \<Rightarrow> AVCDecObject \<Rightarrow> AVCPicParamSet \<Rightarrow> AVCDecBitstream
    \<Rightarrow> ((AVCDec_Status \<times> AVCPicParamSet) \<times> AVCDecBitstream) option" where
  "pps_groups malloc_ids decvid p0 s =
     (let p = p0\<lparr>slice_group_change_rate_minus1 := 0\<rparr>; n = nat (num_slice_groups_minus1 p)
      in if n > 0 then
           do { (ty, s1) \<leftarrow> ue_v s;
                let p1 = p\<lparr>slice_group_map_type := uint ty\<rparr>;
                if ty = 0 then
                  do { (xs, s2) \<leftarrow> read_loop ue_entry 0 (n + 1) (run_length_minus1 p1) s1;
                       Some ((AVCDEC_SUCCESS, p1\<lparr>run_length_minus1 := xs\<rparr>), s2) }
                else if ty = 2 then
                  do { ((xs, ys), s2) \<leftarrow> read_loop corner_entry 0 n (top_left p1, bottom_right p1) s1;
                       Some ((AVCDEC_SUCCESS, p1\<lparr>top_left := xs, bottom_right := ys\<rparr>), s2) }
                else if ty = 3 \<or> ty = 4 \<or> ty = 5 then
                  do { (d, s2) \<leftarrow> BitstreamRead1Bit s1; (r, s3) \<leftarrow> ue_v s2;
                       Some ((AVCDEC_SUCCESS, p1\<lparr>slice_group_change_direction_flag := d \<noteq> 0,
                                slice_group_change_rate_minus1 := r\<rparr>), s3) }
                else if ty = 6 then pps_group_ids malloc_ids decvid p1 s1
                else Some ((AVCDEC_SUCCESS, p1), s1) }
         else Some ((AVCDEC_SUCCESS, p), s))"

text \<open>The reference indices and the prediction flags, then the quantisers and the last three flags.\<close>

definition pps_refs ::
  "AVCPicParamSet \<Rightarrow> AVCDecBitstream \<Rightarrow> ((AVCDec_Status \<times> AVCPicParamSet) \<times> AVCDecBitstream) option" where
  "pps_refs p s =
     do { (l0, s1) \<leftarrow> ue_v s;
          let p1 = p\<lparr>pps_num_ref_idx_l0_active_minus1 := l0\<rparr>;
          if l0 > 31 then Some ((AVCDEC_FAIL, p1), s1)
          else
            do { (l1, s2) \<leftarrow> ue_v s1;
                 let p2 = p1\<lparr>pps_num_ref_idx_l1_active_minus1 := l1\<rparr>;
                 if l1 > 31 then Some ((AVCDEC_FAIL, p2), s2)
                 else
                   do { (wp, s3) \<leftarrow> BitstreamRead1Bit s2;
                        (bi, s4) \<leftarrow> BitstreamReadBits s3 2;
                        Some ((if bi > 2 then AVCDEC_FAIL else AVCDEC_SUCCESS,
                               p2\<lparr>weighted_pred_flag := wp \<noteq> 0, weighted_bipred_idc := bi\<rparr>), s4) } } }"

definition pps_quant ::
  "AVCPicParamSet \<Rightarrow> AVCDecBitstream \<Rightarrow> ((AVCDec_Status \<times> AVCPicParamSet) \<times> AVCDecBitstream) option" where
  "pps_quant p s =
     do { (qp, s1) \<leftarrow> se_v s;
          let p1 = p\<lparr>pic_init_qp_minus26 := qp\<rparr>;
          if qp < - 26 \<or> qp > 25 then Some ((AVCDEC_FAIL, p1), s1)
          else
            do { (qs, s2) \<leftarrow> se_v s1;
                 let p2 = p1\<lparr>pic_init_qs_minus26 := qs\<rparr>;
                 if qs < - 26 \<or> qs > 25 then Some ((AVCDEC_FAIL, p2), s2)
                 else
                   do { (off, s3) \<leftarrow> se_v s2;
                        let p3 = p2\<lparr>chroma_qp_index_offset := off\<rparr>;
                        if off < - 12 \<or> off > 12 then Some ((AVCDEC_FAIL, p3), s3)
                        else
                          do { (w, s4) \<leftarrow> BitstreamReadBits s3 3;
                               Some ((AVCDEC_SUCCESS,
                                 p3\<lparr>deblocking_filter_control_present_flag := drop_bit 2 w \<noteq> 0,
                                    constrained_intra_pred_flag := drop_bit 1 w AND 1 \<noteq> 0,
                                    redundant_pic_cnt_present_flag := w AND 1 \<noteq> 0\<rparr>), s4) } } } }"

definition pps_body ::
  "(nat \<Rightarrow> uint list option) \<Rightarrow> AVCDecObject \<Rightarrow> AVCPicParamSet \<Rightarrow> AVCDecBitstream
    \<Rightarrow> ((AVCDec_Status \<times> AVCPicParamSet) \<times> AVCDecBitstream) option" where
  "pps_body malloc_ids decvid p s =
     do { (cabac, s1) \<leftarrow> BitstreamRead1Bit s;
          let p1 = p\<lparr>entropy_coding_mode_flag := cabac \<noteq> 0\<rparr>;
          if cabac \<noteq> 0 then Some ((AVCDEC_FAIL, p1), s1)
          else
            do { (order, s2) \<leftarrow> BitstreamRead1Bit s1;
                 (n, s3) \<leftarrow> ue_v s2;
                 let p2 = p1\<lparr>pic_order_present_flag := order \<noteq> 0, num_slice_groups_minus1 := uint n\<rparr>;
                 if uint n > int MAX_NUM_SLICE_GROUP - 1 then Some ((AVCDEC_FAIL, p2), s3)
                 else on_success (pps_groups malloc_ids decvid p2) (\<lambda>p3. on_success (pps_refs p3) pps_quant) s3 } }"

text \<open>A set that cannot be used is freed (\<open>clean_up\<close>); \<open>currPicParams\<close> keeps its index.\<close>

definition DecodePPS ::
  "AVCPicParamSet option \<Rightarrow> (nat \<Rightarrow> uint list option) \<Rightarrow> AVCDecObject \<Rightarrow> AVCCommonObj \<Rightarrow> AVCDecBitstream
    \<Rightarrow> ((AVCDec_Status \<times> AVCDecObject \<times> AVCCommonObj) \<times> AVCDecBitstream) option" where
  "DecodePPS fresh malloc_ids decvid v s =
     do { (pid, s1) \<leftarrow> ue_v s;
          if pid > 255 then Some ((AVCDEC_FAIL, decvid, v), s1)
          else
            do { (sid, s2) \<leftarrow> ue_v s1;
                 if sid > 31 then Some ((AVCDEC_FAIL, decvid, v), s2)
                 else
                   do { old \<leftarrow> nth_opt (picParams decvid) (uint pid);
                        case (if old = None then map_option (\<lambda>p. p\<lparr>slice_group_id := []\<rparr>) fresh else old) of
                          None \<Rightarrow> Some ((AVCDEC_MEMORY_FAIL, decvid, v), s2)
                        | Some p \<Rightarrow>
                            do { ((st, q), s3) \<leftarrow> pps_body malloc_ids decvid
                                   (p\<lparr>pps_seq_parameter_set_id := uint sid, pic_parameter_set_id := uint pid\<rparr>) s2;
                                 Some ((st, decvid\<lparr>picParams := (picParams decvid)[unat pid :=
                                         (if st = AVCDEC_SUCCESS then Some q else None)]\<rparr>,
                                        v\<lparr>currPicParams := unat pid\<rparr>), s3) } } } }"

section \<open>Parameter sets in NAL units\<close>

text \<open>
  The first byte of the unit. The decoder object and its tables exist (the branch that allocates them at the
  first unit is memory management only).
\<close>

definition nal_fields :: "uint8 \<Rightarrow> AVCCommonObj \<Rightarrow> AVCCommonObj" where
  "nal_fields b v = v\<lparr>nal_ref_idc := uint (drop_bit 5 (b AND 0x60)), nal_is_IDR := (b AND 0x1F = 5)\<rparr>"

definition PVAVCDecSeqParamSet ::
  "AVCSeqParamSet option \<Rightarrow> uint8 list \<Rightarrow> int \<Rightarrow> AVCDecObject \<Rightarrow> AVCCommonObj
    \<Rightarrow> (AVCDec_Status \<times> AVCDecObject \<times> AVCCommonObj) option" where
  "PVAVCDecSeqParamSet fresh nal_unit sz decvid v =
     do { b \<leftarrow> nth_opt nal_unit 0;
          if drop_bit 7 b \<noteq> 0 then Some (AVCDEC_FAIL, decvid, v)
          else
            let v1 = nal_fields b v
            in if b AND 0x1F \<noteq> 7 then Some (AVCDEC_FAIL, decvid, v1)
               else do { s \<leftarrow> BitstreamInit (tl nal_unit) (sz - 1);
                         ((st, d), _) \<leftarrow> DecodeSPS fresh decvid s;
                         Some (st, d, v1) } }"

definition PVAVCDecPicParamSet ::
  "AVCPicParamSet option \<Rightarrow> (nat \<Rightarrow> uint list option) \<Rightarrow> uint8 list \<Rightarrow> int \<Rightarrow> AVCDecObject \<Rightarrow> AVCCommonObj
    \<Rightarrow> (AVCDec_Status \<times> AVCDecObject \<times> AVCCommonObj) option" where
  "PVAVCDecPicParamSet fresh malloc_ids nal_unit sz decvid v =
     do { b \<leftarrow> nth_opt nal_unit 0;
          let v1 = nal_fields b v;
          if b AND 0x1F \<noteq> 8 then Some (AVCDEC_FAIL, decvid, v1)
          else do { s \<leftarrow> BitstreamInit (tl nal_unit) (sz - 1);
                    ((st, d, v2), _) \<leftarrow> DecodePPS fresh malloc_ids decvid v1 s;
                    if st \<noteq> AVCDEC_SUCCESS then Some (st, d, v2)
                    else do { p0 \<leftarrow> nth_opt (picParams d) (int (currPicParams v2));
                              p \<leftarrow> p0;
                              Some (AVCDEC_SUCCESS, d,
                                v2\<lparr>SliceGroupChangeRate := uint (slice_group_change_rate_minus1 p + 1)\<rparr>) } } }"

end
