(* ===== verification/EncHeader.thy ===== *)
theory EncHeader
  imports HeaderSyntax
begin

text \<open>
  The parameter sets of the encoder, \<open>enc/src/header.cpp\<close>. A status that the code overwrites before it looks
  at it is dropped; \<open>EncodeVUI\<close> and \<open>EncodeHRD\<close> return nothing.
\<close>

section \<open>Video usability information\<close>

text \<open>\<open>temp = flag; BitstreamWrite1Bit(stream, temp); if (temp) { \<dots> }\<close>\<close>

definition put_flagged ::
  "malloc \<Rightarrow> bool \<Rightarrow> (AVCEncBitstream \<Rightarrow> (unit \<times> AVCEncBitstream) option) \<Rightarrow> AVCEncBitstream \<Rightarrow> (unit \<times> AVCEncBitstream) option" where
  "put_flagged malloc b w s =
     do { (_, s1) \<leftarrow> BitstreamWrite1Bit malloc s (of_bool b); if b then w s1 else Some ((), s1) }"

definition put_hrd_entry :: "malloc \<Rightarrow> AVCHRDParams \<Rightarrow> nat \<Rightarrow> AVCEncBitstream \<Rightarrow> (unit \<times> AVCEncBitstream) option" where
  "put_hrd_entry malloc hrd i s =
     do { r \<leftarrow> nth_opt (bit_rate_value_minus1 hrd) (int i);
          (_, s1) \<leftarrow> enc_ue_v malloc s r;
          c \<leftarrow> nth_opt (cpb_size_value_minus1 hrd) (int i);
          (_, s2) \<leftarrow> enc_ue_v malloc s1 c;
          f \<leftarrow> nth_opt (cbr_flag hrd) (int i);
          (_, s3) \<leftarrow> enc_ue_v malloc s2 f;
          Some ((), s3) }"

definition EncodeHRD :: "malloc \<Rightarrow> AVCHRDParams \<Rightarrow> AVCEncBitstream \<Rightarrow> (unit \<times> AVCEncBitstream) option" where
  "EncodeHRD malloc hrd s =
     do { (_, s1) \<leftarrow> enc_ue_v malloc s (cpb_cnt_minus1 hrd);
          (_, s2) \<leftarrow> BitstreamWriteBits malloc s1 4 (bit_rate_scale hrd);
          (_, s3) \<leftarrow> BitstreamWriteBits malloc s2 4 (cpb_size_scale hrd);
          (_, s4) \<leftarrow> write_loop (put_hrd_entry malloc hrd) 0 (nat (c_int (uint (cpb_cnt_minus1 hrd)) + 1)) () s3;
          (_, s5) \<leftarrow> BitstreamWriteBits malloc s4 5 (initial_cpb_removal_delay_length_minus1 hrd);
          (_, s6) \<leftarrow> BitstreamWriteBits malloc s5 5 (cpb_removal_delay_length_minus1 hrd);
          (_, s7) \<leftarrow> BitstreamWriteBits malloc s6 5 (dpb_output_delay_length_minus1 hrd);
          (_, s8) \<leftarrow> BitstreamWriteBits malloc s7 5 (time_offset_length hrd);
          Some ((), s8) }"

definition put_aspect_ratio :: "malloc \<Rightarrow> AVCVUIParams \<Rightarrow> AVCEncBitstream \<Rightarrow> (unit \<times> AVCEncBitstream) option" where
  "put_aspect_ratio malloc vui s =
     do { (_, s1) \<leftarrow> BitstreamWriteBits malloc s 8 (aspect_ratio_idc vui);
          if aspect_ratio_idc vui = 255 then
            do { (_, s2) \<leftarrow> BitstreamWriteBits malloc s1 16 (sar_width vui);
                 (_, s3) \<leftarrow> BitstreamWriteBits malloc s2 16 (sar_height vui);
                 Some ((), s3) }
          else Some ((), s1) }"

definition put_overscan :: "malloc \<Rightarrow> AVCVUIParams \<Rightarrow> AVCEncBitstream \<Rightarrow> (unit \<times> AVCEncBitstream) option" where
  "put_overscan malloc vui s =
     do { (_, s1) \<leftarrow> BitstreamWrite1Bit malloc s (of_bool (overscan_appropriate_flag vui)); Some ((), s1) }"

definition put_colour :: "malloc \<Rightarrow> AVCVUIParams \<Rightarrow> AVCEncBitstream \<Rightarrow> (unit \<times> AVCEncBitstream) option" where
  "put_colour malloc vui s =
     do { (_, s1) \<leftarrow> BitstreamWriteBits malloc s 8 (colour_primaries vui);
          (_, s2) \<leftarrow> BitstreamWriteBits malloc s1 8 (transfer_characteristics vui);
          (_, s3) \<leftarrow> BitstreamWriteBits malloc s2 8 (matrix_coefficients vui);
          Some ((), s3) }"

definition put_video_signal :: "malloc \<Rightarrow> AVCVUIParams \<Rightarrow> AVCEncBitstream \<Rightarrow> (unit \<times> AVCEncBitstream) option" where
  "put_video_signal malloc vui s =
     do { (_, s1) \<leftarrow> BitstreamWriteBits malloc s 3 (video_format vui);
          (_, s2) \<leftarrow> BitstreamWrite1Bit malloc s1 (of_bool (video_full_range_flag vui));
          (_, s3) \<leftarrow> put_flagged malloc (colour_description_present_flag vui) (put_colour malloc vui) s2;
          Some ((), s3) }"

definition put_chroma_loc :: "malloc \<Rightarrow> AVCVUIParams \<Rightarrow> AVCEncBitstream \<Rightarrow> (unit \<times> AVCEncBitstream) option" where
  "put_chroma_loc malloc vui s =
     do { (_, s1) \<leftarrow> enc_ue_v malloc s (chroma_sample_loc_type_top_field vui);
          (_, s2) \<leftarrow> enc_ue_v malloc s1 (chroma_sample_loc_type_bottom_field vui);
          Some ((), s2) }"

definition put_timing :: "malloc \<Rightarrow> AVCVUIParams \<Rightarrow> AVCEncBitstream \<Rightarrow> (unit \<times> AVCEncBitstream) option" where
  "put_timing malloc vui s =
     do { (_, s1) \<leftarrow> BitstreamWriteBits malloc s 32 (num_units_in_tick vui);
          (_, s2) \<leftarrow> BitstreamWriteBits malloc s1 32 (time_scale vui);
          (_, s3) \<leftarrow> BitstreamWrite1Bit malloc s2 (of_bool (fixed_frame_rate_flag vui));
          Some ((), s3) }"

definition put_restriction :: "malloc \<Rightarrow> AVCVUIParams \<Rightarrow> AVCEncBitstream \<Rightarrow> (unit \<times> AVCEncBitstream) option" where
  "put_restriction malloc vui s =
     do { (_, s1) \<leftarrow> BitstreamWrite1Bit malloc s (of_bool (motion_vectors_over_pic_boundaries_flag vui));
          (_, s2) \<leftarrow> enc_ue_v malloc s1 (max_bytes_per_pic_denom vui);
          (_, s3) \<leftarrow> enc_ue_v malloc s2 (max_bits_per_mb_denom vui);
          (_, s4) \<leftarrow> enc_ue_v malloc s3 (log2_max_mv_length_horizontal vui);
          (_, s5) \<leftarrow> enc_ue_v malloc s4 (log2_max_mv_length_vertical vui);
          (_, s6) \<leftarrow> enc_ue_v malloc s5 (max_dec_frame_reordering vui);
          (_, s7) \<leftarrow> enc_ue_v malloc s6 (max_dec_frame_buffering vui);
          Some ((), s7) }"

definition EncodeVUI :: "malloc \<Rightarrow> AVCVUIParams \<Rightarrow> AVCEncBitstream \<Rightarrow> (unit \<times> AVCEncBitstream) option" where
  "EncodeVUI malloc vui s =
     do { (_, s1) \<leftarrow> put_flagged malloc (aspect_ratio_info_present_flag vui) (put_aspect_ratio malloc vui) s;
          (_, s2) \<leftarrow> put_flagged malloc (overscan_info_present_flag vui) (put_overscan malloc vui) s1;
          (_, s3) \<leftarrow> put_flagged malloc (video_signal_type_present_flag vui) (put_video_signal malloc vui) s2;
          (_, s4) \<leftarrow> put_flagged malloc (chroma_location_info_present_flag vui) (put_chroma_loc malloc vui) s3;
          (_, s5) \<leftarrow> put_flagged malloc (timing_info_present_flag vui) (put_timing malloc vui) s4;
          (_, s6) \<leftarrow> put_flagged malloc (nal_hrd_parameters_present_flag vui) (EncodeHRD malloc (nal_hrd_parameters vui)) s5;
          (_, s7) \<leftarrow> put_flagged malloc (vcl_hrd_parameters_present_flag vui) (EncodeHRD malloc (vcl_hrd_parameters vui)) s6;
          (_, s8) \<leftarrow> (if nal_hrd_parameters_present_flag vui \<or> vcl_hrd_parameters_present_flag vui
                      then BitstreamWrite1Bit malloc s7 (of_bool (low_delay_hrd_flag vui)) else Some (AVCENC_SUCCESS, s7));
          (_, s9) \<leftarrow> BitstreamWrite1Bit malloc s8 (of_bool (pic_struct_present_flag vui));
          put_flagged malloc (bitstream_restriction_flag vui) (put_restriction malloc vui) s9 }"

section \<open>Sequence parameter set\<close>

definition put_offset :: "malloc \<Rightarrow> AVCSeqParamSet \<Rightarrow> nat \<Rightarrow> AVCEncBitstream \<Rightarrow> (AVCEnc_Status \<times> AVCEncBitstream) option" where
  "put_offset malloc p i s = do { x \<leftarrow> nth_opt (offset_for_ref_frame p) (int i); enc_se_v malloc s x }"

definition put_order_cnt :: "malloc \<Rightarrow> AVCSeqParamSet \<Rightarrow> AVCEncBitstream \<Rightarrow> (AVCEnc_Status \<times> AVCEncBitstream) option" where
  "put_order_cnt malloc p s =
     (if pic_order_cnt_type p = 0 then enc_ue_v malloc s (word_of_int (log2_max_pic_order_cnt_lsb_minus4 p))
      else if pic_order_cnt_type p = 1 then
        do { (_, s1) \<leftarrow> BitstreamWrite1Bit malloc s (of_bool (delta_pic_order_always_zero_flag p));
             (_, s2) \<leftarrow> enc_se_v malloc s1 (offset_for_non_ref_pic p);
             (_, s3) \<leftarrow> enc_se_v malloc s2 (offset_for_top_to_bottom_field p);
             (st, s4) \<leftarrow> enc_ue_v malloc s3 (word_of_int (num_ref_frames_in_pic_order_cnt_cycle p));
             write_loop (put_offset malloc p) 0 (nat (c_int (num_ref_frames_in_pic_order_cnt_cycle p))) st s4 }
      else Some (AVCENC_SUCCESS, s))"

definition put_cropping :: "malloc \<Rightarrow> AVCSeqParamSet \<Rightarrow> AVCEncBitstream \<Rightarrow> (AVCEnc_Status \<times> AVCEncBitstream) option" where
  "put_cropping malloc p s =
     do { (_, s1) \<leftarrow> enc_ue_v malloc s (word_of_int (frame_crop_left_offset p));
          (_, s2) \<leftarrow> enc_ue_v malloc s1 (word_of_int (frame_crop_right_offset p));
          (_, s3) \<leftarrow> enc_ue_v malloc s2 (word_of_int (frame_crop_top_offset p));
          enc_ue_v malloc s3 (word_of_int (frame_crop_bottom_offset p)) }"

definition EncodeSPS :: "malloc \<Rightarrow> AVCSeqParamSet \<Rightarrow> AVCEncBitstream \<Rightarrow> (AVCEnc_Status \<times> AVCEncBitstream) option" where
  "EncodeSPS malloc p s =
     do { (_, s1) \<leftarrow> BitstreamWriteBits malloc s 8 (word_of_int (profile_idc p));
          (_, s2) \<leftarrow> BitstreamWrite1Bit malloc s1 (of_bool (constrained_set0_flag p));
          (_, s3) \<leftarrow> BitstreamWrite1Bit malloc s2 (of_bool (constrained_set1_flag p));
          (_, s4) \<leftarrow> BitstreamWrite1Bit malloc s3 (of_bool (constrained_set2_flag p));
          (_, s5) \<leftarrow> BitstreamWrite1Bit malloc s4 (of_bool (constrained_set3_flag p));
          (st, s6) \<leftarrow> BitstreamWriteBits malloc s5 4 0;
          if st \<noteq> AVCENC_SUCCESS then Some (st, s6)
          else
            do { (_, s7) \<leftarrow> BitstreamWriteBits malloc s6 8 (word_of_int (level_idc p));
                 (_, s8) \<leftarrow> enc_ue_v malloc s7 (word_of_int (seq_parameter_set_id p));
                 (_, s9) \<leftarrow> enc_ue_v malloc s8 (word_of_int (log2_max_frame_num_minus4 p));
                 (st, s10) \<leftarrow> enc_ue_v malloc s9 (word_of_int (pic_order_cnt_type p));
                 if st \<noteq> AVCENC_SUCCESS then Some (st, s10)
                 else
                   do { (st, s11) \<leftarrow> put_order_cnt malloc p s10;
                        if st \<noteq> AVCENC_SUCCESS then Some (st, s11)
                        else
                          do { (_, s12) \<leftarrow> enc_ue_v malloc s11 (word_of_int (num_ref_frames p));
                               (_, s13) \<leftarrow> BitstreamWrite1Bit malloc s12 (of_bool (gaps_in_frame_num_value_allowed_flag p));
                               (_, s14) \<leftarrow> enc_ue_v malloc s13 (word_of_int (pic_width_in_mbs_minus1 p));
                               (_, s15) \<leftarrow> enc_ue_v malloc s14 (word_of_int (pic_height_in_map_units_minus1 p));
                               (st, s16) \<leftarrow> BitstreamWrite1Bit malloc s15 (of_bool (frame_mbs_only_flag p));
                               if st \<noteq> AVCENC_SUCCESS then Some (st, s16)
                               else
                                 do { (_, s17) \<leftarrow> BitstreamWrite1Bit malloc s16 (of_bool (direct_8x8_inference_flag p));
                                      (st, s18) \<leftarrow> BitstreamWrite1Bit malloc s17 (of_bool (frame_cropping_flag p));
                                      (st, s19) \<leftarrow> (if frame_cropping_flag p then put_cropping malloc p s18 else Some (st, s18));
                                      if st \<noteq> AVCENC_SUCCESS then Some (st, s19)
                                      else
                                        do { (st, s20) \<leftarrow> BitstreamWrite1Bit malloc s19 (of_bool (vui_parameters_present_flag p));
                                             if vui_parameters_present_flag p then
                                               do { (_, s21) \<leftarrow> EncodeVUI malloc (vui_parameters p) s20; Some (st, s21) }
                                             else Some (st, s20) } } } } } }"

section \<open>Picture parameter set\<close>

definition put_uint :: "malloc \<Rightarrow> uint list \<Rightarrow> nat \<Rightarrow> AVCEncBitstream \<Rightarrow> (AVCEnc_Status \<times> AVCEncBitstream) option" where
  "put_uint malloc xs i s = do { x \<leftarrow> nth_opt xs (int i); enc_ue_v malloc s x }"

definition put_corners :: "malloc \<Rightarrow> AVCPicParamSet \<Rightarrow> nat \<Rightarrow> AVCEncBitstream \<Rightarrow> (AVCEnc_Status \<times> AVCEncBitstream) option" where
  "put_corners malloc p i s =
     do { (_, s1) \<leftarrow> put_uint malloc (top_left p) i s; put_uint malloc (bottom_right p) i s1 }"

definition put_group_id ::
  "malloc \<Rightarrow> AVCPicParamSet \<Rightarrow> nat \<Rightarrow> nat \<Rightarrow> AVCEncBitstream \<Rightarrow> (AVCEnc_Status \<times> AVCEncBitstream) option" where
  "put_group_id malloc p numBits i s =
     do { x \<leftarrow> nth_opt (slice_group_id p) (int i); BitstreamWriteBits malloc s (int numBits) x }"

definition put_groups :: "malloc \<Rightarrow> AVCPicParamSet \<Rightarrow> AVCEncBitstream \<Rightarrow> (AVCEnc_Status \<times> AVCEncBitstream) option" where
  "put_groups malloc p s =
     do { (st, s1) \<leftarrow> enc_ue_v malloc s (word_of_int (slice_group_map_type p));
          let n = nat (num_slice_groups_minus1 p);
          let ty = slice_group_map_type p;
          if ty = 0 then write_loop (put_uint malloc (run_length_minus1 p)) 0 (n + 1) st s1
          else if ty = 2 then write_loop (put_corners malloc p) 0 n st s1
          else if ty = 3 \<or> ty = 4 \<or> ty = 5 then
            do { (_, s2) \<leftarrow> BitstreamWrite1Bit malloc s1 (of_bool (slice_group_change_direction_flag p));
                 enc_ue_v malloc s2 (slice_group_change_rate_minus1 p) }
          else
            do { (st, s2) \<leftarrow> enc_ue_v malloc s1 (pic_size_in_map_units_minus1 p);
                 write_loop (put_group_id malloc p (count_bits n)) 0
                   (nat (c_int (uint (pic_size_in_map_units_minus1 p)) + 1)) st s2 } }"

definition EncodePPS :: "malloc \<Rightarrow> AVCPicParamSet \<Rightarrow> AVCEncBitstream \<Rightarrow> (AVCEnc_Status \<times> AVCEncBitstream) option" where
  "EncodePPS malloc p s =
     do { (_, s1) \<leftarrow> enc_ue_v malloc s (word_of_int (pic_parameter_set_id p));
          (_, s2) \<leftarrow> enc_ue_v malloc s1 (word_of_int (pps_seq_parameter_set_id p));
          (_, s3) \<leftarrow> BitstreamWrite1Bit malloc s2 (of_bool (entropy_coding_mode_flag p));
          (st, s4) \<leftarrow> BitstreamWrite1Bit malloc s3 (of_bool (pic_order_present_flag p));
          if st \<noteq> AVCENC_SUCCESS then Some (st, s4)
          else
            do { (st, s5) \<leftarrow> enc_ue_v malloc s4 (word_of_int (num_slice_groups_minus1 p));
                 (st, s6) \<leftarrow> (if num_slice_groups_minus1 p > 0 then put_groups malloc p s5 else Some (st, s5));
                 if st \<noteq> AVCENC_SUCCESS then Some (st, s6)
                 else
                   do { (_, s7) \<leftarrow> enc_ue_v malloc s6 (pps_num_ref_idx_l0_active_minus1 p);
                        (_, s8) \<leftarrow> enc_ue_v malloc s7 (pps_num_ref_idx_l1_active_minus1 p);
                        (_, s9) \<leftarrow> BitstreamWrite1Bit malloc s8 (of_bool (weighted_pred_flag p));
                        (st, s10) \<leftarrow> BitstreamWriteBits malloc s9 2 (weighted_bipred_idc p);
                        if st \<noteq> AVCENC_SUCCESS then Some (st, s10)
                        else
                          do { (_, s11) \<leftarrow> enc_se_v malloc s10 (pic_init_qp_minus26 p);
                               (_, s12) \<leftarrow> enc_se_v malloc s11 (pic_init_qs_minus26 p);
                               (_, s13) \<leftarrow> enc_se_v malloc s12 (chroma_qp_index_offset p);
                               let temp = push_bit 2 (of_bool (deblocking_filter_control_present_flag p))
                                 OR push_bit 1 (of_bool (constrained_intra_pred_flag p))
                                 OR of_bool (redundant_pic_cnt_present_flag p);
                               BitstreamWriteBits malloc s13 3 temp } } } }"

section \<open>Parameter sets as NAL units\<close>

text \<open>
  The cases of \<open>PVAVCEncodeNAL\<close> (\<open>enc/src/avcenc_api.cpp\<close>) that write a parameter set: the output buffer is set
  up, the byte of the NAL unit header written, the set encoded and the unit closed. The record holds what
  the state machine of the encoder looks at.
\<close>

datatype AVCEnc_State =
    AVCEnc_Initializing | AVCEnc_Encoding_SPS | AVCEnc_Encoding_PPS | AVCEnc_Analyzing_Frame
  | AVCEnc_WaitingForBuffer | AVCEnc_Encoding_Frame

record enc_control =
  enc_state :: AVCEnc_State
  outOfBandParamSet :: bool
  enc_currSeqParams :: AVCSeqParamSet
  enc_currPicParams :: AVCPicParamSet

definition write_nal ::
  "malloc \<Rightarrow> uint \<Rightarrow> (AVCEncBitstream \<Rightarrow> (AVCEnc_Status \<times> AVCEncBitstream) option) \<Rightarrow> addr \<Rightarrow> int \<Rightarrow> AVCEncBitstream
    \<Rightarrow> (AVCEnc_Status \<times> AVCEncBitstream) option" where
  "write_nal malloc header body buffer n s =
     (let (_, s0) = BitstreamEncInit s (Some buffer) n None 0
      in do { (_, s1) \<leftarrow> BitstreamWriteBits malloc s0 8 header;
              (st, s2) \<leftarrow> body s1;
              if st \<noteq> AVCENC_SUCCESS then Some (st, s2) else BitstreamTrailingBits malloc s2 })"

definition encode_SPS_nal ::
  "malloc \<Rightarrow> addr \<Rightarrow> int \<Rightarrow> enc_control \<Rightarrow> AVCEncBitstream \<Rightarrow> (AVCEnc_Status \<times> enc_control \<times> AVCEncBitstream) option" where
  "encode_SPS_nal malloc buffer n e s =
     do { (st, s1) \<leftarrow> write_nal malloc (push_bit 5 1 OR 7) (EncodeSPS malloc (enc_currSeqParams e)) buffer n s;
          Some (st, if st = AVCENC_SUCCESS
            then e\<lparr>enc_state := AVCEnc_Encoding_PPS,
              enc_currPicParams := (enc_currPicParams e)\<lparr>
                pps_seq_parameter_set_id := seq_parameter_set_id (enc_currSeqParams e),
                pic_parameter_set_id := c_uint (pic_parameter_set_id (enc_currPicParams e) + 1)\<rparr>\<rparr>
            else e, s1) }"

definition encode_PPS_nal ::
  "malloc \<Rightarrow> addr \<Rightarrow> int \<Rightarrow> enc_control \<Rightarrow> AVCEncBitstream \<Rightarrow> (AVCEnc_Status \<times> enc_control \<times> AVCEncBitstream) option" where
  "encode_PPS_nal malloc buffer n e s =
     do { (st, s1) \<leftarrow> write_nal malloc (push_bit 5 1 OR 8) (EncodePPS malloc (enc_currPicParams e)) buffer n s;
          Some (st, if st = AVCENC_SUCCESS
            then e\<lparr>enc_state := (if outOfBandParamSet e then AVCEnc_Analyzing_Frame else AVCEnc_Encoding_Frame)\<rparr>
            else e, s1) }"

end
