(* ===== verification/HeaderRoundtrip.thy ===== *)
theory HeaderRoundtrip
  imports DecHeader EncHeader
begin

text \<open>
  The parameter sets as lists of syntax elements: what the encoder writes is the list, and the decoder reads
  it back.
\<close>

lemma loop_count:
  assumes "unat (w :: uint) < 65535"
  shows "c_int (uint w) = int (unat w)" "nat (c_int (uint w) + 1) = unat w + 1"
proof -
  have "int (unat w) < 65535" using assms by linarith
  then have "uint w < 65535" "0 \<le> uint w" by simp_all
  then have "c_int (uint w) = uint w" by (intro c_int_id) linarith+
  then show c: "c_int (uint w) = int (unat w)" by simp
  show "nat (c_int (uint w) + 1) = unat w + 1" unfolding c by linarith
qed

section \<open>Hypothetical reference decoder parameters\<close>

abbreviation UW :: "uint \<Rightarrow> syntax_element" where
  "UW w \<equiv> UE (unat w)"

abbreviation UI :: "int \<Rightarrow> syntax_element" where
  "UI x \<equiv> UE (unat (word_of_int x :: uint))"

definition hrd_elems :: "AVCHRDParams \<Rightarrow> syntax_element list" where
  "hrd_elems h = [UW (cpb_cnt_minus1 h), U 4 (bit_rate_scale h), U 4 (cpb_size_scale h)]
     @ concat (map (\<lambda>i. [UW (bit_rate_value_minus1 h ! i), UW (cpb_size_value_minus1 h ! i), UW (cbr_flag h ! i)])
         [0..<0 + (unat (cpb_cnt_minus1 h) + 1)])
     @ [U 5 (initial_cpb_removal_delay_length_minus1 h), U 5 (cpb_removal_delay_length_minus1 h),
        U 5 (dpb_output_delay_length_minus1 h), U 5 (time_offset_length h)]"

definition hrd_ok :: "AVCHRDParams \<Rightarrow> bool" where
  "hrd_ok h \<longleftrightarrow> unat (cpb_cnt_minus1 h) < MAXIMUMVALUEOFcpb_cnt
     \<and> length (bit_rate_value_minus1 h) = MAXIMUMVALUEOFcpb_cnt \<and> length (cpb_size_value_minus1 h) = MAXIMUMVALUEOFcpb_cnt
     \<and> length (cbr_flag h) = MAXIMUMVALUEOFcpb_cnt
     \<and> (\<forall>x \<in> set (bit_rate_value_minus1 h @ cpb_size_value_minus1 h @ cbr_flag h). unat x < 65535)
     \<and> unat (bit_rate_scale h) < 16 \<and> unat (cpb_size_scale h) < 16
     \<and> unat (initial_cpb_removal_delay_length_minus1 h) < 32 \<and> unat (cpb_removal_delay_length_minus1 h) < 32
     \<and> unat (dpb_output_delay_length_minus1 h) < 32 \<and> unat (time_offset_length h) < 32"

lemma writes_hrd_entry:
  assumes "hrd_ok h" and "i < unat (cpb_cnt_minus1 h) + 1"
  shows "writes (put_hrd_entry malloc h i) ()
    [UW (bit_rate_value_minus1 h ! i), UW (cpb_size_value_minus1 h ! i), UW (cbr_flag h ! i)]"
proof -
  have i: "i < length (bit_rate_value_minus1 h)" "i < length (cpb_size_value_minus1 h)" "i < length (cbr_flag h)"
    using assms by (auto simp: hrd_ok_def)
  have "unat (bit_rate_value_minus1 h ! i) < 65535" "unat (cpb_size_value_minus1 h ! i) < 65535" "unat (cbr_flag h ! i) < 65535"
    using assms(1) i by (auto simp: hrd_ok_def)
  then show ?thesis unfolding put_hrd_entry_def using i
    by (simp, intro writes_intros writes_return)
qed

lemma writes_hrd:
  assumes "hrd_ok h"
  shows "writes (EncodeHRD malloc h) () (hrd_elems h)"
proof -
  have n: "nat (c_int (uint (cpb_cnt_minus1 h)) + 1) = unat (cpb_cnt_minus1 h) + 1"
    using assms by (intro loop_count(2)) (simp add: hrd_ok_def MAXIMUMVALUEOFcpb_cnt_def)
  have ok: "unat (cpb_cnt_minus1 h) < 65535" using assms by (simp add: hrd_ok_def MAXIMUMVALUEOFcpb_cnt_def)
  show ?thesis unfolding EncodeHRD_def hrd_elems_def n append.simps
    by (intro writes_intros writes_bind [OF writes_loop] writes_return writes_hrd_entry assms)
      (use assms ok in \<open>simp_all add: hrd_ok_def\<close>)
qed

lemma reads_hrd_entry:
  assumes "hrd_ok h" and "i < unat (cpb_cnt_minus1 h) + 1"
  shows "reads (hrd_entry i u) [UW (bit_rate_value_minus1 h ! i), UW (cpb_size_value_minus1 h ! i), UW (cbr_flag h ! i)] (\<lambda>_. True)"
proof -
  have i: "i < length (bit_rate_value_minus1 h)" "i < length (cpb_size_value_minus1 h)" "i < length (cbr_flag h)"
    using assms by (auto simp: hrd_ok_def)
  have "unat (bit_rate_value_minus1 h ! i) < 65535" "unat (cpb_size_value_minus1 h ! i) < 65535" "unat (cbr_flag h ! i) < 65535"
    using assms(1) i by (auto simp: hrd_ok_def)
  then show ?thesis unfolding hrd_entry_def by (intro reads_intros reads_return TrueI)
qed

text \<open>What the decoder keeps of an HRD structure.\<close>

definition hrd_kept :: "AVCHRDParams \<Rightarrow> AVCHRDParams \<Rightarrow> AVCHRDParams" where
  "hrd_kept g h = g\<lparr>cpb_cnt_minus1 := cpb_cnt_minus1 h, cpb_removal_delay_length_minus1 := cpb_removal_delay_length_minus1 h,
     dpb_output_delay_length_minus1 := dpb_output_delay_length_minus1 h, time_offset_length := time_offset_length h\<rparr>"

lemma reads_hrd:
  assumes "hrd_ok h"
  shows "reads (hrd_parameters g) (hrd_elems h) (\<lambda>x. x = hrd_kept g h)"
proof -
  have ok: "unat (cpb_cnt_minus1 h) < 65535" using assms by (simp add: hrd_ok_def MAXIMUMVALUEOFcpb_cnt_def)
  show ?thesis unfolding hrd_parameters_def hrd_elems_def append.simps
    by (intro reads_intros reads_bind [OF reads_loop [where I = "\<lambda>_ _. True"]] reads_hrd_entry reads_return)
      (use assms ok in \<open>simp_all add: hrd_ok_def hrd_kept_def\<close>)
qed

section \<open>Video usability information\<close>

definition opt_part :: "bool \<Rightarrow> syntax_element list \<Rightarrow> syntax_element list" where
  "opt_part b es = Flag b # (if b then es else [])"

abbreviation aspect_elems :: "AVCVUIParams \<Rightarrow> syntax_element list" where
  "aspect_elems u \<equiv> U 8 (aspect_ratio_idc u) # (if aspect_ratio_idc u = 255 then [U 16 (sar_width u), U 16 (sar_height u)] else [])"

abbreviation colour_elems :: "AVCVUIParams \<Rightarrow> syntax_element list" where
  "colour_elems u \<equiv> [U 8 (colour_primaries u), U 8 (transfer_characteristics u), U 8 (matrix_coefficients u)]"

abbreviation chroma_loc_elems :: "AVCVUIParams \<Rightarrow> syntax_element list" where
  "chroma_loc_elems u \<equiv> [UW (chroma_sample_loc_type_top_field u), UW (chroma_sample_loc_type_bottom_field u)]"

abbreviation signal_elems :: "AVCVUIParams \<Rightarrow> syntax_element list" where
  "signal_elems u \<equiv> U 3 (video_format u) # Flag (video_full_range_flag u)
     # (opt_part (colour_description_present_flag u) (colour_elems u) @ [])"

abbreviation restriction_elems :: "AVCVUIParams \<Rightarrow> syntax_element list" where
  "restriction_elems u \<equiv> [Flag (motion_vectors_over_pic_boundaries_flag u), UW (max_bytes_per_pic_denom u),
     UW (max_bits_per_mb_denom u), UW (log2_max_mv_length_horizontal u), UW (log2_max_mv_length_vertical u),
     UW (max_dec_frame_reordering u), UW (max_dec_frame_buffering u)]"

definition vui_elems :: "AVCVUIParams \<Rightarrow> syntax_element list" where
  "vui_elems u =
     opt_part (aspect_ratio_info_present_flag u) (aspect_elems u)
     @ opt_part (overscan_info_present_flag u) [Flag (overscan_appropriate_flag u)]
     @ opt_part (video_signal_type_present_flag u) (signal_elems u)
     @ opt_part (chroma_location_info_present_flag u) (chroma_loc_elems u)
     @ opt_part (timing_info_present_flag u) []
     @ opt_part (nal_hrd_parameters_present_flag u) (hrd_elems (nal_hrd_parameters u))
     @ opt_part (vcl_hrd_parameters_present_flag u) (hrd_elems (vcl_hrd_parameters u))
     @ (if nal_hrd_parameters_present_flag u \<or> vcl_hrd_parameters_present_flag u then [Flag (low_delay_hrd_flag u)] else [])
     @ Flag (pic_struct_present_flag u)
     # (opt_part (bitstream_restriction_flag u) (restriction_elems u) @ [])"

text \<open>The ranges; without the timing information, whose 32-bit numbers the decoder cannot read.\<close>

definition vui_ok :: "AVCVUIParams \<Rightarrow> bool" where
  "vui_ok u \<longleftrightarrow> unat (aspect_ratio_idc u) < 256 \<and> unat (sar_width u) < 65536 \<and> unat (sar_height u) < 65536
     \<and> unat (video_format u) < 8 \<and> unat (colour_primaries u) < 256 \<and> unat (transfer_characteristics u) < 256
     \<and> unat (matrix_coefficients u) < 256 \<and> unat (chroma_sample_loc_type_top_field u) < 65535
     \<and> unat (chroma_sample_loc_type_bottom_field u) < 65535 \<and> \<not> timing_info_present_flag u
     \<and> (nal_hrd_parameters_present_flag u \<longrightarrow> hrd_ok (nal_hrd_parameters u))
     \<and> (vcl_hrd_parameters_present_flag u \<longrightarrow> hrd_ok (vcl_hrd_parameters u))
     \<and> unat (max_bytes_per_pic_denom u) < 65535 \<and> unat (max_bits_per_mb_denom u) < 65535
     \<and> unat (log2_max_mv_length_horizontal u) < 65535 \<and> unat (log2_max_mv_length_vertical u) < 65535
     \<and> unat (max_dec_frame_reordering u) < 65535 \<and> unat (max_dec_frame_buffering u) < 65535"

lemma writes_opt:
  assumes "b \<Longrightarrow> writes w () as"
  shows "writes (put_flagged malloc b w) () (opt_part b as)"
  unfolding put_flagged_def opt_part_def by (intro writes_intros) (use assms in \<open>simp add: writes_return\<close>)

lemma reads_opt:
  assumes "b \<Longrightarrow> reads p as (\<lambda>_. True)"
  shows "reads (flagged p) (opt_part b as) (\<lambda>_. True)"
  unfolding flagged_def opt_part_def by (intro reads_intros) (use assms in \<open>simp add: reads_return\<close>)

lemma writes_vui_parts:
  assumes "vui_ok u"
  shows "writes (put_aspect_ratio malloc u) () (aspect_elems u)"
    and "writes (put_overscan malloc u) () [Flag (overscan_appropriate_flag u)]"
    and "writes (put_colour malloc u) () (colour_elems u)"
    and "writes (put_chroma_loc malloc u) () (chroma_loc_elems u)"
    and "writes (put_restriction malloc u) () (restriction_elems u)"
  unfolding put_aspect_ratio_def put_overscan_def put_colour_def put_chroma_loc_def put_restriction_def
  by (intro writes_intros writes_return; use assms in \<open>simp add: vui_ok_def\<close>; (intro impI conjI writes_intros writes_return)?; simp)+

lemma writes_video_signal:
  assumes "vui_ok u"
  shows "writes (put_video_signal malloc u) () (signal_elems u)"
  unfolding put_video_signal_def
  by (intro writes_intros writes_return writes_bind [OF writes_opt] writes_vui_parts [OF assms])
    (use assms in \<open>simp_all add: vui_ok_def\<close>)

lemma writes_low_delay: "writes (\<lambda>s. if b then BitstreamWrite1Bit malloc s (of_bool c) else Some (AVCENC_SUCCESS, s))
    AVCENC_SUCCESS (if b then [Flag c] else [])"
  by (cases b) (simp_all add: writes_return writes_intros)

lemma writes_vui:
  assumes "vui_ok u"
  shows "writes (EncodeVUI malloc u) () (vui_elems u)"
proof -
  have last: "writes (put_flagged malloc (bitstream_restriction_flag u) (put_restriction malloc u)) ()
      (opt_part (bitstream_restriction_flag u) (restriction_elems u) @ [])"
    using writes_opt [OF writes_vui_parts(5) [OF assms]] by simp
  show ?thesis unfolding EncodeVUI_def vui_elems_def
    by (intro writes_bind [OF writes_opt] writes_vui_parts [OF assms] writes_video_signal [OF assms] writes_hrd
        writes_bind [OF writes_low_delay] writes_intros last)
      (use assms in \<open>simp_all add: vui_ok_def\<close>)
qed

lemma reads_vui_parts:
  assumes "vui_ok u"
  shows "reads vui_aspect_ratio (aspect_elems u) (\<lambda>_. True)"
    and "reads vui_overscan [Flag (overscan_appropriate_flag u)] (\<lambda>_. True)"
    and "reads vui_colour (colour_elems u) (\<lambda>_. True)"
    and "reads vui_chroma_loc (chroma_loc_elems u) (\<lambda>_. True)"
    and "reads vui_restriction (restriction_elems u) (\<lambda>_. True)"
  unfolding vui_aspect_ratio_def vui_overscan_def vui_colour_def vui_chroma_loc_def vui_restriction_def
  by (intro reads_intros reads_return; use assms in \<open>simp add: vui_ok_def\<close>; (intro impI conjI reads_intros reads_return)?; simp)+

lemma reads_video_signal:
  assumes "vui_ok u"
  shows "reads vui_video_signal (signal_elems u) (\<lambda>_. True)"
  unfolding vui_video_signal_def
  by (intro reads_intros reads_return reads_bind [OF reads_opt] reads_vui_parts [OF assms])
    (use assms in \<open>simp_all add: vui_ok_def\<close>)

text \<open>What the decoder keeps of the VUI.\<close>

definition vui_kept :: "AVCVUIParams \<Rightarrow> AVCVUIParams \<Rightarrow> AVCVUIParams" where
  "vui_kept g u = g\<lparr>nal_hrd_parameters_present_flag := nal_hrd_parameters_present_flag u,
     nal_hrd_parameters := (if nal_hrd_parameters_present_flag u then hrd_kept (nal_hrd_parameters g) (nal_hrd_parameters u)
       else nal_hrd_parameters g),
     vcl_hrd_parameters_present_flag := vcl_hrd_parameters_present_flag u,
     vcl_hrd_parameters := (if vcl_hrd_parameters_present_flag u then hrd_kept (vcl_hrd_parameters g) (vcl_hrd_parameters u)
       else vcl_hrd_parameters g),
     pic_struct_present_flag := pic_struct_present_flag u\<rparr>"

lemma reads_opt_hrd:
  assumes "b \<Longrightarrow> hrd_ok h"
  shows "reads (opt_hrd g) (opt_part b (hrd_elems h)) (\<lambda>x. x = (b, if b then hrd_kept g h else g))"
proof (cases b)
  case True
  have "reads (hrd_parameters g) (hrd_elems h) (\<lambda>x. x = hrd_kept g h)" using True by (intro reads_hrd assms)
  then have "reads (\<lambda>s. Option.bind (hrd_parameters g s) (\<lambda>(h1, s2). Some ((True, h1), s2))) (hrd_elems h @ [])
      (\<lambda>x. x = (True, hrd_kept g h))"
    by (rule reads_bind) (simp add: reads_return)
  then show ?thesis unfolding opt_hrd_def opt_part_def using True by (intro reads_intros) simp
next
  case False
  then show ?thesis unfolding opt_hrd_def opt_part_def by (intro reads_intros) (simp add: reads_return)
qed

lemma reads_low_delay: "reads (\<lambda>s. if b then BitstreamRead1Bit s else Some (0, s)) (if b then [Flag c] else []) (\<lambda>_. True)"
proof (cases b)
  case True
  have "reads BitstreamRead1Bit [Flag c] (\<lambda>_. True)" using read1_consumes [of c] by (auto simp: reads_def)
  then show ?thesis using True by simp
qed (simp add: reads_return)

lemma reads_vui:
  assumes "vui_ok u"
  shows "reads (dec_vui_parameters g) (vui_elems u) (\<lambda>x. x = (AVCDEC_SUCCESS, vui_kept g u))"
  unfolding dec_vui_parameters_def vui_elems_def
  by (intro reads_bind [OF reads_opt] reads_vui_parts [OF assms] reads_video_signal [OF assms]
      reads_bind_pair [OF reads_opt_hrd] reads_bind [OF reads_low_delay] reads_intros reads_return)
    (use assms in \<open>simp_all add: vui_ok_def vui_kept_def\<close>)

section \<open>Sequence parameter set\<close>

abbreviation order_elems :: "AVCSeqParamSet \<Rightarrow> syntax_element list" where
  "order_elems p \<equiv>
     (if pic_order_cnt_type p = 0 then [UI (log2_max_pic_order_cnt_lsb_minus4 p)]
      else if pic_order_cnt_type p = 1 then
        Flag (delta_pic_order_always_zero_flag p) # SE (offset_for_non_ref_pic p) # SE (offset_for_top_to_bottom_field p)
        # UI (num_ref_frames_in_pic_order_cnt_cycle p)
        # concat (map (\<lambda>i. [SE (offset_for_ref_frame p ! i)]) [0..<0 + nat (num_ref_frames_in_pic_order_cnt_cycle p)])
      else [])"

abbreviation crop_elems :: "AVCSeqParamSet \<Rightarrow> syntax_element list" where
  "crop_elems p \<equiv> [UI (frame_crop_left_offset p), UI (frame_crop_right_offset p), UI (frame_crop_top_offset p),
     UI (frame_crop_bottom_offset p)]"

abbreviation frame_elems :: "AVCSeqParamSet \<Rightarrow> syntax_element list" where
  "frame_elems p \<equiv> Flag (gaps_in_frame_num_value_allowed_flag p) # UI (pic_width_in_mbs_minus1 p)
     # UI (pic_height_in_map_units_minus1 p) # Flag (frame_mbs_only_flag p) # Flag (direct_8x8_inference_flag p)
     # Flag (frame_cropping_flag p) # ((if frame_cropping_flag p then crop_elems p else [])
       @ Flag (vui_parameters_present_flag p) # (if vui_parameters_present_flag p then vui_elems (vui_parameters p) else []))"

definition sps_tail :: "AVCSeqParamSet \<Rightarrow> syntax_element list" where
  "sps_tail p = UI (log2_max_frame_num_minus4 p) # UI (pic_order_cnt_type p)
     # (order_elems p @ UI (num_ref_frames p) # frame_elems p)"

text \<open>The reserved bits, which the encoder writes as a flag and four zeros, are one element to the decoder.\<close>

definition sps_elems :: "syntax_element list \<Rightarrow> AVCSeqParamSet \<Rightarrow> syntax_element list" where
  "sps_elems reserved p = U 8 (word_of_int (profile_idc p)) # Flag (constrained_set0_flag p) # Flag (constrained_set1_flag p)
     # Flag (constrained_set2_flag p) # (reserved @ U 8 (word_of_int (level_idc p)) # UI (seq_parameter_set_id p) # sps_tail p)"

definition word_range :: "int \<Rightarrow> bool" where
  "word_range x \<longleftrightarrow> 0 \<le> x \<and> x < 65535"

definition sps_ok :: "AVCSeqParamSet \<Rightarrow> bool" where
  "sps_ok p \<longleftrightarrow> 0 \<le> profile_idc p \<and> profile_idc p < 256 \<and> 0 \<le> level_idc p \<and> level_idc p \<le> 51
     \<and> mapLev2Idx ! nat (level_idc p) \<noteq> 255 \<and> 0 \<le> seq_parameter_set_id p \<and> seq_parameter_set_id p \<le> 31
     \<and> 0 \<le> log2_max_frame_num_minus4 p \<and> log2_max_frame_num_minus4 p \<le> 12 \<and> word_range (pic_order_cnt_type p)
     \<and> word_range (log2_max_pic_order_cnt_lsb_minus4 p) \<and> \<bar>offset_for_non_ref_pic p\<bar> < 32768
     \<and> \<bar>offset_for_top_to_bottom_field p\<bar> < 32768
     \<and> 0 \<le> num_ref_frames_in_pic_order_cnt_cycle p \<and> num_ref_frames_in_pic_order_cnt_cycle p \<le> 255
     \<and> length (offset_for_ref_frame p) = 255 \<and> (\<forall>x \<in> set (offset_for_ref_frame p). \<bar>x\<bar> < 32768)
     \<and> 0 \<le> num_ref_frames p \<and> num_ref_frames p \<le> 16
     \<and> word_range (pic_width_in_mbs_minus1 p) \<and> word_range (pic_height_in_map_units_minus1 p) \<and> frame_mbs_only_flag p
     \<and> (frame_cropping_flag p \<longrightarrow> word_range (frame_crop_left_offset p) \<and> word_range (frame_crop_right_offset p)
          \<and> word_range (frame_crop_top_offset p) \<and> word_range (frame_crop_bottom_offset p))
     \<and> (vui_parameters_present_flag p \<longrightarrow> vui_ok (vui_parameters p))"

lemma word_range_simps [simp]:
  "word_range x \<Longrightarrow> uint (word_of_int x :: uint) = x" "word_range x \<Longrightarrow> unat (word_of_int x :: uint) < 65535"
  "word_range x \<Longrightarrow> c_int x = x"
  by (simp_all add: word_range_def uint_word_small unat_word_small nat_less_iff)

lemma word_less_of_int: "word_range x \<Longrightarrow> (c < (word_of_int x :: uint)) \<longleftrightarrow> uint c < x"
  by (simp add: word_less_def)

lemma word_rangeI: "0 \<le> x \<Longrightarrow> x \<le> 255 \<Longrightarrow> word_range x"
  by (simp add: word_range_def)

lemma sps_ok_ranges:
  assumes "sps_ok p"
  shows "word_range (seq_parameter_set_id p)" "word_range (log2_max_frame_num_minus4 p)" "word_range (pic_order_cnt_type p)"
    "word_range (log2_max_pic_order_cnt_lsb_minus4 p)" "word_range (num_ref_frames_in_pic_order_cnt_cycle p)"
    "word_range (num_ref_frames p)" "word_range (pic_width_in_mbs_minus1 p)" "word_range (pic_height_in_map_units_minus1 p)"
    "word_range (profile_idc p)" "word_range (level_idc p)"
    "unat (word_of_int (profile_idc p) :: uint) < 256" "unat (word_of_int (level_idc p) :: uint) < 256"
  using assms by (simp_all add: sps_ok_def word_range_def unat_word_small nat_less_iff)

text \<open>Writing.\<close>

lemma writes_offset:
  assumes "sps_ok p" and "i < nat (num_ref_frames_in_pic_order_cnt_cycle p)"
  shows "writes (put_offset malloc p i) AVCENC_SUCCESS [SE (offset_for_ref_frame p ! i)]"
proof -
  have "i < length (offset_for_ref_frame p)" using assms by (auto simp: sps_ok_def)
  moreover from this have "\<bar>offset_for_ref_frame p ! i\<bar> < 32768" using assms(1) by (simp add: sps_ok_def)
  ultimately show ?thesis unfolding put_offset_def by (simp add: writes_intros)
qed

lemma writes_order:
  assumes "sps_ok p"
  shows "writes (put_order_cnt malloc p) AVCENC_SUCCESS (order_elems p)"
proof -
  have t1: "writes (\<lambda>s. do { (_, s1) \<leftarrow> BitstreamWrite1Bit malloc s (of_bool (delta_pic_order_always_zero_flag p));
             (_, s2) \<leftarrow> enc_se_v malloc s1 (offset_for_non_ref_pic p);
             (_, s3) \<leftarrow> enc_se_v malloc s2 (offset_for_top_to_bottom_field p);
             (st, s4) \<leftarrow> enc_ue_v malloc s3 (word_of_int (num_ref_frames_in_pic_order_cnt_cycle p));
             write_loop (put_offset malloc p) 0 (nat (num_ref_frames_in_pic_order_cnt_cycle p)) st s4 }) AVCENC_SUCCESS
    (Flag (delta_pic_order_always_zero_flag p) # SE (offset_for_non_ref_pic p) # SE (offset_for_top_to_bottom_field p)
      # UI (num_ref_frames_in_pic_order_cnt_cycle p)
      # concat (map (\<lambda>i. [SE (offset_for_ref_frame p ! i)]) [0..<0 + nat (num_ref_frames_in_pic_order_cnt_cycle p)]))"
    by (intro writes_intros writes_loop writes_offset assms)
      (use assms sps_ok_ranges [OF assms] in \<open>simp_all add: sps_ok_def\<close>)
  show ?thesis
    using t1 sps_ok_ranges [OF assms] unfolding put_order_cnt_def
    by (simp add: writes_intros writes_return)
qed

lemma writes_crop:
  assumes "sps_ok p" and "frame_cropping_flag p"
  shows "writes (put_cropping malloc p) AVCENC_SUCCESS (crop_elems p)"
  unfolding put_cropping_def by (intro writes_intros) (use assms in \<open>simp_all add: sps_ok_def\<close>)

lemma writes_sps:
  assumes "sps_ok p"
  shows "writes (EncodeSPS malloc p) AVCENC_SUCCESS (sps_elems [Flag (constrained_set3_flag p), U 4 0] p)"
proof -
  note r = sps_ok_ranges [OF assms]
  have vui: "writes (\<lambda>s. if vui_parameters_present_flag p
        then do { (_, s1) \<leftarrow> EncodeVUI malloc (vui_parameters p) s; Some (AVCENC_SUCCESS, s1) } else Some (AVCENC_SUCCESS, s))
      AVCENC_SUCCESS (if vui_parameters_present_flag p then vui_elems (vui_parameters p) else [])"
  proof (rule writes_if)
    assume "vui_parameters_present_flag p"
    then have "vui_ok (vui_parameters p)" using assms by (simp add: sps_ok_def)
    from writes_bind [OF writes_vui [OF this, of malloc], of "\<lambda>_ s1. Some (AVCENC_SUCCESS, s1)"]
    show "writes (\<lambda>s. do { (_, s1) \<leftarrow> EncodeVUI malloc (vui_parameters p) s; Some (AVCENC_SUCCESS, s1) })
      AVCENC_SUCCESS (vui_elems (vui_parameters p))" using writes_return by force
  qed
  show ?thesis unfolding EncodeSPS_def sps_elems_def sps_tail_def append.simps
    by (intro writes_intros writes_bind [OF writes_order] writes_bind [OF writes_if [OF writes_crop]] assms vui)
      (use assms r in \<open>simp_all add: sps_ok_def\<close>)
qed

text \<open>Reading: what a set \<open>g\<close> holds after \<open>p\<close> has been read into it.\<close>

definition kept_order :: "AVCSeqParamSet \<Rightarrow> AVCSeqParamSet \<Rightarrow> AVCSeqParamSet" where
  "kept_order p g =
     (if pic_order_cnt_type p = 0 then g\<lparr>log2_max_pic_order_cnt_lsb_minus4 := log2_max_pic_order_cnt_lsb_minus4 p\<rparr>
      else if pic_order_cnt_type p = 1 then
        g\<lparr>delta_pic_order_always_zero_flag := delta_pic_order_always_zero_flag p,
          offset_for_non_ref_pic := offset_for_non_ref_pic p,
          offset_for_top_to_bottom_field := offset_for_top_to_bottom_field p,
          num_ref_frames_in_pic_order_cnt_cycle := num_ref_frames_in_pic_order_cnt_cycle p,
          offset_for_ref_frame := take (nat (num_ref_frames_in_pic_order_cnt_cycle p)) (offset_for_ref_frame p)
            @ drop (nat (num_ref_frames_in_pic_order_cnt_cycle p)) (offset_for_ref_frame g)\<rparr>
      else g)"

definition kept_frame :: "AVCSeqParamSet \<Rightarrow> AVCSeqParamSet \<Rightarrow> AVCSeqParamSet" where
  "kept_frame p g =
     (let crop = frame_cropping_flag p
      in g\<lparr>gaps_in_frame_num_value_allowed_flag := gaps_in_frame_num_value_allowed_flag p,
        pic_width_in_mbs_minus1 := pic_width_in_mbs_minus1 p, pic_height_in_map_units_minus1 := pic_height_in_map_units_minus1 p,
        frame_mbs_only_flag := True, mb_adaptive_frame_field_flag := False,
        direct_8x8_inference_flag := direct_8x8_inference_flag p, frame_cropping_flag := crop,
        frame_crop_left_offset := (if crop then frame_crop_left_offset p else 0),
        frame_crop_right_offset := (if crop then frame_crop_right_offset p else 0),
        frame_crop_top_offset := (if crop then frame_crop_top_offset p else 0),
        frame_crop_bottom_offset := (if crop then frame_crop_bottom_offset p else 0),
        vui_parameters_present_flag := vui_parameters_present_flag p,
        vui_parameters := (if vui_parameters_present_flag p then vui_kept (vui_parameters g) (vui_parameters p)
          else vui_parameters g)\<rparr>)"

definition sps_kept :: "AVCSeqParamSet \<Rightarrow> AVCSeqParamSet \<Rightarrow> AVCSeqParamSet" where
  "sps_kept p g = kept_frame p ((kept_order p (g\<lparr>profile_idc := profile_idc p, constrained_set0_flag := constrained_set0_flag p,
     constrained_set1_flag := constrained_set1_flag p, constrained_set2_flag := constrained_set2_flag p,
     level_idc := level_idc p, seq_parameter_set_id := seq_parameter_set_id p,
     log2_max_frame_num_minus4 := log2_max_frame_num_minus4 p,
     pic_order_cnt_type := pic_order_cnt_type p\<rparr>))\<lparr>num_ref_frames := num_ref_frames p\<rparr>)"

lemma take_update:
  assumes "j < length xs" and "j < length ys"
  shows "(take j xs @ drop j ys)[j := xs ! j] = take (Suc j) xs @ drop (Suc j) ys"
  using assms by (simp add: list_update_append take_Suc_conv_app_nth Cons_nth_drop_Suc [symmetric])

lemma reads_offset:
  assumes "sps_ok p" and "i < nat (num_ref_frames_in_pic_order_cnt_cycle p)" and "length ys = 255"
  shows "reads (offset_entry i (take i (offset_for_ref_frame p) @ drop i ys)) [SE (offset_for_ref_frame p ! i)]
    (\<lambda>x. x = take (Suc i) (offset_for_ref_frame p) @ drop (Suc i) ys)"
proof -
  have i: "i < length (offset_for_ref_frame p)" "i < length ys" using assms by (auto simp: sps_ok_def)
  moreover from this have "\<bar>offset_for_ref_frame p ! i\<bar> < 32768" using assms(1) by (simp add: sps_ok_def)
  ultimately show ?thesis unfolding offset_entry_def
    by (intro reads_intros) (simp_all add: take_update reads_return)
qed

lemma reads_order:
  assumes "sps_ok p" and "pic_order_cnt_type g = pic_order_cnt_type p" and "length (offset_for_ref_frame g) = 255"
  shows "reads (sps_order_cnt g) (order_elems p) (\<lambda>x. x = kept_order p g)"
proof -
  note r = sps_ok_ranges [OF assms(1)]
  let ?n = "nat (num_ref_frames_in_pic_order_cnt_cycle p)" and ?I = "\<lambda>j xs. xs = take j (offset_for_ref_frame p) @ drop j (offset_for_ref_frame g)"
  have loop: "reads (read_loop offset_entry 0 ?n (offset_for_ref_frame g))
      (concat (map (\<lambda>i. [SE (offset_for_ref_frame p ! i)]) [0..<0 + ?n])) (?I (0 + ?n))"
    by (rule reads_loop [where I = ?I]) (use assms reads_offset in auto)
  have n: "nat (c_int (uint (word_of_int (num_ref_frames_in_pic_order_cnt_cycle p) :: uint))) = ?n" using r by simp
  have loop': "reads (read_loop offset_entry 0 (nat (c_int (uint (word_of_int (num_ref_frames_in_pic_order_cnt_cycle p) :: uint))))
        (offset_for_ref_frame g)) (concat (map (\<lambda>i. [SE (offset_for_ref_frame p ! i)]) [0..<0 + ?n]))
      (\<lambda>x. x = take ?n (offset_for_ref_frame p) @ drop ?n (offset_for_ref_frame g))"
    using loop unfolding n by simp
  have t1: "reads (\<lambda>s. do { (b, s1) \<leftarrow> BitstreamRead1Bit s; (non_ref, s2) \<leftarrow> se_v32bit s1; (top_bottom, s3) \<leftarrow> se_v32bit s2;
       (n, s4) \<leftarrow> ue_v s3;
       (xs, s5) \<leftarrow> read_loop offset_entry 0 (nat (c_int (uint n))) (offset_for_ref_frame g) s4;
       Some (g\<lparr>delta_pic_order_always_zero_flag := b \<noteq> 0, offset_for_non_ref_pic := non_ref,
               offset_for_top_to_bottom_field := top_bottom, num_ref_frames_in_pic_order_cnt_cycle := uint n,
               offset_for_ref_frame := xs\<rparr>, s5) })
    (Flag (delta_pic_order_always_zero_flag p) # SE (offset_for_non_ref_pic p) # SE (offset_for_top_to_bottom_field p)
      # UI (num_ref_frames_in_pic_order_cnt_cycle p)
      # (concat (map (\<lambda>i. [SE (offset_for_ref_frame p ! i)]) [0..<0 + ?n]) @ []))
    (\<lambda>x. x = g\<lparr>delta_pic_order_always_zero_flag := delta_pic_order_always_zero_flag p,
          offset_for_non_ref_pic := offset_for_non_ref_pic p,
          offset_for_top_to_bottom_field := offset_for_top_to_bottom_field p,
          num_ref_frames_in_pic_order_cnt_cycle := num_ref_frames_in_pic_order_cnt_cycle p,
          offset_for_ref_frame := take ?n (offset_for_ref_frame p) @ drop ?n (offset_for_ref_frame g)\<rparr>)"
    by (intro reads_intros reads_bind [OF loop'] reads_return) (use assms(1) r in \<open>simp_all add: sps_ok_def\<close>)
  show ?thesis
  proof (cases "pic_order_cnt_type p = 1")
    case True
    then show ?thesis using t1 assms(2) unfolding sps_order_cnt_def by (simp add: kept_order_def)
  next
    case False
    then show ?thesis using assms(2) r unfolding sps_order_cnt_def by (auto simp: kept_order_def intro!: reads_intros reads_return)
  qed
qed

lemma reads_if:
  assumes "b \<Longrightarrow> reads p as P" and "\<not> b \<Longrightarrow> P x"
  shows "reads (\<lambda>s. if b then p s else Some (x, s)) (if b then as else []) P"
  using assms by (cases b) (simp_all add: reads_return)

lemma reads_crop:
  assumes "sps_ok p" and "frame_cropping_flag p"
  shows "reads sps_cropping (crop_elems p) (\<lambda>x. x = (frame_crop_left_offset p, frame_crop_right_offset p,
     frame_crop_top_offset p, frame_crop_bottom_offset p))"
  unfolding sps_cropping_def by (intro reads_intros reads_return) (use assms in \<open>simp_all add: sps_ok_def\<close>)

lemma reads_frame:
  assumes "sps_ok p"
  shows "reads (sps_frame g) (frame_elems p) (\<lambda>x. x = (AVCDEC_SUCCESS, kept_frame p g))"
proof -
  note r = sps_ok_ranges [OF assms]
  let ?c = "frame_cropping_flag p" and ?b = "of_bool (frame_cropping_flag p) :: uint"
  have crop: "reads (\<lambda>s. if ?b \<noteq> 0 then sps_cropping s else Some ((0, 0, 0, 0), s))
      (if ?c then crop_elems p else [])
      (\<lambda>x. x = (if ?c then frame_crop_left_offset p else 0, if ?c then frame_crop_right_offset p else 0,
         if ?c then frame_crop_top_offset p else 0, if ?c then frame_crop_bottom_offset p else 0))"
    using reads_crop [OF assms] by (cases ?c) (simp_all add: reads_return)
  have vui: "reads (\<lambda>s. do { ((st, v), s10) \<leftarrow> dec_vui_parameters u s;
        Some ((if st \<noteq> AVCDEC_SUCCESS then AVCDEC_FAIL else st, q\<lparr>vui_parameters := v\<rparr>), s10) })
      (vui_elems (vui_parameters p) @ []) (\<lambda>x. x = (AVCDEC_SUCCESS, q\<lparr>vui_parameters := vui_kept u (vui_parameters p)\<rparr>))"
    if "vui_parameters_present_flag p" for q u
    by (rule reads_bind_pair [OF reads_vui]) (use that assms in \<open>simp_all add: sps_ok_def reads_return\<close>)
  have only: "frame_mbs_only_flag p" using assms by (simp add: sps_ok_def)
  have adaptive: "reads (\<lambda>s. if (of_bool (frame_mbs_only_flag p) :: uint) = 0 then BitstreamRead1Bit s else Some (0, s)) [] (\<lambda>x. x = 0)"
    using only by (simp add: reads_return)
  show ?thesis
    unfolding sps_frame_def append.simps Let_def
    by (intro reads_intros reads_bind_none [OF adaptive] reads_bind_quad [OF crop])
      (use r vui in \<open>auto simp: kept_frame_def Let_def only intro!: reads_return\<close>)
qed

lemma length_kept_order: "length (offset_for_ref_frame g) = 255 \<Longrightarrow> sps_ok p \<Longrightarrow> length (offset_for_ref_frame (kept_order p g)) = 255"
  by (auto simp: kept_order_def sps_ok_def)

lemma reads_rest:
  assumes "sps_ok p" and "length (offset_for_ref_frame g) = 255"
  shows "reads (sps_rest g) (sps_tail p) (\<lambda>x. x = (AVCDEC_SUCCESS, kept_frame p ((kept_order p (g\<lparr>
     log2_max_frame_num_minus4 := log2_max_frame_num_minus4 p, pic_order_cnt_type := pic_order_cnt_type p\<rparr>))
       \<lparr>num_ref_frames := num_ref_frames p\<rparr>)))"
proof -
  note r = sps_ok_ranges [OF assms(1)]
  let ?g = "g\<lparr>log2_max_frame_num_minus4 := log2_max_frame_num_minus4 p, pic_order_cnt_type := pic_order_cnt_type p\<rparr>"
  have small: "\<not> (12 :: uint) < word_of_int (log2_max_frame_num_minus4 p)" "\<not> (16 :: uint) < word_of_int (num_ref_frames p)"
    using assms(1) r by (simp_all add: word_less_of_int sps_ok_def)
  let ?w = "\<lambda>f. uint (word_of_int (f p) :: uint)"
  have w: "?w log2_max_frame_num_minus4 = log2_max_frame_num_minus4 p" "?w pic_order_cnt_type = pic_order_cnt_type p"
      "?w num_ref_frames = num_ref_frames p"
    using r by simp_all
  have order: "reads (sps_order_cnt ((g\<lparr>log2_max_frame_num_minus4 := ?w log2_max_frame_num_minus4\<rparr>)
      \<lparr>pic_order_cnt_type := ?w pic_order_cnt_type\<rparr>)) (order_elems p) (\<lambda>x. x = kept_order p ?g)"
    unfolding w by (rule reads_order) (use assms in simp_all)
  have frame: "reads (sps_frame ((kept_order p ?g)\<lparr>num_ref_frames := ?w num_ref_frames\<rparr>)) (frame_elems p)
      (\<lambda>x. x = (AVCDEC_SUCCESS, kept_frame p ((kept_order p ?g)\<lparr>num_ref_frames := num_ref_frames p\<rparr>)))"
    unfolding w by (rule reads_frame [OF assms(1)])
  show ?thesis unfolding sps_rest_def sps_tail_def Let_def
    by (intro reads_intros reads_pass reads_bind_eq [OF order] small frame) (use r in simp_all)
qed

lemma reads_sps:
  assumes p: "sps_ok p" and id: "nat (seq_parameter_set_id p) < length (seqParams d)"
    and old: "(if seqParams d ! nat (seq_parameter_set_id p) = None then fresh else seqParams d ! nat (seq_parameter_set_id p)) = Some g"
    and g: "length (offset_for_ref_frame g) = 255"
  shows "reads (DecodeSPS fresh d) (sps_elems [U 5 (push_bit 4 (of_bool c))] p)
    (\<lambda>x. x = (AVCDEC_SUCCESS, d\<lparr>seqParams := (seqParams d)[nat (seq_parameter_set_id p) := Some (sps_kept p g)]\<rparr>))"
proof -
  note r = sps_ok_ranges [OF p]
  have lev: "\<not> (51 :: uint) < word_of_int (level_idc p)" "\<not> (31 :: uint) < word_of_int (seq_parameter_set_id p)"
    using p r by (simp_all add: word_less_of_int sps_ok_def)
  have idx: "nth_opt mapLev2Idx (uint (word_of_int (level_idc p) :: uint)) = Some (mapLev2Idx ! nat (level_idc p))"
      "\<not> mapLev2Idx ! nat (level_idc p) = 255"
    using p r by (simp_all add: sps_ok_def mapLev2Idx_def)
  have sid: "nth_opt (seqParams d) (uint (word_of_int (seq_parameter_set_id p) :: uint))
      = Some (seqParams d ! nat (seq_parameter_set_id p))" "unat (word_of_int (seq_parameter_set_id p) :: uint) = nat (seq_parameter_set_id p)"
    using p r id by (simp_all add: sps_ok_def unat_word_small)
  have c: "unat (push_bit 4 (of_bool c) :: uint) < 2 ^ 5" by (cases c) simp_all
  let ?g = "\<lambda>c0 c1 c2. g\<lparr>profile_idc := uint (word_of_int (profile_idc p) :: uint), constrained_set0_flag := c0,
    constrained_set1_flag := c1, constrained_set2_flag := c2, level_idc := uint (word_of_int (level_idc p) :: uint),
    seq_parameter_set_id := uint (word_of_int (seq_parameter_set_id p) :: uint)\<rparr>"
  have rest: "reads (sps_rest (?g ((of_bool (constrained_set0_flag p) :: uint) \<noteq> 0) ((of_bool (constrained_set1_flag p) :: uint) \<noteq> 0)
      ((of_bool (constrained_set2_flag p) :: uint) \<noteq> 0))) (sps_tail p) (\<lambda>x. x = (AVCDEC_SUCCESS, sps_kept p g))"
    using reads_rest [OF p, of "?g (constrained_set0_flag p) (constrained_set1_flag p) (constrained_set2_flag p)"] g r
    by (simp add: sps_kept_def)
  let ?u = "unat (word_of_int (seq_parameter_set_id p) :: uint)"
  from reads_bind_pair [OF rest, of "\<lambda>st q s8. Some ((st, d\<lparr>seqParams := (seqParams d)[?u := Some q]\<rparr>), s8)" "[]"]
  have last: "reads (\<lambda>s. Option.bind (sps_rest (?g ((of_bool (constrained_set0_flag p) :: uint) \<noteq> 0)
      ((of_bool (constrained_set1_flag p) :: uint) \<noteq> 0) ((of_bool (constrained_set2_flag p) :: uint) \<noteq> 0)) s)
      (\<lambda>((st, q), s8). Some ((st, d\<lparr>seqParams := (seqParams d)[?u := Some q]\<rparr>), s8))) (sps_tail p)
    (\<lambda>x. x = (AVCDEC_SUCCESS, d\<lparr>seqParams := (seqParams d)[nat (seq_parameter_set_id p) := Some (sps_kept p g)]\<rparr>))"
    unfolding sid(2) by (simp add: reads_return)
  show ?thesis unfolding DecodeSPS_def sps_elems_def append.simps
    by (intro reads_intros reads_pass lev reads_some [OF idx(1)] idx(2) reads_some [OF sid(1)] reads_case_some [OF old] last)
      (use r c in simp_all)
qed

lemma reserved_bits:
  "unit_bits (sps_elems [Flag c, U 4 0] p) = unit_bits (sps_elems [U 5 (push_bit 4 (of_bool c))] p)"
proof -
  have "c # nat_bits 4 (unat (0 :: uint)) = nat_bits 5 (unat (push_bit 4 (of_bool c) :: uint))"
  proof -
    have "True # nat_bits 4 0 = nat_bits 5 16" "False # nat_bits 4 0 = nat_bits 5 0" by code_simp+
    then show ?thesis by (cases c) simp_all
  qed
  then show ?thesis by (simp add: sps_elems_def)
qed

section \<open>Picture parameter set\<close>

abbreviation pps_n :: "AVCPicParamSet \<Rightarrow> nat" where
  "pps_n p \<equiv> nat (num_slice_groups_minus1 p)"

abbreviation run_elems :: "AVCPicParamSet \<Rightarrow> syntax_element list" where
  "run_elems p \<equiv> concat (map (\<lambda>i. [UW (run_length_minus1 p ! i)]) [0..<0 + (pps_n p + 1)])"

abbreviation corner_elems :: "AVCPicParamSet \<Rightarrow> syntax_element list" where
  "corner_elems p \<equiv> concat (map (\<lambda>i. [UW (top_left p ! i), UW (bottom_right p ! i)]) [0..<0 + pps_n p])"

abbreviation id_elems :: "AVCPicParamSet \<Rightarrow> syntax_element list" where
  "id_elems p \<equiv> concat (map (\<lambda>i. [U (count_bits (pps_n p)) (slice_group_id p ! i)])
     [0..<0 + (unat (pic_size_in_map_units_minus1 p) + 1)])"

definition group_elems :: "AVCPicParamSet \<Rightarrow> syntax_element list" where
  "group_elems p = UI (slice_group_map_type p) # (let ty = slice_group_map_type p in
     if ty = 0 then run_elems p else if ty = 2 then corner_elems p
     else if ty = 3 \<or> ty = 4 \<or> ty = 5 then [Flag (slice_group_change_direction_flag p), UW (slice_group_change_rate_minus1 p)]
     else UW (pic_size_in_map_units_minus1 p) # id_elems p)"

definition last_flags :: "AVCPicParamSet \<Rightarrow> uint" where
  "last_flags p = push_bit 2 (of_bool (deblocking_filter_control_present_flag p))
     OR push_bit 1 (of_bool (constrained_intra_pred_flag p)) OR of_bool (redundant_pic_cnt_present_flag p)"

definition pps_elems :: "AVCPicParamSet \<Rightarrow> syntax_element list" where
  "pps_elems p = UI (pic_parameter_set_id p) # UI (pps_seq_parameter_set_id p) # Flag (entropy_coding_mode_flag p)
     # Flag (pic_order_present_flag p) # UI (num_slice_groups_minus1 p)
     # ((if num_slice_groups_minus1 p > 0 then group_elems p else [])
        @ UW (pps_num_ref_idx_l0_active_minus1 p) # UW (pps_num_ref_idx_l1_active_minus1 p) # Flag (weighted_pred_flag p)
        # U 2 (weighted_bipred_idc p) # SE (pic_init_qp_minus26 p) # SE (pic_init_qs_minus26 p)
        # SE (chroma_qp_index_offset p) # [U 3 (last_flags p)])"

text \<open>
  The ranges. Type 1 of the slice group maps is excluded: the encoder writes the fields of type 6 for it,
  which the decoder does not read.
\<close>

definition pps_ok :: "AVCPicParamSet \<Rightarrow> bool" where
  "pps_ok p \<longleftrightarrow> 0 \<le> pic_parameter_set_id p \<and> pic_parameter_set_id p \<le> 255 \<and> 0 \<le> pps_seq_parameter_set_id p
     \<and> pps_seq_parameter_set_id p \<le> 31 \<and> \<not> entropy_coding_mode_flag p \<and> 0 \<le> num_slice_groups_minus1 p
     \<and> num_slice_groups_minus1 p \<le> 7 \<and> slice_group_map_type p \<in> {0, 2, 3, 4, 5, 6}
     \<and> length (run_length_minus1 p) = 8 \<and> length (top_left p) = 7 \<and> length (bottom_right p) = 7
     \<and> (\<forall>x \<in> set (run_length_minus1 p @ top_left p @ bottom_right p). unat x < 65535)
     \<and> unat (slice_group_change_rate_minus1 p) < 65535 \<and> unat (pic_size_in_map_units_minus1 p) < 65535
     \<and> (slice_group_map_type p = 6 \<longrightarrow> length (slice_group_id p) = unat (pic_size_in_map_units_minus1 p) + 1
          \<and> (\<forall>x \<in> set (slice_group_id p). unat x < 2 ^ count_bits (pps_n p)))
     \<and> unat (pps_num_ref_idx_l0_active_minus1 p) \<le> 31 \<and> unat (pps_num_ref_idx_l1_active_minus1 p) \<le> 31
     \<and> unat (weighted_bipred_idc p) \<le> 2 \<and> - 26 \<le> pic_init_qp_minus26 p \<and> pic_init_qp_minus26 p \<le> 25
     \<and> - 26 \<le> pic_init_qs_minus26 p \<and> pic_init_qs_minus26 p \<le> 25
     \<and> - 12 \<le> chroma_qp_index_offset p \<and> chroma_qp_index_offset p \<le> 12"

lemma pps_ranges:
  assumes "pps_ok p"
  shows "word_range (pic_parameter_set_id p)" "word_range (pps_seq_parameter_set_id p)" "word_range (num_slice_groups_minus1 p)"
    "word_range (slice_group_map_type p)" "unat (pps_num_ref_idx_l0_active_minus1 p) < 65535"
    "unat (pps_num_ref_idx_l1_active_minus1 p) < 65535" "unat (weighted_bipred_idc p) < 4"
    "unat (slice_group_change_rate_minus1 p) < 65535" "unat (pic_size_in_map_units_minus1 p) < 65535"
    "\<bar>pic_init_qp_minus26 p\<bar> < 32768" "\<bar>pic_init_qs_minus26 p\<bar> < 32768" "\<bar>chroma_qp_index_offset p\<bar> < 32768"
proof -
  have "slice_group_map_type p \<in> {0, 2, 3, 4, 5, 6}" using assms by (simp add: pps_ok_def)
  then show "word_range (slice_group_map_type p)" by (auto simp: word_range_def)
qed (use assms in \<open>simp_all add: pps_ok_def word_range_def abs_less_iff\<close>)

lemma last_flags_less: "unat (last_flags p) < 8"
  by (cases "deblocking_filter_control_present_flag p"; cases "constrained_intra_pred_flag p"; cases "redundant_pic_cnt_present_flag p")
    (simp_all add: last_flags_def)

lemma count_bits_bounds: "0 < n \<Longrightarrow> n \<le> 7 \<Longrightarrow> 1 \<le> count_bits n \<and> count_bits n \<le> 3"
  using bit_length_pos [of n] bit_length_le [of n 3] by (simp add: count_bits_length)

lemma pps_groups_le: "pps_ok p \<Longrightarrow> pps_n p \<le> 7"
  by (simp add: pps_ok_def nat_le_iff)

lemma pps_entries:
  assumes "pps_ok p"
  shows "i < pps_n p + 1 \<Longrightarrow> i < length (run_length_minus1 p) \<and> unat (run_length_minus1 p ! i) < 65535"
    "i < pps_n p \<Longrightarrow> i < length (top_left p) \<and> unat (top_left p ! i) < 65535"
    "i < pps_n p \<Longrightarrow> i < length (bottom_right p) \<and> unat (bottom_right p ! i) < 65535"
    "slice_group_map_type p = 6 \<Longrightarrow> i < unat (pic_size_in_map_units_minus1 p) + 1 \<Longrightarrow>
       i < length (slice_group_id p) \<and> unat (slice_group_id p ! i) < 2 ^ count_bits (pps_n p)"
proof -
  have len: "length (run_length_minus1 p) = 8" "length (top_left p) = 7" "length (bottom_right p) = 7"
    and small: "\<forall>x \<in> set (run_length_minus1 p @ top_left p @ bottom_right p). unat x < 65535"
    and ids: "slice_group_map_type p = 6 \<Longrightarrow> length (slice_group_id p) = unat (pic_size_in_map_units_minus1 p) + 1"
      "slice_group_map_type p = 6 \<Longrightarrow> \<forall>x \<in> set (slice_group_id p). unat x < 2 ^ count_bits (pps_n p)"
    using assms by (simp_all add: pps_ok_def)
  show "i < pps_n p + 1 \<Longrightarrow> i < length (run_length_minus1 p) \<and> unat (run_length_minus1 p ! i) < 65535"
    "i < pps_n p \<Longrightarrow> i < length (top_left p) \<and> unat (top_left p ! i) < 65535"
    "i < pps_n p \<Longrightarrow> i < length (bottom_right p) \<and> unat (bottom_right p ! i) < 65535"
    using len small pps_groups_le [OF assms] by simp_all
  assume ty: "slice_group_map_type p = 6" and i: "i < unat (pic_size_in_map_units_minus1 p) + 1"
  have "i < length (slice_group_id p)" using ids(1) [OF ty] i by linarith
  then show "i < length (slice_group_id p) \<and> unat (slice_group_id p ! i) < 2 ^ count_bits (pps_n p)"
    using ids(2) [OF ty] nth_mem by blast
qed

lemma writes_put_uint:
  assumes "i < length xs \<and> unat (xs ! i) < 65535"
  shows "writes (put_uint malloc xs i) AVCENC_SUCCESS [UW (xs ! i)]"
  using assms unfolding put_uint_def by (simp add: writes_intros)

lemma writes_groups:
  assumes "pps_ok p" and "num_slice_groups_minus1 p > 0"
  shows "writes (put_groups malloc p) AVCENC_SUCCESS (group_elems p)"
proof -
  note r = pps_ranges [OF assms(1)] and e = pps_entries [OF assms(1)]
  have n: "1 \<le> count_bits (pps_n p)" "count_bits (pps_n p) \<le> 31"
    using count_bits_bounds [of "pps_n p"] assms(2) pps_groups_le [OF assms(1)] by linarith+
  have corners: "writes (put_corners malloc p i) AVCENC_SUCCESS [UW (top_left p ! i), UW (bottom_right p ! i)]" if "i < pps_n p" for i
    using writes_bind [OF writes_put_uint [OF e(2) [OF that], of malloc], of "\<lambda>_. put_uint malloc (bottom_right p) i"]
      writes_put_uint [OF e(3) [OF that], of malloc] unfolding put_corners_def by fastforce
  have ids: "writes (put_group_id malloc p (count_bits (pps_n p)) i) AVCENC_SUCCESS [U (count_bits (pps_n p)) (slice_group_id p ! i)]"
    if "slice_group_map_type p = 6" "i < unat (pic_size_in_map_units_minus1 p) + 1" for i
    unfolding put_group_id_def using e(4) [OF that] n by (simp add: writes_intros)
  have ty: "slice_group_map_type p \<in> {0, 2, 3, 4, 5, 6}" using assms(1) by (simp add: pps_ok_def)
  have loops: "writes (write_loop (put_uint malloc (run_length_minus1 p)) 0 (pps_n p + 1) AVCENC_SUCCESS) AVCENC_SUCCESS (run_elems p)"
    "writes (write_loop (put_corners malloc p) 0 (pps_n p) AVCENC_SUCCESS) AVCENC_SUCCESS (corner_elems p)"
    "slice_group_map_type p = 6 \<Longrightarrow> writes (write_loop (put_group_id malloc p (count_bits (pps_n p))) 0
       (nat (c_int (uint (pic_size_in_map_units_minus1 p)) + 1)) AVCENC_SUCCESS) AVCENC_SUCCESS (id_elems p)"
    unfolding loop_count(2) [OF r(9)] by (intro writes_loop writes_put_uint e(1) corners ids; simp)+
  show ?thesis unfolding put_groups_def group_elems_def Let_def
  proof (rule writes_intros)
    show "unat (word_of_int (slice_group_map_type p) :: uint) < 65535" using r by simp
    from ty consider "slice_group_map_type p = 0" | "slice_group_map_type p = 2"
      | "slice_group_map_type p = 3" | "slice_group_map_type p = 4" | "slice_group_map_type p = 5" | "slice_group_map_type p = 6" by auto
    then show "writes (\<lambda>t. if slice_group_map_type p = 0
           then write_loop (put_uint malloc (run_length_minus1 p)) 0 (pps_n p + 1) AVCENC_SUCCESS t
           else if slice_group_map_type p = 2 then write_loop (put_corners malloc p) 0 (pps_n p) AVCENC_SUCCESS t
           else if slice_group_map_type p = 3 \<or> slice_group_map_type p = 4 \<or> slice_group_map_type p = 5
           then do { (_, s2) \<leftarrow> BitstreamWrite1Bit malloc t (of_bool (slice_group_change_direction_flag p));
                     enc_ue_v malloc s2 (slice_group_change_rate_minus1 p) }
           else do { (st, s2) \<leftarrow> enc_ue_v malloc t (pic_size_in_map_units_minus1 p);
                     write_loop (put_group_id malloc p (count_bits (pps_n p))) 0
                       (nat (c_int (uint (pic_size_in_map_units_minus1 p)) + 1)) st s2 }) AVCENC_SUCCESS
        (if slice_group_map_type p = 0 then run_elems p else if slice_group_map_type p = 2 then corner_elems p
         else if slice_group_map_type p = 3 \<or> slice_group_map_type p = 4 \<or> slice_group_map_type p = 5
         then [Flag (slice_group_change_direction_flag p), UW (slice_group_change_rate_minus1 p)]
         else UW (pic_size_in_map_units_minus1 p) # id_elems p)"
      by cases (use r loops in \<open>simp_all only: simp_thms if_True if_False writes_intros numeral_eq_iff num.simps zero_neq_numeral numeral_neq_zero refl not_False_eq_True\<close>)
  qed
qed

lemma writes_pps:
  assumes "pps_ok p"
  shows "writes (EncodePPS malloc p) AVCENC_SUCCESS (pps_elems p)"
  unfolding EncodePPS_def pps_elems_def Let_def last_flags_def [symmetric]
  by (intro writes_intros writes_bind [OF writes_if [OF writes_groups]] assms)
    (use pps_ranges [OF assms] last_flags_less [of p] in simp_all)

text \<open>Reading.\<close>

definition kept_groups :: "AVCPicParamSet \<Rightarrow> AVCPicParamSet \<Rightarrow> AVCPicParamSet" where
  "kept_groups p g0 =
     (let g = g0\<lparr>slice_group_change_rate_minus1 := 0\<rparr>; n = pps_n p; ty = slice_group_map_type p;
          g1 = g\<lparr>slice_group_map_type := ty\<rparr>
      in if n = 0 then g
         else if ty = 0 then g1\<lparr>run_length_minus1 := take (n + 1) (run_length_minus1 p) @ drop (n + 1) (run_length_minus1 g)\<rparr>
         else if ty = 2 then g1\<lparr>top_left := take n (top_left p) @ drop n (top_left g),
           bottom_right := take n (bottom_right p) @ drop n (bottom_right g)\<rparr>
         else if ty = 6 then g1\<lparr>pic_size_in_map_units_minus1 := pic_size_in_map_units_minus1 p, slice_group_id := slice_group_id p\<rparr>
         else g1\<lparr>slice_group_change_direction_flag := slice_group_change_direction_flag p,
           slice_group_change_rate_minus1 := slice_group_change_rate_minus1 p\<rparr>)"

definition pps_kept :: "AVCPicParamSet \<Rightarrow> AVCPicParamSet \<Rightarrow> AVCPicParamSet" where
  "pps_kept p g = (kept_groups p (g\<lparr>pps_seq_parameter_set_id := pps_seq_parameter_set_id p,
       pic_parameter_set_id := pic_parameter_set_id p, entropy_coding_mode_flag := False,
       pic_order_present_flag := pic_order_present_flag p, num_slice_groups_minus1 := num_slice_groups_minus1 p\<rparr>))
     \<lparr>pps_num_ref_idx_l0_active_minus1 := pps_num_ref_idx_l0_active_minus1 p,
      pps_num_ref_idx_l1_active_minus1 := pps_num_ref_idx_l1_active_minus1 p, weighted_pred_flag := weighted_pred_flag p,
      weighted_bipred_idc := weighted_bipred_idc p, pic_init_qp_minus26 := pic_init_qp_minus26 p,
      pic_init_qs_minus26 := pic_init_qs_minus26 p, chroma_qp_index_offset := chroma_qp_index_offset p,
      deblocking_filter_control_present_flag := deblocking_filter_control_present_flag p,
      constrained_intra_pred_flag := constrained_intra_pred_flag p,
      redundant_pic_cnt_present_flag := redundant_pic_cnt_present_flag p\<rparr>"

lemma reads_ue_entry:
  assumes "i < length xs \<and> unat (xs ! i) < 65535" and "i < length ys"
  shows "reads (ue_entry i (take i xs @ drop i ys)) [UW (xs ! i)] (\<lambda>x. x = take (Suc i) xs @ drop (Suc i) ys)"
  using assms unfolding ue_entry_def by (intro reads_intros) (simp_all add: take_update reads_return)

lemma reads_corner_entry:
  assumes "i < length xs \<and> unat (xs ! i) < 65535" "i < length ys \<and> unat (ys ! i) < 65535" and "i < length us" "i < length vs"
  shows "reads (corner_entry i (take i xs @ drop i us, take i ys @ drop i vs)) [UW (xs ! i), UW (ys ! i)]
    (\<lambda>x. x = (take (Suc i) xs @ drop (Suc i) us, take (Suc i) ys @ drop (Suc i) vs))"
  using assms unfolding corner_entry_def
  by (intro reads_intros reads_some [OF set_opt_Some]) (simp_all add: take_update reads_return reads_UE)

lemma reads_group_id_entry:
  assumes "i < length xs \<and> unat (xs ! i) < 2 ^ k" and "1 \<le> k" "k \<le> 31" and "i < length ys"
  shows "reads (group_id_entry k i (take i xs @ drop i ys)) [U k (xs ! i)] (\<lambda>x. x = take (Suc i) xs @ drop (Suc i) ys)"
  using assms unfolding group_id_entry_def by (intro reads_intros) (simp_all add: take_update reads_return)

text \<open>What the decoder needs of its state for a set \<open>p\<close> to be taken into \<open>g\<close>.\<close>

definition pps_fits :: "(nat \<Rightarrow> uint list option) \<Rightarrow> AVCDecObject \<Rightarrow> AVCPicParamSet \<Rightarrow> AVCPicParamSet \<Rightarrow> bool" where
  "pps_fits malloc_ids d p g \<longleftrightarrow> length (run_length_minus1 g) = 8 \<and> length (top_left g) = 7 \<and> length (bottom_right g) = 7
     \<and> (num_slice_groups_minus1 p > 0 \<and> slice_group_map_type p = 6 \<longrightarrow>
          nat (pps_seq_parameter_set_id p) < length (seqParams d)
          \<and> (\<exists>sps block. seqParams d ! nat (pps_seq_parameter_set_id p) = Some sps
               \<and> (pic_width_in_mbs_minus1 sps + 1) * (pic_height_in_map_units_minus1 sps + 1)
                   = int (unat (pic_size_in_map_units_minus1 p)) + 1
               \<and> malloc_ids (unat (pic_size_in_map_units_minus1 p) + 1) = Some block
               \<and> length block = unat (pic_size_in_map_units_minus1 p) + 1))"

lemma reads_ids:
  assumes p: "pps_ok p" and fits: "pps_fits malloc_ids d p g" and n: "num_slice_groups_minus1 p > 0" "slice_group_map_type p = 6"
    and g: "num_slice_groups_minus1 g = num_slice_groups_minus1 p" "pps_seq_parameter_set_id g = pps_seq_parameter_set_id p"
  shows "reads (pps_group_ids malloc_ids d g) (UW (pic_size_in_map_units_minus1 p) # id_elems p)
    (\<lambda>x. x = (AVCDEC_SUCCESS, g\<lparr>pic_size_in_map_units_minus1 := pic_size_in_map_units_minus1 p, slice_group_id := slice_group_id p\<rparr>))"
proof -
  note r = pps_ranges [OF p]
  let ?s = "unat (pic_size_in_map_units_minus1 p)"
  obtain sps block where sps: "nat (pps_seq_parameter_set_id p) < length (seqParams d)"
      "seqParams d ! nat (pps_seq_parameter_set_id p) = Some sps"
      "(pic_width_in_mbs_minus1 sps + 1) * (pic_height_in_map_units_minus1 sps + 1) = int ?s + 1"
      "malloc_ids (?s + 1) = Some block" "length block = ?s + 1"
    using fits n by (auto simp: pps_fits_def)
  have k: "1 \<le> count_bits (pps_n p)" "count_bits (pps_n p) \<le> 31"
    using count_bits_bounds [of "pps_n p"] n(1) pps_groups_le [OF p] by linarith+
  have len: "length (slice_group_id p) = ?s + 1" using p n(2) by (simp add: pps_ok_def)
  let ?I = "\<lambda>i xs. xs = take i (slice_group_id p) @ drop i block"
  have "reads (read_loop (group_id_entry (count_bits (pps_n p))) 0 (?s + 1) block) (id_elems p) (?I (0 + (?s + 1)))"
    by (rule reads_loop [where I = ?I]) (use pps_entries(4) [OF p n(2)] k sps(5) in \<open>auto intro!: reads_group_id_entry\<close>)
  then have loop: "reads (read_loop (group_id_entry (count_bits (pps_n p))) 0 (?s + 1) block) (id_elems p) (\<lambda>x. x = slice_group_id p)"
    using len sps(5) by simp
  have sid: "nth_opt (seqParams d) (pps_seq_parameter_set_id p) = Some (Some sps)"
    using sps(1,2) p by (simp add: pps_ok_def)
  have size: "nat (int ?s + 1) = ?s + 1" "\<not> c_int (uint (pic_size_in_map_units_minus1 p)) \<noteq> int ?s + 1 - 1"
    using loop_count(1) [OF r(9)] by (linarith, simp)
  show ?thesis unfolding pps_group_ids_def Let_def g
    by (intro reads_intros r reads_some [OF sid]; simp only: option.case sps(3) size(1) sps(4) if_not_P [OF size(2)];
        rule reads_bind_eq [OF loop, where bs = "[]", unfolded append_Nil2]; simp add: reads_return)
qed

lemma reads_groups:
  assumes p: "pps_ok p" and fits: "pps_fits malloc_ids d p g"
    and g: "num_slice_groups_minus1 g = num_slice_groups_minus1 p" "pps_seq_parameter_set_id g = pps_seq_parameter_set_id p"
  shows "reads (pps_groups malloc_ids d g) (if num_slice_groups_minus1 p > 0 then group_elems p else [])
    (\<lambda>x. x = (AVCDEC_SUCCESS, kept_groups p g))"
proof (cases "num_slice_groups_minus1 p > 0")
  case False
  then show ?thesis unfolding pps_groups_def Let_def by (simp add: g kept_groups_def Let_def reads_return)
next
  case True
  note r = pps_ranges [OF p] and e = pps_entries [OF p]
  let ?n = "pps_n p" and ?g = "g\<lparr>slice_group_change_rate_minus1 := 0, slice_group_map_type := slice_group_map_type p\<rparr>"
  have len: "length (run_length_minus1 g) = 8" "length (top_left g) = 7" "length (bottom_right g) = 7" "?n \<le> 7"
    using fits pps_groups_le [OF p] by (simp_all add: pps_fits_def)
  let ?R = "\<lambda>i xs. xs = take i (run_length_minus1 p) @ drop i (run_length_minus1 g)"
  have runs: "reads (read_loop ue_entry 0 (?n + 1) xs) (run_elems p) (?R (0 + (?n + 1)))" if "xs = run_length_minus1 g" for xs
    unfolding that by (rule reads_loop [where I = ?R]) (use e(1) len in \<open>auto intro!: reads_ue_entry\<close>)
  let ?C = "\<lambda>i xy. xy = (take i (top_left p) @ drop i (top_left g), take i (bottom_right p) @ drop i (bottom_right g))"
  have corners: "reads (read_loop corner_entry 0 ?n (xs, ys)) (corner_elems p) (?C (0 + ?n))"
    if "xs = top_left g" "ys = bottom_right g" for xs ys
    unfolding that by (rule reads_loop [where I = ?C]) (use e(2,3) len in \<open>auto intro!: reads_corner_entry\<close>)
  have ids: "slice_group_map_type p = 6 \<Longrightarrow> reads (pps_group_ids malloc_ids d ?g) (UW (pic_size_in_map_units_minus1 p) # id_elems p)
    (\<lambda>x. x = (AVCDEC_SUCCESS, ?g\<lparr>pic_size_in_map_units_minus1 := pic_size_in_map_units_minus1 p, slice_group_id := slice_group_id p\<rparr>))"
    by (rule reads_ids [OF p _ True]) (use fits g in \<open>simp_all add: pps_fits_def\<close>)
  have n: "?n > 0" "\<not> num_slice_groups_minus1 p \<le> 0" using True by simp_all
  have n': "nat (num_slice_groups_minus1 (g\<lparr>slice_group_change_rate_minus1 := 0\<rparr>)) = ?n" using g by simp
  note body = pps_groups_def group_elems_def Let_def if_P [OF n(1)] n'
  have "slice_group_map_type p \<in> {0, 2, 3, 4, 5, 6}" using p by (simp add: pps_ok_def)
  then consider "slice_group_map_type p = 0" | "slice_group_map_type p = 2" | "slice_group_map_type p = 3"
    | "slice_group_map_type p = 4" | "slice_group_map_type p = 5" | "slice_group_map_type p = 6" by auto
  then have "reads (pps_groups malloc_ids d g) (group_elems p) (\<lambda>x. x = (AVCDEC_SUCCESS, kept_groups p g))"
  proof cases
    case 1
    note runs' = reads_bind_eq [OF runs, where bs = "[]", unfolded append_Nil2]
    show ?thesis unfolding body
      by (rule reads_UE; simp only: 1 word_of_int_0 unsigned_0 if_True simp_thms; (rule runs')?; simp add: kept_groups_def n(2) 1 Let_def reads_return)
  next
    case 2
    note corners' = reads_bind_pair [OF corners, where bs = "[]", unfolded append_Nil2]
    have w: "\<not> (2 :: uint) = 0" "\<not> (2 :: int) = 0" by simp_all
    show ?thesis unfolding body
      by (rule reads_UE; simp only: 2 word_of_int_numeral w if_True if_False simp_thms; (rule corners')?;
          simp add: kept_groups_def n(2) 2 Let_def reads_return)
  next
    case 6
    show ?thesis unfolding body
      by (rule reads_UE) (use ids [OF 6] n(2) in \<open>simp_all add: 6 kept_groups_def Let_def\<close>)
  qed (unfold body, rule reads_UE; simp; intro reads_intros reads_return; use r n(2) in \<open>simp add: kept_groups_def Let_def\<close>)+
  then show ?thesis using True by simp
qed

lemma reads_pps_refs:
  assumes "pps_ok p"
  shows "reads (pps_refs g) [UW (pps_num_ref_idx_l0_active_minus1 p), UW (pps_num_ref_idx_l1_active_minus1 p),
      Flag (weighted_pred_flag p), U 2 (weighted_bipred_idc p)]
    (\<lambda>(st, x). st = AVCDEC_SUCCESS \<and> x = g\<lparr>pps_num_ref_idx_l0_active_minus1 := pps_num_ref_idx_l0_active_minus1 p,
      pps_num_ref_idx_l1_active_minus1 := pps_num_ref_idx_l1_active_minus1 p, weighted_pred_flag := weighted_pred_flag p,
      weighted_bipred_idc := weighted_bipred_idc p\<rparr>)"
proof -
  note r = pps_ranges [OF assms]
  have "\<not> pps_num_ref_idx_l0_active_minus1 p > 31" "\<not> pps_num_ref_idx_l1_active_minus1 p > 31" "\<not> weighted_bipred_idc p > 2"
    using assms by (simp_all add: pps_ok_def word_less_nat_alt)
  then show ?thesis unfolding pps_refs_def Let_def
    by (intro reads_intros reads_pass reads_return) (use r in simp_all)
qed

lemma last_flags_bits:
  "drop_bit 2 (last_flags p) \<noteq> 0 \<longleftrightarrow> deblocking_filter_control_present_flag p"
  "drop_bit 1 (last_flags p) AND 1 \<noteq> 0 \<longleftrightarrow> constrained_intra_pred_flag p"
  "last_flags p AND 1 \<noteq> 0 \<longleftrightarrow> redundant_pic_cnt_present_flag p"
  by (cases "deblocking_filter_control_present_flag p"; cases "constrained_intra_pred_flag p"; cases "redundant_pic_cnt_present_flag p";
      simp add: last_flags_def)+

lemma reads_pps_quant:
  assumes "pps_ok p"
  shows "reads (pps_quant g) [SE (pic_init_qp_minus26 p), SE (pic_init_qs_minus26 p), SE (chroma_qp_index_offset p), U 3 (last_flags p)]
    (\<lambda>x. x = (AVCDEC_SUCCESS, g\<lparr>pic_init_qp_minus26 := pic_init_qp_minus26 p,
      pic_init_qs_minus26 := pic_init_qs_minus26 p, chroma_qp_index_offset := chroma_qp_index_offset p,
      deblocking_filter_control_present_flag := deblocking_filter_control_present_flag p,
      constrained_intra_pred_flag := constrained_intra_pred_flag p,
      redundant_pic_cnt_present_flag := redundant_pic_cnt_present_flag p\<rparr>))"
proof -
  have c: "\<not> (pic_init_qp_minus26 p < - 26 \<or> pic_init_qp_minus26 p > 25)" "\<not> (pic_init_qs_minus26 p < - 26 \<or> pic_init_qs_minus26 p > 25)"
    "\<not> (chroma_qp_index_offset p < - 12 \<or> chroma_qp_index_offset p > 12)"
    using assms by (simp_all add: pps_ok_def)
  show ?thesis unfolding pps_quant_def Let_def
    by (intro reads_intros reads_pass reads_return pps_ranges(10-12) [OF assms] c)
      (use last_flags_less [of p] in \<open>simp_all add: last_flags_bits [unfolded One_nat_def]\<close>)
qed

abbreviation ref_elems :: "AVCPicParamSet \<Rightarrow> syntax_element list" where
  "ref_elems p \<equiv> [UW (pps_num_ref_idx_l0_active_minus1 p), UW (pps_num_ref_idx_l1_active_minus1 p),
     Flag (weighted_pred_flag p), U 2 (weighted_bipred_idc p)]"

abbreviation quant_elems :: "AVCPicParamSet \<Rightarrow> syntax_element list" where
  "quant_elems p \<equiv> [SE (pic_init_qp_minus26 p), SE (pic_init_qs_minus26 p), SE (chroma_qp_index_offset p), U 3 (last_flags p)]"

lemma pps_elems_split: "pps_elems p = UI (pic_parameter_set_id p) # UI (pps_seq_parameter_set_id p)
    # Flag (entropy_coding_mode_flag p) # Flag (pic_order_present_flag p) # UI (num_slice_groups_minus1 p)
    # ((if num_slice_groups_minus1 p > 0 then group_elems p else []) @ ref_elems p @ quant_elems p)"
  by (simp add: pps_elems_def)

lemma reads_pps_body:
  assumes p: "pps_ok p" and fits: "pps_fits malloc_ids d p g"
    and g: "h = g\<lparr>pps_seq_parameter_set_id := pps_seq_parameter_set_id p, pic_parameter_set_id := pic_parameter_set_id p\<rparr>"
  shows "reads (pps_body malloc_ids d h) (Flag (entropy_coding_mode_flag p) # Flag (pic_order_present_flag p)
     # UI (num_slice_groups_minus1 p) # ((if num_slice_groups_minus1 p > 0 then group_elems p else []) @ ref_elems p @ quant_elems p))
    (\<lambda>x. x = (AVCDEC_SUCCESS, pps_kept p g))"
proof -
  let ?g = "h\<lparr>entropy_coding_mode_flag := False, pic_order_present_flag := pic_order_present_flag p,
    num_slice_groups_minus1 := num_slice_groups_minus1 p\<rparr>"
  have n: "uint (word_of_int (num_slice_groups_minus1 p) :: uint) = num_slice_groups_minus1 p" using pps_ranges(3) [OF p] by simp
  have c: "\<not> entropy_coding_mode_flag p" "\<not> num_slice_groups_minus1 p > 7" using p by (simp_all add: pps_ok_def)
  have groups: "reads (pps_groups malloc_ids d ?g) (if num_slice_groups_minus1 p > 0 then group_elems p else [])
      (\<lambda>(st, x). st = AVCDEC_SUCCESS \<and> x = kept_groups p ?g)"
    by (rule reads_weaken [OF reads_groups [OF p]]) (use fits g in \<open>simp_all add: pps_fits_def\<close>)
  have rest: "reads (on_success (pps_groups malloc_ids d ?g) (\<lambda>p3. on_success (pps_refs p3) pps_quant))
      ((if num_slice_groups_minus1 p > 0 then group_elems p else []) @ ref_elems p @ quant_elems p)
      (\<lambda>x. x = (AVCDEC_SUCCESS, pps_kept p g))"
    by (rule reads_on_success [OF groups], rule reads_on_success [OF reads_pps_refs [OF p]],
        rule reads_weaken [OF reads_pps_quant [OF p]]) (simp add: pps_kept_def g)
  show ?thesis unfolding pps_body_def Let_def MAX_NUM_SLICE_GROUP_def
    by (intro reads_intros reads_pass) (use rest c pps_ranges [OF p] in \<open>simp_all add: n\<close>)
qed

lemma reads_pps:
  assumes p: "pps_ok p" and id: "nat (pic_parameter_set_id p) < length (picParams d)"
    and old: "(if picParams d ! nat (pic_parameter_set_id p) = None then map_option (\<lambda>p. p\<lparr>slice_group_id := []\<rparr>) fresh
       else picParams d ! nat (pic_parameter_set_id p)) = Some g"
    and fits: "pps_fits malloc_ids d p g"
  shows "reads (DecodePPS fresh malloc_ids d v) (pps_elems p)
    (\<lambda>x. x = (AVCDEC_SUCCESS, d\<lparr>picParams := (picParams d)[nat (pic_parameter_set_id p) := Some (pps_kept p g)]\<rparr>,
       v\<lparr>currPicParams := nat (pic_parameter_set_id p)\<rparr>))"
proof -
  note r = pps_ranges [OF p]
  let ?u = "word_of_int (pic_parameter_set_id p) :: uint" and ?w = "word_of_int (pps_seq_parameter_set_id p) :: uint"
  let ?g = "g\<lparr>pps_seq_parameter_set_id := uint ?w, pic_parameter_set_id := uint ?u\<rparr>"
  have lev: "\<not> 255 < ?u" "\<not> 31 < ?w" using p r by (simp_all add: word_less_of_int pps_ok_def)
  have u: "unat ?u = nat (pic_parameter_set_id p)" "uint ?u = pic_parameter_set_id p" "uint ?w = pps_seq_parameter_set_id p"
    using p r by (simp_all add: pps_ok_def unat_word_small)
  have sid: "nth_opt (picParams d) (uint ?u) = Some (picParams d ! nat (pic_parameter_set_id p))"
    using p id unfolding u by (simp add: pps_ok_def)
  have body: "reads (pps_body malloc_ids d ?g) (Flag (entropy_coding_mode_flag p) # Flag (pic_order_present_flag p)
     # UI (num_slice_groups_minus1 p) # ((if num_slice_groups_minus1 p > 0 then group_elems p else []) @ ref_elems p @ quant_elems p))
    (\<lambda>x. x = (AVCDEC_SUCCESS, pps_kept p g))"
    by (rule reads_pps_body [OF p fits]) (simp add: u)
  note body' = reads_bind_pair [OF body, where bs = "[]", unfolded append_Nil2]
  show ?thesis unfolding DecodePPS_def pps_elems_split
    by (intro reads_intros reads_pass lev reads_some [OF sid] reads_case_some [OF old] body'
        word_range_simps(2) [OF r(1)] word_range_simps(2) [OF r(2)])
      (use r in \<open>simp_all add: u reads_return\<close>)
qed

section \<open>Through the NAL unit layer\<close>

text \<open>
  A unit starts with its header byte, which is not zero; the rest of the unit is escaped as if it stood
  alone, so that the decoder can start after the byte.
\<close>

lemma unit_after_header:
  assumes inv: "enc_inv s" "bit_left s = 32" and bits: "enc_bits s = nat_bits 8 h @ bs @ stop_bits b" "1 \<le> b" "b \<le> 8"
    and h: "0 < h" "h < 256"
  obtains xs d where "nal_bytes s = word_of_nat h # xs" "BitstreamInit (xs @ rest) (int (length xs)) = Some d"
    "dec_inv d" "dec_bits d = bs @ stop_bits b"
proof -
  define p where "p = enc_payload s"
  have w: "nal_bytes s = esc 0 p"
    using inv(1) by (auto simp: p_def nal_bytes_def enc_inv_def enc_core_def dest: enc_memD(1))
  have pb: "bytes_bits p = nat_bits 8 h @ bs @ stop_bits b" using bits(1) inv(2) by (simp add: enc_bits_def p_def)
  then obtain x q where p: "p = x # q" by (cases p) (auto simp: stop_bits_def)
  have x: "byte_bits x = nat_bits 8 h" "bytes_bits q = bs @ stop_bits b"
    using pb p append_eq_append_conv [of "byte_bits x" "nat_bits 8 h"] by auto
  have "byte_bits x = nat_bits 8 (unat x)" by (simp add: byte_bits_def nat_bits_def bit_unsigned_iff)
  then have "bits_val (nat_bits 8 (unat x)) = bits_val (nat_bits 8 h)" using x(1) by simp
  moreover have "unat x < 2 ^ 8" by (rule order.strict_trans2 [OF unsigned_less]) simp
  ultimately have xu: "unat x = h" using h by (simp add: bits_val_nat_bits)
  then have xh: "x = word_of_nat h" by auto
  have "x \<noteq> 0" using xu h by auto
  then have e: "nal_bytes s = x # esc 0 q" using w p by simp
  have "q \<noteq> []" using x(2) by (auto simp: stop_bits_def)
  then obtain ys y where q: "q = ys @ [y]" by (cases q rule: rev_cases) auto
  have last: "last q \<noteq> 0" using stop_byte_nonzero [of ys y bs b] x(2) bits(2,3) unfolding q by simp
  have "stops_inside 0 (esc 0 q)" by (rule stops_inside_esc) (use last in simp_all)
  then obtain d where "BitstreamInit (esc 0 q @ rest) (int (length (esc 0 q))) = Some d" "dec_inv d" "dec_bits d = bs @ stop_bits b"
    using BitstreamInit_spec [of "length (esc 0 q)" "esc 0 q @ rest"] x(2) unesc_esc [of 0 q] by auto
  then show thesis using that e xh by blast
qed

lemma write_nal_spec:
  assumes body: "writes body AVCENC_SUCCESS es" and buf: "mem s a = Some buf" "n \<le> int (length buf)" "0 < n"
    and room: "int (length (unit_bits es)) + 17 \<le> 32 * ((n - 1) div 6)" and h: "unat header < 256"
  shows "\<exists>s' b. write_nal malloc header body a n s = Some (AVCENC_SUCCESS, s') \<and> enc_inv s' \<and> bit_left s' = 32
    \<and> enc_bits s' = nat_bits 8 (unat header) @ unit_bits es @ stop_bits b \<and> 1 \<le> b \<and> b \<le> 8"
proof -
  obtain s0 where s0: "BitstreamEncInit s (Some a) n None 0 = (AVCENC_SUCCESS, s0)" "enc_inv s0" "enc_bits s0 = []"
      "enc_room s0 = nat (32 * ((n - 1) div 6) + 31)"
    using EncInit_spec [OF buf(1,3,2), of None 0] by blast
  let ?w = "\<lambda>s. do { (_, s1) \<leftarrow> BitstreamWriteBits malloc s 8 header; body s1 }"
  have "writes ?w AVCENC_SUCCESS (U 8 header # es)"
    using body h by (intro writes_intros) (simp_all)
  moreover have "length (unit_bits (U 8 header # es)) \<le> enc_room s0" using s0(4) room by simp
  ultimately obtain s2 where s2: "?w s0 = Some (AVCENC_SUCCESS, s2)" "enc_inv s2"
      "enc_bits s2 = nat_bits 8 (unat header) @ unit_bits es" "enc_room s0 \<le> enc_room s2 + length (unit_bits (U 8 header # es))"
    using s0(2,3) unfolding writes_def by (auto elim!: emitsE)
  have "40 \<le> enc_room s2" using s2(4) s0(4) room by simp
  from TrailingBits_spec [OF s2(2) this] obtain s3 where s3: "BitstreamTrailingBits malloc s2 = Some (AVCENC_SUCCESS, s3)"
      "enc_inv s3" "bit_left s3 = 32" "enc_bits s3 = nat_bits 8 (unat header) @ unit_bits es @ stop_bits (pad_len s2)"
    using s2(3) by (metis append.assoc)
  obtain s1 st where "BitstreamWriteBits malloc s0 8 header = Some (st, s1)" "body s1 = Some (AVCENC_SUCCESS, s2)"
    using s2(1) by (auto split: Option.bind_splits)
  then have "write_nal malloc header body a n s = Some (AVCENC_SUCCESS, s3)"
    using s0(1) s3(1) by (simp add: write_nal_def)
  moreover have "1 \<le> pad_len s2 \<and> pad_len s2 \<le> 8" by (auto simp: pad_len_def split: if_splits)
  ultimately show ?thesis using s3 by blast
qed

text \<open>The decoder's stream of a written and framed unit.\<close>

lemma open_nal:
  assumes inv: "enc_inv s" "bit_left s = 32" and bits: "enc_bits s = nat_bits 8 h @ unit_bits es @ stop_bits b" "1 \<le> b" "b \<le> 8"
    and h: "0 < h" "h < 256" and after: "after = [] \<or> next_tail after"
    and reader: "reads p es (\<lambda>x. x = y)"
  obtains xs d d' where "nal_bytes s = word_of_nat h # xs"
    "PVAVCAnnexBGetNALUnit (replicate z 0 @ 1 # nal_bytes s @ after) (int (length (replicate z 0 @ 1 # nal_bytes s @ after)))
       = Some (if after = [] then AVCDEC_NO_NEXT_SC else AVCDEC_SUCCESS, int z + 1, int (length (nal_bytes s)))"
    "BitstreamInit (xs @ after) (int (length (nal_bytes s)) - 1) = Some d" "p d = Some (y, d')"
proof -
  have b': "enc_bits s = (nat_bits 8 h @ unit_bits es) @ stop_bits b" using bits(1) by simp
  note unit = closed_unit [OF inv b' bits(2,3)]
  obtain xs d where d: "nal_bytes s = word_of_nat h # xs" "BitstreamInit (xs @ after) (int (length xs)) = Some d"
      "dec_inv d" "dec_bits d = unit_bits es @ stop_bits b"
    using unit_after_header [OF inv bits h, of after] by blast
  obtain d' where "p d = Some (y, d')" using readsE [OF reader d(3,4)] by blast
  then show thesis using that d(1,2) AnnexB_unit [OF unit(1) after refl, of z] by simp
qed

end
