(* ===== verification/HeaderTypes.thy ===== *)
theory HeaderTypes
  imports DecHeader
begin

text \<open>
  What the decoder's tables of parameter sets hold, whatever bits come in: a type invariant. \<open>ensures p P\<close>: if
  the parser \<open>p\<close> returns at all, its result satisfies \<open>P\<close>.
\<close>

section \<open>Results of a parser on any input\<close>

definition ensures :: "('s \<Rightarrow> ('a \<times> 's) option) \<Rightarrow> ('a \<Rightarrow> bool) \<Rightarrow> bool" where
  "ensures p P \<longleftrightarrow> (\<forall>s x t. p s = Some (x, t) \<longrightarrow> P x)"

named_theorems ensures_intros \<open>results of a composed parser\<close>

lemma ensuresD: "ensures p P \<Longrightarrow> p s = Some (x, t) \<Longrightarrow> P x"
  unfolding ensures_def by blast

lemma ensures_return [ensures_intros]: "P x \<Longrightarrow> ensures (\<lambda>s. Some (x, s)) P"
  by (simp add: ensures_def)

lemma ensures_bind [ensures_intros]:
  "(\<And>v. ensures (q v) P) \<Longrightarrow> ensures (\<lambda>s. Option.bind (p s) (\<lambda>(v, t). q v t)) P"
  unfolding ensures_def by (auto simp: bind_eq_Some_conv)

lemma ensures_seq:
  "ensures p Q \<Longrightarrow> (\<And>v. Q v \<Longrightarrow> ensures (q v) P) \<Longrightarrow> ensures (\<lambda>s. Option.bind (p s) (\<lambda>(v, t). q v t)) P"
  unfolding ensures_def by (fastforce simp: bind_eq_Some_conv)

lemma ensures_opt [ensures_intros]:
  "(\<And>a. x = Some a \<Longrightarrow> ensures (p a) P) \<Longrightarrow> ensures (\<lambda>s. Option.bind x (\<lambda>a. p a s)) P"
  unfolding ensures_def by (auto simp: bind_eq_Some_conv)

lemma ensures_if [ensures_intros]:
  "(b \<Longrightarrow> ensures p P) \<Longrightarrow> (\<not> b \<Longrightarrow> ensures q P) \<Longrightarrow> ensures (\<lambda>s. if b then p s else q s) P"
  by (cases b) simp_all

lemma ensures_case [ensures_intros]:
  "(x = None \<Longrightarrow> ensures n P) \<Longrightarrow> (\<And>a. x = Some a \<Longrightarrow> ensures (p a) P)
     \<Longrightarrow> ensures (\<lambda>s. case x of None \<Rightarrow> n s | Some a \<Rightarrow> p a s) P"
  by (cases x) simp_all

lemma ensures_prod [ensures_intros]:
  "(\<And>a b. x = (a, b) \<Longrightarrow> ensures (p a b) P) \<Longrightarrow> ensures (\<lambda>s. case x of (a, b) \<Rightarrow> p a b s) P"
  by (cases x) simp

lemma ensures_pair [ensures_intros]:
  "(\<And>a b. x = (a, b) \<Longrightarrow> ensures (p a b) P) \<Longrightarrow> ensures (case x of (a, b) \<Rightarrow> p a b) P"
  by (cases x) simp

lemma ensures_weaken: "ensures p Q \<Longrightarrow> (\<And>x. Q x \<Longrightarrow> P x) \<Longrightarrow> ensures p P"
  by (auto simp: ensures_def)

lemma ensures_on_success:
  assumes "ensures p (\<lambda>(st, x). Q st x)" and "\<And>st x. st \<noteq> AVCDEC_SUCCESS \<Longrightarrow> Q st x \<Longrightarrow> P (st, x)"
    and "\<And>x. Q AVCDEC_SUCCESS x \<Longrightarrow> ensures (q x) P"
  shows "ensures (on_success p q) P"
  unfolding on_success_def
  by (rule ensures_seq [OF assms(1)]) (use assms(2,3) in \<open>auto intro!: ensures_intros\<close>)

lemma ensures_loop:
  assumes "I x" and "\<And>i x. I x \<Longrightarrow> ensures (body i x) I"
  shows "ensures (read_loop body i n x) I"
  using assms(1)
proof (induction n arbitrary: i x)
  case 0
  then show ?case by (simp add: ensures_def)
next
  case (Suc n)
  have "ensures (\<lambda>s. do { (y, s1) \<leftarrow> body i x s; read_loop body (Suc i) n y s1 }) I"
    by (rule ensures_seq [OF assms(2) [OF Suc.prems]]) (rule Suc.IH)
  then show ?case by simp
qed

section \<open>Sequence parameter sets\<close>

definition sps_block :: "AVCSeqParamSet \<Rightarrow> bool" where
  "sps_block g \<longleftrightarrow> length (offset_for_ref_frame g) = 255 \<and> 0 \<le> pic_width_in_mbs_minus1 g
     \<and> 0 \<le> pic_height_in_map_units_minus1 g"

definition sps_typed :: "nat \<Rightarrow> AVCSeqParamSet \<Rightarrow> bool" where
  "sps_typed i g \<longleftrightarrow> sps_block g \<and> seq_parameter_set_id g = int i \<and> 0 \<le> level_idc g \<and> level_idc g \<le> 51
     \<and> mapLev2Idx ! nat (level_idc g) \<noteq> 255"

text \<open>What the rest of a set keeps of the one before it: the fields above.\<close>

definition sps_same :: "AVCSeqParamSet \<Rightarrow> AVCSeqParamSet \<Rightarrow> bool" where
  "sps_same p q \<longleftrightarrow> seq_parameter_set_id q = seq_parameter_set_id p \<and> level_idc q = level_idc p
     \<and> (sps_block p \<longrightarrow> sps_block q)"

lemma sps_same_trans: "sps_same p q \<Longrightarrow> sps_same q r \<Longrightarrow> sps_same p r"
  by (simp add: sps_same_def)

lemma ensures_offsets: "ensures (read_loop offset_entry i n xs) (\<lambda>ys. length ys = length xs)"
  by (rule ensures_loop) (auto simp: offset_entry_def ensures_def bind_eq_Some_conv set_opt_eq_Some_iff)

lemma ensures_order: "ensures (sps_order_cnt p) (sps_same p)"
  unfolding sps_order_cnt_def
  by (intro ensures_seq [OF ensures_offsets] ensures_intros) (simp_all add: sps_same_def sps_block_def)

lemma ensures_frame: "ensures (sps_frame p) (\<lambda>(st, q). sps_same p q)"
  unfolding sps_frame_def Let_def by (intro ensures_intros) (simp_all add: sps_same_def sps_block_def)

lemma ensures_rest: "ensures (sps_rest p) (\<lambda>(st, q). sps_same p q)"
  unfolding sps_rest_def Let_def
  by (intro ensures_seq [OF ensures_order] ensures_weaken [OF ensures_frame] ensures_intros)
    (auto simp: sps_same_def sps_block_def)

section \<open>Picture parameter sets\<close>

text \<open>The block \<open>CBAVC_Malloc\<close> returns for a set: arrays of the size of their type, arbitrary contents.\<close>

definition pps_block :: "AVCPicParamSet \<Rightarrow> bool" where
  "pps_block g \<longleftrightarrow> length (run_length_minus1 g) = MAX_NUM_SLICE_GROUP \<and> length (top_left g) = MAX_NUM_SLICE_GROUP - 1
     \<and> length (bottom_right g) = MAX_NUM_SLICE_GROUP - 1"

definition groups_typed :: "AVCPicParamSet \<Rightarrow> bool" where
  "groups_typed g \<longleftrightarrow> pps_block g \<and> 0 \<le> num_slice_groups_minus1 g \<and> num_slice_groups_minus1 g < int MAX_NUM_SLICE_GROUP
     \<and> (0 < num_slice_groups_minus1 g \<longrightarrow> slice_group_map_type g = 6
          \<longrightarrow> length (slice_group_id g) = nat (uint (pic_size_in_map_units_minus1 g) + 1))"

definition refs_typed :: "AVCPicParamSet \<Rightarrow> bool" where
  "refs_typed g \<longleftrightarrow> pps_num_ref_idx_l0_active_minus1 g \<le> 31 \<and> pps_num_ref_idx_l1_active_minus1 g \<le> 31
     \<and> weighted_bipred_idc g \<le> 2"

definition quant_typed :: "AVCPicParamSet \<Rightarrow> bool" where
  "quant_typed g \<longleftrightarrow> pic_init_qp_minus26 g \<in> {- 26..25} \<and> pic_init_qs_minus26 g \<in> {- 26..25}
     \<and> chroma_qp_index_offset g \<in> {- 12..12}"

definition pps_named :: "nat \<Rightarrow> AVCPicParamSet \<Rightarrow> bool" where
  "pps_named i g \<longleftrightarrow> pic_parameter_set_id g = int i \<and> 0 \<le> pps_seq_parameter_set_id g \<and> pps_seq_parameter_set_id g \<le> 31
     \<and> \<not> entropy_coding_mode_flag g"

definition pps_typed :: "nat \<Rightarrow> AVCPicParamSet \<Rightarrow> bool" where
  "pps_typed i g \<longleftrightarrow> pps_named i g \<and> groups_typed g \<and> refs_typed g \<and> quant_typed g"

definition tables_typed :: "AVCDecObject \<Rightarrow> bool" where
  "tables_typed d \<longleftrightarrow> length (seqParams d) = 32 \<and> length (picParams d) = 256
     \<and> (\<forall>i<32. \<forall>g. seqParams d ! i = Some g \<longrightarrow> sps_typed i g)
     \<and> (\<forall>i<256. \<forall>g. picParams d ! i = Some g \<longrightarrow> pps_typed i g)"

lemma tables_typed_nth:
  assumes "tables_typed d"
  shows "nth_opt (seqParams d) i = Some (Some g) \<Longrightarrow> sps_typed (nat i) g"
    "nth_opt (picParams d) i = Some (Some h) \<Longrightarrow> pps_typed (nat i) h"
  using assms by (auto simp: tables_typed_def nth_opt_def split: if_splits)

lemma ensures_ue_entry: "ensures (read_loop ue_entry i n xs) (\<lambda>ys. length ys = length xs)"
  by (rule ensures_loop) (auto simp: ue_entry_def ensures_def bind_eq_Some_conv set_opt_eq_Some_iff)

lemma ensures_group_ids: "ensures (read_loop (group_id_entry b) i n xs) (\<lambda>ys. length ys = length xs)"
  by (rule ensures_loop) (auto simp: group_id_entry_def ensures_def bind_eq_Some_conv set_opt_eq_Some_iff)

lemma ensures_corners:
  "ensures (read_loop corner_entry i n xy) (\<lambda>zw. length (fst zw) = length (fst xy) \<and> length (snd zw) = length (snd xy))"
  by (rule ensures_loop) (auto simp: corner_entry_def ensures_def bind_eq_Some_conv set_opt_eq_Some_iff)

lemma c_int_nonneg:
  fixes v :: uint
  assumes "0 \<le> c_int (uint v)"
  shows "c_int (uint v) = uint v"
proof -
  have "uint v < 2 ^ 32" using uint_lt2p [of v] by simp
  then have "take_bit 32 (uint v) = uint v" by (simp add: take_bit_int_eq_self)
  then show ?thesis using assms \<open>uint v < 2 ^ 32\<close>
    by (cases "bit (uint v) 31") (simp_all add: c_int_def signed_take_bit_eq_take_bit_minus)
qed

lemma group_ids_length:
  fixes v :: uint
  assumes "tables_typed d" and "\<And>n b. malloc n = Some b \<Longrightarrow> length b = n"
    and s: "nth_opt (seqParams d) (pps_seq_parameter_set_id p) = Some (Some sps)"
    and sz: "c_int (uint v) = (pic_width_in_mbs_minus1 sps + 1) * (pic_height_in_map_units_minus1 sps + 1) - 1"
    and m: "malloc (nat ((pic_width_in_mbs_minus1 sps + 1) * (pic_height_in_map_units_minus1 sps + 1))) = Some block"
  shows "length block = nat (uint v + 1)"
proof -
  have "sps_typed (nat (pps_seq_parameter_set_id p)) sps" by (rule tables_typed_nth(1) [OF assms(1) s])
  then have "0 < (pic_width_in_mbs_minus1 sps + 1) * (pic_height_in_map_units_minus1 sps + 1)"
    by (intro mult_pos_pos) (simp_all add: sps_typed_def sps_block_def)
  then show ?thesis using sz assms(2) [OF m] c_int_nonneg [of v] by simp
qed

lemma ensures_pps_group_ids:
  assumes d: "tables_typed d" "\<And>n b. malloc n = Some b \<Longrightarrow> length b = n"
    and p: "pps_named i p" "pps_block p" "0 \<le> num_slice_groups_minus1 p" "num_slice_groups_minus1 p < int MAX_NUM_SLICE_GROUP"
  shows "ensures (pps_group_ids malloc d p) (\<lambda>(st, q). st = AVCDEC_SUCCESS \<longrightarrow> pps_named i q \<and> groups_typed q)"
  unfolding pps_group_ids_def Let_def
  by (intro ensures_seq [OF ensures_group_ids] ensures_intros)
    (use p in \<open>auto simp: pps_named_def groups_typed_def pps_block_def group_ids_length [OF d]\<close>)

lemma ensures_pps_groups:
  assumes d: "tables_typed d" "\<And>n b. malloc n = Some b \<Longrightarrow> length b = n"
    and p: "pps_named i p" "pps_block p" "0 \<le> num_slice_groups_minus1 p" "num_slice_groups_minus1 p < int MAX_NUM_SLICE_GROUP"
  shows "ensures (pps_groups malloc d p) (\<lambda>(st, q). st = AVCDEC_SUCCESS \<longrightarrow> pps_named i q \<and> groups_typed q)"
  unfolding pps_groups_def Let_def
  by (intro ensures_seq [OF ensures_ue_entry] ensures_seq [OF ensures_corners] ensures_pps_group_ids [OF d] ensures_intros)
    (use p in \<open>auto simp: pps_named_def groups_typed_def pps_block_def word_uint_eq_iff\<close>)

lemma ensures_pps_refs:
  assumes "pps_named i p" "groups_typed p"
  shows "ensures (pps_refs p) (\<lambda>(st, q). st = AVCDEC_SUCCESS \<longrightarrow> pps_named i q \<and> groups_typed q \<and> refs_typed q)"
  unfolding pps_refs_def Let_def
  by (intro ensures_intros) (use assms in \<open>auto simp: pps_named_def groups_typed_def pps_block_def refs_typed_def not_less\<close>)

lemma ensures_pps_quant:
  assumes "pps_named i p" "groups_typed p" "refs_typed p"
  shows "ensures (pps_quant p) (\<lambda>(st, q). st = AVCDEC_SUCCESS \<longrightarrow> pps_typed i q)"
  unfolding pps_quant_def Let_def
  by (intro ensures_intros)
    (use assms in \<open>auto simp: pps_named_def groups_typed_def pps_block_def refs_typed_def quant_typed_def pps_typed_def\<close>)

lemma ensures_pps_body:
  assumes d: "tables_typed d" "\<And>n b. malloc n = Some b \<Longrightarrow> length b = n"
    and p: "pps_block p" "pic_parameter_set_id p = int i" "0 \<le> pps_seq_parameter_set_id p" "pps_seq_parameter_set_id p \<le> 31"
  shows "ensures (pps_body malloc d p) (\<lambda>(st, q). st = AVCDEC_SUCCESS \<longrightarrow> pps_typed i q)"
  unfolding pps_body_def Let_def
  by (intro ensures_intros
      ensures_on_success [where Q = "\<lambda>st q. st = AVCDEC_SUCCESS \<longrightarrow> pps_named i q \<and> groups_typed q", OF ensures_pps_groups [OF d]]
      ensures_on_success [where Q = "\<lambda>st q. st = AVCDEC_SUCCESS \<longrightarrow> pps_named i q \<and> groups_typed q \<and> refs_typed q", OF ensures_pps_refs]
      ensures_pps_quant)
    (use p in \<open>auto simp: pps_named_def pps_block_def\<close>)

section \<open>The tables\<close>

lemma tables_typed_seq:
  assumes "tables_typed d" and "i < 32 \<Longrightarrow> sps_typed i q"
  shows "tables_typed (d\<lparr>seqParams := (seqParams d)[i := Some q]\<rparr>)"
  using assms unfolding tables_typed_def length_list_update
  by simp (metis length_list_update nth_list_update_eq nth_list_update_neq option.inject)

lemma tables_typed_pic:
  assumes "tables_typed d" and "\<And>g. i < 256 \<Longrightarrow> q = Some g \<Longrightarrow> pps_typed i g"
  shows "tables_typed (d\<lparr>picParams := (picParams d)[i := q]\<rparr>)"
  using assms unfolding tables_typed_def length_list_update
  by simp (metis length_list_update nth_list_update_eq nth_list_update_neq option.inject)

lemma DecodeSPS_typed:
  assumes d: "tables_typed d" and fresh: "\<And>g. fresh = Some g \<Longrightarrow> sps_block g"
  shows "ensures (DecodeSPS fresh d) (\<lambda>(st, d'). tables_typed d')"
proof -
  have block: "sps_block p" if "nth_opt (seqParams d) i = Some old" "(if old = None then fresh else old) = Some p" for i old p
    using that fresh tables_typed_nth(1) [OF d] by (auto simp: sps_typed_def split: if_splits)
  have typed: "sps_typed (unat sid) q"
    if "\<not> level > (51 :: uint)" "nth_opt mapLev2Idx (uint level) = Some idx" "idx \<noteq> 255" "sps_block p"
      "sps_same (p\<lparr>profile_idc := a, constrained_set0_flag := b, constrained_set1_flag := c, constrained_set2_flag := e,
        level_idc := uint level, seq_parameter_set_id := uint (sid :: uint)\<rparr>) q" for level idx p a b c e sid q
    using that by (simp add: sps_typed_def sps_same_def sps_block_def nth_opt_def word_less_def split: if_splits)
  show ?thesis unfolding DecodeSPS_def
    by (intro ensures_seq [OF ensures_rest] ensures_intros)
      (use d in \<open>auto intro!: tables_typed_seq intro: typed block\<close>)
qed

lemma DecodePPS_typed:
  assumes d: "tables_typed d" "\<And>n b. malloc n = Some b \<Longrightarrow> length b = n"
    and fresh: "\<And>g. fresh = Some g \<Longrightarrow> pps_block g"
  shows "ensures (DecodePPS fresh malloc d v) (\<lambda>(st, d', v'). tables_typed d')"
proof -
  have block: "pps_block p" if "nth_opt (picParams d) i = Some old"
    "(if old = None then map_option (\<lambda>p. p\<lparr>slice_group_id := []\<rparr>) fresh else old) = Some p" for i old p
    using that fresh tables_typed_nth(2) [OF d(1)]
    by (auto simp: pps_typed_def groups_typed_def pps_block_def split: if_splits)
  have set: "pps_block (p\<lparr>pps_seq_parameter_set_id := a, pic_parameter_set_id := b\<rparr>)" if "pps_block p" for p a b
    using that by (simp add: pps_block_def)
  show ?thesis unfolding DecodePPS_def
    by (intro ensures_seq [OF ensures_pps_body [where i = "unat pid" for pid, OF d]] ensures_intros)
      (use d in \<open>auto intro!: tables_typed_pic intro: block set simp: word_less_def\<close>)
qed

section \<open>Sessions of parameter sets\<close>

text \<open>The parameter sets of a stream, in the order of their NAL units, with what \<open>CBAVC_Malloc\<close> returns for each.\<close>

datatype set_unit = SPS "AVCSeqParamSet option" "uint8 list" int
  | PPS "AVCPicParamSet option" "nat \<Rightarrow> uint list option" "uint8 list" int

fun take_set :: "set_unit \<Rightarrow> AVCDecObject \<times> AVCCommonObj \<Rightarrow> (AVCDecObject \<times> AVCCommonObj) option" where
  "take_set (SPS fresh u n) (d, v) = map_option snd (PVAVCDecSeqParamSet fresh u n d v)"
| "take_set (PPS fresh malloc u n) (d, v) = map_option snd (PVAVCDecPicParamSet fresh malloc u n d v)"

fun take_sets :: "set_unit list \<Rightarrow> AVCDecObject \<times> AVCCommonObj \<Rightarrow> (AVCDecObject \<times> AVCCommonObj) option" where
  "take_sets [] x = Some x"
| "take_sets (u # us) x = do { y \<leftarrow> take_set u x; take_sets us y }"

text \<open>The blocks have the size of their type.\<close>

fun unit_blocks :: "set_unit \<Rightarrow> bool" where
  "unit_blocks (SPS fresh u n) = (\<forall>g. fresh = Some g \<longrightarrow> sps_block g)"
| "unit_blocks (PPS fresh malloc u n) =
     ((\<forall>g. fresh = Some g \<longrightarrow> pps_block g) \<and> (\<forall>n b. malloc n = Some b \<longrightarrow> length b = n))"

lemma take_set_typed:
  assumes "take_set u (d, v) = Some (d', v')" and "unit_blocks u" and d: "tables_typed d"
  shows "tables_typed d'"
proof (cases u)
  case (SPS fresh u n)
  then show ?thesis using assms
    by (auto simp: PVAVCDecSeqParamSet_def Let_def bind_eq_Some_conv split: if_splits
        dest!: ensuresD [OF DecodeSPS_typed, rotated 2])
next
  case (PPS fresh malloc u n)
  then show ?thesis using assms
    by (auto simp: PVAVCDecPicParamSet_def Let_def bind_eq_Some_conv split: if_splits
        dest!: ensuresD [OF DecodePPS_typed, rotated 3])
qed

lemma take_sets_typed:
  "take_sets us (d, v) = Some (d', v') \<Longrightarrow> list_all unit_blocks us \<Longrightarrow> tables_typed d \<Longrightarrow> tables_typed d'"
proof (induction us arbitrary: d v)
  case (Cons u us)
  then obtain d1 v1 where "take_set u (d, v) = Some (d1, v1)" "take_sets us (d1, v1) = Some (d', v')"
    by (auto simp: bind_eq_Some_conv)
  with Cons take_set_typed [OF this(1)] show ?case by simp
qed simp

end
