(* ===== verification/DpbMarking.thy ===== *)
theory DpbMarking
  imports Dpb
begin

text \<open>
  What the marking operations of \<open>dpb.cpp\<close> keep and do: the well-formedness of the buffer, the frames
  reported to \<open>CBAVC_FrameUnbind\<close>, the sliding window, the memory management control operations and
  the number of reference frames.
\<close>

section \<open>Well-formed buffers\<close>

definition store_ok :: "AVCFrameStore \<Rightarrow> bool" where
  "store_ok f \<longleftrightarrow> (IsReference f = 0 \<or> IsReference f = 3) \<and> (IsLongTerm f = 0 \<or> IsLongTerm f = 3)
     \<and> (IsLongTerm f = 3 \<longrightarrow> IsReference f = 3) \<and> 0 \<le> IsOutputted f \<and> IsOutputted f \<le> 3"

definition dpb_wf :: "AVCCommonObj \<Rightarrow> bool" where
  "dpb_wf v \<longleftrightarrow> num_fs v = length (fs v) \<and> currFS v < num_fs v \<and> list_all store_ok (fs v)"

definition free_store :: "AVCFrameStore \<Rightarrow> bool" where
  "free_store f \<longleftrightarrow> IsReference f = 0 \<and> IsLongTerm f = 0 \<and> IsOutputted f = 3"

text \<open>
  The invariant of the marking of a picture: the buffer is well formed, the current frame is not yet
  output, and every frame reported as unbound is another one and free.
\<close>

definition marking_inv :: "AVCCommonObj \<Rightarrow> bool" where
  "marking_inv v \<longleftrightarrow> dpb_wf v \<and> (IsOutputted (fs v ! currFS v) = 0 \<or> IsOutputted (fs v ! currFS v) = 2)
     \<and> list_all (\<lambda>i. i < num_fs v \<and> i \<noteq> currFS v \<and> free_store (fs v ! i)) (unbound v)"

lemma upd_fs_simps [simp, frame_simps]:
  "length (fs (upd_fs i g v)) = length (fs v)" "num_fs (upd_fs i g v) = num_fs v"
  "currFS (upd_fs i g v) = currFS v" "unbound (upd_fs i g v) = unbound v"
  "nal_is_IDR (upd_fs i g v) = nal_is_IDR v"
  "MaxLongTermFrameIdx (upd_fs i g v) = MaxLongTermFrameIdx v" "CurrPicNum (upd_fs i g v) = CurrPicNum v"
  by (simp_all add: upd_fs_def)

lemma nth_upd_fs:
  "i < length (fs v) \<Longrightarrow> fs (upd_fs i g v) ! j = (if i = j then g (fs v ! i) else fs v ! j)"
  by (simp add: upd_fs_def)

lemma unbind_simps [simp, frame_simps]:
  "fs (CBAVC_FrameUnbind i v) = fs v" "num_fs (CBAVC_FrameUnbind i v) = num_fs v"
  "currFS (CBAVC_FrameUnbind i v) = currFS v" "unbound (CBAVC_FrameUnbind i v) = unbound v @ [i]"
  "nal_is_IDR (CBAVC_FrameUnbind i v) = nal_is_IDR v"
  "MaxLongTermFrameIdx (CBAVC_FrameUnbind i v) = MaxLongTermFrameIdx v"
  "CurrPicNum (CBAVC_FrameUnbind i v) = CurrPicNum v"
  by (simp_all add: CBAVC_FrameUnbind_def)

definition unmarked :: "AVCFrameStore \<Rightarrow> AVCFrameStore" where
  "unmarked f = f\<lparr>frame := (frame f)\<lparr>isReference := False, isLongTerm := False\<rparr>,
     IsLongTerm := 0, IsReference := 0, IsOutputted := IsOutputted f OR 0x02\<rparr>"

lemma or_2: "0 \<le> x \<Longrightarrow> x \<le> 3 \<Longrightarrow> x OR 2 = (if x = 0 \<or> x = 2 then 2 else (3::int))"
proof -
  assume "0 \<le> x" "x \<le> 3"
  then have "x \<in> {0, 1, 2, 3}" by auto
  then show ?thesis by auto
qed

lemma unmarked_simps [simp]:
  "IsReference (unmarked f) = 0" "IsLongTerm (unmarked f) = 0" "FrameNumWrap (unmarked f) = FrameNumWrap f"
  "IsOutputted (unmarked f) = IsOutputted f OR 2" "LongTermFrameIdx (unmarked f) = LongTermFrameIdx f"
  by (simp_all add: unmarked_def)

lemma store_ok_unmarked: "store_ok f \<Longrightarrow> store_ok (unmarked f)"
  by (simp add: store_ok_def or_2)

lemma unmark_eq:
  "unmark_for_reference i v =
     (let v1 = upd_fs i unmarked v
      in if IsOutputted (fs v1 ! i) = 3 then CBAVC_FrameUnbind i v1 else v1)"
  by (simp add: unmark_for_reference_def unmarked_def [abs_def])

lemma unmark_simps [simp, frame_simps]:
  "length (fs (unmark_for_reference i v)) = length (fs v)" "num_fs (unmark_for_reference i v) = num_fs v"
  "currFS (unmark_for_reference i v) = currFS v" "nal_is_IDR (unmark_for_reference i v) = nal_is_IDR v"
  "MaxLongTermFrameIdx (unmark_for_reference i v) = MaxLongTermFrameIdx v"
  "CurrPicNum (unmark_for_reference i v) = CurrPicNum v"
  by (simp_all add: unmark_eq Let_def)

lemma nth_unmark:
  "i < length (fs v) \<Longrightarrow> fs (unmark_for_reference i v) ! j = (if i = j then unmarked (fs v ! i) else fs v ! j)"
  by (simp add: unmark_eq Let_def nth_upd_fs)

section \<open>Invariants of loops\<close>

lemma for_fs_inv:
  assumes step: "\<And>ii u. ii < num_fs u \<Longrightarrow> I u \<Longrightarrow> I (body ii u)"
    and num: "\<And>ii u. I u \<Longrightarrow> num_fs u = num_fs v" and "I v"
  shows "I (for_fs body v)"
proof -
  have "I (fold body xs u)" if "set xs \<subseteq> {0..<num_fs v}" "I u" for xs u
    using that
  proof (induction xs arbitrary: u)
    case (Cons x xs)
    then have "x < num_fs u" using num by simp
    then show ?case using Cons step by simp
  qed simp
  then show ?thesis using assms(3) by (simp add: for_fs_def)
qed

text \<open>
  A loop whose body only touches the store of its index, and looks at nothing else that the loop
  changes, acts on every store independently.
\<close>

lemma for_fs_map:
  assumes body: "\<And>ii u. ii < length (fs u) \<Longrightarrow> Q u \<Longrightarrow>
      fs (body ii u) = (fs u)[ii := h ii (fs u ! ii)] \<and> num_fs (body ii u) = num_fs u \<and> Q (body ii u)"
    and num: "num_fs v = length (fs v)" and "Q v"
  shows "fs (for_fs body v) = map (\<lambda>ii. h ii (fs v ! ii)) [0..<length (fs v)]
    \<and> num_fs (for_fs body v) = num_fs v \<and> Q (for_fs body v)"
proof -
  have "n \<le> length (fs v) \<Longrightarrow>
      fs (fold body [0..<n] v) = map (\<lambda>ii. h ii (fs v ! ii)) [0..<n] @ drop n (fs v)
      \<and> num_fs (fold body [0..<n] v) = num_fs v \<and> Q (fold body [0..<n] v)" for n
  proof (induction n)
    case (Suc n)
    let ?u = "fold body [0..<n] v"
    have IH: "fs ?u = map (\<lambda>ii. h ii (fs v ! ii)) [0..<n] @ drop n (fs v)" "num_fs ?u = num_fs v" "Q ?u"
      using Suc by simp_all
    have len: "n < length (fs ?u)" using Suc.prems by (simp add: IH)
    have nth: "fs ?u ! n = fs v ! n" using Suc.prems by (simp add: IH nth_append)
    have "drop n (fs v) = fs v ! n # drop (Suc n) (fs v)" using Suc.prems by (simp add: Cons_nth_drop_Suc)
    then have "(fs ?u)[n := h n (fs v ! n)]
        = map (\<lambda>ii. h ii (fs v ! ii)) [0..<Suc n] @ drop (Suc n) (fs v)"
      by (simp add: IH list_update_append)
    then show ?case using body [OF len IH(3)] IH(2) nth by simp
  qed (use assms in simp)
  from this [of "length (fs v)"] show ?thesis using num by (simp add: for_fs_def)
qed

lemma dpb_wf_upd:
  assumes "dpb_wf v" and "i < num_fs v" and "store_ok (g (fs v ! i))"
  shows "dpb_wf (upd_fs i g v)"
proof -
  have "set ((fs v)[i := g (fs v ! i)]) \<subseteq> insert (g (fs v ! i)) (set (fs v))" by (rule set_update_subset_insert)
  then show ?thesis using assms by (auto simp: dpb_wf_def list_all_iff upd_fs_def)
qed

lemma wf_nth: "dpb_wf v \<Longrightarrow> i < num_fs v \<Longrightarrow> store_ok (fs v ! i)"
  by (simp add: dpb_wf_def list_all_length)

text \<open>
  The common shape of the releases: a frame loses its marks, gets the output bit 2, and is reported
  when it is free then.
\<close>

definition releases :: "(AVCFrameStore \<Rightarrow> AVCFrameStore) \<Rightarrow> bool" where
  "releases g \<longleftrightarrow> (\<forall>f. IsReference (g f) = 0 \<and> IsLongTerm (g f) = 0 \<and> IsOutputted (g f) = IsOutputted f OR 2)"

definition release :: "(AVCFrameStore \<Rightarrow> AVCFrameStore) \<Rightarrow> nat \<Rightarrow> AVCCommonObj \<Rightarrow> AVCCommonObj" where
  "release g i v =
     (let v1 = upd_fs i g v in if IsOutputted (fs v1 ! i) = 3 then CBAVC_FrameUnbind i v1 else v1)"

lemma releases_unmarked: "releases unmarked"
  by (simp add: releases_def)

lemma release_simps [simp, frame_simps]:
  "length (fs (release g i v)) = length (fs v)" "num_fs (release g i v) = num_fs v"
  "currFS (release g i v) = currFS v" "nal_is_IDR (release g i v) = nal_is_IDR v"
  by (simp_all add: release_def Let_def)

lemma fs_release: "fs (release g i v) = (fs v)[i := g (fs v ! i)]"
  by (simp add: release_def Let_def upd_fs_def)

lemma marking_inv_release:
  assumes inv: "marking_inv v" and i: "i < num_fs v" and g: "releases g"
  shows "marking_inv (release g i v)"
proof -
  let ?v = "release g i v"
  have wf: "dpb_wf v" and len: "i < length (fs v)" and c: "currFS v < length (fs v)"
    using inv i by (auto simp: marking_inv_def dpb_wf_def)
  have gf: "IsReference (g f) = 0" "IsLongTerm (g f) = 0" "IsOutputted (g f) = IsOutputted f OR 2" for f
    using g by (simp_all add: releases_def)
  have bounds: "0 \<le> IsOutputted (fs v ! i)" "IsOutputted (fs v ! i) \<le> 3"
    using wf_nth [OF wf i] by (simp_all add: store_ok_def)
  have ok: "store_ok (g (fs v ! i))" using bounds by (simp add: store_ok_def gf or_2)
  have nth: "fs ?v ! j = (if i = j then g (fs v ! i) else fs v ! j)" for j
    using len by (simp add: fs_release)
  have wf': "dpb_wf ?v"
    using dpb_wf_upd [where g = g, OF wf i ok] by (simp add: release_def Let_def dpb_wf_def)
  have cur: "IsOutputted (fs v ! i) = 0 \<or> IsOutputted (fs v ! i) = 2" if "i = currFS v"
    using inv that by (simp add: marking_inv_def)
  have out: "IsOutputted (g (fs v ! i)) = 3 \<longleftrightarrow> IsOutputted (fs v ! i) = 1 \<or> IsOutputted (fs v ! i) = 3"
    using bounds by (simp add: gf or_2) presburger
  have cur': "IsOutputted (fs ?v ! currFS v) \<in> {0, 2}"
    using inv cur by (auto simp: nth gf marking_inv_def)
  have old: "j < num_fs v \<and> j \<noteq> currFS v \<and> free_store (fs ?v ! j)" if "j \<in> set (unbound v)" for j
  proof -
    have "j < num_fs v" "j \<noteq> currFS v" "free_store (fs v ! j)"
      using inv that by (simp_all add: marking_inv_def list_all_iff)
    then show ?thesis by (auto simp: nth gf free_store_def)
  qed
  have new: "i \<noteq> currFS v \<and> free_store (fs ?v ! i)" if "IsOutputted (g (fs v ! i)) = 3"
    using that out cur by (auto simp: nth gf free_store_def)
  have "unbound ?v = unbound v @ (if IsOutputted (g (fs v ! i)) = 3 then [i] else [])"
    using len by (simp add: release_def Let_def nth_upd_fs)
  then have "j < num_fs v \<and> j \<noteq> currFS v \<and> free_store (fs ?v ! j)" if "j \<in> set (unbound ?v)" for j
    using that old new i by (cases "IsOutputted (g (fs v ! i)) = 3") auto
  then show ?thesis using wf' cur' unfolding marking_inv_def list_all_iff by simp
qed

lemma unmark_release: "unmark_for_reference i v = release unmarked i v"
  by (simp add: unmark_eq release_def)

lemma marking_inv_unmark: "marking_inv v \<Longrightarrow> i < num_fs v \<Longrightarrow> marking_inv (unmark_for_reference i v)"
  unfolding unmark_release by (rule marking_inv_release [OF _ _ releases_unmarked])

lemma marking_inv_num: "marking_inv v \<Longrightarrow> num_fs v = length (fs v) \<and> currFS v < length (fs v)"
  by (simp add: marking_inv_def dpb_wf_def)

lemma marking_inv_fields [simp]:
  "marking_inv (v\<lparr>MaxLongTermFrameIdx := m\<rparr>) = marking_inv v"
  "marking_inv (v\<lparr>mem_mgr_ctrl_eq_5 := b\<rparr>) = marking_inv v"
  by (simp_all add: marking_inv_def dpb_wf_def)

text \<open>
  The marking invariant together with the fields the loops leave alone, the form the loop rule needs.
\<close>

definition marking_of :: "AVCCommonObj \<Rightarrow> AVCCommonObj \<Rightarrow> bool" where
  "marking_of v u \<longleftrightarrow> marking_inv u \<and> num_fs u = num_fs v \<and> currFS u = currFS v \<and> nal_is_IDR u = nal_is_IDR v"

lemma marking_of_refl: "marking_inv v \<Longrightarrow> marking_of v v"
  by (simp add: marking_of_def)

lemma marking_of_trans: "marking_of v u \<Longrightarrow> marking_of u w \<Longrightarrow> marking_of v w"
  by (simp add: marking_of_def)

lemma marking_of_unmark: "marking_of v u \<Longrightarrow> i < num_fs u \<Longrightarrow> marking_of v (unmark_for_reference i u)"
  by (simp add: marking_of_def marking_inv_unmark)

lemma marking_of_for_fs:
  assumes "\<And>ii u. ii < num_fs u \<Longrightarrow> marking_of v u \<Longrightarrow> marking_of v (body ii u)" and "marking_of v u0"
  shows "marking_of v (for_fs body u0)"
  using assms(2)
  by (rule for_fs_inv [rotated 2, where I = "marking_of v"]) (use assms in \<open>auto simp: marking_of_def\<close>)

text \<open>A change of a frame that is not reported and stays consistent.\<close>

lemma marking_inv_upd:
  assumes inv: "marking_inv v" and i: "i < num_fs v" and ok: "store_ok (g (fs v ! i))"
    and out: "IsOutputted (g (fs v ! i)) = IsOutputted (fs v ! i)" and used: "\<not> free_store (fs v ! i)"
  shows "marking_inv (upd_fs i g v)"
proof -
  have wf: "dpb_wf v" and len: "i < length (fs v)" using inv i by (auto simp: marking_inv_def dpb_wf_def)
  have "j \<noteq> i" if "j \<in> set (unbound v)" for j
    using inv that used by (auto simp: marking_inv_def list_all_iff)
  then show ?thesis
    using inv len out dpb_wf_upd [where g = g, OF wf i ok]
    by (auto simp: marking_inv_def list_all_iff nth_upd_fs)
qed

lemma first_fs_Some: "first_fs P v = Some ii \<Longrightarrow> ii < num_fs v \<and> P (fs v ! ii) \<and> (\<forall>jj < ii. \<not> P (fs v ! jj))"
  by (auto simp: first_fs_def find_Some_iff)

lemma first_fs_None: "first_fs P v = None \<longleftrightarrow> (\<forall>ii < num_fs v. \<not> P (fs v ! ii))"
  by (auto simp: first_fs_def find_None_iff)

section \<open>The memory management control operations keep the invariant\<close>

lemma unmark_lt_inv:
  "marking_of v u \<Longrightarrow> marking_of v (unmark_long_term_frame_for_reference_by_frame_idx l u)"
  unfolding unmark_long_term_frame_for_reference_by_frame_idx_def
  by (rule marking_of_for_fs) (simp_all add: marking_of_unmark)

lemma Op1_inv: "marking_of v u \<Longrightarrow> marking_of v (MemMgrCtrlOp1 d u)"
  by (auto simp: MemMgrCtrlOp1_def Let_def dest: first_fs_Some intro: marking_of_unmark split: option.split)

lemma Op2_inv: "marking_of v u \<Longrightarrow> marking_of v (MemMgrCtrlOp2 l u)"
  unfolding MemMgrCtrlOp2_def by (rule marking_of_for_fs) (simp_all add: marking_of_unmark)

lemma Op3_inv:
  assumes "marking_of v u"
  shows "marking_of v (MemMgrCtrlOp3 d l u)"
proof -
  let ?w = "unmark_long_term_frame_for_reference_by_frame_idx l u"
  have w: "marking_of v ?w" by (rule unmark_lt_inv [OF assms])
  have "marking_of v (upd_fs ii (\<lambda>f. f\<lparr>LongTermFrameIdx := sint l,
      frame := (frame f)\<lparr>LongTermPicNum := sint l, isLongTerm := True\<rparr>, IsLongTerm := 3\<rparr>) ?w)"
    if "ii < num_fs ?w" "IsReference (fs ?w ! ii) = 3" for ii
  proof -
    have "store_ok (fs ?w ! ii)" using w that(1) wf_nth by (simp add: marking_of_def marking_inv_def)
    then show ?thesis using w that
      by (simp add: marking_of_def) (intro marking_inv_upd; simp add: store_ok_def free_store_def)
  qed
  then show ?thesis using w
    by (auto simp: MemMgrCtrlOp3_def Let_def dest: first_fs_Some split: option.split)
qed

lemma Op4_inv: "marking_of v u \<Longrightarrow> marking_of v (MemMgrCtrlOp4 m u)"
  unfolding MemMgrCtrlOp4_def Let_def
  by (rule marking_of_for_fs) (auto simp: marking_of_unmark, simp add: marking_of_def)

lemma Op5_inv: "marking_of v u \<Longrightarrow> marking_of v (MemMgrCtrlOp5 u)"
proof -
  assume u: "marking_of v u"
  have "marking_of v (for_fs (\<lambda>ii u. if ii \<noteq> currFS u then unmark_for_reference ii u else u)
      (u\<lparr>MaxLongTermFrameIdx := - 1\<rparr>))"
    by (rule marking_of_for_fs) (use u in \<open>auto simp: marking_of_unmark marking_of_def marking_inv_unmark\<close>)
  then show ?thesis by (simp add: MemMgrCtrlOp5_def Let_def marking_of_def)
qed

lemma current_used: "marking_inv v \<Longrightarrow> \<not> free_store (fs v ! currFS v)"
  by (auto simp: marking_inv_def free_store_def)

lemma Op6_inv:
  assumes "marking_of v u"
  shows "marking_of v (MemMgrCtrlOp6 l u)"
proof -
  let ?w = "unmark_long_term_frame_for_reference_by_frame_idx l u"
  have w: "marking_inv ?w" "marking_of v ?w" using unmark_lt_inv [OF assms] by (auto simp: marking_of_def)
  have c: "currFS ?w < num_fs ?w" using w by (simp add: marking_inv_def dpb_wf_def)
  have "store_ok (fs ?w ! currFS ?w)" using w c wf_nth by (simp add: marking_inv_def)
  then show ?thesis using w c current_used [OF w(1)]
    by (simp add: MemMgrCtrlOp6_def Let_def marking_of_def) (intro marking_inv_upd; simp add: store_ok_def)
qed

lemma mmco_step_inv: "marking_of v u \<Longrightarrow> marking_of v (mmco_step h ii u)"
proof -
  assume u: "marking_of v u"
  have "marking_of v (upd_fs (currFS (MemMgrCtrlOp5 u)) (\<lambda>f. f\<lparr>FrameNum := 0, fs_PicOrderCnt := 0\<rparr>) (MemMgrCtrlOp5 u))"
  proof -
    let ?w = "MemMgrCtrlOp5 u"
    have w: "marking_inv ?w" "marking_of v ?w" using Op5_inv [OF u] by (auto simp: marking_of_def)
    have c: "currFS ?w < num_fs ?w" using w by (simp add: marking_inv_def dpb_wf_def)
    have "store_ok (fs ?w ! currFS ?w)" using w c wf_nth by (simp add: marking_inv_def)
    then show ?thesis using w c current_used [OF w(1)]
      by (simp add: marking_of_def) (intro marking_inv_upd; simp add: store_ok_def)
  qed
  then show ?thesis
    using u by (simp add: mmco_step_def Let_def Op1_inv Op2_inv Op3_inv Op4_inv Op6_inv)
qed

lemma mmco_loop_inv: "marking_of v u \<Longrightarrow> marking_of v (snd (mmco_loop h ii u))"
proof (induction h ii u rule: mmco_loop.induct)
  case (1 h ii u)
  then show ?case
    by (subst mmco_loop.simps) (simp add: mmco_step_inv)
qed

lemma adaptive_inv: "marking_of v u \<Longrightarrow> marking_of v (snd (adaptive_memory_marking h u))"
  using mmco_loop_inv [of v u h 0] by (auto simp: adaptive_memory_marking_def split: prod.splits)

section \<open>The sliding window\<close>

definition short_term :: "AVCCommonObj \<Rightarrow> nat set" where
  "short_term v = {i. i < num_fs v \<and> IsReference (fs v ! i) \<noteq> 0 \<and> IsLongTerm (fs v ! i) = 0}"

lemma finite_short_term [simp]: "finite (short_term v)"
  by (simp add: short_term_def)

text \<open>The inner loop finds a short-term frame of the smallest \<open>FrameNumWrap\<close>.\<close>

lemma min_fold:
  assumes "\<And>i. i \<in> short_term v \<Longrightarrow> FrameNumWrap (fs v ! i) < 0x7FFFFFFF" and "n \<le> num_fs v"
  defines "r \<equiv> fold (min_step v) [0..<n] (0x7FFFFFFF, - 1)"
  shows "if \<exists>i < n. i \<in> short_term v
    then \<exists>m < n. snd r = int m \<and> m \<in> short_term v \<and> fst r = FrameNumWrap (fs v ! m)
      \<and> (\<forall>i < n. i \<in> short_term v \<longrightarrow> FrameNumWrap (fs v ! m) \<le> FrameNumWrap (fs v ! i))
    else r = (0x7FFFFFFF, - 1)"
  using assms(2) unfolding r_def
proof (induction n)
  case (Suc n)
  let ?r = "fold (min_step v) [0..<n] (0x7FFFFFFF, - 1)"
  have mem: "n \<in> short_term v \<longleftrightarrow> IsReference (fs v ! n) \<noteq> 0 \<and> IsLongTerm (fs v ! n) = 0"
    using Suc.prems by (simp add: short_term_def)
  have step: "fold (min_step v) [0..<Suc n] (0x7FFFFFFF, - 1) = min_step v n ?r" by simp
  show ?case
  proof (cases "\<exists>i < n. i \<in> short_term v")
    case True
    then obtain m where m: "m < n" "snd ?r = int m" "m \<in> short_term v" "fst ?r = FrameNumWrap (fs v ! m)"
        "\<And>i. i < n \<Longrightarrow> i \<in> short_term v \<Longrightarrow> FrameNumWrap (fs v ! m) \<le> FrameNumWrap (fs v ! i)"
      using Suc by auto
    have ex: "\<exists>i < Suc n. i \<in> short_term v" using True less_Suc_eq by blast
    show ?thesis
    proof (cases "n \<in> short_term v \<and> FrameNumWrap (fs v ! n) < FrameNumWrap (fs v ! m)")
      case less: True
      then have "min_step v n ?r = (FrameNumWrap (fs v ! n), int n)"
        using mem m(4) by (simp add: min_step_def)
      moreover have "FrameNumWrap (fs v ! n) \<le> FrameNumWrap (fs v ! i)" if "i < Suc n" "i \<in> short_term v" for i
        using m(5) [of i] less that by (cases "i = n") auto
      ultimately show ?thesis using ex less unfolding step by auto
    next
      case False
      then have "min_step v n ?r = ?r" using mem m(4) by (auto simp: min_step_def)
      moreover have "FrameNumWrap (fs v ! m) \<le> FrameNumWrap (fs v ! i)" if "i < Suc n" "i \<in> short_term v" for i
        using m(5) [of i] False that by (cases "i = n") auto
      ultimately show ?thesis using ex m unfolding step by (auto intro: less_SucI)
    qed
  next
    case False
    then have r: "?r = (0x7FFFFFFF, - 1)" using Suc by simp
    show ?thesis
    proof (cases "n \<in> short_term v")
      case True
      then have "min_step v n ?r = (FrameNumWrap (fs v ! n), int n)"
        using mem assms(1) [OF True] r by (simp add: min_step_def)
      then show ?thesis using True False unfolding step by (auto simp: less_Suc_eq)
    next
      case no: False
      then have "min_step v n ?r = ?r" using mem by (auto simp: min_step_def)
      then show ?thesis using r no False unfolding step by (auto simp: less_Suc_eq)
    qed
  qed
qed simp

lemma min_short_term_spec:
  assumes "\<And>i. i \<in> short_term v \<Longrightarrow> FrameNumWrap (fs v ! i) < 0x7FFFFFFF"
  shows "if short_term v = {} then min_short_term v = - 1
    else \<exists>m \<in> short_term v. min_short_term v = int m
           \<and> (\<forall>i \<in> short_term v. FrameNumWrap (fs v ! m) \<le> FrameNumWrap (fs v ! i))"
proof -
  have lt: "i < num_fs v" if "i \<in> short_term v" for i using that by (simp add: short_term_def)
  then have ex: "(\<exists>i < num_fs v. i \<in> short_term v) \<longleftrightarrow> short_term v \<noteq> {}" by blast
  show ?thesis
    using min_fold [OF assms order_refl] lt unfolding ex min_short_term_def
    by (cases "short_term v = {}") auto
qed

lemma short_term_unmark:
  assumes "num_fs v = length (fs v)" and "i < length (fs v)"
  shows "short_term (unmark_for_reference i v) = short_term v - {i}"
  using assms by (auto simp: short_term_def nth_unmark)

text \<open>
  The window slides over exactly as many short-term frames as are too many, always the ones of
  smallest \<open>FrameNumWrap\<close>, and touches no other frame.
\<close>

definition slid :: "AVCCommonObj \<Rightarrow> nat set \<Rightarrow> AVCCommonObj \<Rightarrow> bool" where
  "slid v S v' \<longleftrightarrow> S \<subseteq> short_term v \<and> num_fs v' = num_fs v \<and> length (fs v') = length (fs v)
     \<and> currFS v' = currFS v
     \<and> (\<forall>i < num_fs v. fs v' ! i = (if i \<in> S then unmarked (fs v ! i) else fs v ! i))
     \<and> (\<forall>i \<in> S. \<forall>j \<in> short_term v - S. FrameNumWrap (fs v ! i) \<le> FrameNumWrap (fs v ! j))"

lemma slide_spec:
  assumes "num_fs v = length (fs v)" and "\<And>i. i \<in> short_term v \<Longrightarrow> FrameNumWrap (fs v ! i) < 0x7FFFFFFF"
    and "card (short_term v) = n" and "nl < num_ref"
  shows "\<exists>S v'. slide num_ref (int n) nl v = (AVC_SUCCESS, v') \<and> slid v S v'
    \<and> card S = nat (int n + nl - num_ref + 1)"
  using assms(1-3)
proof (induction n arbitrary: v)
  case 0
  then show ?case using assms(4)
    by (intro exI [of _ "{}"] exI [of _ v]) (simp add: slide.simps slid_def)
next
  case (Suc n)
  show ?case
  proof (cases "int (Suc n) + nl \<ge> num_ref")
    case False
    then show ?thesis
      by (intro exI [of _ "{}"] exI [of _ v]) (simp add: slide.simps [of num_ref "1 + int n"] slid_def)
  next
    case True
    have "short_term v \<noteq> {}" using Suc.prems(3) by auto
    then obtain m where m: "m \<in> short_term v" "min_short_term v = int m"
        "\<And>i. i \<in> short_term v \<Longrightarrow> FrameNumWrap (fs v ! m) \<le> FrameNumWrap (fs v ! i)"
      using min_short_term_spec [OF Suc.prems(2)] by auto
    let ?u = "unmark_for_reference m v"
    have len: "m < length (fs v)" using m(1) Suc.prems(1) by (simp add: short_term_def)
    have st: "short_term ?u = short_term v - {m}" by (rule short_term_unmark [OF Suc.prems(1) len])
    have "slide num_ref (int (Suc n)) nl v = slide num_ref (int n) nl ?u"
      using True m(2) by (subst slide.simps) (simp add: Let_def)
    moreover have "\<exists>S v'. slide num_ref (int n) nl ?u = (AVC_SUCCESS, v') \<and> slid ?u S v'
        \<and> card S = nat (int n + nl - num_ref + 1)"
    proof (rule Suc.IH)
      show "card (short_term ?u) = n" using Suc.prems(3) m(1) by (simp add: st)
      show "FrameNumWrap (fs ?u ! i) < 0x7FFFFFFF" if "i \<in> short_term ?u" for i
        using that Suc.prems(2) [of i] len by (simp add: st nth_unmark)
    qed (use Suc.prems in simp)
    ultimately obtain S v' where s: "slide num_ref (int (Suc n)) nl v = (AVC_SUCCESS, v')" "slid ?u S v'"
        "card S = nat (int n + nl - num_ref + 1)"
      by auto
    have S: "S \<subseteq> short_term v - {m}" using s(2) by (simp add: slid_def st)
    then have "finite S" by (meson finite_Diff finite_short_term finite_subset)
    moreover have "m \<notin> S" using S by auto
    ultimately have "card (insert m S) = nat (int (Suc n) + nl - num_ref + 1)" using s(3) True by simp
    moreover have "slid v (insert m S) v'"
    proof -
      have "FrameNumWrap (fs v ! i) \<le> FrameNumWrap (fs v ! j)"
        if "i \<in> insert m S" "j \<in> short_term v - insert m S" for i j
      proof (cases "i = m")
        case True
        then show ?thesis using m(3) that(2) by simp
      next
        case False
        then have "i \<in> S" using that(1) by simp
        moreover have "j \<in> short_term ?u - S" using that(2) by (simp add: st)
        ultimately have "FrameNumWrap (fs ?u ! i) \<le> FrameNumWrap (fs ?u ! j)" using s(2) by (simp add: slid_def)
        then show ?thesis using False that(2) len by (simp add: nth_unmark)
      qed
      then show ?thesis using s(2) S m(1) len by (auto simp: slid_def nth_unmark)
    qed
    ultimately show ?thesis using s(1) by blast
  qed
qed

lemma slide_inv: "marking_of v u \<Longrightarrow> marking_of v (snd (slide nr ns nl u))"
proof (induction nr ns nl u rule: slide.induct)
  case (1 nr ns nl u)
  show ?case
  proof (cases "ns + nl \<ge> nr \<and> 0 \<le> min_short_term u")
    case True
    define m where "m = nat (min_short_term u)"
    have "m < num_fs u"
    proof -
      have "snd (fold (min_step u) xs (a, b)) = b \<or> (\<exists>i \<in> set xs. snd (fold (min_step u) xs (a, b)) = int i)"
        for xs a b
        by (induction xs arbitrary: a b) (auto simp: min_step_def)
      from this [of "[0..<num_fs u]" "0x7FFFFFFF" "- 1"] True show ?thesis
        by (auto simp: m_def min_short_term_def)
    qed
    then have "marking_of v (unmark_for_reference m u)" by (rule marking_of_unmark [OF 1(2)])
    then show ?thesis using 1(1) [OF _ refl] True by (subst slide.simps) (simp add: Let_def m_def)
  next
    case False
    then show ?thesis using 1(2) by (subst slide.simps) (auto simp: Let_def)
  qed
qed

lemma sliding_inv: "marking_of v u \<Longrightarrow> marking_of v (snd (sliding_window_process sps u))"
  by (simp add: sliding_window_process_def Let_def slide_inv)

section \<open>An IDR picture\<close>

definition flushed :: "AVCFrameStore \<Rightarrow> AVCFrameStore" where
  "flushed f = f\<lparr>IsReference := 0, IsLongTerm := 0, IsOutputted := IsOutputted f OR 0x02\<rparr>"

lemma idr_flush_release: "idr_flush ii v = (if ii \<noteq> currFS v then release flushed ii v else v)"
  by (simp add: idr_flush_def release_def flushed_def [abs_def])

lemma releases_flushed: "releases flushed"
  by (simp add: releases_def flushed_def)

lemma idr_flush_all:
  assumes "marking_inv v"
  shows "marking_of v (for_fs idr_flush v)"
    and "fs (for_fs idr_flush v) = map (\<lambda>i. if i \<noteq> currFS v then flushed (fs v ! i) else fs v ! i) [0..<length (fs v)]"
proof -
  show "marking_of v (for_fs idr_flush v)"
    by (rule marking_of_for_fs)
      (auto simp: idr_flush_release marking_of_def assms intro: marking_inv_release releases_flushed)
  show "fs (for_fs idr_flush v) = map (\<lambda>i. if i \<noteq> currFS v then flushed (fs v ! i) else fs v ! i) [0..<length (fs v)]"
    using for_fs_map [of "\<lambda>u. currFS u = currFS v" idr_flush
        "\<lambda>i f. if i \<noteq> currFS v then flushed f else f" v] marking_inv_num [OF assms]
    by (auto simp: idr_flush_release fs_release)
qed

text \<open>The state between the marking of the current frame and the loop that drops the outputs.\<close>

definition idr_inv :: "AVCCommonObj \<Rightarrow> AVCCommonObj \<Rightarrow> bool" where
  "idr_inv v u \<longleftrightarrow> marking_of v u
     \<and> (\<forall>i < num_fs v. i \<noteq> currFS v \<longrightarrow> IsReference (fs u ! i) = 0 \<and> IsLongTerm (fs u ! i) = 0)
     \<and> IsReference (fs u ! currFS v) = 3"

lemma idr_drop_inv:
  assumes "idr_inv v u" and "ii < num_fs u"
  shows "idr_inv v (idr_drop ii u)"
proof (cases "ii = currFS u")
  case True
  then show ?thesis using assms by (simp add: idr_drop_def)
next
  case False
  have u: "marking_inv u" "num_fs u = num_fs v" "currFS u = currFS v"
      "\<And>i. i < num_fs v \<Longrightarrow> i \<noteq> currFS v \<Longrightarrow> IsReference (fs u ! i) = 0 \<and> IsLongTerm (fs u ! i) = 0"
    using assms(1) by (auto simp: idr_inv_def marking_of_def)
  note num = marking_inv_num [OF u(1)]
  have len: "ii < length (fs u)" using num assms(2) by simp
  have wf: "dpb_wf u" using u(1) by (simp add: marking_inv_def)
  have "store_ok ((fs u ! ii)\<lparr>IsOutputted := 3\<rparr>)"
    using wf_nth [OF wf assms(2)] by (simp add: store_ok_def)
  from dpb_wf_upd [where g = "\<lambda>f. f\<lparr>IsOutputted := 3\<rparr>", OF wf assms(2) this]
  have wf': "dpb_wf (upd_fs ii (\<lambda>f. f\<lparr>IsOutputted := 3\<rparr>) u)" .
  have d: "idr_drop ii u = CBAVC_FrameUnbind ii (upd_fs ii (\<lambda>f. f\<lparr>IsOutputted := 3\<rparr>) u)"
    using False by (simp add: idr_drop_def)
  have free: "free_store ((fs u ! ii)\<lparr>IsOutputted := 3\<rparr>)"
    using u(4) [of ii] False assms(2) u(2,3) by (simp add: free_store_def)
  have inv: "marking_inv (idr_drop ii u)"
    using u(1) wf' free False len num assms(2)
    by (auto simp: d marking_inv_def dpb_wf_def list_all_iff nth_upd_fs free_store_def)
  show ?thesis
    using assms(1) inv False len u
    by (auto simp: idr_inv_def marking_of_def d nth_upd_fs)
qed

lemma store_IDR_inv:
  assumes v: "marking_inv v"
  shows "idr_inv v (store_IDR h v)"
proof -
  let ?a = "for_fs idr_flush v"
  note a = idr_flush_all [OF v]
  note num = marking_inv_num [OF v]
  have ai: "marking_inv ?a" "currFS ?a = currFS v" "num_fs ?a = num_fs v" "nal_is_IDR ?a = nal_is_IDR v"
    using a(1) by (auto simp: marking_of_def)
  have alen: "length (fs ?a) = length (fs v)" by (simp add: a(2))
  have ref: "IsReference (fs ?a ! i) = 0 \<and> IsLongTerm (fs ?a ! i) = 0" if "i < num_fs v" "i \<noteq> currFS v" for i
    using that num by (simp add: a(2) flushed_def)
  define mark where "mark f = (if \<not> long_term_reference_flag h
      then f\<lparr>IsReference := 3, frame := (frame f)\<lparr>isReference := True, isLongTerm := False\<rparr>, IsLongTerm := 0\<rparr>
      else f\<lparr>IsReference := 3, frame := (frame f)\<lparr>isReference := True, isLongTerm := True\<rparr>, IsLongTerm := 3,
             LongTermFrameIdx := 0\<rparr>)" for f :: AVCFrameStore
  define b where "b = (upd_fs (currFS v) mark ?a)
      \<lparr>MaxLongTermFrameIdx := (if long_term_reference_flag h then 0 else - 1)\<rparr>"
  have c: "currFS v < num_fs ?a" using num ai by simp
  have "store_ok (fs ?a ! currFS v)" using ai c wf_nth by (simp add: marking_inv_def)
  then have "marking_inv (upd_fs (currFS v) mark ?a)"
    using current_used [OF ai(1)] ai c by (intro marking_inv_upd) (auto simp: mark_def store_ok_def)
  then have "idr_inv v b"
    using ai ref num alen by (auto simp: b_def idr_inv_def marking_of_def nth_upd_fs mark_def)
  moreover have "store_IDR h v
      = (if no_output_of_prior_pics_flag h then for_fs idr_drop b else b)\<lparr>mem_mgr_ctrl_eq_5 := True\<rparr>"
    using ai num alen
    by (auto simp: store_IDR_def Let_def b_def mark_def [abs_def] upd_fs_def)
  moreover have "idr_inv v (for_fs idr_drop b)" if b: "idr_inv v b"
  proof (rule for_fs_inv [where I = "idr_inv v", OF _ _ b])
    show "idr_inv v (idr_drop ii u)" if "ii < num_fs u" "idr_inv v u" for ii u
      using idr_drop_inv that by simp
    show "num_fs u = num_fs b" if "idr_inv v u" for ii :: nat and u
      using that b by (simp add: idr_inv_def marking_of_def)
  qed
  moreover have "idr_inv v (u\<lparr>mem_mgr_ctrl_eq_5 := True\<rparr>) = idr_inv v u" for u
    by (simp add: idr_inv_def marking_of_def)
  ultimately show ?thesis by simp
qed

section \<open>Storing a picture\<close>

lemma count_fs_card: "count_fs P v = int (card {i. i < num_fs v \<and> P i})"
proof -
  have "{i. i < num_fs v \<and> P i} = set (filter P [0..<num_fs v])" by auto
  then show ?thesis
    using distinct_card [of "filter P [0..<num_fs v]"] by (simp only: count_fs_def) simp
qed

lemma marking_inv_upd_current:
  assumes "marking_inv v" and "store_ok (g (fs v ! currFS v))"
    and "IsOutputted (g (fs v ! currFS v)) = IsOutputted (fs v ! currFS v)"
  shows "marking_inv (upd_fs (currFS v) g v)"
  using assms current_used [OF assms(1)] marking_inv_num [OF assms(1)] by (intro marking_inv_upd) simp_all

lemma store_finish_inv:
  assumes "marking_of v u"
  shows "marking_of v (snd (store_finish sps u))"
proof -
  have u: "marking_inv u" "num_fs u = num_fs v" "currFS u = currFS v" "nal_is_IDR u = nal_is_IDR v"
    using assms by (simp_all add: marking_of_def)
  have "store_ok (fs u ! currFS u)" using u(1) wf_nth marking_inv_num [OF u(1)] by (simp add: marking_inv_def)
  then have "marking_inv (upd_fs (currFS u) (\<lambda>f. f\<lparr>IsReference := (if isReference (frame f) then 3 else 0),
      IsLongTerm := 0\<rparr>) u)"
    by (intro marking_inv_upd_current [OF u(1)]) (simp_all add: store_ok_def)
  then show ?thesis using assms u by (simp add: store_finish_def Let_def marking_of_def)
qed

lemma StorePictureInDPB_inv:
  assumes "marking_inv v"
  shows "marking_of v (snd (StorePictureInDPB sps h v))"
proof -
  have v: "marking_of v v" using assms by (rule marking_of_refl)
  have "marking_of v (store_IDR h v)" using store_IDR_inv [OF assms, of h] by (simp add: idr_inv_def)
  then show ?thesis
    using v sliding_inv [OF v, of sps] adaptive_inv [OF v, of h]
    by (auto simp: StorePictureInDPB_def store_finish_inv split: prod.splits)
qed

lemma StorePictureInDPB_refs:
  assumes "fst (StorePictureInDPB sps h v) = AVC_SUCCESS"
  shows "int (card {i. i < num_fs (snd (StorePictureInDPB sps h v))
      \<and> IsReference (fs (snd (StorePictureInDPB sps h v)) ! i) \<noteq> 0}) \<le> num_ref_frames sps"
proof -
  have fin: "int (card {i. i < num_fs (snd (store_finish sps u)) \<and> IsReference (fs (snd (store_finish sps u)) ! i) \<noteq> 0})
      \<le> num_ref_frames sps" if "fst (store_finish sps u) = AVC_SUCCESS" for u
    using that by (auto simp: store_finish_def Let_def count_fs_card split: if_splits)
  show ?thesis using assms
    by (auto simp: StorePictureInDPB_def Let_def fin split: prod.splits if_splits)
qed

text \<open>
  With the sliding window, and fewer long-term frames than references allowed, storing a reference
  picture succeeds: the surplus short-term frames of smallest \<open>FrameNumWrap\<close> are released, every other
  frame keeps its marks and the current one becomes a short-term reference.
\<close>

definition long_term :: "AVCCommonObj \<Rightarrow> nat set" where
  "long_term v = {i. i < num_fs v \<and> IsLongTerm (fs v ! i) \<noteq> 0}"

lemma StorePictureInDPB_sliding:
  assumes inv: "marking_inv v" and kind: "\<not> nal_is_IDR v" "isReference (currPic v)" "\<not> isLongTerm (currPic v)"
      "\<not> adaptive_ref_pic_marking_mode_flag h"
    and cur: "IsReference (fs v ! currFS v) = 0"
    and wrap: "\<And>i. i \<in> short_term v \<Longrightarrow> FrameNumWrap (fs v ! i) < 0x7FFFFFFF"
    and long: "int (card (long_term v)) < num_ref_frames sps"
  shows "\<exists>S v'. StorePictureInDPB sps h v = (AVC_SUCCESS, v') \<and> S \<subseteq> short_term v
     \<and> int (card S) = max 0 (int (card (short_term v) + card (long_term v)) - num_ref_frames sps + 1)
     \<and> (\<forall>i \<in> S. \<forall>j \<in> short_term v - S. FrameNumWrap (fs v ! i) \<le> FrameNumWrap (fs v ! j))
     \<and> short_term v' = insert (currFS v) (short_term v - S) \<and> long_term v' = long_term v"
proof -
  note num = marking_inv_num [OF inv]
  have cur_ok: "store_ok (fs v ! currFS v)" using inv num wf_nth by (simp add: marking_inv_def)
  then have cur_lt: "IsLongTerm (fs v ! currFS v) = 0" using cur by (auto simp: store_ok_def)
  have lt_ref: "IsReference (fs v ! i) \<noteq> 0" if "i \<in> long_term v" for i
  proof -
    have "store_ok (fs v ! i)" using that inv wf_nth by (simp add: long_term_def marking_inv_def)
    then show ?thesis using that by (auto simp: store_ok_def long_term_def)
  qed
  have c: "currFS v \<notin> short_term v" "currFS v \<notin> long_term v"
    using cur cur_lt by (simp_all add: short_term_def long_term_def)
  have ns: "count_fs (\<lambda>ii. ii \<noteq> currFS v \<and> IsLongTerm (fs v ! ii) = 0 \<and> IsReference (fs v ! ii) \<noteq> 0) v
      = int (card (short_term v))"
    unfolding count_fs_card short_term_def using cur by (intro arg_cong [of _ _ "\<lambda>s. int (card s)"]) auto
  have nl: "count_fs (\<lambda>ii. ii \<noteq> currFS v \<and> IsLongTerm (fs v ! ii) \<noteq> 0) v = int (card (long_term v))"
    unfolding count_fs_card long_term_def using cur_lt by (intro arg_cong [of _ _ "\<lambda>s. int (card s)"]) auto
  obtain S u where S: "slide (num_ref_frames sps) (int (card (short_term v))) (int (card (long_term v))) v = (AVC_SUCCESS, u)"
      "slid v S u" "card S = nat (int (card (short_term v)) + int (card (long_term v)) - num_ref_frames sps + 1)"
    using slide_spec [OF _ wrap refl long] num by blast
  have u: "S \<subseteq> short_term v" "num_fs u = num_fs v" "length (fs u) = length (fs v)" "currFS u = currFS v"
      "\<And>i. i < num_fs v \<Longrightarrow> fs u ! i = (if i \<in> S then unmarked (fs v ! i) else fs v ! i)"
      "\<forall>i \<in> S. \<forall>j \<in> short_term v - S. FrameNumWrap (fs v ! i) \<le> FrameNumWrap (fs v ! j)"
    using S(2) by (auto simp: slid_def)
  have sw: "sliding_window_process sps v = (AVC_SUCCESS, u)"
    unfolding sliding_window_process_def Let_def ns nl by (rule S(1))
  have idr: "nal_is_IDR u = nal_is_IDR v"
    using sliding_inv [OF marking_of_refl [OF inv], of sps] by (simp add: sw marking_of_def)
  have fc: "fs u ! currFS v = fs v ! currFS v" using u(1,5) c num by auto
  define w where "w = upd_fs (currFS v) (\<lambda>f. f\<lparr>IsReference := (if isReference (frame f) then 3 else 0), IsLongTerm := 0\<rparr>) u"
  have nth: "fs w ! i = (if i = currFS v then (fs v ! i)\<lparr>IsReference := 3, IsLongTerm := 0\<rparr>
      else if i \<in> S then unmarked (fs v ! i) else fs v ! i)" if "i < num_fs v" for i
    using that u(3,5) num fc kind(2) by (auto simp: w_def nth_upd_fs currPic_def)
  have nw: "num_fs w = num_fs v" by (simp add: w_def u(2))
  have st: "short_term w = insert (currFS v) (short_term v - S)"
  proof (rule set_eqI)
    fix i
    show "i \<in> short_term w \<longleftrightarrow> i \<in> insert (currFS v) (short_term v - S)"
      using num nth [of i] by (cases "i = currFS v"; cases "i \<in> S") (auto simp: short_term_def nw)
  qed
  have lt: "long_term w = long_term v"
  proof (rule set_eqI)
    fix i
    show "i \<in> long_term w \<longleftrightarrow> i \<in> long_term v"
      using num nth [of i] cur_lt u(1)
      by (cases "i = currFS v"; cases "i \<in> S") (auto simp: long_term_def short_term_def nw)
  qed
  have refs: "{i. i < num_fs w \<and> IsReference (fs w ! i) \<noteq> 0} = short_term w \<union> long_term w"
  proof -
    have "num_fs w = num_fs v" by (simp add: w_def u(2))
    moreover have "IsReference (fs w ! i) \<noteq> 0" if "i \<in> long_term w" for i
      using that lt_ref [of i] c(2) u(1) nth [of i] unfolding lt
      by (auto simp: long_term_def short_term_def)
    ultimately show ?thesis by (auto simp: short_term_def long_term_def)
  qed
  have finS: "finite S" using u(1) finite_subset finite_short_term by blast
  have finl: "finite (long_term v)" by (simp add: long_term_def)
  have disj: "short_term w \<inter> long_term w = {}" by (auto simp: short_term_def long_term_def)
  have "card (short_term v - S) = card (short_term v) - card S"
    using u(1) finS by (simp add: card_Diff_subset)
  moreover have "card S \<le> card (short_term v)" using u(1) by (simp add: card_mono)
  ultimately have "int (card (short_term w)) = int (card (short_term v)) - int (card S) + 1"
    unfolding st using c(1) by simp
  moreover have "card (short_term w \<union> long_term w) = card (short_term w) + card (long_term v)"
    using disj finl by (simp add: card_Un_disjoint lt)
  moreover have "int (card S) \<ge> int (card (short_term v)) + int (card (long_term v)) - num_ref_frames sps + 1"
    using S(3) by simp
  ultimately have "\<not> count_fs (\<lambda>ii. IsReference (fs w ! ii) \<noteq> 0) w > num_ref_frames sps"
    unfolding count_fs_card refs by linarith
  then have "store_finish sps u = (AVC_SUCCESS, w)"
    using kind u(4) idr fc by (simp add: store_finish_def Let_def currPic_def w_def)
  then have "StorePictureInDPB sps h v = (AVC_SUCCESS, w)"
    using kind sw by (simp add: StorePictureInDPB_def)
  then show ?thesis using u(1,6) S(3) st lt by (intro exI [of _ S] exI [of _ w]) auto
qed

section \<open>What the control operations do\<close>

lemma unmark_fs: "fs (unmark_for_reference i v) = (fs v)[i := unmarked (fs v ! i)]"
  by (simp add: unmark_release fs_release)

lemma unmark_lt_fs:
  assumes "num_fs v = length (fs v)"
  shows "fs (unmark_long_term_frame_for_reference_by_frame_idx l v)
      = map (\<lambda>i. if IsLongTerm (fs v ! i) \<noteq> 0 \<and> LongTermFrameIdx (fs v ! i) = sint l
                 then unmarked (fs v ! i) else fs v ! i) [0..<length (fs v)]"
    and "num_fs (unmark_long_term_frame_for_reference_by_frame_idx l v) = num_fs v"
    and "currFS (unmark_long_term_frame_for_reference_by_frame_idx l v) = currFS v"
  unfolding unmark_long_term_frame_for_reference_by_frame_idx_def
  using for_fs_map [of "\<lambda>u. currFS u = currFS v" "\<lambda>ii v. if IsLongTerm (fs v ! ii) \<noteq> 0 \<and> LongTermFrameIdx (fs v ! ii) = sint l
      then unmark_for_reference ii v else v" "\<lambda>i f. if IsLongTerm f \<noteq> 0 \<and> LongTermFrameIdx f = sint l
      then unmarked f else f" v] assms
  by (auto simp: unmark_fs)

lemma Op4_fs:
  assumes "num_fs v = length (fs v)"
  shows "fs (MemMgrCtrlOp4 m v)
      = map (\<lambda>i. if IsLongTerm (fs v ! i) \<noteq> 0 \<and> i \<noteq> currFS v \<and> LongTermFrameIdx (fs v ! i) > sint (m - 1)
                 then unmarked (fs v ! i) else fs v ! i) [0..<length (fs v)]"
    and "MaxLongTermFrameIdx (MemMgrCtrlOp4 m v) = sint (m - 1)"
  unfolding MemMgrCtrlOp4_def Let_def
  using for_fs_map [of "\<lambda>u. currFS u = currFS v \<and> MaxLongTermFrameIdx u = sint (m - 1)"
      "\<lambda>ii u. if IsLongTerm (fs u ! ii) \<noteq> 0 \<and> ii \<noteq> currFS u \<and> LongTermFrameIdx (fs u ! ii) > MaxLongTermFrameIdx u
              then unmark_for_reference ii u else u"
      "\<lambda>i f. if IsLongTerm f \<noteq> 0 \<and> i \<noteq> currFS v \<and> LongTermFrameIdx f > sint (m - 1) then unmarked f else f"
      "v\<lparr>MaxLongTermFrameIdx := sint (m - 1)\<rparr>"] assms
  by (auto simp: unmark_fs)

lemma Op5_fs:
  assumes "num_fs v = length (fs v)"
  shows "fs (MemMgrCtrlOp5 v) = map (\<lambda>i. if i \<noteq> currFS v then unmarked (fs v ! i) else fs v ! i) [0..<length (fs v)]"
    and "MaxLongTermFrameIdx (MemMgrCtrlOp5 v) = - 1" and "mem_mgr_ctrl_eq_5 (MemMgrCtrlOp5 v)"
  unfolding MemMgrCtrlOp5_def Let_def
  using for_fs_map [of "\<lambda>u. currFS u = currFS v \<and> MaxLongTermFrameIdx u = - 1"
      "\<lambda>ii u. if ii \<noteq> currFS u then unmark_for_reference ii u else u"
      "\<lambda>i f. if i \<noteq> currFS v then unmarked f else f" "v\<lparr>MaxLongTermFrameIdx := - 1\<rparr>"] assms
  by (auto simp: unmark_fs)

text \<open>No two frames ever have the same long-term frame index.\<close>

definition lt_distinct :: "AVCCommonObj \<Rightarrow> bool" where
  "lt_distinct v \<longleftrightarrow> (\<forall>i < length (fs v). \<forall>j < length (fs v). i \<noteq> j \<longrightarrow> IsLongTerm (fs v ! i) \<noteq> 0
     \<longrightarrow> IsLongTerm (fs v ! j) \<noteq> 0 \<longrightarrow> LongTermFrameIdx (fs v ! i) \<noteq> LongTermFrameIdx (fs v ! j))"

lemma lt_distinct_fewer:
  assumes "lt_distinct v" and "length (fs w) = length (fs v)"
    and "\<And>i. i < length (fs v) \<Longrightarrow> IsLongTerm (fs w ! i) \<noteq> 0 \<Longrightarrow>
      IsLongTerm (fs v ! i) \<noteq> 0 \<and> LongTermFrameIdx (fs w ! i) = LongTermFrameIdx (fs v ! i)"
  shows "lt_distinct w"
  using assms unfolding lt_distinct_def by metis

lemma lt_distinct_new:
  assumes "lt_distinct v" and "\<And>i. i < length (fs v) \<Longrightarrow> IsLongTerm (fs v ! i) \<noteq> 0 \<Longrightarrow> LongTermFrameIdx (fs v ! i) \<noteq> l"
    and "\<And>f. LongTermFrameIdx (g f) = l"
  shows "lt_distinct (upd_fs k g v)"
  using assms unfolding lt_distinct_def upd_fs_def
  by (cases "k < length (fs v)") (auto simp: nth_list_update)

lemma lt_distinct_unmark_lt:
  fixes l :: uint
  assumes "lt_distinct v" and "num_fs v = length (fs v)"
  defines "w \<equiv> unmark_long_term_frame_for_reference_by_frame_idx l v"
  shows "lt_distinct w" and "length (fs w) = length (fs v)" and "num_fs w = length (fs w)"
    and "\<And>i. i < length (fs w) \<Longrightarrow> IsLongTerm (fs w ! i) \<noteq> 0 \<Longrightarrow> LongTermFrameIdx (fs w ! i) \<noteq> sint l"
proof -
  note f = unmark_lt_fs [OF assms(2), of l, folded w_def]
  show len: "length (fs w) = length (fs v)" and "num_fs w = length (fs w)" using f assms(2) by simp_all
  show "lt_distinct w"
    by (rule lt_distinct_fewer [OF assms(1) len]) (auto simp: f(1) split: if_splits)
  show "LongTermFrameIdx (fs w ! i) \<noteq> sint l" if "i < length (fs w)" "IsLongTerm (fs w ! i) \<noteq> 0" for i
    using that len by (auto simp: f(1) split: if_splits)
qed

lemma lt_distinct_step:
  assumes v: "lt_distinct v" "num_fs v = length (fs v)"
  shows "lt_distinct (mmco_step h ii v) \<and> num_fs (mmco_step h ii v) = length (fs (mmco_step h ii v))"
proof -
  have un: "lt_distinct (unmark_for_reference i v) \<and> num_fs (unmark_for_reference i v) = length (fs (unmark_for_reference i v))"
    if "i < num_fs v" for i
    using v that by (intro conjI lt_distinct_fewer [OF v(1)]) (auto simp: nth_unmark split: if_splits)
  have op1: "lt_distinct (MemMgrCtrlOp1 d v) \<and> num_fs (MemMgrCtrlOp1 d v) = length (fs (MemMgrCtrlOp1 d v))" for d
    using un v by (auto simp: MemMgrCtrlOp1_def Let_def dest: first_fs_Some split: option.split)
  have op2: "lt_distinct (MemMgrCtrlOp2 l v) \<and> num_fs (MemMgrCtrlOp2 l v) = length (fs (MemMgrCtrlOp2 l v))" for l
  proof -
    have "fs (MemMgrCtrlOp2 l v) = map (\<lambda>i. if IsLongTerm (fs v ! i) = 3 \<and> LongTermPicNum (frame (fs v ! i)) = sint l
        then unmarked (fs v ! i) else fs v ! i) [0..<length (fs v)] \<and> num_fs (MemMgrCtrlOp2 l v) = num_fs v"
      unfolding MemMgrCtrlOp2_def
      using for_fs_map [of "\<lambda>u. True" "\<lambda>ii v. if IsLongTerm (fs v ! ii) = 3 \<and> LongTermPicNum (frame (fs v ! ii)) = sint l
          then unmark_for_reference ii v else v" "\<lambda>i f. if IsLongTerm f = 3 \<and> LongTermPicNum (frame f) = sint l
          then unmarked f else f" v] v(2)
      by (auto simp: unmark_fs)
    then show ?thesis using v(2)
      by (intro conjI lt_distinct_fewer [OF v(1)]) (auto split: if_splits)
  qed
  have op3: "lt_distinct (MemMgrCtrlOp3 d l v) \<and> num_fs (MemMgrCtrlOp3 d l v) = length (fs (MemMgrCtrlOp3 d l v))" for d l
    using lt_distinct_unmark_lt [where l = l, OF v]
    by (auto simp: MemMgrCtrlOp3_def Let_def intro!: lt_distinct_new split: option.split)
  have op4: "lt_distinct (MemMgrCtrlOp4 m v) \<and> num_fs (MemMgrCtrlOp4 m v) = length (fs (MemMgrCtrlOp4 m v))" for m
  proof -
    have "num_fs (MemMgrCtrlOp4 m v) = num_fs v"
      unfolding MemMgrCtrlOp4_def Let_def
      by (rule for_fs_inv [where I = "\<lambda>u. num_fs u = num_fs v"]) simp_all
    then show ?thesis using v(2) Op4_fs(1) [OF v(2), of m]
      by (intro conjI lt_distinct_fewer [OF v(1)]) (auto split: if_splits)
  qed
  have op5: "lt_distinct (MemMgrCtrlOp5 v) \<and> num_fs (MemMgrCtrlOp5 v) = length (fs (MemMgrCtrlOp5 v))"
  proof -
    have "num_fs (MemMgrCtrlOp5 v) = num_fs v"
      unfolding MemMgrCtrlOp5_def Let_def
      using for_fs_inv [where I = "\<lambda>u. num_fs u = num_fs v"
          and body = "\<lambda>ii u. if ii \<noteq> currFS u then unmark_for_reference ii u else u"
          and v = "v\<lparr>MaxLongTermFrameIdx := - 1\<rparr>"] by simp
    then show ?thesis using v(2) Op5_fs(1) [OF v(2)]
      by (intro conjI lt_distinct_fewer [OF v(1)]) (auto split: if_splits)
  qed
  have op5': "lt_distinct (upd_fs k (\<lambda>f. f\<lparr>FrameNum := 0, fs_PicOrderCnt := 0\<rparr>) (MemMgrCtrlOp5 v))" for k
    using op5 by (cases "k < length (fs (MemMgrCtrlOp5 v))"; intro lt_distinct_fewer [OF conjunct1 [OF op5]])
      (auto simp: upd_fs_def nth_list_update split: if_splits)
  have op6: "lt_distinct (MemMgrCtrlOp6 l v) \<and> num_fs (MemMgrCtrlOp6 l v) = length (fs (MemMgrCtrlOp6 l v))" for l
    using lt_distinct_unmark_lt [where l = l, OF v] by (auto simp: MemMgrCtrlOp6_def Let_def intro!: lt_distinct_new)
  show ?thesis
    using v op1 op2 op3 op4 op5 op5' op6 by (simp add: mmco_step_def Let_def)
qed

lemma lt_distinct_loop:
  "lt_distinct v \<Longrightarrow> num_fs v = length (fs v) \<Longrightarrow> lt_distinct (snd (mmco_loop h ii v))"
proof (induction h ii v rule: mmco_loop.induct)
  case (1 h ii v)
  then show ?case
    using lt_distinct_step [OF 1(2,3), of h ii] by (subst mmco_loop.simps) simp
qed

section \<open>Getting a frame\<close>

text \<open>
  A buffer with more stores than references, in which every frame that is no reference has been
  output, always has a frame for the next picture.
\<close>

lemma DPBInitBuffer_finds:
  assumes refs: "card {i. i < num_fs v \<and> IsReference (fs v ! i) \<noteq> 0} < num_fs v"
    and out: "\<And>i. i < num_fs v \<Longrightarrow> IsReference (fs v ! i) = 0 \<Longrightarrow> IsOutputted (fs v ! i) = 3"
    and fbind: "\<And>i. fbind i \<noteq> None"
  shows "\<exists>ii v'. DPBInitBuffer fbind v = (AVC_SUCCESS, v') \<and> currFS v' = ii \<and> ii < num_fs v
     \<and> IsReference (fs v ! ii) = 0 \<and> IsOutputted (fs v ! ii) = 3
     \<and> (\<forall>jj < ii. IsReference (fs v ! jj) \<noteq> 0)"
proof -
  let ?P = "\<lambda>f. IsReference f = 0 \<and> IsOutputted f = (3::int)"
  have "first_fs ?P v \<noteq> None"
  proof
    assume "first_fs ?P v = None"
    then have "{i. i < num_fs v \<and> IsReference (fs v ! i) \<noteq> 0} = {0..<num_fs v}"
      using out by (auto simp: first_fs_None)
    then show False using refs by simp
  qed
  then obtain ii where ii: "first_fs ?P v = Some ii" by blast
  obtain a where "fbind ii = Some a" using fbind by blast
  then show ?thesis using ii first_fs_Some [OF ii] out
    by (auto simp: DPBInitBuffer_def)
qed

section \<open>Allocation\<close>

lemma alloc_stores_ok:
  assumes "\<And>i. alloc i \<noteq> None" and "list_all (\<lambda>f. IsReference f = 0 \<and> IsLongTerm f = 0 \<and> IsOutputted f = 3) (fs v)"
  shows "\<exists>v'. alloc_stores alloc b k v = (AVC_SUCCESS, v') \<and> length (fs v') = length (fs v) + k
     \<and> num_fs v' = num_fs v \<and> list_all (\<lambda>f. IsReference f = 0 \<and> IsLongTerm f = 0 \<and> IsOutputted f = 3) (fs v')
     \<and> used_size v' = used_size v + int k * b"
  using assms(2)
proof (induction k arbitrary: v)
  case (Suc k)
  obtain f where f: "alloc (length (fs v)) = Some f" using assms(1) by blast
  let ?u = "v\<lparr>fs := fs v @ [init_store (int (length (fs v))) f],
    RefPicList0 := (RefPicList0 v)[length (fs v) := Some (length (fs v))], used_size := used_size v + b\<rparr>"
  have "list_all (\<lambda>f. IsReference f = 0 \<and> IsLongTerm f = 0 \<and> IsOutputted f = 3) (fs ?u)"
    using Suc.prems by (simp add: init_store_def)
  from Suc.IH [OF this] show ?case using f by (auto simp: Let_def algebra_simps)
qed simp

lemma InitDPB_spec:
  assumes "\<And>i. alloc i \<noteq> None" and "dpb_capacity (level_idc sps) (h * w) = Some n0"
    and "0 \<le> num_ref_frames sps" and "num_ref_frames sps \<le> 16"
  shows "\<exists>v'. InitDPB alloc sps h w padding v = Some (AVC_SUCCESS, v')
     \<and> num_fs v' = length (fs v') \<and> num_ref_frames sps < int (num_fs v') \<and> num_fs v' \<le> MAX_FS
     \<and> list_all free_store (fs v') \<and> used_size v' = dpb_size v'"
proof -
  define fsz where "fsz = h * w * 128 * 3"
  define psz where "psz = (if padding then (h + 2) * (w + 2) * 128 * 3 - fsz else 0)"
  define n1 where "n1 = (if n0 > int MAX_FS then int MAX_FS else n0)"
  define n where "n = (if num_ref_frames sps + 1 > n1 then num_ref_frames sps + 1 else n1)"
  have n: "num_ref_frames sps < n" "n \<le> 17" using assms(3,4) by (auto simp: n_def n1_def MAX_FS_def)
  let ?u = "v\<lparr>fs := [], num_fs := nat n, padded_size := psz, dpb_size := n * (fsz + psz), used_size := 0\<rparr>"
  obtain v' where v': "alloc_stores alloc (fsz + psz) (nat n) ?u = (AVC_SUCCESS, v')" "length (fs v') = nat n"
      "num_fs v' = nat n" "list_all (\<lambda>f. IsReference f = 0 \<and> IsLongTerm f = 0 \<and> IsOutputted f = 3) (fs v')"
      "used_size v' = n * (fsz + psz)"
    using alloc_stores_ok [where alloc = alloc and v = ?u and b = "fsz + psz" and k = "nat n"] assms(1) n assms(3) by auto
  have "dpb_size (snd (alloc_stores alloc b k u)) = dpb_size u" for b k u
    by (induction k arbitrary: u) (simp_all add: Let_def split: option.split)
  from this [of "fsz + psz" "nat n" ?u] have "dpb_size v' = n * (fsz + psz)" by (simp add: v'(1))
  moreover have "InitDPB alloc sps h w padding v = Some (AVC_SUCCESS, v')"
  proof -
    have "InitDPB alloc sps h w padding v
        = (if n > int MAX_FS then None else Some (alloc_stores alloc (fsz + psz) (nat n) ?u))"
      by (simp only: InitDPB_def Let_def assms(2) Option.bind.simps fsz_def psz_def n_def n1_def)
    then show ?thesis using v'(1) n by (simp add: MAX_FS_def)
  qed
  ultimately show ?thesis using v' n assms(3)
    by (auto simp: MAX_FS_def list_all_iff free_store_def)
qed

end
