(* ===== verification/Samples.thy ===== *)
theory Samples
  imports DpbMarking
begin

text \<open>
  Concrete values the witnesses of the property theories share: a buffer of three frames, a slice
  header and a sequence parameter set.
\<close>

definition demo_pic :: AVCPictureData where
  "demo_pic = \<lparr>RefIdx = 0, picType = AVC_FRAME, Sl = None, Scb = None, Scr = None, isReference = False,
     isLongTerm = False, pic_PicOrderCnt = 0, PicNum = 0, LongTermPicNum = 0, width = 16, height = 16, pitch = 16, padded = 0\<rparr>"

definition demo_store :: "int \<Rightarrow> int \<Rightarrow> int \<Rightarrow> int \<Rightarrow> AVCFrameStore" where
  "demo_store ref lt out num =
     \<lparr>base_dpb = 0, IsReference = ref, IsLongTerm = lt, IsOutputted = out,
      frame = demo_pic\<lparr>isReference := ref = 3, isLongTerm := lt = 3, PicNum := num\<rparr>,
      FrameNum = num, FrameNumWrap = num, LongTermFrameIdx = 0, fs_PicOrderCnt = 2 * num\<rparr>"

definition demo_video :: "AVCFrameStore list \<Rightarrow> nat \<Rightarrow> bool \<Rightarrow> AVCCommonObj" where
  "demo_video stores cur idr =
     \<lparr>fs = stores, num_fs = length stores, dpb_size = 0, used_size = 0, currFS = cur, unbound = [],
      RefPicList0 = replicate 33 None, RefPicList1 = replicate 33 None, refList0Size = 0, refList1Size = 0,
      slice_type = 0, MaxFrameNum = 16, MaxPicNum = 16, nal_is_IDR = idr, MaxLongTermFrameIdx = - 1,
      mem_mgr_ctrl_eq_5 = False, CurrPicNum = 3, vid_PicOrderCnt = 6, padded_size = 0,
      PicWidthInSamplesL = 16, PicHeightInSamplesL = 16, PicWidthInMbs = 1, FrameHeightInMbs = 1,
      PicSizeInMbs = 1, PicSizeInMapUnits = 1, PicHeightInMapUnits = 1, MapUnitsInSliceGroup0 = 0, vid_level_idc = 10,
      nal_ref_idc = 1, MaxPicOrderCntLsb = 16, TopFieldOrderCnt = 0, BottomFieldOrderCnt = 0, prevPicOrderCntMsb = 0,
      prevPicOrderCntLsb = 0, PicOrderCntMsb = 0, prevFrameNumOffset = 0, FrameNumOffset = 0, prevFrameNum = 2, PrevRefFrameNum = 2,
      absFrameNum = 0, picOrderCntCycleCnt = 0, frameNumInPicOrderCntCycle = 0, expectedDeltaPerPicOrderCntCycle = 0,
      expectedPicOrderCnt = 0, mblock_slice_ids = None,
      intra_pred_top = None, intra_pred_top_cb = None, intra_pred_top_cr = None, MbToSliceGroupMap = None,
      currPicParams = 0, currSeqParams = 0, vid_seq_parameter_set_id = 9999, PicWidthInSamplesC = 8, PicHeightInMbs = 1,
      PicHeightInSamplesC = 8, SliceGroupChangeRate = 1, vid_LongTermFrameIdx = 0, vid_QPy = 26, vid_QPc = 26, QPy_div_6 = 4,
      QPy_mod_6 = 2, QPc_div_6 = 4, QPc_mod_6 = 2, FilterOffsetA = 0, FilterOffsetB = 0, mbNum = 0\<rparr>"

definition demo_hdr :: AVCSliceHeader where
  "demo_hdr = blank_hdr\<lparr>frame_num := 3, num_ref_idx_l0_active_minus1 := 1\<rparr>"

definition demo_sps :: "int \<Rightarrow> AVCSeqParamSet" where
  "demo_sps n = blank_sps\<lparr>level_idc := 10, num_ref_frames := n, pic_width_in_mbs_minus1 := 10,
     pic_height_in_map_units_minus1 := 8, frame_mbs_only_flag := True\<rparr>"

lemma demo_sps_simps [simp]: "num_ref_frames (demo_sps n) = n" "level_idc (demo_sps n) = 10"
  by (simp_all add: demo_sps_def)

text \<open>Two short-term references and the current frame, a reference too, not yet marked in its store.\<close>

definition demo_p :: AVCCommonObj where
  "demo_p = demo_video [demo_store 3 0 1 2, demo_store 3 0 3 1,
     (demo_store 0 0 0 3)\<lparr>frame := demo_pic\<lparr>isReference := True, PicNum := 3\<rparr>\<rparr>] 2 False"

definition demo_lt :: AVCCommonObj where
  "demo_lt = demo_video [(demo_store 3 3 1 2)\<lparr>LongTermFrameIdx := 1\<rparr>, demo_store 3 3 3 1, demo_store 0 0 0 3] 2 False"

lemmas demo_defs = demo_p_def demo_lt_def demo_video_def demo_store_def demo_pic_def

lemma demo_p_inv: "marking_inv demo_p" and demo_lt_inv: "marking_inv demo_lt" and demo_lt_wf: "num_fs demo_lt = length (fs demo_lt)"
  by (simp_all add: demo_defs marking_inv_def dpb_wf_def store_ok_def)

lemma less_3: "(i :: nat) < 3 \<longleftrightarrow> i = 0 \<or> i = 1 \<or> i = 2"
  by auto

lemma demo_p_nums: "num_fs demo_p = 3" "currFS demo_p = 2" "\<not> nal_is_IDR demo_p" "isReference (currPic demo_p)"
    "\<not> isLongTerm (currPic demo_p)" "IsReference (fs demo_p ! 2) = 0" "\<not> adaptive_ref_pic_marking_mode_flag demo_hdr"
  by (simp_all add: demo_defs currPic_def demo_hdr_def blank_hdr_def)

lemma demo_p_stores: "IsReference (fs demo_p ! i) = (if i = 2 then 0 else 3)" "IsLongTerm (fs demo_p ! i) = 0"
    "FrameNumWrap (fs demo_p ! i) \<le> 3" if "i < 3"
  using that by (auto simp: demo_defs less_3)

lemma demo_sets: "short_term demo_p = {0, 1}" "long_term demo_p = {}"
proof -
  have "i \<in> short_term demo_p \<longleftrightarrow> i < 3 \<and> i \<noteq> 2" for i
    by (cases "i < 3") (simp_all add: short_term_def demo_p_nums(1) demo_p_stores)
  moreover have "i < 3 \<and> i \<noteq> 2 \<longleftrightarrow> i \<in> {0, 1}" for i :: nat by (simp add: less_3, linarith)
  ultimately show "short_term demo_p = {0, 1}" by blast
  show "long_term demo_p = {}" using demo_p_stores(2) by (auto simp: long_term_def demo_p_nums(1))
qed

lemma demo_p_wrap: "i \<in> short_term demo_p \<Longrightarrow> FrameNumWrap (fs demo_p ! i) < 0x7FFFFFFF"
  using demo_p_stores(3) [of i] by (auto simp: short_term_def demo_p_nums(1))

end
