(* ===== verification/HeaderProps.thy ===== *)
theory HeaderProps
  imports HeaderRoundtrip HeaderTypes Samples StreamProps
begin















end
