(* ===== verification/Poc.thy ===== *)
theory Poc
  imports Dpb NalUnit EncBitstream
begin

text \<open>
  Picture order count: \<open>DecodePOC\<close> of \<open>dec/src/header.cpp\<close>, the bookkeeping at the end of
  \<open>PVAVCDecodeSlice\<close> (\<open>dec/src/avcdec_api.cpp\<close>), \<open>InitPOC\<close> and \<open>PostPOC\<close> of \<open>enc/src/header.cpp\<close>. The three
  modes of subclause 8.2.1 are three definitions. \<open>nal_is_IDR\<close> is \<open>nal_unit_type == AVC_NALTYPE_IDR\<close>. An
  \<open>int\<close> that the code adds to an \<open>uint\<close> wraps as the code has it (\<open>c_int\<close>); sums of \<open>int\<close>s are exact.
  The first loop of the encoder's mode 0 may run forever and is a \<open>partial_function\<close>.
\<close>

section \<open>Steps the two sides share\<close>

text \<open>The most significant part by subclause 8.2.1.1, the same code in both files.\<close>

definition poc_msb :: "int \<Rightarrow> AVCCommonObj \<Rightarrow> int" where
  "poc_msb lsb v =
     (if lsb < prevPicOrderCntLsb v \<and> prevPicOrderCntLsb v - lsb \<ge> MaxPicOrderCntLsb v div 2
      then c_int (prevPicOrderCntMsb v + MaxPicOrderCntLsb v)
      else if lsb > prevPicOrderCntLsb v \<and> lsb - prevPicOrderCntLsb v > MaxPicOrderCntLsb v div 2
      then c_int (prevPicOrderCntMsb v - MaxPicOrderCntLsb v)
      else prevPicOrderCntMsb v)"

definition frame_num_offset :: "AVCSliceHeader \<Rightarrow> AVCCommonObj \<Rightarrow> int" where
  "frame_num_offset sliceHdr v =
     (if nal_is_IDR v then 0
      else if prevFrameNum v > frame_num sliceHdr then c_int (prevFrameNumOffset v + MaxFrameNum v)
      else prevFrameNumOffset v)"

definition abs_frame_num :: "AVCSeqParamSet \<Rightarrow> AVCSliceHeader \<Rightarrow> AVCCommonObj \<Rightarrow> int" where
  "abs_frame_num sps sliceHdr v =
     (let a = (if num_ref_frames_in_pic_order_cnt_cycle sps \<noteq> 0 then c_int (FrameNumOffset v + frame_num sliceHdr) else 0)
      in if a > 0 \<and> nal_ref_idc v = 0 then a - 1 else a)"

definition add_offsets :: "AVCSeqParamSet \<Rightarrow> int \<Rightarrow> int \<Rightarrow> int option" where
  "add_offsets sps n acc =
     for_range 0 (nat n) (\<lambda>i a. do { d \<leftarrow> nth_opt (offset_for_ref_frame sps) (int i); Some (a + d) }) acc"

text \<open>From the frame number offset to \<open>expectedPicOrderCnt\<close>, the same code in both files.\<close>

definition poc1_expected :: "AVCSeqParamSet \<Rightarrow> AVCSliceHeader \<Rightarrow> AVCCommonObj \<Rightarrow> AVCCommonObj option" where
  "poc1_expected sps sliceHdr v =
     (let n = num_ref_frames_in_pic_order_cnt_cycle sps;
          v1 = v\<lparr>prevFrameNumOffset := (if nal_is_IDR v then 0 else prevFrameNumOffset v),
                 FrameNumOffset := frame_num_offset sliceHdr v\<rparr>;
          a = abs_frame_num sps sliceHdr v1;
          v2 = (if a > 0
                then v1\<lparr>absFrameNum := a, picOrderCntCycleCnt := (a - 1) div n,
                        frameNumInPicOrderCntCycle := (a - 1) mod n\<rparr>
                else v1\<lparr>absFrameNum := a\<rparr>)
      in do { delta \<leftarrow> add_offsets sps n 0;
              let v3 = v2\<lparr>expectedDeltaPerPicOrderCntCycle := delta\<rparr>;
              e \<leftarrow> (if a \<noteq> 0
                   then add_offsets sps (frameNumInPicOrderCntCycle v3 + 1) (picOrderCntCycleCnt v3 * delta)
                   else Some 0);
              Some (v3\<lparr>expectedPicOrderCnt :=
                (if nal_ref_idc v = 0 then e + offset_for_non_ref_pic sps else e)\<rparr>) })"

definition poc2 :: "AVCSliceHeader \<Rightarrow> AVCCommonObj \<Rightarrow> int" where
  "poc2 sliceHdr v =
     (if nal_is_IDR v then 0
      else c_int (2 * (FrameNumOffset v + frame_num sliceHdr) - (if nal_ref_idc v = 0 then 1 else 0)))"

section \<open>The decoder\<close>

definition dec_poc0 :: "AVCSliceHeader \<Rightarrow> AVCCommonObj \<Rightarrow> AVCCommonObj" where
  "dec_poc0 sliceHdr v =
     (let v1 = (if nal_is_IDR v then v\<lparr>prevPicOrderCntMsb := 0, prevPicOrderCntLsb := 0\<rparr> else v);
          lsb = uint (pic_order_cnt_lsb sliceHdr);
          msb = poc_msb lsb v1;
          poc = c_int (msb + lsb)
      in v1\<lparr>PicOrderCntMsb := msb, TopFieldOrderCnt := poc, vid_PicOrderCnt := poc,
            BottomFieldOrderCnt := poc + delta_pic_order_cnt_bottom sliceHdr\<rparr>)"

definition dec_poc1 :: "AVCSeqParamSet \<Rightarrow> AVCSliceHeader \<Rightarrow> AVCCommonObj \<Rightarrow> AVCCommonObj option" where
  "dec_poc1 sps sliceHdr v =
     do { v1 \<leftarrow> poc1_expected sps sliceHdr v;
          let t = expectedPicOrderCnt v1 + delta_pic_order_cnt sliceHdr ! 0;
          let b = t + offset_for_top_to_bottom_field sps + delta_pic_order_cnt sliceHdr ! 1;
          Some (v1\<lparr>TopFieldOrderCnt := t, BottomFieldOrderCnt := b, vid_PicOrderCnt := AVC_MIN t b\<rparr>) }"

definition dec_poc2 :: "AVCSliceHeader \<Rightarrow> AVCCommonObj \<Rightarrow> AVCCommonObj" where
  "dec_poc2 sliceHdr v =
     (let v1 = v\<lparr>FrameNumOffset := frame_num_offset sliceHdr v\<rparr>; poc = poc2 sliceHdr v1
      in v1\<lparr>vid_PicOrderCnt := poc, BottomFieldOrderCnt := poc, TopFieldOrderCnt := poc\<rparr>)"

definition DecodePOC :: "AVCSeqParamSet \<Rightarrow> AVCSliceHeader \<Rightarrow> AVCCommonObj \<Rightarrow> (AVCDec_Status \<times> AVCCommonObj) option" where
  "DecodePOC sps sliceHdr v =
     (let t = pic_order_cnt_type sps
      in if t = 0 then Some (AVCDEC_SUCCESS, dec_poc0 sliceHdr v)
         else if t = 1 then Option.bind (dec_poc1 sps sliceHdr v) (\<lambda>w. Some (AVCDEC_SUCCESS, w))
         else if t = 2 then Some (AVCDEC_SUCCESS, dec_poc2 sliceHdr v)
         else Some (AVCDEC_FAIL, v))"

text \<open>What \<open>PVAVCDecodeSlice\<close> keeps for the next picture when a picture is complete.\<close>

definition dec_post_poc :: "AVCSliceHeader \<Rightarrow> AVCCommonObj \<Rightarrow> AVCCommonObj" where
  "dec_post_poc sliceHdr v =
     (if mem_mgr_ctrl_eq_5 v
      then v\<lparr>PrevRefFrameNum := 0, prevFrameNum := 0, prevPicOrderCntMsb := 0,
             prevPicOrderCntLsb := c_uint (TopFieldOrderCnt v), prevFrameNumOffset := 0\<rparr>
      else v\<lparr>prevPicOrderCntMsb := PicOrderCntMsb v, prevPicOrderCntLsb := uint (pic_order_cnt_lsb sliceHdr),
             prevFrameNumOffset := FrameNumOffset v\<rparr>)"

section \<open>The encoder\<close>

text \<open>\<open>encvid->dispOrdPOCRef\<close> and \<open>encvid->currInput->disp_order\<close>.\<close>

record AVCEncObject =
  dispOrdPOCRef :: uint
  disp_order :: uint

partial_function (option) lower_ref :: "uint \<Rightarrow> uint \<Rightarrow> uint \<Rightarrow> uint option" where
  [code]: "lower_ref mx d r = (if d < r then lower_ref mx d (r - mx) else Some r)"

text \<open>With \<open>mx = 0\<close> the second loop does not end either.\<close>

partial_function (option) reduce_lsb :: "uint \<Rightarrow> uint \<Rightarrow> uint option" where
  [code]: "reduce_lsb mx l = (if l \<ge> mx then reduce_lsb mx (l - mx) else Some l)"

definition init_poc0 ::
  "AVCPicParamSet \<Rightarrow> AVCEncObject \<Rightarrow> AVCSliceHeader \<Rightarrow> AVCCommonObj \<Rightarrow> (AVCEncObject \<times> AVCSliceHeader \<times> AVCCommonObj) option"
  where
  "init_poc0 pps enc h v =
     do { let r0 = (if nal_is_IDR v then disp_order enc else dispOrdPOCRef enc);
          let mx = word_of_int (MaxPicOrderCntLsb v);
          r \<leftarrow> lower_ref mx (disp_order enc) r0;
          l \<leftarrow> reduce_lsb mx (disp_order enc - r);
          let lsb = uint l;
          let v1 = (if nal_is_IDR v then v\<lparr>prevPicOrderCntMsb := 0, prevPicOrderCntLsb := 0\<rparr> else v);
          let msb = poc_msb lsb v1;
          let v2 = v1\<lparr>PicOrderCntMsb := msb\<rparr>;
          let poc = c_int (msb + lsb);
          let v3 = (if \<not> field_pic_flag h \<or> \<not> bottom_field_flag h
                    then v2\<lparr>TopFieldOrderCnt := poc, vid_PicOrderCnt := poc\<rparr> else v2);
          let v4 = (if \<not> field_pic_flag h
                    then v3\<lparr>BottomFieldOrderCnt := TopFieldOrderCnt v3 + delta_pic_order_cnt_bottom h\<rparr>
                    else if bottom_field_flag h then v3\<lparr>BottomFieldOrderCnt := poc, vid_PicOrderCnt := poc\<rparr>
                    else v3);
          let v5 = (if \<not> field_pic_flag h
                    then v4\<lparr>vid_PicOrderCnt := AVC_MIN (TopFieldOrderCnt v4) (BottomFieldOrderCnt v4)\<rparr> else v4);
          let h1 = h\<lparr>pic_order_cnt_lsb := l\<rparr>;
          Some (enc\<lparr>dispOrdPOCRef := r\<rparr>,
                if pic_order_present_flag pps \<and> \<not> field_pic_flag h then h1\<lparr>delta_pic_order_cnt_bottom := 0\<rparr> else h1,
                v5) }"

definition init_poc1 ::
  "AVCPicParamSet \<Rightarrow> AVCSeqParamSet \<Rightarrow> AVCEncObject \<Rightarrow> AVCSliceHeader \<Rightarrow> AVCCommonObj
    \<Rightarrow> (AVCEncObject \<times> AVCSliceHeader \<times> AVCCommonObj) option" where
  "init_poc1 pps sps enc h v =
     do { let enc1 = (if nal_is_IDR v then enc\<lparr>dispOrdPOCRef := disp_order enc\<rparr> else enc);
          v1 \<leftarrow> poc1_expected sps h v;
          let d0 = (if delta_pic_order_always_zero_flag sps then 0
                    else c_int (uint (disp_order enc1) - uint (dispOrdPOCRef enc1) - expectedPicOrderCnt v1));
          let d1 = (if delta_pic_order_always_zero_flag sps then 0
                    else if pic_order_present_flag pps \<and> \<not> field_pic_flag h then d0 else 0);
          let t = expectedPicOrderCnt v1 + d0;
          let v2 = (if \<not> field_pic_flag h
                    then let b = t + offset_for_top_to_bottom_field sps + d1
                         in v1\<lparr>TopFieldOrderCnt := t, BottomFieldOrderCnt := b, vid_PicOrderCnt := AVC_MIN t b\<rparr>
                    else if \<not> bottom_field_flag h then v1\<lparr>TopFieldOrderCnt := t, vid_PicOrderCnt := t\<rparr>
                    else let b = expectedPicOrderCnt v1 + offset_for_top_to_bottom_field sps + d0
                         in v1\<lparr>BottomFieldOrderCnt := b, vid_PicOrderCnt := b\<rparr>);
          Some (enc1, h\<lparr>delta_pic_order_cnt := [d0, d1]\<rparr>, v2) }"

definition init_poc2 ::
  "AVCEncObject \<Rightarrow> AVCSliceHeader \<Rightarrow> AVCCommonObj \<Rightarrow> AVCEnc_Status \<times> AVCEncObject \<times> AVCCommonObj" where
  "init_poc2 enc h v =
     (if nal_ref_idc v = 0 \<and> dispOrdPOCRef enc = 1 then (AVCENC_CONSECUTIVE_NONREF, enc, v)
      else
        let enc1 = enc\<lparr>dispOrdPOCRef := (if nal_ref_idc v = 0 then 1 else 0)\<rparr>;
            v1 = v\<lparr>FrameNumOffset := frame_num_offset h v\<rparr>;
            poc = poc2 h v1;
            v2 = v1\<lparr>vid_PicOrderCnt := poc\<rparr>
        in (AVCENC_SUCCESS, enc1,
            if \<not> field_pic_flag h then v2\<lparr>BottomFieldOrderCnt := poc, TopFieldOrderCnt := poc\<rparr>
            else if bottom_field_flag h then v2\<lparr>BottomFieldOrderCnt := poc\<rparr>
            else v2\<lparr>TopFieldOrderCnt := poc\<rparr>))"

definition InitPOC ::
  "AVCPicParamSet \<Rightarrow> AVCSeqParamSet \<Rightarrow> AVCEncObject \<Rightarrow> AVCSliceHeader \<Rightarrow> AVCCommonObj
    \<Rightarrow> (AVCEnc_Status \<times> AVCEncObject \<times> AVCSliceHeader \<times> AVCCommonObj) option" where
  "InitPOC pps sps enc h v =
     (let t = pic_order_cnt_type sps
      in if t = 0 then Option.bind (init_poc0 pps enc h v) (\<lambda>r. Some (AVCENC_SUCCESS, r))
         else if t = 1 then Option.bind (init_poc1 pps sps enc h v) (\<lambda>r. Some (AVCENC_SUCCESS, r))
         else if t = 2 then (case init_poc2 enc h v of (st, enc1, v1) \<Rightarrow> Some (st, enc1, h, v1))
         else Some (AVCENC_POC_FAIL, enc, h, v))"

definition PostPOC :: "AVCSeqParamSet \<Rightarrow> AVCSliceHeader \<Rightarrow> AVCCommonObj \<Rightarrow> AVCCommonObj" where
  "PostPOC sps h v =
     (let v1 = v\<lparr>prevFrameNum := frame_num h\<rparr>; t = pic_order_cnt_type sps
      in if t = 0 then
           (if mem_mgr_ctrl_eq_5 v1
            then v1\<lparr>prevPicOrderCntMsb := 0, prevPicOrderCntLsb := c_uint (TopFieldOrderCnt v1)\<rparr>
            else v1\<lparr>prevPicOrderCntMsb := PicOrderCntMsb v1, prevPicOrderCntLsb := uint (pic_order_cnt_lsb h)\<rparr>)
         else if t = 1 \<or> t = 2 then
           v1\<lparr>prevFrameNumOffset := (if mem_mgr_ctrl_eq_5 v1 then 0 else FrameNumOffset v1)\<rparr>
         else v1)"

section \<open>Mode 0: the nearest count\<close>

text \<open>
  The most significant part is chosen so that the count is the one with the given low part that is
  nearest to the previous count.
\<close>

lemma poc_msb_nearest:
  assumes M: "M = MaxPicOrderCntLsb v" "even M" "0 < M" "M \<le> 65536"
    and prev: "prevPicOrderCntMsb v mod M = 0" "0 \<le> prevPicOrderCntLsb v" "prevPicOrderCntLsb v < M"
      "\<bar>prevPicOrderCntMsb v\<bar> < 1073741824"
    and P: "P mod M = lsb" "P - (prevPicOrderCntMsb v + prevPicOrderCntLsb v) \<le> M div 2"
      "- (M div 2) < P - (prevPicOrderCntMsb v + prevPicOrderCntLsb v)"
  shows "poc_msb lsb v = P - lsb"
proof -
  let ?j = "prevPicOrderCntMsb v div M" and ?k = "P div M"
  define d where "d = ?k - ?j"
  have lsb: "0 \<le> lsb" "lsb < M" using P(1) M(3) pos_mod_sign pos_mod_bound by auto
  have msb: "prevPicOrderCntMsb v = ?j * M" using prev(1) div_mult_mod_eq [of "prevPicOrderCntMsb v" M] by simp
  have "P = ?k * M + lsb" using P(1) div_mult_mod_eq [of P M] by simp
  then have P': "P - lsb = prevPicOrderCntMsb v + d * M"
    unfolding d_def by (subst (1) msb) (simp add: algebra_simps)
  obtain h where h: "M = 2 * h" "M div 2 = h" using M(2) by auto
  let ?m = "prevPicOrderCntMsb v" and ?l = "prevPicOrderCntLsb v"
  have bnd: "d * M + lsb - ?l \<le> h" "- h < d * M + lsb - ?l"
    using P' P(2,3) h(2) by linarith+
  have "d * M < 2 * M" "- 2 * M < d * M" using bnd lsb prev(2,3) h(1) by linarith+
  then have "d < 2" "- 2 < d" using M(3) mult_less_cancel_right_pos [of M d 2] mult_less_cancel_right_pos [of M "- 2" d] by simp_all
  then consider "d = - 1" | "d = 0" | "d = 1" by linarith
  then show ?thesis
  proof cases
    case 1
    then have "d * M = - M" by simp
    then have "P - lsb = ?m - M" "\<not> lsb < ?l" "lsb > ?l" "lsb - ?l > h" using P' bnd h(1) M(3) by linarith+
    moreover have "c_int (?m - M) = ?m - M" using prev(4) M(3,4) by (intro c_int_id) linarith+
    ultimately show ?thesis by (simp add: poc_msb_def h(2) flip: M(1))
  next
    case 2
    then have "d * M = 0" by simp
    then have "P - lsb = ?m" "\<not> ?l - lsb \<ge> h" "\<not> lsb - ?l > h" using P' bnd by linarith+
    then show ?thesis by (simp add: poc_msb_def h(2) flip: M(1))
  next
    case 3
    then have "d * M = M" by simp
    then have "P - lsb = ?m + M" "lsb < ?l" "?l - lsb \<ge> h" using P' bnd h(1) M(3) by linarith+
    moreover have "c_int (?m + M) = ?m + M" using prev(4) M(3,4) by (intro c_int_id) linarith+
    ultimately show ?thesis by (simp add: poc_msb_def h(2) flip: M(1))
  qed
qed

section \<open>Mode 0: the encoder's loops\<close>

lemma reduce_lsb_mod: "mx \<noteq> 0 \<Longrightarrow> reduce_lsb mx l = Some (l mod mx)"
proof (induction "unat l" arbitrary: l rule: less_induct)
  case less
  show ?case
  proof (cases "l \<ge> mx")
    case True
    have "0 < unat mx" "unat mx \<le> unat l" using True less.prems by (simp_all add: unat_gt_0 word_le_nat_alt)
    then have "unat (l - mx) < unat l" using unat_sub [OF True] by linarith
    then have "reduce_lsb mx (l - mx) = Some ((l - mx) mod mx)" using less by blast
    moreover have "(l - mx) mod mx = l mod mx"
      using True unat_sub [OF True]
      by (simp add: word_unat_eq_iff unat_mod_distrib word_le_nat_alt le_mod_geq)
    ultimately show ?thesis using True by (subst reduce_lsb.simps) simp
  next
    case False
    then show ?thesis by (subst reduce_lsb.simps) (simp add: mod_word_less)
  qed
qed

lemma lower_ref_done: "r \<le> d \<Longrightarrow> lower_ref mx d r = Some r"
  by (subst lower_ref.simps) (simp add: leD)

text \<open>
  When the display order falls below the residue of the reference, the first loop wraps around zero
  for ever: every value it reaches keeps that residue.
\<close>

lemma lower_ref_stuck:
  assumes "mx = 2 ^ k" and "k < 32" and "d < r mod mx"
  shows "lower_ref mx d r = None"
proof (rule ccontr)
  assume "lower_ref mx d r \<noteq> None"
  then obtain x where "lower_ref mx d r = Some x" by blast
  have "(2::int) ^ k < 2 ^ 32" using assms(2) by (intro power_strict_increasing) simp_all
  then have p: "uint (2 ^ k :: uint) = 2 ^ k" using uint_word_small [of "2 ^ k"] by simp
  have "mx = 2 ^ k \<longrightarrow> x \<le> d \<and> uint x mod 2 ^ k = uint r mod 2 ^ k"
  proof (rule lower_ref.raw_induct [where P = "\<lambda>mx d r x. mx = 2 ^ k \<longrightarrow> x \<le> d \<and> uint x mod 2 ^ k = uint r mod 2 ^ k", OF _ \<open>lower_ref mx d r = Some x\<close>])
    fix f :: "uint \<Rightarrow> uint \<Rightarrow> uint \<Rightarrow> uint option" and mx d r y
    assume IH: "\<And>mx d r y. f mx d r = Some y \<Longrightarrow> mx = 2 ^ k \<longrightarrow> y \<le> d \<and> uint y mod 2 ^ k = uint r mod 2 ^ k"
      and step: "(if d < r then f mx d (r - mx) else Some r) = Some y"
    have "(uint r - 2 ^ k) mod 2 ^ 32 mod 2 ^ k = (uint r - 2 ^ k) mod 2 ^ k"
      using assms(2) by (intro mod_mod_cancel le_imp_power_dvd) simp
    then have "uint (r - 2 ^ k) mod 2 ^ k = uint r mod 2 ^ k" by (simp add: uint_word_ariths p)
    then show "mx = 2 ^ k \<longrightarrow> y \<le> d \<and> uint y mod 2 ^ k = uint r mod 2 ^ k"
      using step IH [of mx d "r - mx" y] by (auto split: if_splits)
  qed
  then have "x \<le> d" "uint x mod 2 ^ k = uint r mod 2 ^ k" using assms(1) by simp_all
  moreover have "uint (r mod mx) = uint r mod 2 ^ k"
    using assms(1) by (simp add: uint_mod_distrib p)
  moreover have "uint x mod 2 ^ k \<le> uint x" by (simp add: zmod_le_nonneg_dividend)
  ultimately show False using assms(3) by (simp add: word_less_def word_le_def)
qed

section \<open>Mode 1: the expected count\<close>

lemma for_range_sum:
  assumes "\<And>i a. i < n \<Longrightarrow> body i a = Some (a + (f i :: int))"
  shows "for_range 0 n body acc = Some (acc + sum f {..<n})"
proof -
  have "\<exists>t. for_range 0 n body acc = Some t \<and> t = acc + sum f {..<(0 + n)}"
    by (rule for_range_inv [where P = "\<lambda>i a. a = acc + sum f {..<i}"]) (use assms in auto)
  then show ?thesis by simp
qed

lemma add_offsets_sum:
  assumes "nat n \<le> length (offset_for_ref_frame sps)"
  shows "add_offsets sps n acc = Some (acc + (\<Sum>i < nat n. offset_for_ref_frame sps ! i))"
  unfolding add_offsets_def by (rule for_range_sum) (use assms in simp)

text \<open>The offsets of a cycle repeat: the count expected at frame \<open>a\<close> is the sum of the first \<open>a\<close> of them.\<close>

lemma sum_split_add:
  fixes a b :: nat
  shows "(\<Sum>k < a + b. f k) = (\<Sum>k < a. f k) + (\<Sum>k < b. f (a + k) :: int)"
  by (induction b) simp_all

lemma cycle_sum:
  fixes f :: "nat \<Rightarrow> int"
  shows "(\<Sum>k < q * n + r. f (k mod n)) = int q * (\<Sum>k < n. f k) + (\<Sum>k < r. f (k mod n))"
proof (induction q)
  case (Suc q)
  have "(\<Sum>k < Suc q * n + r. f (k mod n)) = (\<Sum>k < n. f (k mod n)) + (\<Sum>k < q * n + r. f ((n + k) mod n))"
    using sum_split_add [of "\<lambda>k. f (k mod n)" n "q * n + r"] by (simp add: add.assoc)
  then show ?case using Suc by (simp add: algebra_simps)
qed simp

lemma cycle_sum_last:
  fixes f :: "nat \<Rightarrow> int"
  assumes "0 < a" and "0 < n"
  shows "(\<Sum>k < a. f (k mod n)) = int ((a - 1) div n) * (\<Sum>k < n. f k) + (\<Sum>k < Suc ((a - 1) mod n). f k)"
proof -
  let ?q = "(a - 1) div n" and ?r = "(a - 1) mod n"
  have a: "a = ?q * n + Suc ?r" using assms(1) div_mult_mod_eq [of "a - 1" n] by linarith
  have "?r < n" using assms(2) by simp
  then have "(\<Sum>k < Suc ?r. f (k mod n)) = (\<Sum>k < Suc ?r. f k)" by (intro sum.cong) simp_all
  then show ?thesis using cycle_sum [of f n ?q "Suc ?r"] by (metis a)
qed

text \<open>The expected count by subclause 8.2.1.2.\<close>

definition std_expected :: "AVCSeqParamSet \<Rightarrow> AVCSliceHeader \<Rightarrow> AVCCommonObj \<Rightarrow> int" where
  "std_expected sps h v =
     (let n = num_ref_frames_in_pic_order_cnt_cycle sps;
          a = abs_frame_num sps h (v\<lparr>FrameNumOffset := frame_num_offset h v\<rparr>)
      in (\<Sum>k < nat a. offset_for_ref_frame sps ! (k mod nat n))
         + (if nal_ref_idc v = 0 then offset_for_non_ref_pic sps else 0))"

lemma poc1_expected_std:
  assumes n: "0 \<le> num_ref_frames_in_pic_order_cnt_cycle sps"
      "nat (num_ref_frames_in_pic_order_cnt_cycle sps) \<le> length (offset_for_ref_frame sps)"
    and a: "0 \<le> abs_frame_num sps h (v\<lparr>FrameNumOffset := frame_num_offset h v\<rparr>)"
  shows "\<exists>v'. poc1_expected sps h v = Some v' \<and> expectedPicOrderCnt v' = std_expected sps h v"
proof -
  let ?n = "num_ref_frames_in_pic_order_cnt_cycle sps"
  define v1 where "v1 = v\<lparr>prevFrameNumOffset := (if nal_is_IDR v then 0 else prevFrameNumOffset v),
      FrameNumOffset := frame_num_offset h v\<rparr>"
  have a1: "abs_frame_num sps h v1 = abs_frame_num sps h (v\<lparr>FrameNumOffset := frame_num_offset h v\<rparr>)"
    by (simp add: abs_frame_num_def v1_def)
  let ?a = "abs_frame_num sps h v1"
  note delta = add_offsets_sum [OF n(2), of 0]
  show ?thesis
  proof (cases "?a = 0")
    case True
    then show ?thesis using delta a1 by (simp add: poc1_expected_def Let_def std_expected_def flip: v1_def)
  next
    case False
    then have pos: "0 < ?a" using a a1 by simp
    then have n0: "0 < ?n" using n(1) by (auto simp: abs_frame_num_def Let_def split: if_splits)
    have "(?a - 1) mod ?n < ?n" "0 \<le> (?a - 1) mod ?n" using n0 by simp_all
    then have len: "nat ((?a - 1) mod ?n + 1) \<le> length (offset_for_ref_frame sps)" using n(2) by linarith
    have q: "nat ((?a - 1) div ?n) = (nat ?a - 1) div nat ?n" "nat ((?a - 1) mod ?n) = (nat ?a - 1) mod nat ?n"
      using pos n0 by (simp_all add: nat_div_distrib nat_mod_distrib nat_diff_distrib')
    have "(?a - 1) div ?n = int ((nat ?a - 1) div nat ?n)" "nat ((?a - 1) mod ?n + 1) = Suc ((nat ?a - 1) mod nat ?n)"
      unfolding q [symmetric] using pos n0 by (simp_all add: pos_imp_zdiv_nonneg_iff nat_add_distrib)
    moreover have "(\<Sum>k < nat ?a. offset_for_ref_frame sps ! (k mod nat ?n))
        = int ((nat ?a - 1) div nat ?n) * (\<Sum>k < nat ?n. offset_for_ref_frame sps ! k)
          + (\<Sum>k < Suc ((nat ?a - 1) mod nat ?n). offset_for_ref_frame sps ! k)"
      by (rule cycle_sum_last) (use pos n0 in simp_all)
    ultimately have e: "add_offsets sps ((?a - 1) mod ?n + 1) ((?a - 1) div ?n * (\<Sum>i < nat ?n. offset_for_ref_frame sps ! i))
        = Some (\<Sum>k < nat ?a. offset_for_ref_frame sps ! (k mod nat ?n))"
      using add_offsets_sum [OF len, of "(?a - 1) div ?n * (\<Sum>i < nat ?n. offset_for_ref_frame sps ! i)"] by simp
    show ?thesis
      unfolding poc1_expected_def Let_def v1_def [symmetric] std_expected_def a1 [symmetric]
      using delta e pos by simp
  qed
qed

section \<open>The encoder's counts are the decoder's\<close>

lemma poc1_expected_cong: "frame_num h' = frame_num h \<Longrightarrow> poc1_expected sps h' v = poc1_expected sps h v"
proof -
  assume h: "frame_num h' = frame_num h"
  have "frame_num_offset h' v = frame_num_offset h v" "abs_frame_num sps h' u = abs_frame_num sps h u" for u
    by (simp_all add: frame_num_offset_def abs_frame_num_def h)
  then show ?thesis by (simp only: poc1_expected_def)
qed

lemma init_poc0_decode:
  assumes "init_poc0 pps enc h v = Some (enc', h', v')" and "\<not> field_pic_flag h" and "delta_pic_order_cnt_bottom h = 0"
  shows "dec_poc0 h' v = v'"
  using assms by (cases "nal_is_IDR v") (auto simp: init_poc0_def dec_poc0_def Let_def AVC_MIN_def split: bind_splits)

lemma init_poc1_decode:
  assumes "init_poc1 pps sps enc h v = Some (enc', h', v')" and "\<not> field_pic_flag h"
  shows "dec_poc1 sps h' v = Some v'"
proof -
  have "frame_num h' = frame_num h" using assms(1) by (auto simp: init_poc1_def Let_def split: bind_splits)
  from poc1_expected_cong [OF this] show ?thesis
    using assms by (auto simp: init_poc1_def dec_poc1_def Let_def split: bind_splits)
qed

lemma InitPOC_decode:
  assumes "InitPOC pps sps enc h v = Some (AVCENC_SUCCESS, enc', h', v')"
    and "\<not> field_pic_flag h" and "delta_pic_order_cnt_bottom h = 0"
  shows "DecodePOC sps h' v = Some (AVCDEC_SUCCESS, v')"
  using assms init_poc0_decode [of pps enc h v enc' h' v'] init_poc1_decode [of pps sps enc h v enc' h' v']
  by (auto simp: InitPOC_def DecodePOC_def init_poc2_def dec_poc2_def Let_def split: bind_splits if_splits)

section \<open>A session of mode 0\<close>

text \<open>
  One picture from the encoder to the decoder: \<open>InitPOC\<close> on the encoder's side, of which the decoder sees
  the slice header; \<open>DecodePOC\<close> on the other; then what each keeps. An IDR picture sets
  \<open>mem_mgr_ctrl_eq_5\<close> when it is stored, which the decoder resets before the next picture. The result
  is the decoder's count.
\<close>

definition poc_frame ::
  "AVCPicParamSet \<Rightarrow> AVCSeqParamSet \<Rightarrow> bool \<Rightarrow> uint \<Rightarrow> AVCEncObject \<times> AVCSliceHeader \<times> AVCCommonObj \<times> AVCCommonObj
    \<Rightarrow> (int \<times> AVCEncObject \<times> AVCSliceHeader \<times> AVCCommonObj \<times> AVCCommonObj) option" where
  "poc_frame pps sps idr d s =
     (let (enc, h, v, w) = s
      in do { (st, enc1, h1, v1) \<leftarrow> InitPOC pps sps (enc\<lparr>disp_order := d\<rparr>) h (v\<lparr>nal_is_IDR := idr\<rparr>);
              (st', w1) \<leftarrow> DecodePOC sps h1 (w\<lparr>nal_is_IDR := idr\<rparr>);
              Some (vid_PicOrderCnt w1, enc1, h1, PostPOC sps h1 (v1\<lparr>mem_mgr_ctrl_eq_5 := True\<rparr>),
                    dec_post_poc h1 (w1\<lparr>mem_mgr_ctrl_eq_5 := idr\<rparr>)) })"

fun poc_session ::
  "AVCPicParamSet \<Rightarrow> AVCSeqParamSet \<Rightarrow> (bool \<times> uint) list \<Rightarrow> AVCEncObject \<times> AVCSliceHeader \<times> AVCCommonObj \<times> AVCCommonObj
    \<Rightarrow> int list option" where
  "poc_session pps sps [] s = Some []"
| "poc_session pps sps ((idr, d) # frames) s =
     do { (poc, s1) \<leftarrow> poc_frame pps sps idr d s; pocs \<leftarrow> poc_session pps sps frames s1; Some (poc # pocs) }"

text \<open>
  The invariant between two pictures: the reference \<open>ref\<close> of the last IDR picture, the last count \<open>p\<close>.
\<close>

definition poc_sync :: "AVCPicParamSet \<Rightarrow> AVCSeqParamSet \<Rightarrow> nat \<Rightarrow> uint \<Rightarrow> int
    \<Rightarrow> AVCEncObject \<times> AVCSliceHeader \<times> AVCCommonObj \<times> AVCCommonObj \<Rightarrow> bool" where
  "poc_sync pps sps k ref p s \<longleftrightarrow> (case s of (enc, h, v, w) \<Rightarrow>
     pic_order_cnt_type sps = 0 \<and> 4 \<le> k \<and> k \<le> 16 \<and> MaxPicOrderCntLsb v = 2 ^ k \<and> MaxPicOrderCntLsb w = 2 ^ k
     \<and> \<not> field_pic_flag h \<and> delta_pic_order_cnt_bottom h = 0
     \<and> dispOrdPOCRef enc = ref
     \<and> prevPicOrderCntMsb w mod 2 ^ k = 0 \<and> 0 \<le> prevPicOrderCntLsb w \<and> prevPicOrderCntLsb w < 2 ^ k
     \<and> prevPicOrderCntMsb w + prevPicOrderCntLsb w = p)"

text \<open>The next display order is at or after the IDR picture's and within half a period of the last one.\<close>

definition poc_near :: "nat \<Rightarrow> uint \<Rightarrow> int \<Rightarrow> uint \<Rightarrow> bool" where
  "poc_near k ref p d \<longleftrightarrow> ref \<le> d \<and> uint d - uint ref < 2 ^ 29 \<and> uint d - uint ref - p \<le> 2 ^ (k - 1)
     \<and> - (2 ^ (k - 1)) < uint d - uint ref - p"

lemma power_small: "k \<le> 16 \<Longrightarrow> (2::int) ^ k \<le> 65536"
  using power_increasing [of k 16 "2::int"] by simp

lemma poc_encode:
  assumes "poc_sync pps sps k ref p (enc, h, v, w)" and "idr \<Longrightarrow> d = ref'" and "\<not> idr \<Longrightarrow> ref = ref' \<and> ref \<le> d"
  shows "\<exists>h1 v1. InitPOC pps sps (enc\<lparr>disp_order := d\<rparr>) h (v\<lparr>nal_is_IDR := idr\<rparr>)
      = Some (AVCENC_SUCCESS, enc\<lparr>disp_order := d, dispOrdPOCRef := ref'\<rparr>, h1, v1)
    \<and> uint (pic_order_cnt_lsb h1) = (uint d - uint ref') mod 2 ^ k \<and> \<not> field_pic_flag h1
    \<and> delta_pic_order_cnt_bottom h1 = 0 \<and> MaxPicOrderCntLsb v1 = 2 ^ k"
proof -
  have k: "k \<le> 16" "MaxPicOrderCntLsb v = 2 ^ k" and t: "pic_order_cnt_type sps = 0"
    and h: "\<not> field_pic_flag h" "delta_pic_order_cnt_bottom h = 0" and ref: "dispOrdPOCRef enc = ref"
    using assms(1) by (simp_all add: poc_sync_def)
  have mx: "uint (word_of_int (2 ^ k) :: uint) = 2 ^ k" using power_small [OF k(1)] by (intro uint_word_small) simp_all
  then have mx0: "(word_of_int (2 ^ k) :: uint) \<noteq> 0" by (metis power_not_zero uint_0_eq zero_neq_numeral)
  have le: "ref' \<le> d" using assms(2,3) by (cases idr) auto
  have ref': "(if idr then d else ref) = ref'" using assms(2,3) by (cases idr) simp_all
  have sub: "uint (d - ref') = uint d - uint ref'" using le by (simp add: uint_sub_if' word_le_def)
  have l: "uint ((d - ref') mod word_of_int (2 ^ k)) = (uint d - uint ref') mod 2 ^ k"
    by (simp only: uint_mod_distrib mx sub)
  show ?thesis
    using h k t ref ref' lower_ref_done [OF le] reduce_lsb_mod [OF mx0] l
    by (auto simp: InitPOC_def init_poc0_def Let_def)
qed


lemma poc_decode:
  assumes sync: "poc_sync pps sps k ref p (enc, h, v, w)" and lsb: "uint (pic_order_cnt_lsb h1) = P mod 2 ^ k"
    and P: "0 \<le> P" "P < 2 ^ 29" and "if idr then P = 0 else P - p \<le> 2 ^ (k - 1) \<and> - (2 ^ (k - 1)) < P - p"
  shows "\<exists>w1. DecodePOC sps h1 (w\<lparr>nal_is_IDR := idr\<rparr>) = Some (AVCDEC_SUCCESS, w1) \<and> vid_PicOrderCnt w1 = P
    \<and> PicOrderCntMsb w1 = P - P mod 2 ^ k \<and> TopFieldOrderCnt w1 = P \<and> MaxPicOrderCntLsb w1 = 2 ^ k"
proof -
  let ?M = "2 ^ k :: int"
  have k: "4 \<le> k" "k \<le> 16" and t: "pic_order_cnt_type sps = 0" and M: "MaxPicOrderCntLsb w = ?M"
    using sync by (simp_all add: poc_sync_def)
  have half: "?M div 2 = 2 ^ (k - 1)" "even ?M" using k(1) by (cases k; simp)+
  have small: "0 < ?M" "?M \<le> 65536" using power_small [OF k(2)] by simp_all
  define w0 where "w0 = (if idr then (w\<lparr>nal_is_IDR := idr\<rparr>)\<lparr>prevPicOrderCntMsb := 0, prevPicOrderCntLsb := 0\<rparr> else w\<lparr>nal_is_IDR := idr\<rparr>)"
  have "poc_msb (P mod ?M) w0 = P - P mod ?M"
  proof (rule poc_msb_nearest [where M = ?M])
    show "?M = MaxPicOrderCntLsb w0" "even ?M" "0 < ?M" "?M \<le> 65536" using M half small by (simp_all add: w0_def)
    show "prevPicOrderCntMsb w0 mod ?M = 0" "0 \<le> prevPicOrderCntLsb w0" "prevPicOrderCntLsb w0 < ?M"
      using sync small by (simp_all add: w0_def poc_sync_def)
    have p: "prevPicOrderCntMsb w0 + prevPicOrderCntLsb w0 = (if idr then 0 else p)"
      using sync by (simp add: w0_def poc_sync_def)
    show "P - (prevPicOrderCntMsb w0 + prevPicOrderCntLsb w0) \<le> ?M div 2"
      "- (?M div 2) < P - (prevPicOrderCntMsb w0 + prevPicOrderCntLsb w0)"
      unfolding p half(1) using assms(5) by (cases idr; simp)+
    show "\<bar>prevPicOrderCntMsb w0\<bar> < 1073741824"
    proof (cases idr)
      case True
      then show ?thesis by (simp add: w0_def)
    next
      case False
      have "(2::int) ^ (k - 1) \<le> 65536" using power_small [of "k - 1"] k(2) by simp
      moreover have "0 \<le> prevPicOrderCntLsb w0" "prevPicOrderCntLsb w0 < ?M" using sync small by (simp_all add: w0_def poc_sync_def)
      moreover have "prevPicOrderCntMsb w0 + prevPicOrderCntLsb w0 = p" "P - p \<le> 2 ^ (k - 1)" "- (2 ^ (k - 1)) < P - p" "P < 536870912"
        using p assms(5) False P(2) by simp_all
      ultimately show ?thesis using P(1) small(2) by linarith
    qed
  qed simp
  moreover have "MaxPicOrderCntLsb w0 = ?M" by (simp add: w0_def M)
  moreover have "c_int P = P" using P by (intro c_int_id) simp_all
  ultimately show ?thesis
    using t M lsb by (simp add: DecodePOC_def dec_poc0_def Let_def flip: w0_def)
qed

lemma poc_frame_sync:
  assumes "poc_sync pps sps k ref p s" and "if idr then ref' = d else ref = ref' \<and> poc_near k ref p d"
  shows "\<exists>s'. poc_frame pps sps idr d s = Some (uint d - uint ref', s') \<and> poc_sync pps sps k ref' (uint d - uint ref') s'"
proof -
  obtain enc h v w where s: "s = (enc, h, v, w)" by (cases s)
  let ?P = "uint d - uint ref'"
  have near: "if idr then ?P = 0 else ?P - p \<le> 2 ^ (k - 1) \<and> - (2 ^ (k - 1)) < ?P - p" and P: "0 \<le> ?P" "?P < 2 ^ 29"
    using assms(2) by (auto simp: poc_near_def word_le_def split: if_splits)
  obtain h1 v1 where e: "InitPOC pps sps (enc\<lparr>disp_order := d\<rparr>) h (v\<lparr>nal_is_IDR := idr\<rparr>)
      = Some (AVCENC_SUCCESS, enc\<lparr>disp_order := d, dispOrdPOCRef := ref'\<rparr>, h1, v1)"
      "uint (pic_order_cnt_lsb h1) = ?P mod 2 ^ k" "\<not> field_pic_flag h1" "delta_pic_order_cnt_bottom h1 = 0"
      "MaxPicOrderCntLsb v1 = 2 ^ k"
    using poc_encode [OF assms(1) [unfolded s], of idr d ref'] assms(2) by (auto simp: poc_near_def split: if_splits)
  obtain w1 where d: "DecodePOC sps h1 (w\<lparr>nal_is_IDR := idr\<rparr>) = Some (AVCDEC_SUCCESS, w1)" "vid_PicOrderCnt w1 = ?P"
      "PicOrderCntMsb w1 = ?P - ?P mod 2 ^ k" "TopFieldOrderCnt w1 = ?P" "MaxPicOrderCntLsb w1 = 2 ^ k"
    using poc_decode [OF assms(1) [unfolded s] e(2) P near] by blast
  have "poc_sync pps sps k ref' ?P (enc\<lparr>disp_order := d, dispOrdPOCRef := ref'\<rparr>, h1,
      PostPOC sps h1 (v1\<lparr>mem_mgr_ctrl_eq_5 := True\<rparr>), dec_post_poc h1 (w1\<lparr>mem_mgr_ctrl_eq_5 := idr\<rparr>))"
    using assms e d by (auto simp: poc_sync_def s PostPOC_def dec_post_poc_def Let_def mod_diff_eq split: if_splits)
  then show ?thesis using s e(1) d(1,2) by (simp add: poc_frame_def)
qed


text \<open>The frames of a session whose display orders an encoder with these parameters can signal.\<close>

fun poc_frames_ok :: "nat \<Rightarrow> uint \<Rightarrow> int \<Rightarrow> (bool \<times> uint) list \<Rightarrow> bool" where
  "poc_frames_ok k ref p [] \<longleftrightarrow> True"
| "poc_frames_ok k ref p ((idr, d) # frames) \<longleftrightarrow>
     (if idr then poc_frames_ok k d 0 frames else poc_near k ref p d \<and> poc_frames_ok k ref (uint d - uint ref) frames)"

fun display_orders :: "uint \<Rightarrow> (bool \<times> uint) list \<Rightarrow> int list" where
  "display_orders ref [] = []"
| "display_orders ref ((idr, d) # frames) =
     (let r = (if idr then d else ref) in (uint d - uint r) # display_orders r frames)"

lemma poc_session_sync:
  "poc_sync pps sps k ref p s \<Longrightarrow> poc_frames_ok k ref p frames \<Longrightarrow>
    poc_session pps sps frames s = Some (display_orders ref frames)"
proof (induction frames arbitrary: ref p s)
  case (Cons f frames)
  obtain idr d where f: "f = (idr, d)" by (cases f)
  define ref' where "ref' = (if idr then d else ref)"
  obtain s' where s': "poc_frame pps sps idr d s = Some (uint d - uint ref', s')"
      "poc_sync pps sps k ref' (uint d - uint ref') s'"
    using poc_frame_sync [OF Cons.prems(1), of idr ref' d] Cons.prems(2) by (auto simp: f ref'_def split: if_splits)
  have "poc_session pps sps frames s' = Some (display_orders ref' frames)"
    by (rule Cons.IH [OF s'(2)]) (use Cons.prems(2) in \<open>simp add: f ref'_def split: if_splits\<close>)
  then show ?case using s'(1) by (simp add: f Let_def flip: ref'_def)
qed simp

end
