(* ===== verification/Output.thy ===== *)
theory Output
  imports DpbMarking Poc
begin

text \<open>
  The life of a frame in the decoder: \<open>PVAVCDecGetOutput\<close>, \<open>PVAVCDecReset\<close> and \<open>PVAVCDecGetSeqInfo\<close> of
  \<open>dec/src/avcdec_api.cpp\<close>, \<open>fill_frame_num_gap\<close> of \<open>dec/src/header.cpp\<close>. The handle is never null here; a
  null \<open>currFS\<close> is the index \<open>num_fs\<close>. The loop over the missing frames ends only if \<open>frame_num\<close> is below
  \<open>MaxFrameNum\<close> and is a \<open>partial_function\<close>. The progress flags and counters that
  \<open>PVAVCDecReset\<close> also clears (\<open>newPic\<close>, \<open>newSlice\<close>, \<open>numMBs\<close>, \<open>prevRefPic\<close>) are not part of the model.
\<close>

section \<open>Output of the next picture\<close>

record AVCFrameIO =
  YCbCr :: "int option list"
  io_pitch :: int
  io_height :: int
  io_disp_order :: uint
  io_coding_order :: uint
  io_id :: uint

definition not_output :: "AVCCommonObj \<Rightarrow> nat \<Rightarrow> bool" where
  "not_output v i \<longleftrightarrow> IsOutputted (fs v ! i) AND 0x01 = 0"

text \<open>One turn of the search: the number of candidates, \<open>min_poc\<close> and \<open>oldestFrame\<close> with its index.\<close>

definition search_step ::
  "(nat \<Rightarrow> bool) \<Rightarrow> AVCCommonObj \<Rightarrow> nat \<Rightarrow> nat \<times> int \<times> nat option \<Rightarrow> nat \<times> int \<times> nat option" where
  "search_step P v i = (\<lambda>(cnt, min_poc, oldest).
     if P i then
       let poc = fs_PicOrderCnt (fs v ! i);
           (mp, old) = (if oldest = None then (poc, Some i) else (min_poc, oldest))
       in if poc < mp then (cnt + 1, poc, Some i) else (cnt + 1, mp, old)
     else (cnt, min_poc, oldest))"

definition oldest_frame :: "(nat \<Rightarrow> bool) \<Rightarrow> AVCCommonObj \<Rightarrow> nat \<times> nat option" where
  "oldest_frame P v = (case fold (search_step P v) [0..<num_fs v] (0, 0, None) of (cnt, mp, old) \<Rightarrow> (cnt, old))"

text \<open>The choice of the frame to be output; the second component is the new \<open>mem_mgr_ctrl_eq_5\<close>.\<close>

definition choose_output :: "AVCCommonObj \<Rightarrow> nat option \<times> bool" where
  "choose_output v =
     (if \<not> mem_mgr_ctrl_eq_5 v then (snd (oldest_frame (not_output v) v), False)
      else
        let (cnt, old) = oldest_frame (\<lambda>i. not_output v i \<and> i \<noteq> currFS v) v
        in if cnt < 2 \<and> \<not> nal_is_IDR v then (old, False)
           else if cnt < 1 \<and> nal_is_IDR v
           then (if currFS v < num_fs v \<and> not_output v (currFS v) then Some (currFS v) else old, False)
           else (old, True))"

text \<open>
  When there is nothing to output and no free frame, one is taken from the references, by the
  statements of \<open>unmark_for_reference\<close>.
\<close>

definition force_free :: "AVCCommonObj \<Rightarrow> AVCCommonObj" where
  "force_free v =
     (if \<exists>i \<in> set [0..<num_fs v]. IsReference (fs v ! i) = 0 \<and> IsOutputted (fs v ! i) = 3 then v
      else
        let MinIdx = nat (snd (fold (min_step v) [0..<num_fs v] (0x7FFFFFFF, 0)))
        in unmark_for_reference MinIdx v)"

definition frame_io :: "AVCFrameStore \<Rightarrow> AVCFrameIO" where
  "frame_io f = \<lparr>YCbCr = [Sl (frame f), Scb (frame f), Scr (frame f)], io_pitch = width (frame f),
     io_height = height (frame f), io_disp_order = word_of_int (fs_PicOrderCnt f),
     io_coding_order = word_of_int (FrameNum f), io_id = word_of_int (base_dpb f)\<rparr>"

text \<open>The result of a success is \<open>indx\<close>, \<open>release\<close> and the output structure.\<close>

definition PVAVCDecGetOutput ::
  "AVCCommonObj \<Rightarrow> AVCDec_Status \<times> (nat \<times> bool \<times> AVCFrameIO) option \<times> AVCCommonObj" where
  "PVAVCDecGetOutput v =
     (if num_fs v = 0 then (AVCDEC_FAIL, None, v)
      else
        let (oldest, flag) = choose_output v;
            v1 = v\<lparr>mem_mgr_ctrl_eq_5 := flag\<rparr>
        in case oldest of
             None \<Rightarrow> (AVCDEC_FAIL, None, force_free v1)
           | Some i \<Rightarrow>
               let v2 = upd_fs i (\<lambda>f. f\<lparr>IsOutputted := IsOutputted f OR 0x01\<rparr>) v1; f = fs v2 ! i
               in (AVCDEC_SUCCESS, Some (i, IsOutputted f = 3, frame_io f), v2))"

section \<open>Reset and sequence information\<close>

definition reset_store :: "AVCFrameStore \<Rightarrow> AVCFrameStore" where
  "reset_store f = f\<lparr>IsLongTerm := 0, IsReference := 0, IsOutputted := 3,
     frame := (frame f)\<lparr>isReference := False, isLongTerm := False\<rparr>\<rparr>"

definition PVAVCDecReset :: "AVCCommonObj \<Rightarrow> AVCCommonObj" where
  "PVAVCDecReset v =
     (let v1 = for_fs (\<lambda>i. upd_fs i reset_store) v
      in v1\<lparr>mem_mgr_ctrl_eq_5 := False, currFS := num_fs v1, prevFrameNum := 0, PrevRefFrameNum := 0,
            prevFrameNumOffset := 0, FrameNumOffset := 0, mbNum := 0\<rparr>)"

record AVCDecSPSInfo =
  FrameWidth :: int
  FrameHeight :: int
  frame_only_flag :: bool
  frame_crop_left :: int
  frame_crop_right :: int
  frame_crop_top :: int
  frame_crop_bottom :: int

definition PVAVCDecGetSeqInfo :: "AVCSeqParamSet option \<Rightarrow> AVCDec_Status \<times> AVCDecSPSInfo option" where
  "PVAVCDecGetSeqInfo sps0 =
     (case sps0 of
        None \<Rightarrow> (AVCDEC_FAIL, None)
      | Some sps \<Rightarrow>
          let w = (pic_width_in_mbs_minus1 sps + 1) * 16;
              h = (2 - of_bool (frame_mbs_only_flag sps)) * (pic_height_in_map_units_minus1 sps + 1) * 16;
              k = (if frame_mbs_only_flag sps then 2 else 4)
          in (AVCDEC_SUCCESS, Some
               (if frame_cropping_flag sps
                then \<lparr>FrameWidth = w, FrameHeight = h, frame_only_flag = frame_mbs_only_flag sps,
                      frame_crop_left = 2 * frame_crop_left_offset sps,
                      frame_crop_right = w - (2 * frame_crop_right_offset sps + 1),
                      frame_crop_top = k * frame_crop_top_offset sps,
                      frame_crop_bottom = h - (k * frame_crop_bottom_offset sps + 1)\<rparr>
                else \<lparr>FrameWidth = w, FrameHeight = h, frame_only_flag = frame_mbs_only_flag sps,
                      frame_crop_left = 0, frame_crop_right = w - 1, frame_crop_top = 0, frame_crop_bottom = h - 1\<rparr>)))"

section \<open>Gaps in frame_num\<close>

text \<open>The cast of the status of the buffer operations to the decoder's.\<close>

fun dec_status :: "AVCStatus \<Rightarrow> AVCDec_Status" where
  "dec_status AVC_NO_BUFFER = AVCDEC_NO_BUFFER"
| "dec_status AVC_MEMORY_FAIL = AVCDEC_MEMORY_FAIL"
| "dec_status AVC_FAIL = AVCDEC_FAIL"
| "dec_status AVC_SUCCESS = AVCDEC_SUCCESS"
| "dec_status AVC_PICTURE_OUTPUT_READY = AVCDEC_PICTURE_OUTPUT_READY"

text \<open>The frame made up for one missing number; the status of \<open>DecodePOC\<close> is not looked at.\<close>

definition gap_store :: "AVCSliceHeader \<Rightarrow> AVCCommonObj \<Rightarrow> AVCCommonObj" where
  "gap_store h v = upd_fs (currFS v) (\<lambda>f. f\<lparr>fs_PicOrderCnt := vid_PicOrderCnt v, FrameNum := frame_num h,
     IsOutputted := 0x01, IsReference := 3, IsLongTerm := 0,
     frame := (frame f)\<lparr>isReference := True, isLongTerm := False\<rparr>\<rparr>) v"

definition gap_frame ::
  "(nat \<Rightarrow> int option) \<Rightarrow> AVCSeqParamSet \<Rightarrow> int \<Rightarrow> AVCSliceHeader \<Rightarrow> AVCCommonObj
    \<Rightarrow> (AVCDec_Status \<times> AVCSliceHeader \<times> AVCCommonObj) option" where
  "gap_frame fbind sps unused h v =
     (let v1 = v\<lparr>CurrPicNum := unused\<rparr>; h1 = h\<lparr>frame_num := unused\<rparr>; (st, v2) = DPBInitBuffer fbind v1
      in if st \<noteq> AVC_SUCCESS then Some (dec_status st, h1, v2)
         else do { (_, v3) \<leftarrow> DecodePOC sps h1 v2;
                   let v4 = gap_store h1 (DPBInitPic h1 unused v3);
                   let h2 = h1\<lparr>adaptive_ref_pic_marking_mode_flag := False\<rparr>;
                   let (st', v5) = StorePictureInDPB sps h2 v4;
                   Some (if st' \<noteq> AVC_SUCCESS then AVCDEC_FAIL else AVCDEC_SUCCESS, h2, v5) })"

partial_function (option) gap_loop ::
  "(nat \<Rightarrow> int option) \<Rightarrow> AVCSeqParamSet \<Rightarrow> int \<Rightarrow> int \<Rightarrow> AVCSliceHeader \<Rightarrow> AVCCommonObj
    \<Rightarrow> (AVCDec_Status \<times> AVCSliceHeader \<times> AVCCommonObj) option" where
  [code]: "gap_loop fbind sps target unused h v =
     (if target = unused then Some (AVCDEC_SUCCESS, h, v)
      else do { (st, h1, v1) \<leftarrow> gap_frame fbind sps unused h v;
                if st \<noteq> AVCDEC_SUCCESS then Some (st, h1, v1)
                else gap_loop fbind sps target ((unused + 1) mod MaxFrameNum v1) h1 (v1\<lparr>prevFrameNum := unused\<rparr>) })"

definition fill_frame_num_gap ::
  "(nat \<Rightarrow> int option) \<Rightarrow> AVCSeqParamSet \<Rightarrow> AVCSliceHeader \<Rightarrow> AVCCommonObj
    \<Rightarrow> (AVCDec_Status \<times> AVCSliceHeader \<times> AVCCommonObj) option" where
  "fill_frame_num_gap fbind sps h v =
     (if MaxFrameNum v = 0 then None
      else do { (st, h1, v1) \<leftarrow> gap_loop fbind sps (frame_num h) ((prevFrameNum v + 1) mod MaxFrameNum v)
                  (h\<lparr>delta_pic_order_cnt := [0, 0]\<rparr>) v;
                if st \<noteq> AVCDEC_SUCCESS then Some (st, h1, v1)
                else Some (AVCDEC_SUCCESS,
                  h1\<lparr>frame_num := frame_num h, delta_pic_order_cnt := delta_pic_order_cnt h,
                     adaptive_ref_pic_marking_mode_flag := adaptive_ref_pic_marking_mode_flag h\<rparr>,
                  v1\<lparr>CurrPicNum := CurrPicNum v\<rparr>) })"

section \<open>What the choice picks\<close>

lemma and_1: "(x :: int) AND 1 = x mod 2"
  by (simp add: and_one_eq)

lemma not_output_even: "not_output v i \<longleftrightarrow> even (IsOutputted (fs v ! i))"
  by (simp add: not_output_def and_1 even_iff_mod_2_eq_zero)

text \<open>The search returns the first of the frames of smallest count, and the number of candidates.\<close>

definition is_oldest :: "(nat \<Rightarrow> bool) \<Rightarrow> AVCCommonObj \<Rightarrow> nat \<Rightarrow> nat \<Rightarrow> bool" where
  "is_oldest P v n k \<longleftrightarrow> k < n \<and> P k \<and> (\<forall>i < n. P i \<longrightarrow> fs_PicOrderCnt (fs v ! k) \<le> fs_PicOrderCnt (fs v ! i))"

lemma search_step_simps:
  "\<not> P i \<Longrightarrow> search_step P v i s = s"
  "P i \<Longrightarrow> search_step P v i (c, m, None) = (c + 1, fs_PicOrderCnt (fs v ! i), Some i)"
  "P i \<Longrightarrow> search_step P v i (c, m, Some k) = (if fs_PicOrderCnt (fs v ! i) < m
     then (c + 1, fs_PicOrderCnt (fs v ! i), Some i) else (c + 1, m, Some k))"
  by (simp_all add: search_step_def Let_def split: prod.splits)

definition found :: "(nat \<Rightarrow> bool) \<Rightarrow> AVCCommonObj \<Rightarrow> nat \<Rightarrow> nat \<times> int \<times> nat option \<Rightarrow> bool" where
  "found P v n s \<longleftrightarrow> fst s = card {i. i < n \<and> P i}
     \<and> (case snd (snd s) of None \<Rightarrow> \<forall>i < n. \<not> P i
        | Some k \<Rightarrow> is_oldest P v n k \<and> fst (snd s) = fs_PicOrderCnt (fs v ! k))"

lemma found_step:
  assumes "found P v n s"
  shows "found P v (Suc n) (search_step P v n s)"
proof (cases "P n")
  case False
  then have "{i. i < Suc n \<and> P i} = {i. i < n \<and> P i}" by (auto simp: less_Suc_eq)
  with assms False show ?thesis
    by (auto simp: found_def search_step_simps is_oldest_def less_Suc_eq split: option.splits)
next
  case True
  obtain c m old where s: "s = (c, m, old)" by (cases s)
  have "{i. i < Suc n \<and> P i} = insert n {i. i < n \<and> P i}" using True by (auto simp: less_Suc_eq)
  then have card: "card {i. i < Suc n \<and> P i} = Suc (card {i. i < n \<and> P i})" by simp
  show ?thesis
  proof (cases old)
    case None
    with assms True s show ?thesis
      by (auto simp: found_def search_step_simps card is_oldest_def elim!: less_SucE)
  next
    case (Some k)
    with assms True s show ?thesis
      by (auto simp: found_def search_step_simps card is_oldest_def elim!: less_SucE)
  qed
qed

lemma oldest_frame_spec:
  assumes "oldest_frame P v = (cnt, old)"
  shows "cnt = card {i. i < num_fs v \<and> P i}
    \<and> (case old of None \<Rightarrow> \<forall>i < num_fs v. \<not> P i | Some k \<Rightarrow> is_oldest P v (num_fs v) k)"
proof -
  have "found P v n (fold (search_step P v) [0..<n] (0, 0, None))" for n
  proof (induction n)
    case 0
    then show ?case by (simp add: found_def)
  next
    case (Suc n)
    then show ?case using found_step [of P v n] by simp
  qed
  then have "found P v (num_fs v) (fold (search_step P v) [0..<num_fs v] (0, 0, None))" .
  moreover obtain c m o' where f: "fold (search_step P v) [0..<num_fs v] (0, 0, None) = (c, m, o')" by (metis prod_cases3)
  moreover have "c = cnt" "o' = old" using assms f by (simp_all add: oldest_frame_def)
  ultimately show ?thesis by (cases old) (simp_all add: found_def)
qed

text \<open>What is chosen has not been output before.\<close>

lemma choose_output_spec:
  assumes "choose_output v = (Some k, flag)"
  shows "k < num_fs v \<and> not_output v k"
proof (cases "mem_mgr_ctrl_eq_5 v")
  case False
  obtain cnt old where o: "oldest_frame (not_output v) v = (cnt, old)" by fastforce
  from oldest_frame_spec [OF o] show ?thesis using assms False by (simp add: choose_output_def o is_oldest_def)
next
  case True
  obtain cnt old where o: "oldest_frame (\<lambda>i. not_output v i \<and> i \<noteq> currFS v) v = (cnt, old)" by fastforce
  have "old = Some k \<or> currFS v < num_fs v \<and> not_output v (currFS v) \<and> k = currFS v"
    using assms True by (simp add: choose_output_def o split: if_splits)
  then show ?thesis using oldest_frame_spec [OF o] by (elim disjE) (simp_all add: is_oldest_def)
qed

lemma choose_output_none:
  assumes "choose_output v = (None, flag)" and "\<not> mem_mgr_ctrl_eq_5 v"
  shows "(\<forall>i < num_fs v. \<not> not_output v i) \<and> \<not> flag"
proof -
  obtain cnt old where o: "oldest_frame (not_output v) v = (cnt, old)" by fastforce
  from oldest_frame_spec [OF o] show ?thesis using assms by (simp add: choose_output_def o)
qed

section \<open>What every operation on the buffer keeps\<close>

text \<open>
  Shape, well-formed stores, and the output bit: a frame that has been output stays so until it is
  used for another picture.
\<close>

named_theorems keeps_intros \<open>operations that keep the buffer\<close>

definition keeps :: "AVCCommonObj \<Rightarrow> AVCCommonObj \<Rightarrow> bool" where
  "keeps v u \<longleftrightarrow> num_fs u = num_fs v \<and> length (fs u) = length (fs v) \<and> currFS u = currFS v
     \<and> MaxFrameNum u = MaxFrameNum v
     \<and> (\<forall>i < length (fs v). (store_ok (fs v ! i) \<longrightarrow> store_ok (fs u ! i))
          \<and> (odd (IsOutputted (fs v ! i)) \<longrightarrow> odd (IsOutputted (fs u ! i))))"

lemma keeps_refl [keeps_intros]: "keeps v v"
  by (simp add: keeps_def)

lemma keeps_trans: "keeps v u \<Longrightarrow> keeps u w \<Longrightarrow> keeps v w"
  by (simp add: keeps_def)

lemma keeps_upd:
  assumes "keeps v u" and "store_ok (fs u ! i) \<Longrightarrow> store_ok (g (fs u ! i))"
    and "odd (IsOutputted (fs u ! i)) \<Longrightarrow> odd (IsOutputted (g (fs u ! i)))"
  shows "keeps v (upd_fs i g u)"
proof (cases "i < length (fs u)")
  case True
  then show ?thesis using assms by (auto simp: keeps_def nth_upd_fs) (simp_all add: upd_fs_def)
next
  case False
  then have "upd_fs i g u = u" by (simp add: upd_fs_def list_update_beyond not_less)
  then show ?thesis using assms(1) by simp
qed

lemma keeps_fields [keeps_intros]:
  "keeps v u \<Longrightarrow> keeps v (u\<lparr>MaxLongTermFrameIdx := m\<rparr>)" "keeps v u \<Longrightarrow> keeps v (u\<lparr>mem_mgr_ctrl_eq_5 := b\<rparr>)"
  "keeps v u \<Longrightarrow> keeps v (u\<lparr>unbound := x\<rparr>)" "keeps v u \<Longrightarrow> keeps v (CBAVC_FrameUnbind i u)"
  by (simp_all add: keeps_def CBAVC_FrameUnbind_def)

lemma odd_or_2: "odd (x :: int) \<Longrightarrow> odd (x OR 2)"
  by (metis bit_0 bit_or_iff)

lemma keeps_unmark [keeps_intros]: "keeps v u \<Longrightarrow> keeps v (unmark_for_reference i u)"
  unfolding unmark_release release_def Let_def
  by (auto intro!: keeps_intros keeps_upd store_ok_unmarked simp: odd_or_2)

lemma keeps_for_fs:
  assumes "\<And>i w. keeps v w \<Longrightarrow> keeps v (body i w)" and "keeps v u"
  shows "keeps v (for_fs body u)"
proof -
  have "keeps v (fold body xs w)" if "keeps v w" for xs w
    using that assms(1) by (induction xs arbitrary: w) simp_all
  then show ?thesis using assms(2) by (simp add: for_fs_def)
qed


lemma keeps_unmark_lt [keeps_intros]:
  "keeps v u \<Longrightarrow> keeps v (unmark_long_term_frame_for_reference_by_frame_idx l u)"
  unfolding unmark_long_term_frame_for_reference_by_frame_idx_def
  by (rule keeps_for_fs) (auto intro: keeps_intros)

lemma keeps_Op1 [keeps_intros]: "keeps v u \<Longrightarrow> keeps v (MemMgrCtrlOp1 d u)"
  by (auto simp: MemMgrCtrlOp1_def Let_def intro: keeps_intros split: option.split)

lemma keeps_Op2 [keeps_intros]: "keeps v u \<Longrightarrow> keeps v (MemMgrCtrlOp2 l u)"
  unfolding MemMgrCtrlOp2_def by (rule keeps_for_fs) (auto intro: keeps_intros)

lemma keeps_Op3 [keeps_intros]:
  assumes "keeps v u"
  shows "keeps v (MemMgrCtrlOp3 d l u)"
proof -
  have w: "keeps v (unmark_long_term_frame_for_reference_by_frame_idx l u)" using assms by (rule keeps_unmark_lt)
  show ?thesis
    unfolding MemMgrCtrlOp3_def Let_def
    by (auto split: option.split intro!: w keeps_upd [OF w] dest: first_fs_Some simp: store_ok_def)
qed

lemma keeps_Op4 [keeps_intros]: "keeps v u \<Longrightarrow> keeps v (MemMgrCtrlOp4 m u)"
  unfolding MemMgrCtrlOp4_def Let_def by (rule keeps_for_fs) (auto intro: keeps_intros)

lemma keeps_Op5 [keeps_intros]: "keeps v u \<Longrightarrow> keeps v (MemMgrCtrlOp5 u)"
  unfolding MemMgrCtrlOp5_def Let_def by (intro keeps_intros keeps_for_fs) (auto intro: keeps_intros)

lemma keeps_Op6 [keeps_intros]: "keeps v u \<Longrightarrow> keeps v (MemMgrCtrlOp6 l u)"
  unfolding MemMgrCtrlOp6_def Let_def by (rule keeps_upd) (auto intro: keeps_intros simp: store_ok_def)

lemma keeps_mmco_step: "keeps v u \<Longrightarrow> keeps v (mmco_step h ii u)"
  by (auto simp: mmco_step_def Let_def store_ok_def intro!: keeps_intros keeps_upd)

lemma keeps_mmco_loop: "keeps v u \<Longrightarrow> keeps v (snd (mmco_loop h ii u))"
proof (induction h ii u rule: mmco_loop.induct)
  case (1 h ii u)
  then show ?case by (subst mmco_loop.simps) (auto simp: keeps_mmco_step)
qed

lemma keeps_adaptive: "keeps v u \<Longrightarrow> keeps v (snd (adaptive_memory_marking h u))"
  using keeps_mmco_loop [of v u h 0] by (cases "mmco_loop h 0 u") (simp add: adaptive_memory_marking_def)

lemma keeps_slide: "keeps v u \<Longrightarrow> keeps v (snd (slide nr ns nl u))"
proof (induction nr ns nl u rule: slide.induct)
  case (1 nr ns nl u)
  then show ?case by (subst slide.simps) (auto simp: Let_def intro: keeps_intros)
qed

lemma upd_fs_twice: "upd_fs i g (upd_fs i f v) = upd_fs i (\<lambda>x. g (f x)) v"
  by (cases "i < length (fs v)") (simp_all add: upd_fs_def list_update_beyond not_less)

lemma keeps_IDR: "keeps v u \<Longrightarrow> keeps v (store_IDR h u)"
proof -
  assume u: "keeps v u"
  have flush: "keeps v (idr_flush i w)" if "keeps v w" for i w
    using that by (auto simp: idr_flush_def Let_def store_ok_def odd_or_2 or_2 intro!: keeps_intros keeps_upd)
  have drop: "keeps v (idr_drop i w)" if "keeps v w" for i w
    using that by (auto simp: idr_drop_def store_ok_def intro!: keeps_intros keeps_upd)
  show ?thesis
    unfolding store_IDR_def Let_def upd_fs_simps upd_fs_twice
    by (auto intro!: keeps_intros keeps_for_fs keeps_upd flush drop u simp: store_ok_def)
qed

lemma keeps_finish: "keeps v u \<Longrightarrow> keeps v (snd (store_finish sps u))"
  by (auto simp: store_finish_def Let_def store_ok_def intro!: keeps_upd)

lemma keeps_store: "keeps v u \<Longrightarrow> keeps v (snd (StorePictureInDPB sps h u))"
proof -
  assume u: "keeps v u"
  have "keeps v (snd (sliding_window_process sps u))"
    using keeps_slide [OF u] by (simp add: sliding_window_process_def Let_def)
  moreover obtain st1 w1 where w1: "sliding_window_process sps u = (st1, w1)" by fastforce
  moreover obtain st2 w2 where w2: "adaptive_memory_marking h u = (st2, w2)" by fastforce
  moreover have "keeps v w2" using keeps_adaptive [OF u, of h] w2 by simp
  ultimately show ?thesis using keeps_finish keeps_IDR [OF u] u by (simp add: StorePictureInDPB_def w1 w2)
qed

section \<open>The decoder as a state machine\<close>

text \<open>
  The calls on the buffer in the order the application can make them: a picture is started when none
  is being decoded (\<open>PVAVCDecodeSlice\<close> gets a frame and initialises it), stored when it is complete; in
  between two pictures frames are output, frames for missing numbers are stored, and the decoder may
  be reset. The state carries whether a picture is being decoded.
\<close>

datatype dpb_event = Start nat | Output nat | Fill nat

definition start_picture :: "AVCSliceHeader \<Rightarrow> int \<Rightarrow> bool \<Rightarrow> bool \<Rightarrow> AVCCommonObj \<Rightarrow> AVCCommonObj" where
  "start_picture h n idr ref v =
     (let v1 = upd_currPic (\<lambda>p. p\<lparr>isReference := ref\<rparr>) (DPBInitPic h n (v\<lparr>nal_is_IDR := idr\<rparr>))
      in if ref then v1 else upd_fs (currFS v1) (\<lambda>f. f\<lparr>IsOutputted := IsOutputted f OR 0x02\<rparr>) v1)"

inductive dec_step ::
  "(nat \<Rightarrow> int option) \<Rightarrow> AVCSeqParamSet \<Rightarrow> AVCCommonObj \<times> bool \<Rightarrow> dpb_event list \<Rightarrow> AVCCommonObj \<times> bool \<Rightarrow> bool"
  for fbind sps where
  step_start: "DPBInitBuffer fbind v = (AVC_SUCCESS, v1) \<Longrightarrow>
    dec_step fbind sps (v, False) [Start (currFS v1)] (start_picture h n idr ref v1, True)"
| step_store: "StorePictureInDPB sps h v = (st, v1) \<Longrightarrow> dec_step fbind sps (v, True) [] (v1, False)"
| step_output: "PVAVCDecGetOutput v = (AVCDEC_SUCCESS, Some (i, rel, io), v1) \<Longrightarrow>
    dec_step fbind sps (v, False) [Output i] (v1, False)"
| step_none: "PVAVCDecGetOutput v = (AVCDEC_FAIL, None, v1) \<Longrightarrow> dec_step fbind sps (v, False) [] (v1, False)"
| step_gap: "DPBInitBuffer fbind v = (AVC_SUCCESS, v1) \<Longrightarrow> gap_frame fbind sps u h v = Some (st, h', v2) \<Longrightarrow>
    dec_step fbind sps (v, False) [Fill (currFS v1)] (v2, False)"
| step_reset: "dec_step fbind sps (v, p) [] (PVAVCDecReset v, False)"

inductive dec_run ::
  "(nat \<Rightarrow> int option) \<Rightarrow> AVCSeqParamSet \<Rightarrow> AVCCommonObj \<times> bool \<Rightarrow> dpb_event list \<Rightarrow> AVCCommonObj \<times> bool \<Rightarrow> bool"
  for fbind sps where
  run_init: "dec_run fbind sps s [] s"
| run_step: "dec_run fbind sps s es t \<Longrightarrow> dec_step fbind sps t e u \<Longrightarrow> dec_run fbind sps s (es @ e) u"

inductive_cases dec_stepE: "dec_step fbind sps s e t"

text \<open>A picture was put into store \<open>i\<close> and has not been output since.\<close>

fun event_step :: "nat \<Rightarrow> dpb_event \<Rightarrow> bool \<Rightarrow> bool" where
  "event_step i (Start j) b \<longleftrightarrow> j = i \<or> b"
| "event_step i (Output j) b \<longleftrightarrow> j \<noteq> i \<and> b"
| "event_step i (Fill j) b \<longleftrightarrow> j \<noteq> i \<and> b"

definition awaits :: "nat \<Rightarrow> dpb_event list \<Rightarrow> bool" where
  "awaits i es = fold (event_step i) es False"

lemma awaits_snoc [simp]: "awaits i [] = False" "awaits i (es @ [e]) = event_step i e (awaits i es)"
  by (simp_all add: awaits_def)

definition run_inv :: "dpb_event list \<Rightarrow> AVCCommonObj \<Rightarrow> bool" where
  "run_inv es v \<longleftrightarrow> num_fs v = length (fs v) \<and> list_all store_ok (fs v)
     \<and> (\<forall>i < num_fs v. even (IsOutputted (fs v ! i)) \<longrightarrow> awaits i es)"

lemma run_inv_keeps: "keeps v u \<Longrightarrow> run_inv es v \<Longrightarrow> run_inv es u"
  by (auto simp: run_inv_def keeps_def list_all_length)

lemma init_buffer_spec:
  assumes "DPBInitBuffer fbind v = (AVC_SUCCESS, v1)"
  shows "currFS v1 < num_fs v \<and> IsReference (fs v ! currFS v1) = 0 \<and> IsOutputted (fs v ! currFS v1) = 3
    \<and> (\<exists>a. v1 = upd_fs (currFS v1) (\<lambda>f. f\<lparr>base_dpb := a\<rparr>) (v\<lparr>currFS := currFS v1\<rparr>))"
proof -
  obtain ii a where ii: "first_fs (\<lambda>f. IsReference f = 0 \<and> IsOutputted f = 3) v = Some ii"
      "v1 = upd_fs ii (\<lambda>f. f\<lparr>base_dpb := a\<rparr>) (v\<lparr>currFS := ii\<rparr>)"
    using assms by (auto simp: DPBInitBuffer_def split: option.splits)
  then show ?thesis using first_fs_Some [OF ii(1)] by auto
qed

text \<open>A frame is overwritten only if it is free.\<close>

lemma step_overwrites_free:
  assumes "dec_step fbind sps (v, p) e (w, q)" and "Start i \<in> set e \<or> Fill i \<in> set e"
  shows "i < num_fs v \<and> IsReference (fs v ! i) = 0 \<and> IsOutputted (fs v ! i) = 3"
  using assms(1)
  by (cases rule: dec_step.cases) (use assms(2) init_buffer_spec in \<open>auto dest!: init_buffer_spec\<close>)

text \<open>The four kinds of change the steps make to the run invariant.\<close>

lemma run_inv_upd:
  assumes inv: "run_inv es v" and i: "i < num_fs v" and ok: "store_ok (g (fs v ! i))"
    and out: "even (IsOutputted (g (fs v ! i))) \<Longrightarrow> event_step i e (awaits i es)"
    and other: "\<And>j. j \<noteq> i \<Longrightarrow> event_step j e (awaits j es) = awaits j es"
  shows "run_inv (es @ [e]) (upd_fs i g v)"
proof -
  have len: "i < length (fs v)" using inv i by (simp add: run_inv_def)
  have "even (IsOutputted (fs (upd_fs i g v) ! j)) \<longrightarrow> event_step j e (awaits j es)" if "j < num_fs v" for j
    using inv out other [of j] that len by (auto simp: nth_upd_fs run_inv_def)
  moreover have "list_all store_ok (fs (upd_fs i g v))"
    using inv ok len by (auto simp: run_inv_def list_all_length nth_upd_fs)
  ultimately show ?thesis using inv by (simp add: run_inv_def)
qed

lemma run_inv_fields:
  "fs u = fs v \<Longrightarrow> num_fs u = num_fs v \<Longrightarrow> run_inv es u = run_inv es v"
  by (simp add: run_inv_def)

lemma start_picture_upd:
  "\<exists>g. (\<forall>f. IsReference (g f) = 0 \<and> IsLongTerm (g f) = 0 \<and> (IsOutputted (g f) = 0 \<or> IsOutputted (g f) = 2))
    \<and> fs (start_picture h n idr ref v) = fs (upd_fs (currFS v) g v) \<and> num_fs (start_picture h n idr ref v) = num_fs v"
proof -
  define v' where "v' = v\<lparr>nal_is_IDR := idr\<rparr>"
  obtain g where g: "DPBInitPic h n v' = upd_fs (currFS v') g v'"
      "\<And>f. IsReference (g f) = 0 \<and> IsLongTerm (g f) = 0 \<and> IsOutputted (g f) = 0"
    unfolding DPBInitPic_def Let_def by fastforce
  let ?r = "\<lambda>f :: AVCFrameStore. f\<lparr>frame := (frame f)\<lparr>isReference := ref\<rparr>\<rparr>"
  let ?o = "\<lambda>f :: AVCFrameStore. if ref then f else f\<lparr>IsOutputted := IsOutputted f OR 0x02\<rparr>"
  have "start_picture h n idr ref v = upd_fs (currFS v') (\<lambda>f. ?o (?r (g f))) v'"
    by (simp add: start_picture_def Let_def upd_currPic_def upd_fs_twice g(1) flip: v'_def)
  then have "fs (start_picture h n idr ref v) = fs (upd_fs (currFS v) (\<lambda>f. ?o (?r (g f))) v)"
      "num_fs (start_picture h n idr ref v) = num_fs v"
    by (simp_all add: upd_fs_def v'_def)
  moreover have "\<forall>f. IsReference (?o (?r (g f))) = 0 \<and> IsLongTerm (?o (?r (g f))) = 0
      \<and> (IsOutputted (?o (?r (g f))) = 0 \<or> IsOutputted (?o (?r (g f))) = 2)"
    using g(2) by simp
  ultimately show ?thesis by (intro exI [of _ "\<lambda>f. ?o (?r (g f))"] conjI)
qed

lemma keeps_force_free: "keeps v u \<Longrightarrow> keeps v (force_free u)"
  by (auto simp: force_free_def Let_def intro: keeps_intros)

lemma reset_inv: "run_inv es v \<Longrightarrow> run_inv es (PVAVCDecReset v)"
proof -
  assume inv: "run_inv es v"
  have one: "keeps v (upd_fs i reset_store u)" if "keeps v u" for i u
    using that by (rule keeps_upd) (auto simp: reset_store_def store_ok_def)
  have "keeps v (for_fs (\<lambda>i. upd_fs i reset_store) v)" by (rule keeps_for_fs [OF one keeps_refl])
  then have "run_inv es (for_fs (\<lambda>i. upd_fs i reset_store) v)" using inv by (rule run_inv_keeps)
  then show ?thesis by (simp add: PVAVCDecReset_def Let_def run_inv_def)
qed

lemma output_inv:
  assumes inv: "run_inv es v" and out: "PVAVCDecGetOutput v = (AVCDEC_SUCCESS, Some (i, rel, io), v1)"
  shows "awaits i es" and "run_inv (es @ [Output i]) v1"
proof -
  obtain flag where c: "choose_output v = (Some i, flag)"
      and v1: "v1 = upd_fs i (\<lambda>f. f\<lparr>IsOutputted := IsOutputted f OR 0x01\<rparr>) (v\<lparr>mem_mgr_ctrl_eq_5 := flag\<rparr>)"
    using out by (auto simp: PVAVCDecGetOutput_def Let_def split: if_splits prod.splits option.splits)
  from choose_output_spec [OF c] have i: "i < num_fs v" "even (IsOutputted (fs v ! i))"
    by (simp_all add: not_output_even)
  then show "awaits i es" using inv by (simp add: run_inv_def)
  have ok: "store_ok (fs v ! i)" using inv i by (simp add: run_inv_def list_all_length)
  have or1: "IsOutputted (fs v ! i) OR 1 = IsOutputted (fs v ! i) + 1"
    using i(2) by (simp add: or_one_eq)
  have "IsOutputted (fs v ! i) \<noteq> 3" using i(2) by auto
  then have ok1: "store_ok ((fs v ! i)\<lparr>IsOutputted := IsOutputted (fs v ! i) OR 1\<rparr>)"
    using ok by (simp add: store_ok_def or1)
  have "run_inv es (v\<lparr>mem_mgr_ctrl_eq_5 := flag\<rparr>)" using inv by (simp add: run_inv_def)
  then show "run_inv (es @ [Output i]) v1" unfolding v1
    by (rule run_inv_upd) (use i ok1 or1 in \<open>simp_all\<close>)
qed


lemma gap_store_inv:
  assumes inv: "run_inv es v" and i: "currFS v < num_fs v"
  shows "run_inv (es @ [Fill (currFS v)]) (gap_store h (DPBInitPic h n v))"
proof -
  obtain g where g: "DPBInitPic h n v = upd_fs (currFS v) g v"
    unfolding DPBInitPic_def Let_def by fastforce
  have e: "gap_store h (DPBInitPic h n v) = upd_fs (currFS v) (\<lambda>f. (g f)\<lparr>fs_PicOrderCnt := vid_PicOrderCnt v,
      FrameNum := frame_num h, IsOutputted := 0x01, IsReference := 3, IsLongTerm := 0,
      frame := (frame (g f))\<lparr>isReference := True, isLongTerm := False\<rparr>\<rparr>) v"
    unfolding gap_store_def g by (simp add: upd_fs_twice) (simp add: upd_fs_def)
  show ?thesis unfolding e by (rule run_inv_upd [OF inv i]) (simp_all add: store_ok_def)
qed

lemma DecodePOC_fields:
  "DecodePOC sps h v = Some (st, w) \<Longrightarrow> fs w = fs v \<and> num_fs w = num_fs v \<and> currFS w = currFS v \<and> MaxFrameNum w = MaxFrameNum v"
  by (auto simp: DecodePOC_def dec_poc0_def dec_poc1_def dec_poc2_def poc1_expected_def Let_def split: if_splits bind_splits)

lemma init_buffer_keeps:
  assumes "DPBInitBuffer fbind v = (AVC_SUCCESS, v1)" and "run_inv es v"
  shows "run_inv es v1 \<and> currFS v1 < num_fs v1 \<and> num_fs v1 = num_fs v"
proof -
  note b = init_buffer_spec [OF assms(1)]
  then obtain a where v1: "v1 = upd_fs (currFS v1) (\<lambda>f. f\<lparr>base_dpb := a\<rparr>) (v\<lparr>currFS := currFS v1\<rparr>)" by blast
  have "keeps (v\<lparr>currFS := currFS v1\<rparr>) (upd_fs (currFS v1) (\<lambda>f. f\<lparr>base_dpb := a\<rparr>) (v\<lparr>currFS := currFS v1\<rparr>))"
    by (rule keeps_upd [OF keeps_refl]) (simp_all add: store_ok_def)
  then have "run_inv es v1" using assms(2) v1 run_inv_keeps [of "v\<lparr>currFS := currFS v1\<rparr>" v1 es] by (simp add: run_inv_def)
  moreover have "num_fs v1 = num_fs v" by (subst v1) simp
  ultimately show ?thesis using b by simp
qed

lemma gap_frame_inv:
  assumes inv: "run_inv es v" and b: "DPBInitBuffer fbind v = (AVC_SUCCESS, v1)"
    and gap: "gap_frame fbind sps u h v = Some (st, h', v2)"
  shows "run_inv (es @ [Fill (currFS v1)]) v2"
proof -
  note b' = init_buffer_keeps [OF b inv]
  have "DPBInitBuffer fbind (v\<lparr>CurrPicNum := u\<rparr>) = (AVC_SUCCESS, v1\<lparr>CurrPicNum := u\<rparr>)"
    using b by (auto simp: DPBInitBuffer_def first_fs_def upd_fs_def split: option.splits)
  then obtain st' v3 where d: "DecodePOC sps (h\<lparr>frame_num := u\<rparr>) (v1\<lparr>CurrPicNum := u\<rparr>) = Some (st', v3)"
      and v2: "v2 = snd (StorePictureInDPB sps (h\<lparr>frame_num := u, adaptive_ref_pic_marking_mode_flag := False\<rparr>)
        (gap_store (h\<lparr>frame_num := u\<rparr>) (DPBInitPic (h\<lparr>frame_num := u\<rparr>) u v3)))"
    using gap by (auto simp: gap_frame_def Let_def split: bind_splits prod.splits)
  have v3: "fs v3 = fs v1" "num_fs v3 = num_fs v1" "currFS v3 = currFS v1" using DecodePOC_fields [OF d] by simp_all
  then have "run_inv es v3" using b' by (simp add: run_inv_def)
  from gap_store_inv [OF this] have "run_inv (es @ [Fill (currFS v1)])
      (gap_store (h\<lparr>frame_num := u\<rparr>) (DPBInitPic (h\<lparr>frame_num := u\<rparr>) u v3))"
    using b' v3 by simp
  from run_inv_keeps [OF keeps_store [OF keeps_refl] this] show ?thesis by (simp add: v2)
qed

lemma get_output_fail:
  assumes "PVAVCDecGetOutput v = (AVCDEC_FAIL, r, w)"
  shows "keeps v w \<and> r = None"
  using assms keeps_force_free [of v] keeps_fields(2) [OF keeps_refl]
  by (auto simp: PVAVCDecGetOutput_def Let_def keeps_refl split: if_splits prod.splits option.splits)

lemma dec_step_inv:
  assumes "dec_step fbind sps (v, p) e (w, q)" and inv: "run_inv es v"
  shows "run_inv (es @ e) w \<and> (\<forall>i. e = [Output i] \<longrightarrow> awaits i es)"
  using assms(1)
proof (cases rule: dec_step.cases)
  case (step_start v1 h n idr ref)
  note b = init_buffer_keeps [OF step_start(5) inv]
  obtain g where g: "\<forall>f. IsReference (g f) = 0 \<and> IsLongTerm (g f) = 0 \<and> (IsOutputted (g f) = 0 \<or> IsOutputted (g f) = 2)"
      "fs (start_picture h n idr ref v1) = fs (upd_fs (currFS v1) g v1)" "num_fs (start_picture h n idr ref v1) = num_fs v1"
    using start_picture_upd by blast
  have "run_inv (es @ [Start (currFS v1)]) (upd_fs (currFS v1) g v1)"
    by (rule run_inv_upd) (use b g(1) [THEN spec, of "fs v1 ! currFS v1"] in \<open>auto simp: store_ok_def\<close>)
  then show ?thesis using step_start g(2,3) by (simp add: run_inv_def)
next
  case (step_store h st)
  have "keeps v w" using keeps_store [OF keeps_refl, of v sps h] step_store by simp
  then show ?thesis using run_inv_keeps [OF _ inv] step_store by simp
next
  case (step_output i rel io)
  then show ?thesis using output_inv [OF inv] by simp
next
  case step_none
  then have "keeps v w" using get_output_fail by simp
  then show ?thesis using run_inv_keeps [OF _ inv] step_none by simp
next
  case (step_gap v1 u h st h')
  then show ?thesis using gap_frame_inv [OF inv] by simp
next
  case step_reset
  then show ?thesis using reset_inv [OF inv] by simp
qed


lemma dec_run_inv:
  "dec_run fbind sps s es t \<Longrightarrow> run_inv [] (fst s) \<Longrightarrow>
    run_inv es (fst t) \<and> (\<forall>as i bs. es = as @ Output i # bs \<longrightarrow> awaits i as)"
proof (induction rule: dec_run.induct)
  case (run_init s)
  then show ?case by simp
next
  case (run_step s es t e u)
  then have IH: "run_inv es (fst t)" "\<And>as i bs. es = as @ Output i # bs \<Longrightarrow> awaits i as" by blast+
  have st: "run_inv (es @ e) (fst u)" "\<And>i. e = [Output i] \<Longrightarrow> awaits i es"
    using dec_step_inv [of fbind sps "fst t" "snd t" e "fst u" "snd u" es] run_step.hyps(2) IH(1) by simp_all
  have "length e \<le> 1" using run_step.hyps(2) by (cases rule: dec_step.cases) simp_all
  then have e: "e = [] \<or> (\<exists>x. e = [x])" by (cases e) auto
  have "awaits i as" if eq: "es @ e = as @ Output i # bs" for as i bs
  proof (cases "bs = []")
    case True
    then show ?thesis using e eq IH(2) st(2) by auto
  next
    case False
    then obtain bs' x where "bs = bs' @ [x]" by (metis rev_exhaust)
    then show ?thesis using e eq IH(2) by auto
  qed
  then show ?case using st(1) by blast
qed

section \<open>Draining the buffer\<close>

text \<open>What the application does when no frame is free: take frames until there is none to output.\<close>

fun drain :: "nat \<Rightarrow> AVCCommonObj \<Rightarrow> AVCCommonObj option" where
  "drain 0 v = None"
| "drain (Suc n) v = (case PVAVCDecGetOutput v of (st, r, w) \<Rightarrow> if st = AVCDEC_SUCCESS then drain n w else Some w)"

definition pending :: "AVCCommonObj \<Rightarrow> nat set" where
  "pending v = {i. i < num_fs v \<and> not_output v i}"

lemma finite_pending [simp]: "finite (pending v)"
  by (simp add: pending_def)

lemma get_output_pending:
  assumes "PVAVCDecGetOutput v = (AVCDEC_SUCCESS, r, w)" and "run_inv es v"
  shows "\<exists>i \<in> pending v. pending w = pending v - {i} \<and> num_fs w = num_fs v \<and> (\<not> mem_mgr_ctrl_eq_5 v \<longrightarrow> \<not> mem_mgr_ctrl_eq_5 w)"
proof -
  obtain i flag where c: "choose_output v = (Some i, flag)"
      and w: "w = upd_fs i (\<lambda>f. f\<lparr>IsOutputted := IsOutputted f OR 0x01\<rparr>) (v\<lparr>mem_mgr_ctrl_eq_5 := flag\<rparr>)"
    using assms(1) by (auto simp: PVAVCDecGetOutput_def Let_def split: if_splits prod.splits option.splits)
  from choose_output_spec [OF c] have i: "i < num_fs v" "not_output v i" by simp_all
  have len: "num_fs v = length (fs v)" using assms(2) by (simp add: run_inv_def)
  have "not_output w j \<longleftrightarrow> not_output v j \<and> j \<noteq> i" for j
    using i(1) len by (auto simp: not_output_even w nth_upd_fs or_one_eq)
  then have "pending w = pending v - {i}" using i by (auto simp: pending_def w)
  moreover have "\<not> flag" if "\<not> mem_mgr_ctrl_eq_5 v" using c that by (simp add: choose_output_def)
  ultimately show ?thesis using i by (auto simp: pending_def w upd_fs_def)
qed

lemma force_free_frees:
  assumes inv: "run_inv es v" and out: "\<And>i. i < num_fs v \<Longrightarrow> \<not> not_output v i" and n: "0 < num_fs v"
  shows "\<exists>i < num_fs v. IsReference (fs (force_free v) ! i) = 0 \<and> IsOutputted (fs (force_free v) ! i) = 3"
proof (cases "\<exists>i \<in> set [0..<num_fs v]. IsReference (fs v ! i) = 0 \<and> IsOutputted (fs v ! i) = 3")
  case True
  then have "force_free v = v" by (simp add: force_free_def)
  then show ?thesis using True by auto
next
  case False
  define k where "k = nat (snd (fold (min_step v) [0..<num_fs v] (0x7FFFFFFF, 0)))"
  have "nat (snd (fold (min_step v) [0..<m] (0x7FFFFFFF, 0))) < num_fs v" if "m \<le> num_fs v" for m
    using that by (induction m) (use n in \<open>auto simp: min_step_def\<close>)
  from this [of "num_fs v"] have k: "k < num_fs v" by (simp add: k_def)
  have len: "num_fs v = length (fs v)" and ok: "store_ok (fs v ! k)"
    using inv k by (simp_all add: run_inv_def list_all_length)
  have "force_free v = unmark_for_reference k v"
    unfolding force_free_def Let_def k_def using False by (simp only: if_False)
  then have "fs (force_free v) ! k = unmarked (fs v ! k)" using k len by (simp add: unmark_fs)
  moreover have "IsOutputted (fs v ! k) OR 2 = 3"
    using out [OF k] ok by (auto simp: not_output_even store_ok_def or_2)
  ultimately show ?thesis using k by (intro exI [of _ k]) simp
qed

lemma drain_frees:
  "card (pending v) < n \<Longrightarrow> run_inv es v \<Longrightarrow> \<not> mem_mgr_ctrl_eq_5 v \<Longrightarrow> 0 < num_fs v \<Longrightarrow>
    \<exists>w. drain n v = Some w \<and> num_fs w = num_fs v \<and> pending w = {}
      \<and> (\<exists>i < num_fs w. IsReference (fs w ! i) = 0 \<and> IsOutputted (fs w ! i) = 3)"
proof (induction n arbitrary: v es)
  case (Suc n)
  obtain st r w where g: "PVAVCDecGetOutput v = (st, r, w)" using prod_cases3 by blast
  show ?case
  proof (cases "st = AVCDEC_SUCCESS")
    case True
    then obtain i where i: "i \<in> pending v" "pending w = pending v - {i}" "num_fs w = num_fs v" "\<not> mem_mgr_ctrl_eq_5 w"
      using get_output_pending [of v r w] g Suc.prems(2,3) by blast
    have "card (pending w) < n" 
    proof -
      have "0 < card (pending v)" using i(1) by (auto simp: card_gt_0_iff)
      then show ?thesis using i(2) card_Diff_singleton [OF i(1)] Suc.prems(1) by simp
    qed
    moreover obtain k rel io where "r = Some (k, rel, io)"
      using g True by (auto simp: PVAVCDecGetOutput_def Let_def split: if_splits prod.splits option.splits)
    then have "run_inv (es @ [Output k]) w" using output_inv(2) [OF Suc.prems(2)] g True by simp
    ultimately show ?thesis using Suc.IH [of w] g True i(3,4) Suc.prems(4) by simp
  next
    case False
    obtain flag where c: "choose_output v = (None, flag)" and w: "w = force_free (v\<lparr>mem_mgr_ctrl_eq_5 := flag\<rparr>)"
      using g False Suc.prems(4) by (auto simp: PVAVCDecGetOutput_def Let_def split: if_splits prod.splits option.splits)
    let ?v = "v\<lparr>mem_mgr_ctrl_eq_5 := flag\<rparr>"
    have out: "\<not> not_output ?v i" if "i < num_fs ?v" for i
      using choose_output_none [OF c Suc.prems(3)] that by (simp add: not_output_def)
    have inv: "run_inv es ?v" using Suc.prems(2) by (simp add: run_inv_def)
    have k: "keeps ?v w" unfolding w by (rule keeps_force_free [OF keeps_refl])
    then have "num_fs w = num_fs v" by (simp add: keeps_def)
    moreover have "pending w = {}"
      using k out inv by (auto simp: pending_def not_output_even keeps_def run_inv_def)
    ultimately show ?thesis
      using force_free_frees [OF inv out] Suc.prems(4) g False w by auto
  qed
qed simp

section \<open>Filling a gap\<close>

lemma init_buffer_max: "MaxFrameNum (snd (DPBInitBuffer fbind v)) = MaxFrameNum v"
  by (auto simp: DPBInitBuffer_def upd_fs_def split: option.split)

lemma store_max: "MaxFrameNum (snd (StorePictureInDPB sps h v)) = MaxFrameNum v"
  using keeps_store [OF keeps_refl, of v sps h] by (simp add: keeps_def)

lemma gap_frame_total:
  assumes "pic_order_cnt_type sps \<noteq> 1"
  shows "\<exists>st b w. gap_frame fbind sps u h v
    = Some (st, h\<lparr>frame_num := u, adaptive_ref_pic_marking_mode_flag := b\<rparr>, w) \<and> MaxFrameNum w = MaxFrameNum v"
proof -
  obtain st v2 where b: "DPBInitBuffer fbind (v\<lparr>CurrPicNum := u\<rparr>) = (st, v2)" by fastforce
  then have m2: "MaxFrameNum v2 = MaxFrameNum v" using init_buffer_max [of fbind "v\<lparr>CurrPicNum := u\<rparr>"] by simp
  show ?thesis
  proof (cases "st = AVC_SUCCESS")
    case False
    then have "gap_frame fbind sps u h v = Some (dec_status st, h\<lparr>frame_num := u\<rparr>, v2)" using b by (simp add: gap_frame_def)
    then show ?thesis
      by (intro exI [of _ "dec_status st"] exI [of _ "adaptive_ref_pic_marking_mode_flag h"] exI [of _ v2]) (simp add: m2)
  next
    case True
    obtain dst v3 where d: "DecodePOC sps (h\<lparr>frame_num := u\<rparr>) v2 = Some (dst, v3)"
    proof -
      have "\<exists>r. DecodePOC sps (h\<lparr>frame_num := u\<rparr>) v2 = Some r" using assms by (simp add: DecodePOC_def Let_def)
      then show thesis using that by auto
    qed
    then have m3: "MaxFrameNum v3 = MaxFrameNum v" using DecodePOC_fields [OF d] m2 by simp
    let ?v4 = "gap_store (h\<lparr>frame_num := u\<rparr>) (DPBInitPic (h\<lparr>frame_num := u\<rparr>) u v3)"
    have "MaxFrameNum ?v4 = MaxFrameNum v" using m3 by (simp add: gap_store_def DPBInitPic_def Let_def upd_fs_def)
    moreover obtain st' v5 where s: "StorePictureInDPB sps (h\<lparr>frame_num := u, adaptive_ref_pic_marking_mode_flag := False\<rparr>) ?v4 = (st', v5)"
      by fastforce
    ultimately have "MaxFrameNum v5 = MaxFrameNum v"
      using store_max [of sps "h\<lparr>frame_num := u, adaptive_ref_pic_marking_mode_flag := False\<rparr>" ?v4] by simp
    then show ?thesis using b True d s by (auto simp: gap_frame_def Let_def)
  qed
qed

text \<open>The loop visits the numbers from the one after the last to the one before the current, modulo \<open>MaxFrameNum\<close>.\<close>

lemma gap_loop_total:
  assumes t: "pic_order_cnt_type sps \<noteq> 1" and M: "0 < MaxFrameNum v" "0 \<le> target" "target < MaxFrameNum v"
    and u: "0 \<le> unused" "unused < MaxFrameNum v"
  shows "\<exists>st n b w. gap_loop fbind sps target unused h v
      = Some (st, h\<lparr>frame_num := n, adaptive_ref_pic_marking_mode_flag := b\<rparr>, w) \<and> MaxFrameNum w = MaxFrameNum v
    \<and> (st = AVCDEC_SUCCESS \<longrightarrow> w = v \<and> unused = target \<or> (prevFrameNum w + 1) mod MaxFrameNum v = target)"
  using M u
proof (induction "nat ((target - unused) mod MaxFrameNum v)" arbitrary: unused h v rule: less_induct)
  case less
  have hd: "h = h\<lparr>frame_num := frame_num h, adaptive_ref_pic_marking_mode_flag := adaptive_ref_pic_marking_mode_flag h\<rparr>" by simp
  show ?case
  proof (cases "target = unused")
    case True
    then show ?thesis by (subst gap_loop.simps) (simp, metis hd)
  next
    case False
    let ?M = "MaxFrameNum v" and ?u = "(unused + 1) mod MaxFrameNum v"
    obtain st b w where g: "gap_frame fbind sps unused h v
        = Some (st, h\<lparr>frame_num := unused, adaptive_ref_pic_marking_mode_flag := b\<rparr>, w)" "MaxFrameNum w = ?M"
      using gap_frame_total [OF t] by blast
    show ?thesis
    proof (cases "st = AVCDEC_SUCCESS")
      case st: False
      then show ?thesis using g False by (subst gap_loop.simps) (simp, blast)
    next
      case True
      let ?h = "h\<lparr>frame_num := unused, adaptive_ref_pic_marking_mode_flag := b\<rparr>" and ?w = "w\<lparr>prevFrameNum := unused\<rparr>"
      have u: "0 \<le> ?u" "?u < ?M" using less.prems(1) by simp_all
      have d: "(target - ?u) mod ?M < (target - unused) mod ?M" "0 \<le> (target - ?u) mod ?M"
      proof -
        have "(target - unused) mod ?M \<noteq> 0"
          using False less.prems by (metis mod_eq_dvd_iff mod_pos_pos_trivial mod_0_imp_dvd)
        then have pos: "0 < (target - unused) mod ?M" "(target - unused) mod ?M < ?M"
          using less.prems(1) pos_mod_sign [of ?M "target - unused"] pos_mod_bound [of ?M "target - unused"] by linarith+
        have "(target - ?u) mod ?M = ((target - unused) mod ?M - 1) mod ?M"
          by (simp add: mod_simps algebra_simps)
        also have "\<dots> = (target - unused) mod ?M - 1" using pos by (intro mod_pos_pos_trivial) linarith+
        finally show "(target - ?u) mod ?M < (target - unused) mod ?M" "0 \<le> (target - ?u) mod ?M" using pos by linarith+
      qed
      have "\<exists>st n b' w'. gap_loop fbind sps target ?u ?h ?w
          = Some (st, ?h\<lparr>frame_num := n, adaptive_ref_pic_marking_mode_flag := b'\<rparr>, w') \<and> MaxFrameNum w' = MaxFrameNum ?w
        \<and> (st = AVCDEC_SUCCESS \<longrightarrow> w' = ?w \<and> ?u = target \<or> (prevFrameNum w' + 1) mod MaxFrameNum ?w = target)"
      proof (rule less.hyps)
        show "nat ((target - ?u) mod MaxFrameNum ?w) < nat ((target - unused) mod ?M)" using d g(2) by simp
      qed (use u g(2) less.prems in simp_all)
      then obtain st' n b' w' where r: "gap_loop fbind sps target ?u ?h ?w
          = Some (st', h\<lparr>frame_num := n, adaptive_ref_pic_marking_mode_flag := b'\<rparr>, w')" "MaxFrameNum w' = ?M"
        "st' = AVCDEC_SUCCESS \<longrightarrow> w' = ?w \<and> ?u = target \<or> (prevFrameNum w' + 1) mod ?M = target"
        using g(2) by auto
      have "gap_loop fbind sps target unused h v = gap_loop fbind sps target ?u ?h ?w"
        using False True g by (subst gap_loop.simps) simp
      then show ?thesis using r by auto
    qed
  qed
qed

lemma fill_frame_num_gap_total:
  assumes t: "pic_order_cnt_type sps \<noteq> 1" and M: "0 < MaxFrameNum v" "0 \<le> frame_num h" "frame_num h < MaxFrameNum v"
  shows "\<exists>st h' w. fill_frame_num_gap fbind sps h v = Some (st, h', w)
    \<and> (st = AVCDEC_SUCCESS \<longrightarrow> h' = h \<and> CurrPicNum w = CurrPicNum v \<and> (prevFrameNum w + 1) mod MaxFrameNum v = frame_num h)"
proof -
  have u: "0 \<le> (prevFrameNum v + 1) mod MaxFrameNum v" "(prevFrameNum v + 1) mod MaxFrameNum v < MaxFrameNum v"
    using M(1) by simp_all
  obtain st n b w where r: "gap_loop fbind sps (frame_num h) ((prevFrameNum v + 1) mod MaxFrameNum v) (h\<lparr>delta_pic_order_cnt := [0, 0]\<rparr>) v
      = Some (st, (h\<lparr>delta_pic_order_cnt := [0, 0]\<rparr>)\<lparr>frame_num := n, adaptive_ref_pic_marking_mode_flag := b\<rparr>, w)"
    "st = AVCDEC_SUCCESS \<longrightarrow> w = v \<and> (prevFrameNum v + 1) mod MaxFrameNum v = frame_num h
      \<or> (prevFrameNum w + 1) mod MaxFrameNum v = frame_num h"
    using gap_loop_total [OF t M u, of fbind "h\<lparr>delta_pic_order_cnt := [0, 0]\<rparr>"] by blast
  then show ?thesis using M(1) by (auto simp: fill_frame_num_gap_def)
qed

section \<open>Summary for the interface calls\<close>

lemma get_output_oldest:
  assumes flag: "\<not> mem_mgr_ctrl_eq_5 v" and len: "num_fs v = length (fs v)" and n: "0 < num_fs v"
  shows "case PVAVCDecGetOutput v of
    (AVCDEC_SUCCESS, Some (i, rel, io), w) \<Rightarrow>
      is_oldest (not_output v) v (num_fs v) i \<and> (rel \<longleftrightarrow> IsOutputted (fs v ! i) OR 1 = 3)
      \<and> io = frame_io (fs v ! i) \<and> \<not> not_output w i \<and> (\<forall>j. j \<noteq> i \<longrightarrow> fs w ! j = fs v ! j)
  | (st, r, w) \<Rightarrow> st = AVCDEC_FAIL \<and> r = None \<and> (\<forall>i < num_fs v. \<not> not_output v i)"
proof -
  obtain cnt old where o: "oldest_frame (not_output v) v = (cnt, old)" by fastforce
  have c: "choose_output v = (old, False)" using flag o by (simp add: choose_output_def)
  show ?thesis
  proof (cases old)
    case None
    then show ?thesis using oldest_frame_spec [OF o] n c by (simp add: PVAVCDecGetOutput_def)
  next
    case (Some i)
    then have i: "is_oldest (not_output v) v (num_fs v) i" using oldest_frame_spec [OF o] by simp
    then have "i < length (fs v)" using len by (simp add: is_oldest_def)
    moreover have "even (IsOutputted (fs v ! i))" using i by (simp add: is_oldest_def not_output_even)
    ultimately show ?thesis
      using i n c Some by (simp add: PVAVCDecGetOutput_def nth_upd_fs not_output_even frame_io_def or_one_eq)
  qed
qed

lemma drain_room:
  assumes inv: "run_inv es v" and "\<not> mem_mgr_ctrl_eq_5 v" and "0 < num_fs v" and fbind: "\<And>i. fbind i \<noteq> None"
  shows "\<exists>w u. drain (Suc (card (pending v))) v = Some w \<and> pending w = {} \<and> DPBInitBuffer fbind w = (AVC_SUCCESS, u)"
proof -
  obtain w i where w: "drain (Suc (card (pending v))) v = Some w" "pending w = {}" "i < num_fs w"
      "IsReference (fs w ! i) = 0" "IsOutputted (fs w ! i) = 3"
    using drain_frees [OF _ inv assms(2,3)] by blast
  then have "first_fs (\<lambda>f. IsReference f = 0 \<and> IsOutputted f = 3) w \<noteq> None" by (auto simp: first_fs_None)
  then obtain ii where "first_fs (\<lambda>f. IsReference f = 0 \<and> IsOutputted f = 3) w = Some ii" by blast
  moreover obtain a where "fbind ii = Some a" using fbind [of ii] by blast
  ultimately show ?thesis using w(1,2) by (auto simp: DPBInitBuffer_def)
qed

end
