(* ===== verification/RefList.thy ===== *)
theory RefList
  imports Dpb
begin

text \<open>
  The reference picture lists, \<open>codecs_v2/video/avc_h264/common/src/reflist.cpp\<close>: the initialisation,
  the reordering commands and the exchange sorts. An entry of a list is the index of the frame store
  whose \<open>frame\<close> the code's pointer names, or \<open>None\<close> for a null pointer; dereferencing a null pointer and
  indexing outside an array are \<open>None\<close> results.
\<close>

section \<open>The exchange sorts\<close>

text \<open>
  The seven sorts of the file have one shape; \<open>before y x\<close> is the test under which the entries \<open>y\<close>
  (at \<open>j\<close>) and \<open>x\<close> (at \<open>i\<close>) are exchanged.
\<close>

definition exchange_step :: "('a \<Rightarrow> 'a \<Rightarrow> bool) \<Rightarrow> nat \<Rightarrow> nat \<Rightarrow> 'a list \<Rightarrow> 'a list" where
  "exchange_step before i j data =
     (if before (data ! j) (data ! i) then data[j := data ! i, i := data ! j] else data)"

definition exchange_sort :: "('a \<Rightarrow> 'a \<Rightarrow> bool) \<Rightarrow> nat \<Rightarrow> 'a list \<Rightarrow> 'a list" where
  "exchange_sort before num data =
     fold (\<lambda>i. fold (exchange_step before i) [i + 1..<num]) [0..<num - 1] data"

definition pic :: "AVCCommonObj \<Rightarrow> nat option \<Rightarrow> AVCPictureData" where
  "pic v p = frame (fs v ! the p)"

definition SortPicByPicNum :: "AVCCommonObj \<Rightarrow> nat option list \<Rightarrow> nat \<Rightarrow> nat option list" where
  "SortPicByPicNum v data num = exchange_sort (\<lambda>y x. PicNum (pic v y) > PicNum (pic v x)) num data"

definition SortPicByPicNumLongTerm :: "AVCCommonObj \<Rightarrow> nat option list \<Rightarrow> nat \<Rightarrow> nat option list" where
  "SortPicByPicNumLongTerm v data num =
     exchange_sort (\<lambda>y x. LongTermPicNum (pic v y) < LongTermPicNum (pic v x)) num data"

definition SortFrameByFrameNumWrap :: "AVCCommonObj \<Rightarrow> nat list \<Rightarrow> nat \<Rightarrow> nat list" where
  "SortFrameByFrameNumWrap v data num =
     exchange_sort (\<lambda>y x. FrameNumWrap (fs v ! y) > FrameNumWrap (fs v ! x)) num data"

definition SortFrameByLTFrameIdx :: "AVCCommonObj \<Rightarrow> nat list \<Rightarrow> nat \<Rightarrow> nat list" where
  "SortFrameByLTFrameIdx v data num =
     exchange_sort (\<lambda>y x. LongTermFrameIdx (fs v ! y) < LongTermFrameIdx (fs v ! x)) num data"

definition SortPicByPOC :: "AVCCommonObj \<Rightarrow> nat option list \<Rightarrow> nat \<Rightarrow> bool \<Rightarrow> nat option list" where
  "SortPicByPOC v data num descending =
     (if descending then exchange_sort (\<lambda>y x. pic_PicOrderCnt (pic v y) > pic_PicOrderCnt (pic v x)) num data
      else exchange_sort (\<lambda>y x. pic_PicOrderCnt (pic v y) < pic_PicOrderCnt (pic v x)) num data)"

definition SortPicByLTPicNum :: "AVCCommonObj \<Rightarrow> nat option list \<Rightarrow> nat \<Rightarrow> nat option list" where
  "SortPicByLTPicNum v data num =
     exchange_sort (\<lambda>y x. LongTermPicNum (pic v y) < LongTermPicNum (pic v x)) num data"

definition SortFrameByPOC :: "AVCCommonObj \<Rightarrow> nat list \<Rightarrow> nat \<Rightarrow> bool \<Rightarrow> nat list" where
  "SortFrameByPOC v data num descending =
     (if descending then exchange_sort (\<lambda>y x. fs_PicOrderCnt (fs v ! y) > fs_PicOrderCnt (fs v ! x)) num data
      else exchange_sort (\<lambda>y x. fs_PicOrderCnt (fs v ! y) < fs_PicOrderCnt (fs v ! x)) num data)"

section \<open>Initialisation\<close>

definition AVC_P_SLICE :: int where "AVC_P_SLICE = 0"
definition AVC_I_SLICE :: int where "AVC_I_SLICE = 2"

definition wrap_frame_num :: "AVCSliceHeader \<Rightarrow> int \<Rightarrow> AVCFrameStore \<Rightarrow> AVCFrameStore" where
  "wrap_frame_num sliceHdr maxFrameNum f =
     (let w = (if FrameNum f > frame_num sliceHdr then c_int (FrameNum f - maxFrameNum) else FrameNum f)
      in f\<lparr>FrameNumWrap := w, frame := (frame f)\<lparr>PicNum := w\<rparr>\<rparr>)"

definition is_short_store :: "AVCFrameStore \<Rightarrow> bool" where
  "is_short_store f \<longleftrightarrow> IsReference f = 3 \<and> IsLongTerm f = 0"

text \<open>The loops of \<open>RefListInit\<close> over the stores; the counter is \<open>list0idx\<close>.\<close>

definition init_I_step :: "AVCSliceHeader \<Rightarrow> nat \<Rightarrow> AVCCommonObj \<Rightarrow> AVCCommonObj" where
  "init_I_step sliceHdr i v =
     (if is_short_store (fs v ! i) then upd_fs i (wrap_frame_num sliceHdr (MaxFrameNum v)) v else v)"

definition init_P_step :: "AVCSliceHeader \<Rightarrow> nat \<Rightarrow> nat \<times> AVCCommonObj \<Rightarrow> nat \<times> AVCCommonObj" where
  "init_P_step sliceHdr i = (\<lambda>(list0idx, v).
     if is_short_store (fs v ! i) then
       (list0idx + 1,
        (upd_fs i (wrap_frame_num sliceHdr (MaxFrameNum v)) v)
          \<lparr>RefPicList0 := (RefPicList0 v)[list0idx := Some i]\<rparr>)
     else (list0idx, v))"

definition init_LT_step :: "nat \<Rightarrow> nat \<times> AVCCommonObj \<Rightarrow> nat \<times> AVCCommonObj" where
  "init_LT_step i = (\<lambda>(list0idx, v).
     if IsLongTerm (fs v ! i) = 3 then
       (list0idx + 1,
        (upd_fs i (\<lambda>f. f\<lparr>frame := (frame f)\<lparr>LongTermPicNum := LongTermFrameIdx f\<rparr>\<rparr>) v)
          \<lparr>RefPicList0 := (RefPicList0 v)[list0idx := Some i]\<rparr>)
     else (list0idx, v))"

definition init_P :: "AVCSliceHeader \<Rightarrow> AVCCommonObj \<Rightarrow> AVCCommonObj" where
  "init_P sliceHdr v =
     (let (n0, v1) = fold (init_P_step sliceHdr) [0..<num_fs v] (0, v);
          (n, v2) = (if n0 = 0
                     then (1, (upd_fs 0 (\<lambda>f. f\<lparr>IsReference := 3\<rparr>) v1)\<lparr>RefPicList0 := (RefPicList0 v1)[0 := Some 0]\<rparr>)
                     else (n0, v1));
          v3 = v2\<lparr>RefPicList0 := SortPicByPicNum v2 (RefPicList0 v2) n, refList0Size := int n\<rparr>;
          (m, v4) = fold init_LT_step [0..<num_fs v] (n, v3);
          lt = drop n (RefPicList0 v4)
      in v4\<lparr>RefPicList0 := take n (RefPicList0 v4) @ SortPicByPicNumLongTerm v4 lt (m - n),
            refList0Size := int m, refList1Size := 0\<rparr>)"

text \<open>
  What follows for every slice but an I slice: the exchange in a second list equal to the first, and
  the limits on the sizes.
\<close>

definition init_finish :: "AVCSliceHeader \<Rightarrow> AVCCommonObj \<Rightarrow> AVCCommonObj" where
  "init_finish sliceHdr v =
     (let v1 = (if refList0Size v = refList1Size v \<and> refList0Size v > 1
                   \<and> take (nat (refList0Size v)) (RefPicList0 v) = take (nat (refList0Size v)) (RefPicList1 v)
                then v\<lparr>RefPicList1 := (RefPicList1 v)[0 := RefPicList1 v ! 1, 1 := RefPicList1 v ! 0]\<rparr>
                else v)
      in v1\<lparr>refList0Size := AVC_MIN (refList0Size v1) (sint (num_ref_idx_l0_active_minus1 sliceHdr) + 1),
            refList1Size := AVC_MIN (refList1Size v1) (sint (num_ref_idx_l1_active_minus1 sliceHdr) + 1)\<rparr>)"

definition RefListInit :: "AVCSliceHeader \<Rightarrow> AVCCommonObj \<Rightarrow> AVCCommonObj" where
  "RefListInit sliceHdr v =
     (if slice_type v = AVC_I_SLICE
      then for_fs (init_I_step sliceHdr) (v\<lparr>refList0Size := 0, refList1Size := 0\<rparr>)
      else init_finish sliceHdr (if slice_type v = AVC_P_SLICE then init_P sliceHdr v else v))"

section \<open>Reordering\<close>

definition MAX_REF_PIC_LIST :: int where "MAX_REF_PIC_LIST = 33"
definition MAX_REF_PIC_LIST_REORDERING :: int where "MAX_REF_PIC_LIST_REORDERING = 32"

definition GetShortTermPic :: "AVCCommonObj \<Rightarrow> int \<Rightarrow> nat option" where
  "GetShortTermPic v picNum =
     first_fs (\<lambda>f. IsReference f = 3 \<and> \<not> isLongTerm (frame f) \<and> PicNum (frame f) = picNum) v"

definition GetLongTermPic :: "AVCCommonObj \<Rightarrow> int \<Rightarrow> nat option" where
  "GetLongTermPic v LongtermPicNum =
     first_fs (\<lambda>f. IsReference f = 3 \<and> isLongTerm (frame f) \<and> LongTermPicNum (frame f) = LongtermPicNum) v"

definition is_short_ref :: "AVCPictureData \<Rightarrow> bool" where
  "is_short_ref s \<longleftrightarrow> isReference s \<and> \<not> isLongTerm s"

definition is_long_ref :: "AVCPictureData \<Rightarrow> bool" where
  "is_long_ref s \<longleftrightarrow> isReference s \<and> isLongTerm s"

text \<open>\<open>for (cIdx = last_idx; cIdx > refIdx; cIdx--) RefPicListX[cIdx] = RefPicListX[cIdx - 1]\<close>.\<close>

definition shift_up :: "nat \<Rightarrow> nat \<Rightarrow> 'a list \<Rightarrow> 'a list" where
  "shift_up refIdx last_idx R = fold (\<lambda>cIdx R. R[cIdx := R ! (cIdx - 1)]) (rev [refIdx + 1..<last_idx + 1]) R"

text \<open>The second loop: the entries from \<open>refIdx\<close> to \<open>last_idx\<close> to be kept move down to \<open>nIdx\<close>.\<close>

definition compact_step :: "('a \<Rightarrow> bool option) \<Rightarrow> nat \<Rightarrow> (nat \<times> 'a list) option \<Rightarrow> (nat \<times> 'a list) option" where
  "compact_step keep cIdx acc =
     do { (nIdx, R) \<leftarrow> acc;
          k \<leftarrow> keep (R ! cIdx);
          Some (if k then (nIdx + 1, R[nIdx := R ! cIdx]) else (nIdx, R)) }"

definition compact :: "('a \<Rightarrow> bool option) \<Rightarrow> nat \<Rightarrow> nat \<Rightarrow> 'a list \<Rightarrow> 'a list option" where
  "compact keep refIdx last_idx R =
     do { (nIdx, R') \<leftarrow> fold (compact_step keep) [refIdx..<last_idx + 1] (Some (refIdx, R));
          Some R' }"

definition get_list :: "bool \<Rightarrow> AVCCommonObj \<Rightarrow> nat option list" where
  "get_list isL1 v = (if \<not> isL1 then RefPicList0 v else RefPicList1 v)"

definition set_list :: "bool \<Rightarrow> nat option list \<Rightarrow> AVCCommonObj \<Rightarrow> AVCCommonObj" where
  "set_list isL1 R v = (if \<not> isL1 then v\<lparr>RefPicList0 := R\<rparr> else v\<lparr>RefPicList1 := R\<rparr>)"

definition num_active_minus1 :: "bool \<Rightarrow> AVCSliceHeader \<Rightarrow> int" where
  "num_active_minus1 isL1 sliceHdr =
     sint (if \<not> isL1 then num_ref_idx_l0_active_minus1 sliceHdr else num_ref_idx_l1_active_minus1 sliceHdr)"

definition keep_short :: "AVCCommonObj \<Rightarrow> int \<Rightarrow> nat option \<Rightarrow> bool option" where
  "keep_short v picNumLX p =
     (case p of
        None \<Rightarrow> Some False
      | Some i \<Rightarrow> Some (isLongTerm (frame (fs v ! i)) \<or> PicNum (frame (fs v ! i)) \<noteq> picNumLX))"

text \<open>\<open>ReorderLongTerm\<close> dereferences every entry.\<close>

definition keep_long :: "AVCCommonObj \<Rightarrow> int \<Rightarrow> nat option \<Rightarrow> bool option" where
  "keep_long v LongTermNum p =
     (case p of
        None \<Rightarrow> None
      | Some i \<Rightarrow> Some (\<not> isLongTerm (frame (fs v ! i)) \<or> LongTermPicNum (frame (fs v ! i)) \<noteq> LongTermNum))"

definition ReorderShortTerm ::
  "AVCSliceHeader \<Rightarrow> AVCCommonObj \<Rightarrow> int \<Rightarrow> nat \<Rightarrow> bool \<Rightarrow> (AVCStatus \<times> nat \<times> AVCCommonObj) option" where
  "ReorderShortTerm sliceHdr v picNumLX refIdxLX isL1 =
     (let n = num_active_minus1 isL1 sliceHdr
      in case GetShortTermPic v picNumLX of
           None \<Rightarrow> Some (AVC_FAIL, refIdxLX, v)
         | Some p \<Rightarrow>
             if n + 1 \<ge> MAX_REF_PIC_LIST then Some (AVC_FAIL, refIdxLX, v)
             else if MAX_REF_PIC_LIST \<le> int refIdxLX then None
             else
               let R1 = (shift_up refIdxLX (nat (n + 1)) (get_list isL1 v))[refIdxLX := Some p]
               in do { R2 \<leftarrow> compact (keep_short v picNumLX) (refIdxLX + 1) (nat (n + 1)) R1;
                       Some (AVC_SUCCESS, refIdxLX + 1, set_list isL1 R2 v) })"

definition ReorderLongTerm ::
  "AVCSliceHeader \<Rightarrow> AVCCommonObj \<Rightarrow> int \<Rightarrow> nat \<Rightarrow> bool \<Rightarrow> (AVCStatus \<times> nat \<times> AVCCommonObj) option" where
  "ReorderLongTerm sliceHdr v LongTermNum refIdxLX isL1 =
     (let n = num_active_minus1 isL1 sliceHdr
      in case GetLongTermPic v LongTermNum of
           None \<Rightarrow> Some (AVC_FAIL, refIdxLX, v)
         | Some p \<Rightarrow>
             if n + 1 \<ge> MAX_REF_PIC_LIST then Some (AVC_FAIL, refIdxLX, v)
             else if MAX_REF_PIC_LIST \<le> int refIdxLX then None
             else
               let R1 = (shift_up refIdxLX (nat (n + 1)) (get_list isL1 v))[refIdxLX := Some p]
               in do { R2 \<leftarrow> compact (keep_long v LongTermNum) (refIdxLX + 1) (nat (n + 1)) R1;
                       Some (AVC_SUCCESS, refIdxLX + 1, set_list isL1 R2 v) })"

text \<open>The picture number prediction of one command; \<open>d\<close> is \<open>abs_diff_pic_num_minus1\<close> as an \<open>int\<close>.\<close>

definition pic_num_no_wrap :: "uint \<Rightarrow> int \<Rightarrow> int \<Rightarrow> int \<Rightarrow> int" where
  "pic_num_no_wrap idc picNumLXPred d maxPicNum =
     (if idc = 0 then
        (if picNumLXPred - (d + 1) < 0 then picNumLXPred - (d + 1) + maxPicNum else picNumLXPred - (d + 1))
      else
        (if picNumLXPred + (d + 1) \<ge> maxPicNum then picNumLXPred + (d + 1) - maxPicNum
         else picNumLXPred + (d + 1)))"

definition pic_num :: "int \<Rightarrow> int \<Rightarrow> int \<Rightarrow> int" where
  "pic_num noWrap currPicNum maxPicNum = (if noWrap > currPicNum then noWrap - maxPicNum else noWrap)"

text \<open>
  The command loop. The arrays have 32 entries; \<open>idc[i]\<close> is read before \<open>i\<close> is checked, so 32
  commands without the end marker read \<open>idc[32]\<close>.
\<close>

function reorder_loop ::
  "AVCSliceHeader \<Rightarrow> bool \<Rightarrow> uint list \<Rightarrow> uint list \<Rightarrow> uint list \<Rightarrow> nat \<Rightarrow> int \<Rightarrow> nat \<Rightarrow> AVCCommonObj
    \<Rightarrow> (AVCStatus \<times> AVCCommonObj) option" where
  "reorder_loop sliceHdr isL1 idc diff ltidx i picNumLXPred refIdxLX v =
     (case nth_opt idc (int i) of
        None \<Rightarrow> None
      | Some c \<Rightarrow>
          if c = 3 then Some (AVC_SUCCESS, v)
          else if c > 3 \<or> int i \<ge> MAX_REF_PIC_LIST_REORDERING then Some (AVC_FAIL, v)
          else if c < 2 then
            let noWrap = pic_num_no_wrap c picNumLXPred (sint (diff ! i)) (MaxPicNum v)
            in (case ReorderShortTerm sliceHdr v (pic_num noWrap (CurrPicNum v) (MaxPicNum v)) refIdxLX isL1 of
                  None \<Rightarrow> None
                | Some (st, r, v1) \<Rightarrow>
                    if st \<noteq> AVC_SUCCESS then Some (st, v1)
                    else reorder_loop sliceHdr isL1 idc diff ltidx (i + 1) noWrap r v1)
          else
            (case ReorderLongTerm sliceHdr v (sint (ltidx ! i)) refIdxLX isL1 of
               None \<Rightarrow> None
             | Some (st, r, v1) \<Rightarrow>
                 if st \<noteq> AVC_SUCCESS then Some (st, v1)
                 else reorder_loop sliceHdr isL1 idc diff ltidx (i + 1) picNumLXPred r v1))"
  by pat_completeness auto
termination
  by (relation "measure (\<lambda>(sliceHdr, isL1, idc, diff, ltidx, i, picNumLXPred, refIdxLX, v). length idc - i)")
    (auto split: if_splits)

declare reorder_loop.simps [simp del]

definition ReorderRefPicList :: "AVCSliceHeader \<Rightarrow> AVCCommonObj \<Rightarrow> bool \<Rightarrow> (AVCStatus \<times> AVCCommonObj) option" where
  "ReorderRefPicList sliceHdr v isL1 =
     do { (st, v1) \<leftarrow> (if \<not> isL1
            then reorder_loop sliceHdr isL1 (reordering_of_pic_nums_idc_l0 sliceHdr)
                   (abs_diff_pic_num_minus1_l0 sliceHdr) (long_term_pic_num_l0 sliceHdr) 0 (CurrPicNum v) 0 v
            else reorder_loop sliceHdr isL1 (reordering_of_pic_nums_idc_l1 sliceHdr)
                   (abs_diff_pic_num_minus1_l1 sliceHdr) (long_term_pic_num_l1 sliceHdr) 0 (CurrPicNum v) 0 v);
          if st \<noteq> AVC_SUCCESS then Some (st, v1)
          else Some (AVC_SUCCESS,
                 if \<not> isL1 then v1\<lparr>refList0Size := num_active_minus1 isL1 sliceHdr + 1\<rparr>
                 else v1\<lparr>refList1Size := num_active_minus1 isL1 sliceHdr + 1\<rparr>) }"

definition ReOrderList :: "AVCSliceHeader \<Rightarrow> AVCCommonObj \<Rightarrow> (AVCStatus \<times> AVCCommonObj) option" where
  "ReOrderList sliceHdr v =
     (if slice_type v \<noteq> AVC_I_SLICE then
        do { (st, v1) \<leftarrow> (if ref_pic_list_reordering_flag_l0 sliceHdr then ReorderRefPicList sliceHdr v False
                        else Some (AVC_SUCCESS, v));
             if st \<noteq> AVC_SUCCESS then Some (st, v1)
             else if refList0Size v1 = 0 then Some (AVC_FAIL, v1)
             else Some (st, v1) }
      else Some (AVC_SUCCESS, v))"

end
