(* ===== verification/DecSliceHeader.thy ===== *)
theory DecSliceHeader
  imports DecHeader Output RefList
begin

text \<open>
  The slice header of the decoder, \<open>dec/src/header.cpp\<close>: \<open>DecodeSliceHeader\<close> in the parts that can return early,
  with \<open>ref_pic_list_reordering\<close> and \<open>dec_ref_pic_marking\<close>. The state is the slice header and the common object; both keep
  what was stored before a failure. \<open>alloc\<close> and \<open>succeeds\<close> are the allocations of \<open>AVCConfigureSequence\<close>.
\<close>

type_synonym slice_state = "AVCSliceHeader \<times> AVCCommonObj"

type_synonym 'a slice_parser = "AVCDecBitstream \<Rightarrow> ((AVCDec_Status \<times> 'a) \<times> AVCDecBitstream) option"

section \<open>The lists of commands\<close>

text \<open>One turn of the loop of the reordering commands: the code of the command is part of the result.\<close>

definition ref_list_command ::
  "int \<Rightarrow> int \<Rightarrow> AVCSliceHeader \<Rightarrow> AVCDecBitstream \<Rightarrow> ((AVCDec_Status \<times> uint \<times> AVCSliceHeader) \<times> AVCDecBitstream) option"
  where
  "ref_list_command max_num i h s =
     do { (op, s1) \<leftarrow> ue_v s;
          ops \<leftarrow> set_opt (reordering_of_pic_nums_idc_l0 h) i op;
          let h1 = h\<lparr>reordering_of_pic_nums_idc_l0 := ops\<rparr>;
          if op = 0 \<or> op = 1 then
            do { (d, s2) \<leftarrow> ue_v s1;
                 ds \<leftarrow> set_opt (abs_diff_pic_num_minus1_l0 h1) i d;
                 let h2 = h1\<lparr>abs_diff_pic_num_minus1_l0 := ds\<rparr>;
                 Some ((if op = 0 \<and> uint d > max_num div 2 - 1 \<or> op = 1 \<and> uint d > max_num div 2 - 2
                        then AVCDEC_FAIL else AVCDEC_SUCCESS, op, h2), s2) }
          else if op = 2 then
            do { (l, s2) \<leftarrow> ue_v s1;
                 ls \<leftarrow> set_opt (long_term_pic_num_l0 h1) i l;
                 Some ((AVCDEC_SUCCESS, op, h1\<lparr>long_term_pic_num_l0 := ls\<rparr>), s2) }
          else Some ((AVCDEC_SUCCESS, op, h1), s1) }"

text \<open>The loop, with \<open>k\<close> turns left after this one.\<close>

fun ref_list_loop :: "nat \<Rightarrow> int \<Rightarrow> int \<Rightarrow> AVCSliceHeader \<Rightarrow> AVCSliceHeader slice_parser" where
  "ref_list_loop 0 max_num i h s =
     do { ((st, op, h1), s1) \<leftarrow> ref_list_command max_num i h s; Some ((st, h1), s1) }"
| "ref_list_loop (Suc k) max_num i h s =
     do { ((st, op, h1), s1) \<leftarrow> ref_list_command max_num i h s;
          if st \<noteq> AVCDEC_SUCCESS \<or> op = 3 then Some ((st, h1), s1)
          else ref_list_loop k max_num (i + 1) h1 s1 }"

definition ref_pic_list_reordering :: "int \<Rightarrow> AVCSliceHeader \<Rightarrow> AVCCommonObj \<Rightarrow> AVCSliceHeader slice_parser" where
  "ref_pic_list_reordering slice_ty h v s =
     (if slice_ty \<noteq> AVC_I_SLICE then
        do { (b, s1) \<leftarrow> BitstreamRead1Bit s;
             let h1 = h\<lparr>ref_pic_list_reordering_flag_l0 := b \<noteq> 0\<rparr>;
             if b \<noteq> 0 then ref_list_loop (unat (num_ref_idx_l0_active_minus1 h1) + 1) (MaxPicNum v) 0 h1 s1
             else Some ((AVCDEC_SUCCESS, h1), s1) }
      else Some ((AVCDEC_SUCCESS, h), s))"

text \<open>One turn of the loop of the memory management commands.\<close>

definition mmco_field ::
  "bool \<Rightarrow> int \<Rightarrow> uint list \<Rightarrow> AVCDecBitstream \<Rightarrow> (uint list \<times> AVCDecBitstream) option" where
  "mmco_field present i xs s =
     (if present then do { (x, s1) \<leftarrow> ue_v s; ys \<leftarrow> set_opt xs i x; Some (ys, s1) } else Some (xs, s))"

definition mmco_command ::
  "int \<Rightarrow> AVCSliceHeader \<Rightarrow> AVCDecBitstream \<Rightarrow> ((uint \<times> AVCSliceHeader) \<times> AVCDecBitstream) option" where
  "mmco_command i h s =
     do { (op, s1) \<leftarrow> ue_v s;
          ops \<leftarrow> set_opt (memory_management_control_operation h) i op;
          (ds, s2) \<leftarrow> mmco_field (op = 1 \<or> op = 3) i (difference_of_pic_nums_minus1 h) s1;
          (ls, s3) \<leftarrow> mmco_field (op = 2) i (long_term_pic_num h) s2;
          (fs, s4) \<leftarrow> mmco_field (op = 3 \<or> op = 6) i (long_term_frame_idx h) s3;
          (ms, s5) \<leftarrow> mmco_field (op = 4) i (max_long_term_frame_idx_plus1 h) s4;
          Some ((op, h\<lparr>memory_management_control_operation := ops, difference_of_pic_nums_minus1 := ds,
                      long_term_pic_num := ls, long_term_frame_idx := fs, max_long_term_frame_idx_plus1 := ms\<rparr>), s5) }"

fun marking_loop :: "nat \<Rightarrow> int \<Rightarrow> AVCSliceHeader \<Rightarrow> AVCSliceHeader slice_parser" where
  "marking_loop 0 i h s = do { ((op, h1), s1) \<leftarrow> mmco_command i h s; Some ((AVCDEC_FAIL, h1), s1) }"
| "marking_loop (Suc k) i h s =
     do { ((op, h1), s1) \<leftarrow> mmco_command i h s;
          if op = 0 then Some ((AVCDEC_SUCCESS, h1), s1) else marking_loop k (i + 1) h1 s1 }"

definition dec_ref_pic_marking :: "AVCSliceHeader \<Rightarrow> AVCCommonObj \<Rightarrow> slice_state slice_parser" where
  "dec_ref_pic_marking h v s =
     (if nal_is_IDR v then
        do { (no_output, s1) \<leftarrow> BitstreamRead1Bit s;
             (lt, s2) \<leftarrow> BitstreamRead1Bit s1;
             let h1 = h\<lparr>no_output_of_prior_pics_flag := no_output \<noteq> 0, long_term_reference_flag := lt \<noteq> 0\<rparr>;
             Some ((AVCDEC_SUCCESS, h1,
                    if lt = 0 then v\<lparr>MaxLongTermFrameIdx := - 1\<rparr>
                    else v\<lparr>MaxLongTermFrameIdx := 0, vid_LongTermFrameIdx := 0\<rparr>), s2) }
      else
        do { (adaptive, s1) \<leftarrow> BitstreamRead1Bit s;
             let h1 = h\<lparr>adaptive_ref_pic_marking_mode_flag := adaptive \<noteq> 0\<rparr>;
             if adaptive \<noteq> 0 then
               do { ((st, h2), s2) \<leftarrow> marking_loop (MAX_DEC_REF_PIC_MARKING - 1) 0 h1 s1; Some ((st, h2, v), s2) }
             else Some ((AVCDEC_SUCCESS, h1, v), s1) })"

section \<open>The slice header\<close>

text \<open>\<open>FirstPartSliceHeader\<close>: position, type and picture parameter set. Types count from 5 on if the picture has one type only.\<close>

definition slice_first :: "slice_state \<Rightarrow> slice_state slice_parser" where
  "slice_first hv s =
     (let (h, v) = hv in
      do { (first, s1) \<leftarrow> ue_v s;
           (w, s2) \<leftarrow> ue_v s1;
           let h1 = h\<lparr>first_mb_in_slice := first\<rparr>;
           let ty = c_int (uint w);
           if first \<noteq> 0 \<and> sh_slice_type h \<ge> 5 \<and> ty \<noteq> sh_slice_type h - 5 then Some ((AVCDEC_FAIL, h1, v), s2)
           else
             do { let h2 = h1\<lparr>sh_slice_type := ty\<rparr>;
                  let kind = (if ty > 4 then ty - 5 else ty);
                  if kind = 1 \<or> kind > 2 then Some ((AVCDEC_FAIL, h2, v), s2)
                  else
                    do { (pid, s3) \<leftarrow> ue_v s2;
                         Some ((if pid > 255 then AVCDEC_FAIL else AVCDEC_SUCCESS, h2\<lparr>sh_pic_parameter_set_id := pid\<rparr>,
                                v\<lparr>slice_type := kind\<rparr>), s3) } } })"

text \<open>The variables derived from the two sets.\<close>

definition derive_from_sets :: "AVCPicParamSet \<Rightarrow> AVCSeqParamSet \<Rightarrow> AVCCommonObj \<Rightarrow> AVCCommonObj option" where
  "derive_from_sets pps sps v =
     do { m \<leftarrow> shl32 1 (log2_max_frame_num_minus4 sps + 4);
          let w = c_uint (pic_width_in_mbs_minus1 sps + 1);
          let hm = c_uint (pic_height_in_map_units_minus1 sps + 1);
          Some (v\<lparr>MaxFrameNum := uint m, PicWidthInMbs := w, PicWidthInSamplesL := c_uint (w * 16),
                  PicWidthInSamplesC := c_uint (w * 8), PicHeightInMapUnits := hm, PicSizeInMapUnits := c_uint (w * hm),
                  FrameHeightInMbs := c_uint ((2 - of_bool (frame_mbs_only_flag sps)) * hm),
                  SliceGroupChangeRate := uint (slice_group_change_rate_minus1 pps + 1)\<rparr>) }"

text \<open>Activation: nothing is read. A null \<open>currFS\<close> stays null when the buffer is set up anew.\<close>

definition activate_sets ::
  "(nat \<Rightarrow> AVCFrameStore option) \<Rightarrow> (nat \<Rightarrow> bool) \<Rightarrow> AVCDecObject \<Rightarrow> AVCSliceHeader \<Rightarrow> AVCCommonObj
    \<Rightarrow> (AVCDec_Status \<times> AVCCommonObj) option" where
  "activate_sets alloc succeeds decvid h v =
     do { p \<leftarrow> nth_opt (picParams decvid) (uint (sh_pic_parameter_set_id h));
          (case p of
             None \<Rightarrow> Some (AVCDEC_FAIL, v)
           | Some pps \<Rightarrow>
               do { let v1 = v\<lparr>currPicParams := unat (sh_pic_parameter_set_id h)\<rparr>;
                    q \<leftarrow> nth_opt (seqParams decvid) (pps_seq_parameter_set_id pps);
                    (case q of
                       None \<Rightarrow> Some (AVCDEC_FAIL, v1)
                     | Some sps \<Rightarrow>
                         (let v2 = v1\<lparr>currSeqParams := nat (pps_seq_parameter_set_id pps)\<rparr>
                          in if pps_seq_parameter_set_id pps \<noteq> vid_seq_parameter_set_id v2 then
                               do { (st, _, v3) \<leftarrow> AVCConfigureSequence alloc succeeds sps False
                                      (v2\<lparr>vid_seq_parameter_set_id := pps_seq_parameter_set_id pps\<rparr>);
                                    let v4 = (if currFS v2 < num_fs v2 then v3 else v3\<lparr>currFS := num_fs v3\<rparr>);
                                    Some (dec_status st, if st \<noteq> AVC_SUCCESS then v4 else v4\<lparr>vid_level_idc := level_idc sps\<rparr>) }
                             else Some (AVCDEC_SUCCESS, v2))) }) }"

text \<open>\<open>frame_num\<close> to \<open>idr_pic_id\<close>, which is not kept.\<close>

definition slice_numbers ::
  "AVCSeqParamSet \<Rightarrow> slice_state \<Rightarrow> slice_state slice_parser" where
  "slice_numbers sps hv s =
     (let (h, v) = hv in
      do { (w, s1) \<leftarrow> BitstreamReadBits s (log2_max_frame_num_minus4 sps + 4);
           let h1 = h\<lparr>frame_num := uint w\<rparr>;
           let v1 = (if \<not> currFS v < num_fs v \<and> w \<noteq> 0
                     then v\<lparr>prevFrameNum := uint w - 1, PrevRefFrameNum := uint w - 1\<rparr> else v);
           (field, s2) \<leftarrow> (if frame_mbs_only_flag sps then Some (0, s1) else BitstreamRead1Bit s1);
           let h2 = (if frame_mbs_only_flag sps then h1 else h1\<lparr>field_pic_flag := field \<noteq> 0\<rparr>);
           if field \<noteq> 0 then Some ((AVCDEC_FAIL, h2, v1), s2)
           else
             do { let hmbs = FrameHeightInMbs v1;
                  let v2 = v1\<lparr>PicHeightInMbs := hmbs, PicHeightInSamplesL := c_uint (hmbs * 16),
                              PicHeightInSamplesC := c_uint (hmbs * 8), PicSizeInMbs := c_uint (PicWidthInMbs v1 * hmbs)\<rparr>;
                  if uint (first_mb_in_slice h2) \<ge> PicSizeInMbs v2 then Some ((AVCDEC_FAIL, h2, v2), s2)
                  else
                    do { let v3 = v2\<lparr>MaxPicNum := MaxFrameNum v2, CurrPicNum := uint w\<rparr>;
                         if nal_is_IDR v3 then
                           if w \<noteq> 0 then Some ((AVCDEC_FAIL, h2, v3), s2)
                           else do { (_, s3) \<leftarrow> ue_v s2; Some ((AVCDEC_SUCCESS, h2, v3), s3) }
                         else Some ((AVCDEC_SUCCESS, h2, v3), s2) } } })"

definition slice_order ::
  "AVCPicParamSet \<Rightarrow> AVCSeqParamSet \<Rightarrow> slice_state \<Rightarrow> slice_state slice_parser" where
  "slice_order pps sps hv s =
     (let (h0, v) = hv; h = h0\<lparr>delta_pic_order_cnt_bottom := 0, delta_pic_order_cnt := [0, 0]\<rparr> in
      if pic_order_cnt_type sps = 0 then
        do { (lsb, s1) \<leftarrow> BitstreamReadBits s (log2_max_pic_order_cnt_lsb_minus4 sps + 4);
             m \<leftarrow> shl32 1 (log2_max_pic_order_cnt_lsb_minus4 sps + 4);
             let h1 = h\<lparr>pic_order_cnt_lsb := lsb\<rparr>;
             let v1 = v\<lparr>MaxPicOrderCntLsb := uint m\<rparr>;
             if lsb > m - 1 then Some ((AVCDEC_FAIL, h1, v1), s1)
             else if pic_order_present_flag pps then
               do { (d, s2) \<leftarrow> se_v32bit s1; Some ((AVCDEC_SUCCESS, h1\<lparr>delta_pic_order_cnt_bottom := d\<rparr>, v1), s2) }
             else Some ((AVCDEC_SUCCESS, h1, v1), s1) }
      else if pic_order_cnt_type sps = 1 \<and> \<not> delta_pic_order_always_zero_flag sps then
        do { (d0, s1) \<leftarrow> se_v32bit s;
             (d1, s2) \<leftarrow> (if pic_order_present_flag pps then se_v32bit s1 else Some (0, s1));
             Some ((AVCDEC_SUCCESS, h\<lparr>delta_pic_order_cnt := [d0, d1]\<rparr>, v), s2) }
      else Some ((AVCDEC_SUCCESS, h, v), s))"

definition slice_redundant :: "AVCPicParamSet \<Rightarrow> slice_state \<Rightarrow> slice_state slice_parser" where
  "slice_redundant pps hv s =
     (let (h, v) = hv in
      if redundant_pic_cnt_present_flag pps then
        do { (n, s1) \<leftarrow> ue_v s;
             Some ((if n > 127 \<or> n > 0 then AVCDEC_FAIL else AVCDEC_SUCCESS, h\<lparr>redundant_pic_cnt := n\<rparr>, v), s1) }
      else Some ((AVCDEC_SUCCESS, h\<lparr>redundant_pic_cnt := 0\<rparr>, v), s))"

definition slice_ref_idx :: "AVCPicParamSet \<Rightarrow> slice_state \<Rightarrow> slice_state slice_parser" where
  "slice_ref_idx pps hv s =
     (let (h0, v) = hv;
          h = h0\<lparr>num_ref_idx_l0_active_minus1 := pps_num_ref_idx_l0_active_minus1 pps,
                 num_ref_idx_l1_active_minus1 := pps_num_ref_idx_l1_active_minus1 pps\<rparr>;
          check = (\<lambda>h. if num_ref_idx_l0_active_minus1 h > 15 \<or> num_ref_idx_l1_active_minus1 h > 15
                       then AVCDEC_FAIL else AVCDEC_SUCCESS)
      in if slice_type v = AVC_P_SLICE then
           do { (b, s1) \<leftarrow> BitstreamRead1Bit s;
                let h1 = h\<lparr>num_ref_idx_active_override_flag := b \<noteq> 0\<rparr>;
                if b \<noteq> 0 then
                  do { (n, s2) \<leftarrow> ue_v s1;
                       let h2 = h1\<lparr>num_ref_idx_l0_active_minus1 := n\<rparr>;
                       Some ((check h2, h2, v), s2) }
                else if pps_num_ref_idx_l0_active_minus1 pps > 15 then Some ((AVCDEC_FAIL, h1, v), s1)
                else Some ((check h1, h1, v), s1) }
         else Some ((check h, h, v), s))"

definition slice_lists :: "slice_state \<Rightarrow> slice_state slice_parser" where
  "slice_lists hv s =
     (let (h, v) = hv in
      do { ((st, h1), s1) \<leftarrow> ref_pic_list_reordering (slice_type v) h v s; Some ((st, h1, v), s1) })"

text \<open>The status of \<open>dec_ref_pic_marking\<close> is not looked at.\<close>

definition slice_marking :: "slice_state \<Rightarrow> slice_state slice_parser" where
  "slice_marking hv s =
     (let (h, v) = hv in
      if nal_ref_idc v \<noteq> 0 then
        do { ((_, h1, v1), s1) \<leftarrow> dec_ref_pic_marking h v s; Some ((AVCDEC_SUCCESS, h1, v1), s1) }
      else Some ((AVCDEC_SUCCESS, h, v), s))"

definition set_quantisers :: "AVCPicParamSet \<Rightarrow> int \<Rightarrow> AVCCommonObj \<Rightarrow> AVCCommonObj option" where
  "set_quantisers pps delta v =
     do { let qp0 = 26 + pic_init_qp_minus26 pps + delta;
          let qp = (if qp0 > 51 \<or> qp0 < 0 then AVC_CLIP3 0 51 qp0 else qp0);
          qc \<leftarrow> nth_opt mapQPi2QPc (AVC_CLIP3 0 51 (qp + chroma_qp_index_offset pps));
          let d = drop_bit 8 (qp * 43);
          let dc = drop_bit 8 (qc * 43);
          Some (v\<lparr>vid_QPy := qp, vid_QPc := qc, QPy_div_6 := d, QPy_mod_6 := qp - 6 * d, QPc_div_6 := dc,
                  QPc_mod_6 := qc - 6 * dc\<rparr>) }"

definition slice_quant :: "AVCPicParamSet \<Rightarrow> slice_state \<Rightarrow> slice_state slice_parser" where
  "slice_quant pps hv s =
     (let (h, v) = hv in
      do { (delta, s1) \<leftarrow> se_v s;
           v1 \<leftarrow> set_quantisers pps delta v;
           Some ((AVCDEC_SUCCESS, h\<lparr>slice_qp_delta := delta\<rparr>, v1), s1) })"

definition slice_deblocking :: "AVCPicParamSet \<Rightarrow> slice_state \<Rightarrow> slice_state slice_parser" where
  "slice_deblocking pps hv s =
     (let (h0, v0) = hv;
          h = h0\<lparr>slice_alpha_c0_offset_div2 := 0, slice_beta_offset_div_2 := 0, disable_deblocking_filter_idc := 0\<rparr>;
          v = v0\<lparr>FilterOffsetA := 0, FilterOffsetB := 0\<rparr>
      in if deblocking_filter_control_present_flag pps then
           do { (idc, s1) \<leftarrow> ue_v s;
                let h1 = h\<lparr>disable_deblocking_filter_idc := idc\<rparr>;
                if idc > 2 then Some ((AVCDEC_FAIL, h1, v), s1)
                else if idc \<noteq> 1 then
                  do { (a, s2) \<leftarrow> se_v s1;
                       let h2 = h1\<lparr>slice_alpha_c0_offset_div2 := a\<rparr>;
                       if a < - 6 \<or> a > 6 then Some ((AVCDEC_FAIL, h2, v), s2)
                       else
                         do { let v1 = v\<lparr>FilterOffsetA := a * 2\<rparr>;
                              (b, s3) \<leftarrow> se_v s2;
                              let h3 = h2\<lparr>slice_beta_offset_div_2 := b\<rparr>;
                              if b < - 6 \<or> b > 6 then Some ((AVCDEC_FAIL, h3, v1), s3)
                              else Some ((AVCDEC_SUCCESS, h3, v1\<lparr>FilterOffsetB := b * 2\<rparr>), s3) } }
                else Some ((AVCDEC_SUCCESS, h1, v), s1) }
         else Some ((AVCDEC_SUCCESS, h, v), s))"

text \<open>The length of \<open>slice_group_change_cycle\<close>, from the quotient rounded up.\<close>

definition ceil_quotient :: "int \<Rightarrow> int \<Rightarrow> int" where
  "ceil_quotient x y = (let temp = x div y in if x mod y \<noteq> 0 then temp + 1 else temp)"

definition cycle_bits :: "AVCCommonObj \<Rightarrow> nat" where
  "cycle_bits v = count_bits (nat (ceil_quotient (PicSizeInMapUnits v) (SliceGroupChangeRate v) + 1))"

definition slice_group_cycle :: "AVCPicParamSet \<Rightarrow> slice_state \<Rightarrow> slice_state slice_parser" where
  "slice_group_cycle pps hv s =
     (let (h, v) = hv in
      if num_slice_groups_minus1 pps > 0 \<and> slice_group_map_type pps \<ge> 3 \<and> slice_group_map_type pps \<le> 5 then
        if SliceGroupChangeRate v = 0 then None
        else
          do { (c, s1) \<leftarrow> BitstreamReadBits s (int (cycle_bits v));
               Some ((AVCDEC_SUCCESS, h\<lparr>slice_group_change_cycle := c\<rparr>,
                 v\<lparr>MapUnitsInSliceGroup0 := AVC_MIN (c_uint (uint c * SliceGroupChangeRate v)) (PicSizeInMapUnits v)\<rparr>), s1) }
      else Some ((AVCDEC_SUCCESS, h, v), s))"

text \<open>What follows the activation of the sets.\<close>

definition slice_rest :: "AVCPicParamSet \<Rightarrow> AVCSeqParamSet \<Rightarrow> slice_state \<Rightarrow> slice_state slice_parser" where
  "slice_rest pps sps hv =
     on_success (slice_numbers sps hv) (\<lambda>hv.
     on_success (slice_order pps sps hv) (\<lambda>hv.
     on_success (slice_redundant pps hv) (\<lambda>hv.
     on_success (slice_ref_idx pps hv) (\<lambda>hv.
     on_success (slice_lists hv) (\<lambda>hv.
     on_success (slice_marking hv) (\<lambda>hv.
     on_success (slice_quant pps hv) (\<lambda>hv.
     on_success (slice_deblocking pps hv) (slice_group_cycle pps))))))))"

definition current_sets :: "AVCDecObject \<Rightarrow> AVCCommonObj \<Rightarrow> (AVCPicParamSet \<times> AVCSeqParamSet) option" where
  "current_sets decvid v =
     do { p \<leftarrow> nth_opt (picParams decvid) (int (currPicParams v)); pps \<leftarrow> p;
          q \<leftarrow> nth_opt (seqParams decvid) (int (currSeqParams v)); sps \<leftarrow> q; Some (pps, sps) }"

definition DecodeSliceHeader ::
  "(nat \<Rightarrow> AVCFrameStore option) \<Rightarrow> (nat \<Rightarrow> bool) \<Rightarrow> AVCDecObject \<Rightarrow> AVCSliceHeader \<Rightarrow> AVCCommonObj
    \<Rightarrow> slice_state slice_parser" where
  "DecodeSliceHeader alloc succeeds decvid h v =
     on_success (slice_first (h, v)) (\<lambda>(h1, v1) s.
       do { (st, v2) \<leftarrow> activate_sets alloc succeeds decvid h1 v1;
            if st \<noteq> AVCDEC_SUCCESS then Some ((st, h1, v2), s)
            else
              do { (pps, sps) \<leftarrow> current_sets decvid v2;
                   v3 \<leftarrow> derive_from_sets pps sps v2;
                   slice_rest pps sps (h1, v3) s } })"

end
