(* ===== verification/EncSliceHeader.thy ===== *)
theory EncSliceHeader
  imports EncHeader RefList
begin

text \<open>
  The slice header of the encoder, \<open>enc/src/header.cpp\<close>: \<open>EncodeSliceHeader\<close> with \<open>ref_pic_list_reordering\<close> and
  \<open>dec_ref_pic_marking\<close>. A status that the code overwrites before it looks at it is dropped. The loops over the
  commands look at the entry after the one they have written, so that the end of a list of commands is not
  written and an entry behind the array can be read (\<open>None\<close>).
\<close>

definition AVC_B_SLICE :: int where "AVC_B_SLICE = 1"
definition AVC_SP_SLICE :: int where "AVC_SP_SLICE = 3"
definition AVC_SI_SLICE :: int where "AVC_SI_SLICE = 4"

type_synonym slice_writer = "AVCEncBitstream \<Rightarrow> (AVCEnc_Status \<times> AVCEncBitstream) option"

section \<open>The lists of commands\<close>

definition put_list_command :: "malloc \<Rightarrow> uint list \<Rightarrow> uint list \<Rightarrow> uint list \<Rightarrow> int \<Rightarrow> slice_writer" where
  "put_list_command malloc ops ds ls i s =
     do { op \<leftarrow> nth_opt ops i;
          (st, s1) \<leftarrow> enc_ue_v malloc s op;
          if op = 0 \<or> op = 1 then do { d \<leftarrow> nth_opt ds i; enc_ue_v malloc s1 d }
          else if op = 2 then do { l \<leftarrow> nth_opt ls i; enc_ue_v malloc s1 l }
          else Some (st, s1) }"

text \<open>The loop, with \<open>k\<close> turns left after this one.\<close>

fun put_list_loop :: "malloc \<Rightarrow> uint list \<Rightarrow> uint list \<Rightarrow> uint list \<Rightarrow> nat \<Rightarrow> int \<Rightarrow> slice_writer" where
  "put_list_loop malloc ops ds ls k i s =
     do { (st, s1) \<leftarrow> put_list_command malloc ops ds ls i s;
          op \<leftarrow> nth_opt ops (i + 1);
          (case k of
             0 \<Rightarrow> Some (st, s1)
           | Suc k' \<Rightarrow> if op \<noteq> 3 then put_list_loop malloc ops ds ls k' (i + 1) s1 else Some (st, s1)) }"

declare put_list_loop.simps [simp del]

definition put_ref_list :: "malloc \<Rightarrow> bool \<Rightarrow> uint list \<Rightarrow> uint list \<Rightarrow> uint list \<Rightarrow> uint \<Rightarrow> slice_writer" where
  "put_ref_list malloc b ops ds ls n s =
     do { (st, s1) \<leftarrow> BitstreamWrite1Bit malloc s (of_bool b);
          if b then put_list_loop malloc ops ds ls (unat n + 1) 0 s1 else Some (st, s1) }"

definition put_ref_pic_list_reordering :: "malloc \<Rightarrow> int \<Rightarrow> AVCSliceHeader \<Rightarrow> slice_writer" where
  "put_ref_pic_list_reordering malloc slice_ty h s =
     do { (st, s1) \<leftarrow> (if slice_ty \<noteq> AVC_I_SLICE \<and> slice_ty \<noteq> AVC_SI_SLICE
            then put_ref_list malloc (ref_pic_list_reordering_flag_l0 h) (reordering_of_pic_nums_idc_l0 h)
              (abs_diff_pic_num_minus1_l0 h) (long_term_pic_num_l0 h) (num_ref_idx_l0_active_minus1 h) s
            else Some (AVCENC_SUCCESS, s));
          if slice_ty = AVC_B_SLICE
          then put_ref_list malloc (ref_pic_list_reordering_flag_l1 h) (reordering_of_pic_nums_idc_l1 h)
            (abs_diff_pic_num_minus1_l1 h) (long_term_pic_num_l1 h) (num_ref_idx_l1_active_minus1 h) s1
          else Some (st, s1) }"

definition put_mmco_field :: "malloc \<Rightarrow> bool \<Rightarrow> uint list \<Rightarrow> int \<Rightarrow> AVCEnc_Status \<Rightarrow> slice_writer" where
  "put_mmco_field malloc present xs i st s =
     (if present then do { x \<leftarrow> nth_opt xs i; enc_ue_v malloc s x } else Some (st, s))"

definition put_mmco :: "malloc \<Rightarrow> AVCSliceHeader \<Rightarrow> int \<Rightarrow> slice_writer" where
  "put_mmco malloc h i s =
     do { op \<leftarrow> nth_opt (memory_management_control_operation h) i;
          (st1, s1) \<leftarrow> enc_ue_v malloc s op;
          (st2, s2) \<leftarrow> put_mmco_field malloc (op = 1 \<or> op = 3) (difference_of_pic_nums_minus1 h) i st1 s1;
          (st3, s3) \<leftarrow> put_mmco_field malloc (op = 2) (long_term_pic_num h) i st2 s2;
          (st4, s4) \<leftarrow> put_mmco_field malloc (op = 3 \<or> op = 6) (long_term_frame_idx h) i st3 s3;
          put_mmco_field malloc (op = 4) (max_long_term_frame_idx_plus1 h) i st4 s4 }"

text \<open>At the last turn \<open>i = MAX_DEC_REF_PIC_MARKING\<close> after the step, so the read of the next entry is out of bounds.\<close>

fun put_mmco_loop :: "malloc \<Rightarrow> AVCSliceHeader \<Rightarrow> nat \<Rightarrow> int \<Rightarrow> slice_writer" where
  "put_mmco_loop malloc h k i s =
     do { (st, s1) \<leftarrow> put_mmco malloc h i s;
          op \<leftarrow> nth_opt (memory_management_control_operation h) (i + 1);
          (case k of
             0 \<Rightarrow> Some (if op \<noteq> 0 then AVCENC_DEC_REF_PIC_MARK_FAIL else st, s1)
           | Suc k' \<Rightarrow> if op \<noteq> 0 then put_mmco_loop malloc h k' (i + 1) s1 else Some (st, s1)) }"

declare put_mmco_loop.simps [simp del]

definition put_ref_pic_marking ::
  "malloc \<Rightarrow> AVCSliceHeader \<Rightarrow> AVCCommonObj \<Rightarrow> AVCEncBitstream \<Rightarrow> ((AVCEnc_Status \<times> AVCCommonObj) \<times> AVCEncBitstream) option"
  where
  "put_ref_pic_marking malloc h v s =
     (if nal_is_IDR v then
        do { (_, s1) \<leftarrow> BitstreamWrite1Bit malloc s (of_bool (no_output_of_prior_pics_flag h));
             (st, s2) \<leftarrow> BitstreamWrite1Bit malloc s1 (of_bool (long_term_reference_flag h));
             Some ((st, if \<not> long_term_reference_flag h then v\<lparr>MaxLongTermFrameIdx := - 1\<rparr>
                        else v\<lparr>MaxLongTermFrameIdx := 0, vid_LongTermFrameIdx := 0\<rparr>), s2) }
      else
        do { (st, s1) \<leftarrow> BitstreamWrite1Bit malloc s (of_bool (adaptive_ref_pic_marking_mode_flag h));
             (st, s2) \<leftarrow> (if adaptive_ref_pic_marking_mode_flag h
                then put_mmco_loop malloc h (MAX_DEC_REF_PIC_MARKING - 1) 0 s1 else Some (st, s1));
             Some ((st, v), s2) })"

section \<open>The slice header\<close>

text \<open>A part that can return early, as in the decoder.\<close>

definition and_then :: "slice_writer \<Rightarrow> slice_writer \<Rightarrow> slice_writer" where
  "and_then p q s = do { (st, s1) \<leftarrow> p s; if st \<noteq> AVCENC_SUCCESS then Some (st, s1) else q s1 }"

definition put_slice_start :: "malloc \<Rightarrow> AVCSeqParamSet \<Rightarrow> AVCSliceHeader \<Rightarrow> AVCCommonObj \<Rightarrow> slice_writer" where
  "put_slice_start malloc sps h v s =
     do { (_, s1) \<leftarrow> enc_ue_v malloc s (first_mb_in_slice h);
          (_, s2) \<leftarrow> enc_ue_v malloc s1 (word_of_int (if mbNum v = 0 then sh_slice_type h else slice_type v));
          (_, s3) \<leftarrow> enc_ue_v malloc s2 (sh_pic_parameter_set_id h);
          BitstreamWriteBits malloc s3 (log2_max_frame_num_minus4 sps + 4) (word_of_int (frame_num h)) }"

text \<open>From \<open>idr_pic_id\<close> to the picture order count; the last status is passed on.\<close>

definition put_slice_order :: "malloc \<Rightarrow> AVCPicParamSet \<Rightarrow> AVCSeqParamSet \<Rightarrow> AVCSliceHeader \<Rightarrow> AVCEnc_Status \<Rightarrow> slice_writer" where
  "put_slice_order malloc pps sps h st s =
     (let present = pic_order_present_flag pps \<and> \<not> field_pic_flag h in
      if pic_order_cnt_type sps = 0 then
        do { (st, s1) \<leftarrow> BitstreamWriteBits malloc s (log2_max_pic_order_cnt_lsb_minus4 sps + 4) (pic_order_cnt_lsb h);
             if present then enc_se_v malloc s1 (delta_pic_order_cnt_bottom h) else Some (st, s1) }
      else if pic_order_cnt_type sps = 1 \<and> \<not> delta_pic_order_always_zero_flag sps then
        do { d0 \<leftarrow> nth_opt (delta_pic_order_cnt h) 0;
             (st, s1) \<leftarrow> enc_se_v malloc s d0;
             if present then do { d1 \<leftarrow> nth_opt (delta_pic_order_cnt h) 1; enc_se_v malloc s1 d1 } else Some (st, s1) }
      else Some (st, s))"

definition put_slice_redundant ::
  "malloc \<Rightarrow> AVCPicParamSet \<Rightarrow> AVCSliceHeader \<Rightarrow> int \<Rightarrow> AVCEnc_Status \<Rightarrow> slice_writer" where
  "put_slice_redundant malloc pps h ty st0 s =
     do { (st1, s1) \<leftarrow> (if redundant_pic_cnt_present_flag pps then enc_ue_v malloc s (redundant_pic_cnt h) else Some (st0, s));
          if ty = AVC_B_SLICE then BitstreamWrite1Bit malloc s1 (of_bool (direct_spatial_mv_pred_flag h)) else Some (st1, s1) }"

definition put_slice_ids ::
  "malloc \<Rightarrow> AVCPicParamSet \<Rightarrow> AVCSeqParamSet \<Rightarrow> AVCSliceHeader \<Rightarrow> AVCCommonObj \<Rightarrow> slice_writer" where
  "put_slice_ids malloc pps sps h v s =
     do { (st1, s1) \<leftarrow> (if nal_is_IDR v then enc_ue_v malloc s (idr_pic_id h) else Some (AVCENC_SUCCESS, s));
          (st2, s2) \<leftarrow> put_slice_order malloc pps sps h st1 s1;
          put_slice_redundant malloc pps h (slice_type v) st2 s2 }"

definition put_slice_ref_idx :: "malloc \<Rightarrow> AVCSliceHeader \<Rightarrow> int \<Rightarrow> slice_writer" where
  "put_slice_ref_idx malloc h ty s =
     (if ty = AVC_P_SLICE \<or> ty = AVC_SP_SLICE \<or> ty = AVC_B_SLICE then
        do { (st, s1) \<leftarrow> BitstreamWrite1Bit malloc s (of_bool (num_ref_idx_active_override_flag h));
             if num_ref_idx_active_override_flag h then
               do { (st1, s2) \<leftarrow> enc_ue_v malloc s1 (num_ref_idx_l0_active_minus1 h);
                    if ty = AVC_B_SLICE then enc_ue_v malloc s2 (num_ref_idx_l1_active_minus1 h) else Some (st1, s2) }
             else Some (st, s1) }
      else Some (AVCENC_SUCCESS, s))"

text \<open>The quantiser and the parameters of the loop filter.\<close>

definition put_slice_quant :: "malloc \<Rightarrow> AVCSliceHeader \<Rightarrow> int \<Rightarrow> slice_writer" where
  "put_slice_quant malloc h ty s =
     do { (st, s1) \<leftarrow> enc_se_v malloc s (slice_qp_delta h);
          if st \<noteq> AVCENC_SUCCESS then Some (st, s1)
          else if ty = AVC_SP_SLICE \<or> ty = AVC_SI_SLICE then
            do { (_, s2) \<leftarrow> (if ty = AVC_SP_SLICE then BitstreamWrite1Bit malloc s1 (of_bool (sp_for_switch_flag h))
                             else Some (st, s1));
                 enc_se_v malloc s2 (slice_qs_delta h) }
          else Some (st, s1) }"

definition put_slice_deblocking :: "malloc \<Rightarrow> AVCPicParamSet \<Rightarrow> AVCSliceHeader \<Rightarrow> slice_writer" where
  "put_slice_deblocking malloc pps h s =
     (if deblocking_filter_control_present_flag pps then
        do { (st, s1) \<leftarrow> enc_ue_v malloc s (disable_deblocking_filter_idc h);
             if disable_deblocking_filter_idc h \<noteq> 1 then
               do { (_, s2) \<leftarrow> enc_se_v malloc s1 (slice_alpha_c0_offset_div2 h); enc_se_v malloc s2 (slice_beta_offset_div_2 h) }
             else Some (st, s1) }
      else Some (AVCENC_SUCCESS, s))"

text \<open>\<open>while (temp > 1) { temp >>= 1; i++; }\<close>\<close>

definition enc_cycle_bits :: "AVCCommonObj \<Rightarrow> nat" where
  "enc_cycle_bits v =
     (let x = PicSizeInMapUnits v; y = SliceGroupChangeRate v
      in count_bits (nat (if x mod y \<noteq> 0 then x div y + 1 else x div y)) - 1)"

definition put_slice_group_cycle :: "malloc \<Rightarrow> AVCPicParamSet \<Rightarrow> AVCSliceHeader \<Rightarrow> AVCCommonObj \<Rightarrow> slice_writer" where
  "put_slice_group_cycle malloc pps h v s =
     (if num_slice_groups_minus1 pps > 0 \<and> slice_group_map_type pps \<ge> 3 \<and> slice_group_map_type pps \<le> 5 then
        if SliceGroupChangeRate v = 0 then None
        else do { (_, s1) \<leftarrow> BitstreamWriteBits malloc s (int (enc_cycle_bits v)) (slice_group_change_cycle h);
                  Some (AVCENC_SUCCESS, s1) }
      else Some (AVCENC_SUCCESS, s))"

text \<open>The parts before and after the marking, with the slices that are refused.\<close>

definition put_before_marking ::
  "malloc \<Rightarrow> AVCPicParamSet \<Rightarrow> AVCSeqParamSet \<Rightarrow> AVCSliceHeader \<Rightarrow> AVCCommonObj \<Rightarrow> slice_writer" where
  "put_before_marking malloc pps sps h v =
     (let ty = slice_type v in
      and_then (put_slice_start malloc sps h v)
        (and_then (put_slice_ids malloc pps sps h v)
          (and_then (put_slice_ref_idx malloc h ty)
            (and_then (put_ref_pic_list_reordering malloc ty h)
              (\<lambda>s. Some (if weighted_pred_flag pps \<and> (ty = AVC_P_SLICE \<or> ty = AVC_SP_SLICE)
                             \<or> weighted_bipred_idc pps = 1 \<and> ty = AVC_B_SLICE
                           then AVCENC_PRED_WEIGHT_TAB_FAIL else AVCENC_SUCCESS, s))))))"

definition put_after_marking :: "malloc \<Rightarrow> AVCPicParamSet \<Rightarrow> AVCSliceHeader \<Rightarrow> AVCCommonObj \<Rightarrow> slice_writer" where
  "put_after_marking malloc pps h v =
     (let ty = slice_type v in
      if entropy_coding_mode_flag pps \<and> ty \<noteq> AVC_I_SLICE \<and> ty \<noteq> AVC_SI_SLICE then (\<lambda>s. Some (AVCENC_CABAC_FAIL, s))
      else and_then (put_slice_quant malloc h ty)
             (and_then (put_slice_deblocking malloc pps h) (put_slice_group_cycle malloc pps h v)))"

text \<open>\<open>encvid->rateCtrl->NumberofHeaderBits\<close> is passed through; a header that fails leaves it alone.\<close>

definition num_bits :: "AVCEncBitstream \<Rightarrow> int" where
  "num_bits s = c_int (write_pos s * 8 - bit_left s)"

definition EncodeSliceHeader ::
  "malloc \<Rightarrow> AVCPicParamSet \<Rightarrow> AVCSeqParamSet \<Rightarrow> AVCSliceHeader \<Rightarrow> AVCCommonObj \<Rightarrow> int \<Rightarrow> AVCEncBitstream
    \<Rightarrow> ((AVCEnc_Status \<times> AVCCommonObj \<times> int) \<times> AVCEncBitstream) option" where
  "EncodeSliceHeader malloc pps sps h v NumberofHeaderBits s =
     do { (st, s1) \<leftarrow> put_before_marking malloc pps sps h v s;
          if st \<noteq> AVCENC_SUCCESS then Some ((st, v, NumberofHeaderBits), s1)
          else
            do { ((st, v1), s2) \<leftarrow> (if nal_ref_idc v \<noteq> 0 then put_ref_pic_marking malloc h v s1
                                  else Some ((AVCENC_SUCCESS, v), s1));
                 if st \<noteq> AVCENC_SUCCESS then Some ((st, v1, NumberofHeaderBits), s2)
                 else
                   do { (st, s3) \<leftarrow> put_after_marking malloc pps h v1 s2;
                        Some ((st, v1, if st = AVCENC_SUCCESS
                          then c_int (NumberofHeaderBits + (num_bits s3 - num_bits s)) else NumberofHeaderBits), s3) } } }"

end
