(* ===== verification/SliceRoundtrip.thy ===== *)
theory SliceRoundtrip
  imports HeaderRoundtrip DecSliceHeader EncSliceHeader
begin

text \<open>
  The slice header as a list of syntax elements: the encoder writes the list, the decoder takes it back. Headers with
  lists of reordering or memory management commands are left out, as the encoder does not write their end, and so are
  the slice groups that change, as the two sides do not agree on the length of \<open>slice_group_change_cycle\<close>.
\<close>

section \<open>The elements\<close>

definition written_type :: "AVCSliceHeader \<Rightarrow> AVCCommonObj \<Rightarrow> int" where
  "written_type h v = (if mbNum v = 0 then sh_slice_type h else slice_type v)"

definition bits_of :: "int \<Rightarrow> nat" where
  "bits_of log2_minus4 = nat (log2_minus4 + 4)"

definition order_part :: "AVCPicParamSet \<Rightarrow> AVCSeqParamSet \<Rightarrow> AVCSliceHeader \<Rightarrow> syntax_element list" where
  "order_part pps sps h =
     (if pic_order_cnt_type sps = 0 then
        U (bits_of (log2_max_pic_order_cnt_lsb_minus4 sps)) (pic_order_cnt_lsb h)
        # (if pic_order_present_flag pps then [SE (delta_pic_order_cnt_bottom h)] else [])
      else if pic_order_cnt_type sps = 1 \<and> \<not> delta_pic_order_always_zero_flag sps then
        SE (delta_pic_order_cnt h ! 0) # (if pic_order_present_flag pps then [SE (delta_pic_order_cnt h ! 1)] else [])
      else [])"

definition redundant_part :: "AVCPicParamSet \<Rightarrow> AVCSliceHeader \<Rightarrow> syntax_element list" where
  "redundant_part pps h = (if redundant_pic_cnt_present_flag pps then [UW (redundant_pic_cnt h)] else [])"

definition ref_idx_part :: "AVCSliceHeader \<Rightarrow> int \<Rightarrow> syntax_element list" where
  "ref_idx_part h ty =
     (if ty = AVC_P_SLICE then Flag (num_ref_idx_active_override_flag h)
        # (if num_ref_idx_active_override_flag h then [UW (num_ref_idx_l0_active_minus1 h)] else [])
      else [])"

definition lists_part :: "int \<Rightarrow> syntax_element list" where
  "lists_part ty = (if ty = AVC_P_SLICE then [Flag False] else [])"

definition marking_part :: "AVCSliceHeader \<Rightarrow> AVCCommonObj \<Rightarrow> syntax_element list" where
  "marking_part h v =
     (if nal_ref_idc v \<noteq> 0 then
        if nal_is_IDR v then [Flag (no_output_of_prior_pics_flag h), Flag (long_term_reference_flag h)] else [Flag False]
      else [])"

definition deblocking_part :: "AVCPicParamSet \<Rightarrow> AVCSliceHeader \<Rightarrow> syntax_element list" where
  "deblocking_part pps h =
     (if deblocking_filter_control_present_flag pps then
        UW (disable_deblocking_filter_idc h)
        # (if disable_deblocking_filter_idc h \<noteq> 1 then [SE (slice_alpha_c0_offset_div2 h), SE (slice_beta_offset_div_2 h)] else [])
      else [])"

definition idr_part :: "AVCSliceHeader \<Rightarrow> AVCCommonObj \<Rightarrow> syntax_element list" where
  "idr_part h v = (if nal_is_IDR v then [UW (idr_pic_id h)] else [])"

definition slice_elems ::
  "AVCPicParamSet \<Rightarrow> AVCSeqParamSet \<Rightarrow> AVCSliceHeader \<Rightarrow> AVCCommonObj \<Rightarrow> syntax_element list" where
  "slice_elems pps sps h v =
     UW (first_mb_in_slice h) # UI (written_type h v) # UW (sh_pic_parameter_set_id h)
     # U (bits_of (log2_max_frame_num_minus4 sps)) (word_of_int (frame_num h))
     # idr_part h v @ order_part pps sps h @ redundant_part pps h @ ref_idx_part h (slice_type v)
     @ lists_part (slice_type v) @ marking_part h v @ SE (slice_qp_delta h) # deblocking_part pps h"

text \<open>The headers the theorem is about.\<close>

definition se_range :: "int \<Rightarrow> bool" where
  "se_range x \<longleftrightarrow> \<bar>x\<bar> < 32768"

definition sets_ok :: "AVCPicParamSet \<Rightarrow> AVCSeqParamSet \<Rightarrow> bool" where
  "sets_ok pps sps \<longleftrightarrow> 0 \<le> log2_max_frame_num_minus4 sps \<and> log2_max_frame_num_minus4 sps \<le> 12
     \<and> (pic_order_cnt_type sps = 0 \<longrightarrow> 0 \<le> log2_max_pic_order_cnt_lsb_minus4 sps \<and> log2_max_pic_order_cnt_lsb_minus4 sps \<le> 12)
     \<and> frame_mbs_only_flag sps \<and> \<not> entropy_coding_mode_flag pps \<and> \<not> weighted_pred_flag pps
     \<and> pps_num_ref_idx_l0_active_minus1 pps \<le> 15 \<and> pps_num_ref_idx_l1_active_minus1 pps \<le> 15
     \<and> \<not> (num_slice_groups_minus1 pps > 0 \<and> slice_group_map_type pps \<ge> 3 \<and> slice_group_map_type pps \<le> 5)"

definition slice_ok :: "AVCPicParamSet \<Rightarrow> AVCSeqParamSet \<Rightarrow> AVCSliceHeader \<Rightarrow> AVCCommonObj \<Rightarrow> bool" where
  "slice_ok pps sps h v \<longleftrightarrow> (slice_type v = AVC_P_SLICE \<or> slice_type v = AVC_I_SLICE)
     \<and> (sh_slice_type h = slice_type v \<or> sh_slice_type h = slice_type v + 5)
     \<and> unat (first_mb_in_slice h) < 65535 \<and> sh_pic_parameter_set_id h \<le> 255
     \<and> 0 \<le> frame_num h \<and> frame_num h < 2 ^ bits_of (log2_max_frame_num_minus4 sps)
     \<and> (nal_is_IDR v \<longrightarrow> frame_num h = 0 \<and> unat (idr_pic_id h) < 65535) \<and> \<not> field_pic_flag h
     \<and> (pic_order_cnt_type sps = 0 \<longrightarrow> unat (pic_order_cnt_lsb h) < 2 ^ bits_of (log2_max_pic_order_cnt_lsb_minus4 sps)
          \<and> se_range (delta_pic_order_cnt_bottom h))
     \<and> length (delta_pic_order_cnt h) = 2 \<and> se_range (delta_pic_order_cnt h ! 0) \<and> se_range (delta_pic_order_cnt h ! 1)
     \<and> redundant_pic_cnt h = 0 \<and> num_ref_idx_l0_active_minus1 h \<le> 15
     \<and> \<not> ref_pic_list_reordering_flag_l0 h \<and> \<not> adaptive_ref_pic_marking_mode_flag h
     \<and> se_range (slice_qp_delta h) \<and> disable_deblocking_filter_idc h \<le> 2
     \<and> - 6 \<le> slice_alpha_c0_offset_div2 h \<and> slice_alpha_c0_offset_div2 h \<le> 6
     \<and> - 6 \<le> slice_beta_offset_div_2 h \<and> slice_beta_offset_div_2 h \<le> 6"

section \<open>Writing\<close>

lemma writes_and_then:
  assumes "writes p AVCENC_SUCCESS as" and "writes q AVCENC_SUCCESS bs"
  shows "writes (and_then p q) AVCENC_SUCCESS (as @ bs)"
  unfolding and_then_def by (rule writes_bind [OF assms(1)]) (simp add: assms(2))

lemma writes_opt_status:
  assumes "b \<Longrightarrow> writes w AVCENC_SUCCESS as"
  shows "writes (\<lambda>s. if b then w s else Some (AVCENC_SUCCESS, s)) AVCENC_SUCCESS (if b then as else [])"
  by (rule writes_if) (rule assms)

lemma writes_skip: "\<not> b \<Longrightarrow> writes q ok es \<Longrightarrow> writes (\<lambda>s. if b then p s else q s) ok es"
  by simp

lemma slice_ok_types:
  assumes "slice_ok pps sps h v"
  shows "slice_type v \<in> {0, 2}" "written_type h v \<in> {0, 2, 5, 7}"
proof -
  show t: "slice_type v \<in> {0, 2}" using assms unfolding slice_ok_def AVC_P_SLICE_def AVC_I_SLICE_def by blast
  have "sh_slice_type h = slice_type v \<or> sh_slice_type h = slice_type v + 5" using assms unfolding slice_ok_def by blast
  with t show "written_type h v \<in> {0, 2, 5, 7}" by (auto simp: written_type_def)
qed

lemma bits_of_range:
  assumes "0 \<le> x" "x \<le> 12"
  shows "x + 4 = int (bits_of x)" "1 \<le> bits_of x" "bits_of x \<le> 31" "bits_of x \<le> 16" "nat (x + 4) = bits_of x"
  using assms unfolding bits_of_def by linarith+

lemma sets_ok_log2:
  assumes "sets_ok pps sps"
  shows "0 \<le> log2_max_frame_num_minus4 sps" "log2_max_frame_num_minus4 sps \<le> 12"
    "pic_order_cnt_type sps = 0 \<Longrightarrow> 0 \<le> log2_max_pic_order_cnt_lsb_minus4 sps"
    "pic_order_cnt_type sps = 0 \<Longrightarrow> log2_max_pic_order_cnt_lsb_minus4 sps \<le> 12"
  using assms unfolding sets_ok_def by blast+

lemmas bits_of_frame_num = bits_of_range [OF sets_ok_log2(1,2)]
lemmas bits_of_lsb = bits_of_range [OF sets_ok_log2(3,4)]

lemma writes_slice_start:
  assumes ok: "slice_ok pps sps h v" "sets_ok pps sps"
  shows "writes (put_slice_start malloc sps h v) AVCENC_SUCCESS
    [UW (first_mb_in_slice h), UI (written_type h v), UW (sh_pic_parameter_set_id h),
     U (bits_of (log2_max_frame_num_minus4 sps)) (word_of_int (frame_num h))]"
  unfolding put_slice_start_def written_type_def [symmetric]
proof (intro writes_intros)
  show "unat (word_of_int (written_type h v) :: uint) < 65535" using slice_ok_types(2) [OF ok(1)] by auto
  show "unat (sh_pic_parameter_set_id h) < 65535" using ok(1) by (simp add: slice_ok_def word_le_nat_alt)
  have n: "bits_of (log2_max_frame_num_minus4 sps) \<le> 16" by (rule bits_of_frame_num [OF ok(2,2)])
  have "frame_num h < 2 ^ bits_of (log2_max_frame_num_minus4 sps)" "0 \<le> frame_num h" using ok(1) by (simp_all add: slice_ok_def)
  moreover have "(2 :: int) ^ bits_of (log2_max_frame_num_minus4 sps) \<le> 2 ^ 16" using n by (intro power_increasing) simp_all
  ultimately have "unat (word_of_int (frame_num h) :: uint) = nat (frame_num h)" "nat (frame_num h) < 2 ^ bits_of (log2_max_frame_num_minus4 sps)"
    by (simp_all add: unat_word_small nat_less_iff)
  then show "unat (word_of_int (frame_num h) :: uint) < 2 ^ bits_of (log2_max_frame_num_minus4 sps)" by simp
qed (use ok(1) bits_of_frame_num(1-3) [OF ok(2,2)] in \<open>simp_all add: slice_ok_def\<close>)

lemma se_rangeD: "se_range x \<Longrightarrow> \<bar>x\<bar> < 32768"
  by (simp add: se_range_def)

lemma six_range: "- 6 \<le> x \<Longrightarrow> x \<le> 6 \<Longrightarrow> \<bar>x\<bar> < (32768 :: int)"
  by linarith

lemma slice_ok_ranges:
  assumes "slice_ok pps sps h v"
  shows "unat (redundant_pic_cnt h) < 65535" "unat (num_ref_idx_l0_active_minus1 h) < 65535"
    "unat (disable_deblocking_filter_idc h) < 65535" "\<bar>slice_qp_delta h\<bar> < 32768"
    "\<bar>slice_alpha_c0_offset_div2 h\<bar> < 32768" "\<bar>slice_beta_offset_div_2 h\<bar> < 32768"
    "\<bar>delta_pic_order_cnt h ! 0\<bar> < 32768" "\<bar>delta_pic_order_cnt h ! 1\<bar> < 32768"
    "nal_is_IDR v \<Longrightarrow> unat (idr_pic_id h) < 65535" "\<not> field_pic_flag h"
    "pic_order_cnt_type sps = 0 \<Longrightarrow> \<bar>delta_pic_order_cnt_bottom h\<bar> < 32768"
    "pic_order_cnt_type sps = 0 \<Longrightarrow> unat (pic_order_cnt_lsb h) < 2 ^ bits_of (log2_max_pic_order_cnt_lsb_minus4 sps)"
    "length (delta_pic_order_cnt h) = 2" "\<not> ref_pic_list_reordering_flag_l0 h" "\<not> adaptive_ref_pic_marking_mode_flag h"
proof -
  have "num_ref_idx_l0_active_minus1 h \<le> 15" "disable_deblocking_filter_idc h \<le> 2" using assms by (simp_all add: slice_ok_def)
  then show "unat (num_ref_idx_l0_active_minus1 h) < 65535" "unat (disable_deblocking_filter_idc h) < 65535"
    by (simp_all add: word_le_nat_alt)
  show "\<bar>slice_alpha_c0_offset_div2 h\<bar> < 32768" "\<bar>slice_beta_offset_div_2 h\<bar> < 32768"
    by (rule six_range; use assms in \<open>simp add: slice_ok_def\<close>)+
qed (use assms in \<open>simp_all add: slice_ok_def se_rangeD\<close>)

lemma writes_slice_order:
  assumes ok: "slice_ok pps sps h v" "sets_ok pps sps"
  shows "writes (put_slice_order malloc pps sps h AVCENC_SUCCESS) AVCENC_SUCCESS (order_part pps sps h)"
proof -
  note r = slice_ok_ranges [OF ok(1)]
  have d: "nth_opt (delta_pic_order_cnt h) 0 = Some (delta_pic_order_cnt h ! 0)"
    "nth_opt (delta_pic_order_cnt h) 1 = Some (delta_pic_order_cnt h ! 1)" using r(13) by simp_all
  consider "pic_order_cnt_type sps = 0" | "pic_order_cnt_type sps \<noteq> 0" "pic_order_cnt_type sps = 1 \<and> \<not> delta_pic_order_always_zero_flag sps"
    | "pic_order_cnt_type sps \<noteq> 0" "\<not> (pic_order_cnt_type sps = 1 \<and> \<not> delta_pic_order_always_zero_flag sps)" by blast
  then show ?thesis
  proof cases
    case 1
    then show ?thesis unfolding put_slice_order_def order_part_def
      by (cases "pic_order_present_flag pps"; simp add: r(10); intro writes_intros r(11,12) bits_of_lsb [OF ok(2) _ ok(2)])
  next
    case 2
    then show ?thesis unfolding put_slice_order_def order_part_def d
      by (cases "pic_order_present_flag pps"; simp add: r(10) del: One_nat_def; intro writes_intros r(7,8))
  next
    case 3
    then show ?thesis unfolding put_slice_order_def order_part_def by (auto simp: writes_return)
  qed
qed

lemma writes_slice_ids:
  assumes ok: "slice_ok pps sps h v" "sets_ok pps sps"
  shows "writes (put_slice_ids malloc pps sps h v) AVCENC_SUCCESS (idr_part h v @ order_part pps sps h @ redundant_part pps h @ [])"
  unfolding put_slice_ids_def put_slice_redundant_def idr_part_def redundant_part_def
  by (intro writes_bind [OF writes_opt_status] writes_bind [OF writes_slice_order [OF ok]] writes_intros)
    (use slice_ok_ranges [OF ok(1)] slice_ok_types(1) [OF ok(1)] in \<open>auto simp: writes_return AVC_B_SLICE_def\<close>)

lemma writes_slice_ref_idx:
  assumes ok: "slice_ok pps sps h v"
  shows "writes (put_slice_ref_idx malloc h (slice_type v)) AVCENC_SUCCESS (ref_idx_part h (slice_type v))"
proof (cases "slice_type v = AVC_P_SLICE")
  case True
  then have eq: "put_slice_ref_idx malloc h (slice_type v) =
      (\<lambda>s. do { (st, s1) \<leftarrow> BitstreamWrite1Bit malloc s (of_bool (num_ref_idx_active_override_flag h));
        if num_ref_idx_active_override_flag h then enc_ue_v malloc s1 (num_ref_idx_l0_active_minus1 h) else Some (st, s1) })"
    by (simp add: fun_eq_iff put_slice_ref_idx_def AVC_P_SLICE_def AVC_B_SLICE_def)
  show ?thesis unfolding ref_idx_part_def eq if_P [OF True] by (intro writes_intros writes_opt_status slice_ok_ranges(2) [OF ok])
next
  case False
  then have "slice_type v = 2" using slice_ok_types(1) [OF ok] by (simp add: AVC_P_SLICE_def)
  then show ?thesis unfolding put_slice_ref_idx_def
    by (simp add: ref_idx_part_def AVC_P_SLICE_def AVC_B_SLICE_def AVC_SP_SLICE_def writes_return)
qed

lemma writes_slice_lists:
  assumes ok: "slice_ok pps sps h v"
  shows "writes (put_ref_pic_list_reordering malloc (slice_type v) h) AVCENC_SUCCESS (lists_part (slice_type v))"
proof -
  note r = slice_ok_ranges(14) [OF ok]
  have "writes (put_ref_list malloc False ops ds ls n) AVCENC_SUCCESS [Flag False]" for ops ds ls n
    unfolding put_ref_list_def using writes_elems(4) [of "\<lambda>st s. Some (st, s)" AVCENC_SUCCESS "[]" malloc False]
    by (simp add: writes_return)
  then show ?thesis using slice_ok_types(1) [OF ok] r unfolding put_ref_pic_list_reordering_def
    by (auto simp: lists_part_def AVC_P_SLICE_def AVC_I_SLICE_def AVC_SI_SLICE_def
        AVC_B_SLICE_def writes_return)
qed

lemma writes_slice_quant:
  assumes ok: "slice_ok pps sps h v"
  shows "writes (put_slice_quant malloc h (slice_type v)) AVCENC_SUCCESS [SE (slice_qp_delta h)]"
proof -
  have "\<not> (slice_type v = AVC_SP_SLICE \<or> slice_type v = AVC_SI_SLICE)"
    using slice_ok_types(1) [OF ok] by (auto simp: AVC_SP_SLICE_def AVC_SI_SLICE_def)
  then show ?thesis unfolding put_slice_quant_def
    by (intro writes_intros writes_skip writes_return slice_ok_ranges(4) [OF ok])
qed

lemma writes_slice_deblocking:
  assumes ok: "slice_ok pps sps h v"
  shows "writes (put_slice_deblocking malloc pps h) AVCENC_SUCCESS (deblocking_part pps h)"
  unfolding put_slice_deblocking_def deblocking_part_def
  by (intro writes_opt_status writes_intros slice_ok_ranges [OF ok])

text \<open>The marking: what the encoder's common object becomes.\<close>

definition marked :: "AVCSliceHeader \<Rightarrow> AVCCommonObj \<Rightarrow> AVCCommonObj" where
  "marked h v =
     (if nal_ref_idc v \<noteq> 0 \<and> nal_is_IDR v then
        if long_term_reference_flag h then v\<lparr>MaxLongTermFrameIdx := 0, vid_LongTermFrameIdx := 0\<rparr>
        else v\<lparr>MaxLongTermFrameIdx := - 1\<rparr>
      else v)"

lemma writes_marking:
  assumes ok: "slice_ok pps sps h v"
  shows "writes (\<lambda>s. if nal_ref_idc v \<noteq> 0 then put_ref_pic_marking malloc h v s else Some ((AVCENC_SUCCESS, v), s))
    (AVCENC_SUCCESS, marked h v) (marking_part h v)"
proof (cases "nal_ref_idc v \<noteq> 0")
  case True
  show ?thesis
  proof (cases "nal_is_IDR v")
    case idr: True
    have "writes (put_ref_pic_marking malloc h v) (AVCENC_SUCCESS, marked h v)
        (Flag (no_output_of_prior_pics_flag h) # Flag (long_term_reference_flag h) # [])"
      unfolding put_ref_pic_marking_def if_P [OF idr]
      by (intro writes_intros) (use True idr in \<open>simp add: marked_def writes_return\<close>)
    then show ?thesis using True idr by (simp add: marking_part_def)
  next
    case idr: False
    have f: "adaptive_ref_pic_marking_mode_flag h = False" using slice_ok_ranges(15) [OF ok] by simp
    have "writes (put_ref_pic_marking malloc h v) (AVCENC_SUCCESS, marked h v) [Flag False]"
      unfolding put_ref_pic_marking_def if_not_P [OF idr] f
      by (intro writes_intros) (use idr in \<open>simp add: marked_def writes_return\<close>)
    then show ?thesis using True idr by (simp add: marking_part_def)
  qed
qed (simp add: marking_part_def marked_def writes_return)

lemma writes_before_marking:
  assumes ok: "slice_ok pps sps h v" "sets_ok pps sps"
  shows "writes (put_before_marking malloc pps sps h v) AVCENC_SUCCESS
    ([UW (first_mb_in_slice h), UI (written_type h v), UW (sh_pic_parameter_set_id h),
      U (bits_of (log2_max_frame_num_minus4 sps)) (word_of_int (frame_num h))]
     @ (idr_part h v @ order_part pps sps h @ redundant_part pps h @ [])
     @ ref_idx_part h (slice_type v) @ lists_part (slice_type v) @ [])"
proof -
  have w: "\<not> (weighted_pred_flag pps \<and> (slice_type v = AVC_P_SLICE \<or> slice_type v = AVC_SP_SLICE)
      \<or> weighted_bipred_idc pps = 1 \<and> slice_type v = AVC_B_SLICE)"
    using ok(2) slice_ok_types(1) [OF ok(1)] unfolding sets_ok_def by (auto simp: AVC_B_SLICE_def)
  show ?thesis unfolding put_before_marking_def Let_def if_not_P [OF w]
    by (intro writes_and_then writes_slice_start [OF ok] writes_slice_ids [OF ok] writes_slice_ref_idx [OF ok(1)]
        writes_slice_lists [OF ok(1)] writes_return)
qed

lemma writes_after_marking:
  assumes ok: "slice_ok pps sps h v" "sets_ok pps sps"
  shows "writes (put_after_marking malloc pps h (marked h v)) AVCENC_SUCCESS
    ([SE (slice_qp_delta h)] @ deblocking_part pps h @ [])"
proof -
  have c: "\<not> (entropy_coding_mode_flag pps \<and> slice_type v \<noteq> AVC_I_SLICE \<and> slice_type v \<noteq> AVC_SI_SLICE)"
    using ok(2) unfolding sets_ok_def by blast
  have g: "\<not> (num_slice_groups_minus1 pps > 0 \<and> slice_group_map_type pps \<ge> 3 \<and> slice_group_map_type pps \<le> 5)"
    using ok(2) unfolding sets_ok_def by blast
  have "writes (put_slice_group_cycle malloc pps h (marked h v)) AVCENC_SUCCESS []"
    unfolding put_slice_group_cycle_def if_not_P [OF g] by (rule writes_return)
  moreover have "slice_type (marked h v) = slice_type v" by (simp add: marked_def)
  ultimately show ?thesis unfolding put_after_marking_def Let_def
    by (simp only: if_not_P [OF c]) (intro writes_and_then writes_slice_quant [OF ok(1)] writes_slice_deblocking [OF ok(1)])
qed

lemma writes_slice:
  assumes ok: "slice_ok pps sps h v" "sets_ok pps sps"
  shows "writes (\<lambda>s. do { (st, s1) \<leftarrow> put_before_marking malloc pps sps h v s;
      if st \<noteq> AVCENC_SUCCESS then Some ((st, v), s1)
      else do { ((st, v1), s2) \<leftarrow> (if nal_ref_idc v \<noteq> 0 then put_ref_pic_marking malloc h v s1 else Some ((AVCENC_SUCCESS, v), s1));
                if st \<noteq> AVCENC_SUCCESS then Some ((st, v1), s2)
                else do { (st, s3) \<leftarrow> put_after_marking malloc pps h v1 s2; Some ((st, v1), s3) } } })
    (AVCENC_SUCCESS, marked h v) (slice_elems pps sps h v)"
proof -
  have eq: "slice_elems pps sps h v =
    ([UW (first_mb_in_slice h), UI (written_type h v), UW (sh_pic_parameter_set_id h),
      U (bits_of (log2_max_frame_num_minus4 sps)) (word_of_int (frame_num h))]
     @ (idr_part h v @ order_part pps sps h @ redundant_part pps h @ [])
     @ ref_idx_part h (slice_type v) @ lists_part (slice_type v) @ [])
    @ marking_part h v @ ([SE (slice_qp_delta h)] @ deblocking_part pps h @ []) @ []"
    by (simp add: slice_elems_def)
  show ?thesis unfolding eq
    by (rule writes_bind [OF writes_before_marking [OF ok]], simp only: simp_thms if_False,
        rule writes_bind [OF writes_marking [OF ok(1)]], simp only: simp_thms if_False prod.case,
        rule writes_bind [OF writes_after_marking [OF ok]], rule writes_return)
qed

lemma EncodeSliceHeader_writes:
  assumes ok: "slice_ok pps sps h v" "sets_ok pps sps"
    and s: "enc_inv s" "length (unit_bits (slice_elems pps sps h v)) \<le> enc_room s"
  obtains n1 s1 where "EncodeSliceHeader malloc pps sps h v n s = Some ((AVCENC_SUCCESS, marked h v, n1), s1)"
    "enc_inv s1" "enc_bits s1 = enc_bits s @ unit_bits (slice_elems pps sps h v)"
proof -
  let ?w = "\<lambda>s. do { (st, s1) \<leftarrow> put_before_marking malloc pps sps h v s;
      if st \<noteq> AVCENC_SUCCESS then Some ((st, v), s1)
      else do { ((st, v1), s2) \<leftarrow> (if nal_ref_idc v \<noteq> 0 then put_ref_pic_marking malloc h v s1 else Some ((AVCENC_SUCCESS, v), s1));
                if st \<noteq> AVCENC_SUCCESS then Some ((st, v1), s2)
                else do { (st, s3) \<leftarrow> put_after_marking malloc pps h v1 s2; Some ((st, v1), s3) } } }"
  obtain s1 where s1: "?w s = Some ((AVCENC_SUCCESS, marked h v), s1)" "enc_inv s1"
      "enc_bits s1 = enc_bits s @ unit_bits (slice_elems pps sps h v)"
    using writes_slice [OF ok, of malloc] s unfolding writes_def by (auto elim!: emitsE)
  have "\<exists>n1. EncodeSliceHeader malloc pps sps h v n s = Some ((AVCENC_SUCCESS, marked h v, n1), s1)"
    using s1(1) by (auto simp: EncodeSliceHeader_def bind_eq_Some_conv split: if_split_asm)
  then show thesis using that s1(2,3) by blast
qed

text \<open>The two sides never agree on the length of \<open>slice_group_change_cycle\<close>.\<close>

lemma count_bits_mono: "m \<le> n \<Longrightarrow> count_bits m \<le> count_bits n"
proof (induction m arbitrary: n rule: count_bits.induct)
  case (1 m)
  show ?case
  proof (cases "m > 0")
    case True
    then have "count_bits (m div 2) \<le> count_bits (n div 2)" using 1 by (simp add: div_le_mono)
    then show ?thesis using True 1(2) by (simp add: count_bits.simps [of m] count_bits.simps [of n])
  qed (simp add: count_bits.simps)
qed

lemma cycle_bits_differ:
  assumes "0 < PicSizeInMapUnits v" "0 < SliceGroupChangeRate v"
  shows "enc_cycle_bits v < cycle_bits v"
proof -
  let ?c = "ceil_quotient (PicSizeInMapUnits v) (SliceGroupChangeRate v)"
  have "0 \<le> PicSizeInMapUnits v div SliceGroupChangeRate v" using assms by (simp add: pos_imp_zdiv_nonneg_iff)
  moreover have "PicSizeInMapUnits v div SliceGroupChangeRate v \<noteq> 0 \<or> PicSizeInMapUnits v mod SliceGroupChangeRate v \<noteq> 0"
    using assms by (metis add.right_neutral div_mult_mod_eq less_irrefl mult_zero_left)
  ultimately have c: "0 < ?c" by (auto simp: ceil_quotient_def Let_def)
  then have "0 < count_bits (nat ?c)" by (subst count_bits.simps) simp
  moreover have "count_bits (nat ?c) \<le> count_bits (nat (?c + 1))" by (rule count_bits_mono) simp
  moreover have "enc_cycle_bits v = count_bits (nat ?c) - 1" by (simp add: enc_cycle_bits_def ceil_quotient_def Let_def)
  ultimately show ?thesis by (simp add: cycle_bits_def)
qed

section \<open>Reading\<close>

lemma reads_slice_first:
  assumes ok: "slice_ok pps sps h v"
    and ty: "first_mb_in_slice h \<noteq> 0 \<Longrightarrow> sh_slice_type g \<ge> 5 \<Longrightarrow> written_type h v = sh_slice_type g - 5"
  shows "reads (slice_first (g, w)) [UW (first_mb_in_slice h), UI (written_type h v), UW (sh_pic_parameter_set_id h)]
    (\<lambda>x. x = (AVCDEC_SUCCESS, g\<lparr>first_mb_in_slice := first_mb_in_slice h, sh_slice_type := written_type h v,
        sh_pic_parameter_set_id := sh_pic_parameter_set_id h\<rparr>, w\<lparr>slice_type := slice_type v\<rparr>))"
proof -
  let ?u = "word_of_int (written_type h v) :: uint"
  have t: "written_type h v \<in> {0, 2, 5, 7}" "slice_type v \<in> {0, 2}" using slice_ok_types [OF ok] by blast+
  have u: "c_int (uint ?u) = written_type h v" "unat ?u < 65535" using t(1) by auto
  have "sh_slice_type h = slice_type v \<or> sh_slice_type h = slice_type v + 5" using ok unfolding slice_ok_def by blast
  then have k: "(if written_type h v > 4 then written_type h v - 5 else written_type h v) = slice_type v"
    using t(2) by (auto simp: written_type_def)
  have c: "\<not> (first_mb_in_slice h \<noteq> 0 \<and> sh_slice_type g \<ge> 5 \<and> written_type h v \<noteq> sh_slice_type g - 5)" using ty by blast
  have b: "\<not> (slice_type v = 1 \<or> slice_type v > 2)" using t(2) by auto
  have pid: "unat (sh_pic_parameter_set_id h) < 65535" "\<not> sh_pic_parameter_set_id h > 255" "unat (first_mb_in_slice h) < 65535"
    using ok unfolding slice_ok_def by (simp_all add: word_le_nat_alt not_less)
  show ?thesis unfolding slice_first_def Let_def prod.case
    by (rule reads_UE [OF pid(3)], rule reads_UE [OF u(2)], unfold u(1) k, rule reads_pass [OF c], rule reads_pass [OF b],
        rule reads_UE [OF pid(1)], rule reads_return) (simp add: pid(2))
qed

definition numbered :: "AVCSliceHeader \<Rightarrow> AVCCommonObj \<Rightarrow> AVCCommonObj" where
  "numbered h w =
     (if \<not> currFS w < num_fs w \<and> frame_num h \<noteq> 0 then w\<lparr>prevFrameNum := frame_num h - 1, PrevRefFrameNum := frame_num h - 1\<rparr> else w)
       \<lparr>PicHeightInMbs := FrameHeightInMbs w, PicHeightInSamplesL := c_uint (FrameHeightInMbs w * 16),
         PicHeightInSamplesC := c_uint (FrameHeightInMbs w * 8), PicSizeInMbs := c_uint (PicWidthInMbs w * FrameHeightInMbs w),
         MaxPicNum := MaxFrameNum w, CurrPicNum := frame_num h\<rparr>"

lemma numbered_fields:
  "fs (numbered h w) = fs w" "num_fs (numbered h w) = num_fs w" "slice_type (numbered h w) = slice_type w"
  "CurrPicNum (numbered h w) = frame_num h" "nal_is_IDR (numbered h w) = nal_is_IDR w" "nal_ref_idc (numbered h w) = nal_ref_idc w"
  by (simp_all add: numbered_def)

lemma reads_slice_numbers:
  assumes ok: "slice_ok pps sps h v" "sets_ok pps sps"
    and g: "first_mb_in_slice g = first_mb_in_slice h" "nal_is_IDR w = nal_is_IDR v"
    and room: "uint (first_mb_in_slice h) < c_uint (PicWidthInMbs w * FrameHeightInMbs w)"
  shows "reads (slice_numbers sps (g, w)) (U (bits_of (log2_max_frame_num_minus4 sps)) (word_of_int (frame_num h)) # idr_part h v)
    (\<lambda>(st, hv). st = AVCDEC_SUCCESS \<and> hv = (g\<lparr>frame_num := frame_num h\<rparr>,
       numbered h w))"
proof -
  let ?u = "word_of_int (frame_num h) :: uint"
  have f: "0 \<le> frame_num h" "frame_num h < 2 ^ bits_of (log2_max_frame_num_minus4 sps)" using ok(1) unfolding slice_ok_def by blast+
  note n = bits_of_frame_num [OF ok(2) ok(2)]
  have "(2 :: int) ^ bits_of (log2_max_frame_num_minus4 sps) \<le> 2 ^ 16" using n(4) by (intro power_increasing) simp_all
  then have small: "frame_num h < 4294967296" using f(2) by simp
  then have u: "uint ?u = frame_num h" "unat ?u = nat (frame_num h)" using f(1) by (simp_all add: uint_word_small unat_word_small)
  have u0: "?u \<noteq> 0 \<longleftrightarrow> frame_num h \<noteq> 0" using u(1) by (metis uint_0_eq unsigned_eq_0_iff)
  have ub: "unat ?u < 2 ^ bits_of (log2_max_frame_num_minus4 sps)" unfolding u(2) using f by (simp add: nat_less_iff)
  have only: "frame_mbs_only_flag sps" using ok(2) unfolding sets_ok_def by blast
  have idr: "nal_is_IDR v \<Longrightarrow> frame_num h = 0" "nal_is_IDR v \<Longrightarrow> unat (idr_pic_id h) < 65535"
    using ok(1) unfolding slice_ok_def by blast+
  show ?thesis
  proof (cases "nal_is_IDR v")
    case True
    show ?thesis unfolding slice_numbers_def Let_def prod.case
      by (rule reads_U [OF n(1-3) ub], unfold u(1) u0 if_P [OF only])
        (use room True idr in \<open>simp add: g idr_part_def numbered_def; intro reads_UE reads_return; simp\<close>)
  next
    case False
    show ?thesis unfolding slice_numbers_def Let_def prod.case
      by (rule reads_U [OF n(1-3) ub], unfold u(1) u0 if_P [OF only])
        (use room False in \<open>auto simp: g idr_part_def numbered_def intro!: reads_return\<close>)
  qed
qed

definition lsb_range :: "AVCSeqParamSet \<Rightarrow> AVCCommonObj \<Rightarrow> AVCCommonObj" where
  "lsb_range sps w = (if pic_order_cnt_type sps = 0
     then w\<lparr>MaxPicOrderCntLsb := 2 ^ bits_of (log2_max_pic_order_cnt_lsb_minus4 sps)\<rparr> else w)"

lemma lsb_range_fields:
  "fs (lsb_range sps w) = fs w" "num_fs (lsb_range sps w) = num_fs w" "slice_type (lsb_range sps w) = slice_type w"
  "CurrPicNum (lsb_range sps w) = CurrPicNum w" "nal_is_IDR (lsb_range sps w) = nal_is_IDR w"
  "nal_ref_idc (lsb_range sps w) = nal_ref_idc w"
  by (simp_all add: lsb_range_def)

lemma reads_slice_order:
  assumes ok: "slice_ok pps sps h v" "sets_ok pps sps"
  shows "reads (slice_order pps sps (g, w)) (order_part pps sps h)
    (\<lambda>(st, hv). st = AVCDEC_SUCCESS \<and> hv =
      (g\<lparr>delta_pic_order_cnt_bottom :=
           (if pic_order_cnt_type sps = 0 \<and> pic_order_present_flag pps then delta_pic_order_cnt_bottom h else 0),
         delta_pic_order_cnt :=
           (if pic_order_cnt_type sps = 1 \<and> \<not> delta_pic_order_always_zero_flag sps
            then [delta_pic_order_cnt h ! 0, if pic_order_present_flag pps then delta_pic_order_cnt h ! 1 else 0] else [0, 0]),
         pic_order_cnt_lsb := (if pic_order_cnt_type sps = 0 then pic_order_cnt_lsb h else pic_order_cnt_lsb g)\<rparr>,
       lsb_range sps w))"
proof -
  note r = slice_ok_ranges [OF ok(1)]
  consider "pic_order_cnt_type sps = 0" | "pic_order_cnt_type sps = 1" "\<not> delta_pic_order_always_zero_flag sps"
    | "pic_order_cnt_type sps \<noteq> 0" "\<not> (pic_order_cnt_type sps = 1 \<and> \<not> delta_pic_order_always_zero_flag sps)" by blast
  then show ?thesis
  proof cases
    case 1
    define b where "b = bits_of (log2_max_pic_order_cnt_lsb_minus4 sps)"
    note n = bits_of_lsb [OF ok(2) 1 ok(2) 1, folded b_def]
    have lsb: "unat (pic_order_cnt_lsb h) < 2 ^ b" unfolding b_def by (rule r(12) [OF 1])
    have "(2 :: int) ^ b \<le> 2 ^ 16" using n(4) by (intro power_increasing) simp_all
    then have small: "0 \<le> (2 :: int) ^ b" "(2 :: int) ^ b < 4294967296" by simp_all
    have p: "push_bit b 1 = (word_of_int (2 ^ b) :: uint)" by (simp add: push_bit_eq_mult)
    have pw: "uint (push_bit b 1 :: uint) = 2 ^ b" "unat (push_bit b 1 :: uint) = 2 ^ b"
      unfolding p uint_word_small [OF small] unat_word_small [OF small] by (simp_all add: nat_power_eq)
    have pw2: "uint (2 ^ b :: uint) = 2 ^ b" using pw(1) by (simp add: push_bit_eq_mult)
    have "push_bit b 1 \<noteq> (0 :: uint)" using pw(2) by (metis power_not_zero unat_0 zero_neq_numeral)
    then have c: "\<not> pic_order_cnt_lsb h > push_bit b 1 - 1"
      using lsb pw(2) by (simp add: word_less_nat_alt unat_minus_one)
    have m: "shl32 1 (log2_max_pic_order_cnt_lsb_minus4 sps + 4) = Some (push_bit b 1)"
      unfolding n(1) using n(3) by simp
    show ?thesis
    proof (cases "pic_order_present_flag pps")
      case True
      show ?thesis unfolding slice_order_def order_part_def Let_def prod.case if_P [OF 1] if_P [OF True] b_def [symmetric]
        by (rule reads_U [OF n(1-3) lsb], intro reads_some [OF m] reads_pass [OF c] reads_SE32 r(11) 1)
          (simp add: lsb_range_def b_def [symmetric] 1 pw2 True reads_return)
    next
      case False
      show ?thesis unfolding slice_order_def order_part_def Let_def prod.case if_P [OF 1] if_not_P [OF False] b_def [symmetric]
        by (intro reads_U [OF n(1-3) lsb] reads_some [OF m] reads_pass [OF c]) (simp add: lsb_range_def b_def [symmetric] 1 pw2 False reads_return)
    qed
  next
    case 2
    then have c: "pic_order_cnt_type sps = 1 \<and> \<not> delta_pic_order_always_zero_flag sps" "\<not> pic_order_cnt_type sps = 0" by simp_all
    show ?thesis
    proof (cases "pic_order_present_flag pps")
      case True
      show ?thesis unfolding slice_order_def order_part_def Let_def prod.case if_P [OF c(1)] if_not_P [OF c(2)] if_P [OF True]
        by (intro reads_SE32 r(7,8) reads_return) (simp add: lsb_range_def 2 True)
    next
      case False
      show ?thesis unfolding slice_order_def order_part_def Let_def prod.case if_P [OF c(1)] if_not_P [OF c(2)] if_not_P [OF False]
        by (rule reads_SE32 [OF r(7)]) (simp add: lsb_range_def 2 False reads_return)
    qed
  next
    case 3
    then show ?thesis unfolding slice_order_def order_part_def by (auto simp: Let_def lsb_range_def intro!: reads_return)
  qed
qed

lemma reads_slice_redundant:
  assumes ok: "slice_ok pps sps h v"
  shows "reads (slice_redundant pps (g, w)) (redundant_part pps h)
    (\<lambda>(st, hv). st = AVCDEC_SUCCESS \<and> hv = (g\<lparr>redundant_pic_cnt := 0\<rparr>, w))"
proof -
  have z: "redundant_pic_cnt h = 0" using ok unfolding slice_ok_def by blast
  show ?thesis
  proof (cases "redundant_pic_cnt_present_flag pps")
    case True
    show ?thesis unfolding slice_redundant_def redundant_part_def prod.case Let_def if_P [OF True] z
      by (rule reads_UE) (simp_all add: reads_return)
  qed (simp add: slice_redundant_def [abs_def] redundant_part_def reads_return)
qed

lemma reads_slice_ref_idx:
  assumes ok: "slice_ok pps sps h v" "sets_ok pps sps" and w: "slice_type w = slice_type v"
  shows "reads (slice_ref_idx pps (g, w)) (ref_idx_part h (slice_type v))
    (\<lambda>(st, hv). st = AVCDEC_SUCCESS \<and> hv =
      (g\<lparr>num_ref_idx_l0_active_minus1 :=
           (if slice_type v = AVC_P_SLICE \<and> num_ref_idx_active_override_flag h then num_ref_idx_l0_active_minus1 h
            else pps_num_ref_idx_l0_active_minus1 pps),
         num_ref_idx_l1_active_minus1 := pps_num_ref_idx_l1_active_minus1 pps,
         num_ref_idx_active_override_flag :=
           (if slice_type v = AVC_P_SLICE then num_ref_idx_active_override_flag h else num_ref_idx_active_override_flag g)\<rparr>, w))"
proof -
  have n: "\<not> num_ref_idx_l0_active_minus1 h > 15" "\<not> pps_num_ref_idx_l0_active_minus1 pps > 15"
    "\<not> pps_num_ref_idx_l1_active_minus1 pps > 15"
    using ok unfolding slice_ok_def sets_ok_def not_less by blast+
  show ?thesis
  proof (cases "slice_type v = AVC_P_SLICE")
    case True
    note P = if_P [OF True]
    show ?thesis
    proof (cases "num_ref_idx_active_override_flag h")
      case flag: True
      show ?thesis unfolding slice_ref_idx_def ref_idx_part_def prod.case Let_def w P if_P [OF flag]
        by (rule reads_Flag) (simp add: n flag True, intro reads_UE slice_ok_ranges(2) [OF ok(1)] reads_return, simp add: n)
    next
      case flag: False
      then have f: "num_ref_idx_active_override_flag h = False" by simp
      show ?thesis unfolding slice_ref_idx_def ref_idx_part_def prod.case Let_def w P f
        by (rule reads_Flag) (simp add: n reads_return True)
    qed
  qed (simp add: slice_ref_idx_def [abs_def] ref_idx_part_def w n reads_return)
qed

lemma reads_slice_lists:
  assumes ok: "slice_ok pps sps h v" and w: "slice_type w = slice_type v"
  shows "reads (slice_lists (g, w)) (lists_part (slice_type v))
    (\<lambda>(st, hv). st = AVCDEC_SUCCESS \<and> hv =
      (if slice_type v = AVC_P_SLICE then g\<lparr>ref_pic_list_reordering_flag_l0 := False\<rparr> else g, w))"
proof (cases "slice_type v = AVC_P_SLICE")
  case True
  then have i: "slice_type v \<noteq> AVC_I_SLICE" by (simp add: AVC_P_SLICE_def AVC_I_SLICE_def)
  have eq: "slice_lists (g, w) s = do { (b, s1) \<leftarrow> BitstreamRead1Bit s;
      ((st, h1), s1) \<leftarrow> (if b \<noteq> 0 then ref_list_loop (unat (num_ref_idx_l0_active_minus1 g) + 1) (MaxPicNum w) 0
          (g\<lparr>ref_pic_list_reordering_flag_l0 := True\<rparr>) s1
        else Some ((AVCDEC_SUCCESS, g\<lparr>ref_pic_list_reordering_flag_l0 := False\<rparr>), s1));
      Some ((st, h1, w), s1) }" for s
    using i by (auto simp: slice_lists_def ref_pic_list_reordering_def w bind_eq_None_conv split: Option.bind_splits)
  have "reads (\<lambda>s. slice_lists (g, w) s) [Flag False]
      (\<lambda>(st, hv). st = AVCDEC_SUCCESS \<and> hv = (g\<lparr>ref_pic_list_reordering_flag_l0 := False\<rparr>, w))"
    unfolding eq by (rule reads_Flag) (simp add: reads_return)
  with True show ?thesis by (simp add: lists_part_def)
next
  case False
  then have "slice_type v = AVC_I_SLICE" using ok unfolding slice_ok_def by blast
  with False show ?thesis
    by (simp add: slice_lists_def [abs_def] ref_pic_list_reordering_def [abs_def] w lists_part_def reads_return)
qed

definition marked_header :: "AVCSliceHeader \<Rightarrow> AVCCommonObj \<Rightarrow> AVCSliceHeader \<Rightarrow> AVCSliceHeader" where
  "marked_header h v g =
     (if nal_ref_idc v \<noteq> 0 then
        if nal_is_IDR v then g\<lparr>no_output_of_prior_pics_flag := no_output_of_prior_pics_flag h,
          long_term_reference_flag := long_term_reference_flag h\<rparr>
        else g\<lparr>adaptive_ref_pic_marking_mode_flag := False\<rparr>
      else g)"

lemma reads_slice_marking:
  assumes ok: "slice_ok pps sps h v" and w: "nal_ref_idc w = nal_ref_idc v" "nal_is_IDR w = nal_is_IDR v"
  shows "reads (slice_marking (g, w)) (marking_part h v)
    (\<lambda>(st, hv). st = AVCDEC_SUCCESS \<and> hv = (marked_header h v g, marked h w))"
proof (cases "nal_ref_idc v = 0")
  case False
  show ?thesis
  proof (cases "nal_is_IDR v")
    case True
    have eq: "slice_marking (g, w) s = do { (no_output, s1) \<leftarrow> BitstreamRead1Bit s; (lt, s2) \<leftarrow> BitstreamRead1Bit s1;
        Some ((AVCDEC_SUCCESS, g\<lparr>no_output_of_prior_pics_flag := no_output \<noteq> 0, long_term_reference_flag := lt \<noteq> 0\<rparr>,
          if lt = 0 then w\<lparr>MaxLongTermFrameIdx := - 1\<rparr> else w\<lparr>MaxLongTermFrameIdx := 0, vid_LongTermFrameIdx := 0\<rparr>), s2) }" for s
      using False True w by (simp add: slice_marking_def dec_ref_pic_marking_def Let_def split: Option.bind_split)
    have "reads (\<lambda>s. slice_marking (g, w) s) [Flag (no_output_of_prior_pics_flag h), Flag (long_term_reference_flag h)]
        (\<lambda>(st, hv). st = AVCDEC_SUCCESS \<and> hv = (marked_header h v g, marked h w))"
      unfolding eq by (intro reads_Flag reads_return) (use False True w in \<open>simp add: marked_header_def marked_def\<close>)
    then show ?thesis using False True by (simp add: marking_part_def)
  next
    case idr: False
    have eq: "slice_marking (g, w) s = do { (adaptive, s1) \<leftarrow> BitstreamRead1Bit s;
        if adaptive = 0 then Some ((AVCDEC_SUCCESS, g\<lparr>adaptive_ref_pic_marking_mode_flag := False\<rparr>, w), s1)
        else do { ((st, h2), s2) \<leftarrow> marking_loop (MAX_DEC_REF_PIC_MARKING - 1) 0 (g\<lparr>adaptive_ref_pic_marking_mode_flag := True\<rparr>) s1;
                  Some ((AVCDEC_SUCCESS, h2, w), s2) } }" for s
      using False idr w by (auto simp: slice_marking_def dec_ref_pic_marking_def Let_def split: Option.bind_splits)
    have "reads (\<lambda>s. slice_marking (g, w) s) [Flag False]
        (\<lambda>(st, hv). st = AVCDEC_SUCCESS \<and> hv = (marked_header h v g, marked h w))"
      unfolding eq by (rule reads_Flag) (use False idr w in \<open>simp add: marked_header_def marked_def reads_return\<close>)
    then show ?thesis using False idr by (simp add: marking_part_def)
  qed
qed (simp add: slice_marking_def [abs_def] marking_part_def marked_header_def marked_def w reads_return)

text \<open>Quantiser: the two quantisers stay within their tables.\<close>

lemma clip_range: "a \<le> b \<Longrightarrow> a \<le> AVC_CLIP3 a b x" "a \<le> b \<Longrightarrow> AVC_CLIP3 a b x \<le> b"
  by (simp_all add: AVC_CLIP3_def AVC_MAX_def AVC_MIN_def)

definition quantised :: "AVCPicParamSet \<Rightarrow> int \<Rightarrow> AVCCommonObj \<Rightarrow> AVCCommonObj" where
  "quantised pps delta w =
     (let qp = AVC_CLIP3 0 51 (26 + pic_init_qp_minus26 pps + delta);
          qc = mapQPi2QPc ! nat (AVC_CLIP3 0 51 (qp + chroma_qp_index_offset pps))
      in w\<lparr>vid_QPy := qp, vid_QPc := qc, QPy_div_6 := qp div 6, QPy_mod_6 := qp mod 6, QPc_div_6 := qc div 6, QPc_mod_6 := qc mod 6\<rparr>)"

lemma div_6:
  assumes "0 \<le> x" "x \<le> (51 :: int)"
  shows "drop_bit 8 (x * 43) = x div 6" "x - 6 * (x div 6) = x mod 6"
proof -
  have "\<forall>x \<in> {0..51 :: int}. x * 43 div 256 = x div 6" by code_simp
  then show "drop_bit 8 (x * 43) = x div 6" using assms by (simp add: drop_bit_int_def)
qed (simp add: minus_mult_div_eq_mod)

lemma chroma_qp_range:
  assumes "0 \<le> i" "i \<le> 51"
  shows "nth_opt mapQPi2QPc i = Some (mapQPi2QPc ! nat i)" "0 \<le> mapQPi2QPc ! nat i" "mapQPi2QPc ! nat i \<le> 51"
proof -
  have l: "length mapQPi2QPc = 52" by (simp add: mapQPi2QPc_def)
  have "\<forall>q \<in> set mapQPi2QPc. 0 \<le> q \<and> q \<le> 51" by (simp add: mapQPi2QPc_def)
  moreover have "mapQPi2QPc ! nat i \<in> set mapQPi2QPc" using assms l by (intro nth_mem) simp
  ultimately show "0 \<le> mapQPi2QPc ! nat i" "mapQPi2QPc ! nat i \<le> 51" by blast+
  show "nth_opt mapQPi2QPc i = Some (mapQPi2QPc ! nat i)" using assms l by simp
qed

lemma set_quantisers_spec: "set_quantisers pps delta w = Some (quantised pps delta w)"
proof -
  have c: "(if x > 51 \<or> x < 0 then AVC_CLIP3 0 51 x else x) = AVC_CLIP3 0 51 x" for x
    by (simp add: AVC_CLIP3_def AVC_MAX_def AVC_MIN_def)
  have q: "0 \<le> AVC_CLIP3 0 51 x" "AVC_CLIP3 0 51 x \<le> 51" for x by (simp_all add: clip_range)
  show ?thesis unfolding set_quantisers_def quantised_def Let_def c chroma_qp_range(1) [OF q] bind.bind_lunit
    by (simp only: div_6 [OF q] div_6 [OF chroma_qp_range(2,3) [OF q]])
qed

lemma reads_slice_quant:
  assumes ok: "slice_ok pps sps h v"
  shows "reads (slice_quant pps (g, w)) [SE (slice_qp_delta h)]
    (\<lambda>(st, hv). st = AVCDEC_SUCCESS \<and> hv = (g\<lparr>slice_qp_delta := slice_qp_delta h\<rparr>, quantised pps (slice_qp_delta h) w))"
  unfolding slice_quant_def prod.case Let_def set_quantisers_spec bind.bind_lunit
  by (intro reads_SE slice_ok_ranges(4) [OF ok] reads_return) simp

lemma reads_slice_deblocking:
  assumes ok: "slice_ok pps sps h v"
  shows "reads (slice_deblocking pps (g, w)) (deblocking_part pps h)
    (\<lambda>(st, hv). st = AVCDEC_SUCCESS \<and> hv =
      (let on = deblocking_filter_control_present_flag pps;
           \<alpha> = (if on \<and> disable_deblocking_filter_idc h \<noteq> 1 then slice_alpha_c0_offset_div2 h else 0);
           \<beta> = (if on \<and> disable_deblocking_filter_idc h \<noteq> 1 then slice_beta_offset_div_2 h else 0)
       in (g\<lparr>disable_deblocking_filter_idc := (if on then disable_deblocking_filter_idc h else 0),
             slice_alpha_c0_offset_div2 := \<alpha>, slice_beta_offset_div_2 := \<beta>\<rparr>,
           w\<lparr>FilterOffsetA := 2 * \<alpha>, FilterOffsetB := 2 * \<beta>\<rparr>)))"
proof (cases "deblocking_filter_control_present_flag pps")
  case True
  note P = if_P [OF True]
  have i: "\<not> disable_deblocking_filter_idc h > 2" using ok unfolding slice_ok_def not_less by blast
  have a: "\<not> (slice_alpha_c0_offset_div2 h < - 6 \<or> slice_alpha_c0_offset_div2 h > 6)"
    "\<not> (slice_beta_offset_div_2 h < - 6 \<or> slice_beta_offset_div_2 h > 6)" using ok by (simp_all add: slice_ok_def)
  show ?thesis
  proof (cases "disable_deblocking_filter_idc h \<noteq> 1")
    case idc: True
    show ?thesis unfolding slice_deblocking_def deblocking_part_def prod.case Let_def P if_P [OF idc]
      by (rule reads_UE [OF slice_ok_ranges(3) [OF ok]], rule reads_pass [OF i], unfold if_P [OF idc],
          intro reads_SE slice_ok_ranges [OF ok] reads_pass [OF a(1)] reads_pass [OF a(2)] reads_return)
        (use True idc in simp)
  next
    case idc: False
    show ?thesis unfolding slice_deblocking_def deblocking_part_def prod.case Let_def P if_not_P [OF idc]
      by (rule reads_UE [OF slice_ok_ranges(3) [OF ok]], rule reads_pass [OF i], unfold if_not_P [OF idc], rule reads_return)
        (use True idc in simp)
  qed
qed (simp add: slice_deblocking_def [abs_def] deblocking_part_def Let_def reads_return)

section \<open>The header as a whole\<close>

text \<open>What the decoder has after a header: the numbers of the encoder.\<close>

definition slice_agrees ::
  "AVCPicParamSet \<Rightarrow> AVCSeqParamSet \<Rightarrow> AVCSliceHeader \<Rightarrow> AVCCommonObj \<Rightarrow> AVCSliceHeader \<Rightarrow> AVCCommonObj \<Rightarrow> bool" where
  "slice_agrees pps sps h v h' v' \<longleftrightarrow>
     first_mb_in_slice h' = first_mb_in_slice h \<and> sh_slice_type h' = written_type h v \<and> slice_type v' = slice_type v
     \<and> sh_pic_parameter_set_id h' = sh_pic_parameter_set_id h
     \<and> frame_num h' = frame_num h \<and> CurrPicNum v' = frame_num h
     \<and> (pic_order_cnt_type sps = 0 \<longrightarrow> pic_order_cnt_lsb h' = pic_order_cnt_lsb h)
     \<and> delta_pic_order_cnt_bottom h' =
         (if pic_order_cnt_type sps = 0 \<and> pic_order_present_flag pps then delta_pic_order_cnt_bottom h else 0)
     \<and> delta_pic_order_cnt h' =
         (if pic_order_cnt_type sps = 1 \<and> \<not> delta_pic_order_always_zero_flag sps
          then [delta_pic_order_cnt h ! 0, if pic_order_present_flag pps then delta_pic_order_cnt h ! 1 else 0] else [0, 0])
     \<and> num_ref_idx_l0_active_minus1 h' =
         (if slice_type v = AVC_P_SLICE \<and> num_ref_idx_active_override_flag h then num_ref_idx_l0_active_minus1 h
          else pps_num_ref_idx_l0_active_minus1 pps)
     \<and> (slice_type v = AVC_P_SLICE \<longrightarrow> \<not> ref_pic_list_reordering_flag_l0 h')
     \<and> (nal_ref_idc v \<noteq> 0 \<longrightarrow>
          (if nal_is_IDR v then no_output_of_prior_pics_flag h' = no_output_of_prior_pics_flag h
             \<and> long_term_reference_flag h' = long_term_reference_flag h
             \<and> MaxLongTermFrameIdx v' = MaxLongTermFrameIdx v
           else \<not> adaptive_ref_pic_marking_mode_flag h'))
     \<and> slice_qp_delta h' = slice_qp_delta h
     \<and> vid_QPy v' = AVC_CLIP3 0 51 (26 + pic_init_qp_minus26 pps + slice_qp_delta h)
     \<and> (deblocking_filter_control_present_flag pps \<longrightarrow>
          disable_deblocking_filter_idc h' = disable_deblocking_filter_idc h
          \<and> (disable_deblocking_filter_idc h \<noteq> 1 \<longrightarrow> FilterOffsetA v' = 2 * slice_alpha_c0_offset_div2 h
               \<and> FilterOffsetB v' = 2 * slice_beta_offset_div_2 h))
     \<and> (\<not> deblocking_filter_control_present_flag pps \<longrightarrow>
          disable_deblocking_filter_idc h' = 0 \<and> FilterOffsetA v' = 0 \<and> FilterOffsetB v' = 0)"

lemma reads_slice_rest:
  assumes ok: "slice_ok pps sps h v" "sets_ok pps sps"
    and g: "first_mb_in_slice g = first_mb_in_slice h" "sh_slice_type g = written_type h v"
      "sh_pic_parameter_set_id g = sh_pic_parameter_set_id h"
    and w: "nal_is_IDR w = nal_is_IDR v" "nal_ref_idc w = nal_ref_idc v" "slice_type w = slice_type v"
    and room: "uint (first_mb_in_slice h) < c_uint (PicWidthInMbs w * FrameHeightInMbs w)"
  shows "reads (slice_rest pps sps (g, w))
    ((U (bits_of (log2_max_frame_num_minus4 sps)) (word_of_int (frame_num h)) # idr_part h v)
      @ order_part pps sps h @ redundant_part pps h @ ref_idx_part h (slice_type v) @ lists_part (slice_type v)
      @ marking_part h v @ [SE (slice_qp_delta h)] @ deblocking_part pps h @ [])
    (\<lambda>(st, h', w'). st = AVCDEC_SUCCESS \<and> slice_agrees pps sps h (marked h v) h' w' \<and> fs w' = fs w \<and> num_fs w' = num_fs w)"
proof -
  have c: "slice_group_cycle pps x = (\<lambda>s. Some ((AVCDEC_SUCCESS, x), s))" for x
    using ok(2) by (auto simp: fun_eq_iff slice_group_cycle_def sets_ok_def)
  show ?thesis unfolding slice_rest_def
    apply (rule reads_on_success [OF reads_slice_numbers [OF ok g(1) w(1) room]], hypsubst)
    apply (rule reads_on_success [OF reads_slice_order [OF ok]], hypsubst)
    apply (rule reads_on_success [OF reads_slice_redundant [OF ok(1)]], hypsubst)
    apply (rule reads_on_success [OF reads_slice_ref_idx [OF ok]], simp add: w numbered_fields lsb_range_fields, hypsubst)
    apply (rule reads_on_success [OF reads_slice_lists [OF ok(1)]], simp add: w numbered_fields lsb_range_fields, hypsubst)
    apply (rule reads_on_success [OF reads_slice_marking [OF ok(1)]], simp add: w numbered_fields lsb_range_fields, simp add: w numbered_fields lsb_range_fields, hypsubst)
    apply (rule reads_on_success [OF reads_slice_quant [OF ok(1)]], hypsubst)
    apply (rule reads_on_success [OF reads_slice_deblocking [OF ok(1)]], hypsubst)
    apply (unfold c, rule reads_return)
    apply (simp add: slice_agrees_def numbered_fields lsb_range_fields quantised_def Let_def g w marked_def marked_header_def written_type_def)
    done
qed

text \<open>Sets that are in the decoder's tables and active: nothing is set up anew.\<close>

definition sets_active :: "AVCPicParamSet \<Rightarrow> AVCSeqParamSet \<Rightarrow> uint \<Rightarrow> AVCDecObject \<Rightarrow> AVCCommonObj \<Rightarrow> bool" where
  "sets_active pps sps pid d w \<longleftrightarrow> unat pid < length (picParams d) \<and> picParams d ! unat pid = Some pps
     \<and> 0 \<le> pps_seq_parameter_set_id pps \<and> nat (pps_seq_parameter_set_id pps) < length (seqParams d)
     \<and> seqParams d ! nat (pps_seq_parameter_set_id pps) = Some sps
     \<and> vid_seq_parameter_set_id w = pps_seq_parameter_set_id pps
     \<and> word_range (pic_width_in_mbs_minus1 sps) \<and> word_range (pic_height_in_map_units_minus1 sps)"

lemma activate_active:
  assumes a: "sets_active pps sps (sh_pic_parameter_set_id g) d w"
  shows "activate_sets alloc succeeds d g w = Some (AVCDEC_SUCCESS,
      w\<lparr>currPicParams := unat (sh_pic_parameter_set_id g), currSeqParams := nat (pps_seq_parameter_set_id pps)\<rparr>)"
    "current_sets d (w\<lparr>currPicParams := unat (sh_pic_parameter_set_id g), currSeqParams := nat (pps_seq_parameter_set_id pps)\<rparr>)
      = Some (pps, sps)"
proof -
  have "int (unat (sh_pic_parameter_set_id g)) < int (length (picParams d))"
    "int (nat (pps_seq_parameter_set_id pps)) < int (length (seqParams d))"
    using a unfolding sets_active_def by linarith+
  then have "nth_opt (picParams d) (uint (sh_pic_parameter_set_id g)) = Some (Some pps)"
    "nth_opt (seqParams d) (pps_seq_parameter_set_id pps) = Some (Some sps)"
    using a by (simp_all add: sets_active_def)
  with a show "activate_sets alloc succeeds d g w = Some (AVCDEC_SUCCESS,
      w\<lparr>currPicParams := unat (sh_pic_parameter_set_id g), currSeqParams := nat (pps_seq_parameter_set_id pps)\<rparr>)"
    "current_sets d (w\<lparr>currPicParams := unat (sh_pic_parameter_set_id g), currSeqParams := nat (pps_seq_parameter_set_id pps)\<rparr>)
      = Some (pps, sps)"
    by (simp_all add: activate_sets_def current_sets_def sets_active_def Let_def)
qed

lemma derive_spec:
  assumes "sets_ok pps sps" and d: "word_range (pic_width_in_mbs_minus1 sps)" "word_range (pic_height_in_map_units_minus1 sps)"
  obtains w' where "derive_from_sets pps sps w = Some w'" "nal_is_IDR w' = nal_is_IDR w" "nal_ref_idc w' = nal_ref_idc w"
    "slice_type w' = slice_type w" "fs w' = fs w" "num_fs w' = num_fs w"
    "c_uint (PicWidthInMbs w' * FrameHeightInMbs w') = (pic_width_in_mbs_minus1 sps + 1) * (pic_height_in_map_units_minus1 sps + 1)"
proof -
  let ?x = "pic_width_in_mbs_minus1 sps + 1" and ?y = "pic_height_in_map_units_minus1 sps + 1"
  have x: "0 \<le> ?x" "?x \<le> 65535" and y: "0 \<le> ?y" "?y \<le> 65535" using d by (simp_all add: word_range_def)
  then have "?x * ?y \<le> 65535 * 65535" by (intro mult_mono) simp_all
  then have p: "c_uint (?x * ?y) = ?x * ?y" "c_uint ?x = ?x" "c_uint ?y = ?y" using x y by simp_all
  have only: "frame_mbs_only_flag sps" using assms(1) unfolding sets_ok_def by blast
  note n = bits_of_frame_num [OF assms(1) assms(1)]
  have m: "shl32 1 (log2_max_frame_num_minus4 sps + 4) = Some (push_bit (bits_of (log2_max_frame_num_minus4 sps)) 1)"
    unfolding n(1) using n(3) by simp
  show thesis
    by (rule that, simp add: derive_from_sets_def m Let_def) (simp_all add: only p)
qed

lemma reads_slice_header:
  assumes ok: "slice_ok pps sps h v" "sets_ok pps sps"
    and ty: "first_mb_in_slice h \<noteq> 0 \<Longrightarrow> sh_slice_type g \<ge> 5 \<Longrightarrow> written_type h v = sh_slice_type g - 5"
    and a: "sets_active pps sps (sh_pic_parameter_set_id h) d w"
    and w: "nal_is_IDR w = nal_is_IDR v" "nal_ref_idc w = nal_ref_idc v"
    and room: "uint (first_mb_in_slice h) < (pic_width_in_mbs_minus1 sps + 1) * (pic_height_in_map_units_minus1 sps + 1)"
  shows "reads (DecodeSliceHeader alloc succeeds d g w) (slice_elems pps sps h v)
    (\<lambda>(st, h', w'). st = AVCDEC_SUCCESS \<and> slice_agrees pps sps h (marked h v) h' w' \<and> fs w' = fs w \<and> num_fs w' = num_fs w)"
proof -
  let ?g = "g\<lparr>first_mb_in_slice := first_mb_in_slice h, sh_slice_type := written_type h v,
        sh_pic_parameter_set_id := sh_pic_parameter_set_id h\<rparr>" and ?w = "w\<lparr>slice_type := slice_type v\<rparr>"
  let ?w1 = "?w\<lparr>currPicParams := unat (sh_pic_parameter_set_id ?g), currSeqParams := nat (pps_seq_parameter_set_id pps)\<rparr>"
  have a1: "sets_active pps sps (sh_pic_parameter_set_id ?g) d ?w" using a by (simp add: sets_active_def)
  have dims: "word_range (pic_width_in_mbs_minus1 sps)" "word_range (pic_height_in_map_units_minus1 sps)"
    using a by (simp_all add: sets_active_def)
  obtain w2 where w2: "derive_from_sets pps sps ?w1 = Some w2" "nal_is_IDR w2 = nal_is_IDR ?w1" "nal_ref_idc w2 = nal_ref_idc ?w1"
      "slice_type w2 = slice_type ?w1" "fs w2 = fs ?w1" "num_fs w2 = num_fs ?w1"
      "c_uint (PicWidthInMbs w2 * FrameHeightInMbs w2) = (pic_width_in_mbs_minus1 sps + 1) * (pic_height_in_map_units_minus1 sps + 1)"
    using derive_spec [OF ok(2) dims, of ?w1] by blast
  have eq: "slice_elems pps sps h v = [UW (first_mb_in_slice h), UI (written_type h v), UW (sh_pic_parameter_set_id h)]
      @ ((U (bits_of (log2_max_frame_num_minus4 sps)) (word_of_int (frame_num h)) # idr_part h v)
      @ order_part pps sps h @ redundant_part pps h @ ref_idx_part h (slice_type v) @ lists_part (slice_type v)
      @ marking_part h v @ [SE (slice_qp_delta h)] @ deblocking_part pps h @ [])"
    by (simp add: slice_elems_def)
  have first: "reads (slice_first (g, w)) [UW (first_mb_in_slice h), UI (written_type h v), UW (sh_pic_parameter_set_id h)]
      (\<lambda>(st, hv). st = AVCDEC_SUCCESS \<and> hv = (?g, ?w))"
    by (rule reads_weaken [OF reads_slice_first [OF ok(1) ty]]) simp_all
  have rest: "reads (slice_rest pps sps (?g, w2))
    ((U (bits_of (log2_max_frame_num_minus4 sps)) (word_of_int (frame_num h)) # idr_part h v)
      @ order_part pps sps h @ redundant_part pps h @ ref_idx_part h (slice_type v) @ lists_part (slice_type v)
      @ marking_part h v @ [SE (slice_qp_delta h)] @ deblocking_part pps h @ [])
    (\<lambda>(st, h', w'). st = AVCDEC_SUCCESS \<and> slice_agrees pps sps h (marked h v) h' w' \<and> fs w' = fs w \<and> num_fs w' = num_fs w)"
    by (rule reads_weaken [OF reads_slice_rest [OF ok]]) (use w w2 room in auto)
  show ?thesis unfolding DecodeSliceHeader_def eq
    by (rule reads_on_success [OF first], hypsubst,
        simp only: prod.case activate_active [OF a1] w2(1) bind.bind_lunit simp_thms if_False, rule rest)
qed

end
