(* ===== verification/SliceProps.thy ===== *)
theory SliceProps
  imports SliceRoundtrip Samples StreamProps
begin

text \<open>The properties of the slice header.\<close>









end
