(* ===== verification/DecCavlc.thy ===== *)
theory DecCavlc
  imports DecVlc
begin

text \<open>
  The table-driven part of the decoder's \<open>codecs_v2/video/avc_h264/dec/src/vlc.cpp\<close>: the coded block
  pattern and the CAVLC elements. The tables are the code's, an access outside one is \<open>None\<close>, and the
  chains of comparisons that pick the table entry are definitions of their own.
\<close>

section \<open>Coded block pattern\<close>

definition MapCBP :: "(uint \<times> uint) list" where
  "MapCBP =
      [(47, 0), (31, 16), (15, 1), (0, 2), (23, 4), (27, 8), (29, 32), (30, 3), (7, 5),
      (11, 10), (13, 12), (14, 15), (39, 47), (43, 7), (45, 11), (46, 13), (16, 14), (3, 6),
      (5, 9), (10, 31), (12, 35), (19, 37), (21, 42), (26, 44), (28, 33), (35, 34), (37, 36),
      (42, 40), (44, 39), (1, 43), (2, 45), (4, 46), (8, 17), (17, 18), (18, 20), (20, 24),
      (24, 19), (6, 21), (9, 26), (22, 28), (25, 23), (32, 27), (33, 29), (34, 30), (36, 22),
      (40, 25), (38, 38), (41, 41)]"

definition DecodeCBP :: "AVCMacroblock \<Rightarrow> AVCDecBitstream \<Rightarrow> (AVCDec_Status \<times> AVCMacroblock \<times> AVCDecBitstream) option" where
  "DecodeCBP mb stream =
     do { (codeNum, s1) \<leftarrow> ue_v stream;
          if codeNum > 47 then Some (AVCDEC_FAIL, mb, s1)
          else
            do { e \<leftarrow> nth_opt MapCBP (uint codeNum);
                 let coded_block_pattern = (if mbMode mb = AVC_I4 then fst e else snd e);
                 Some (AVCDEC_SUCCESS, mb\<lparr>CBP := coded_block_pattern\<rparr>, s1) } }"

section \<open>Number of coefficients and trailing ones\<close>

definition TotCofNTrail1 :: "(int \<times> int \<times> int) list" where
  "TotCofNTrail1 =
      [(0, 0, 16), (0, 0, 16), (1, 13, 15), (1, 13, 15), (0, 16, 16), (2, 16, 16), (1, 16, 16),
      (0, 15, 16), (3, 16, 16), (2, 15, 16), (1, 15, 16), (0, 14, 16), (3, 15, 16), (2, 14, 16),
      (1, 14, 16), (0, 13, 16), (3, 14, 15), (2, 13, 15), (1, 12, 15), (0, 12, 15), (3, 13, 15),
      (2, 12, 15), (1, 11, 15), (0, 11, 15), (3, 12, 14), (2, 11, 14), (1, 10, 14), (0, 10, 14),
      (3, 11, 14), (2, 10, 14), (1, 9, 14), (0, 9, 14), (0, 8, 13), (2, 9, 13), (1, 8, 13),
      (0, 7, 13), (3, 10, 13), (2, 8, 13), (1, 7, 13), (0, 6, 13), (3, 9, 11), (2, 7, 11),
      (1, 6, 11), (0, 5, 11), (3, 8, 10), (2, 6, 10), (1, 5, 10), (0, 4, 10), (3, 7, 9),
      (2, 5, 9), (1, 4, 9), (0, 3, 9), (3, 6, 8), (2, 4, 8), (1, 3, 8), (0, 2, 8), (3, 5, 7),
      (2, 3, 7), (3, 4, 6), (3, 4, 6), (1, 2, 6), (1, 2, 6), (0, 1, 6), (0, 1, 6), (3, 3, 5),
      (3, 3, 5), (3, 3, 5), (3, 3, 5), (2, 2, 3), (1, 1, 2), (1, 1, 2), (0, 0, 1), (0, 0, 1),
      (0, 0, 1), (0, 0, 1)]"

definition TotCofNTrail2 :: "(int \<times> int \<times> int) list" where
  "TotCofNTrail2 =
      [(0, 0, 14), (0, 0, 14), (3, 15, 13), (3, 15, 13), (3, 16, 14), (2, 16, 14), (1, 16, 14),
      (0, 16, 14), (1, 15, 14), (0, 15, 14), (2, 15, 14), (1, 14, 14), (2, 14, 13), (2, 14, 13),
      (0, 14, 13), (0, 14, 13), (3, 14, 13), (2, 13, 13), (1, 13, 13), (0, 13, 13), (3, 13, 13),
      (2, 12, 13), (1, 12, 13), (0, 12, 13), (0, 11, 12), (2, 11, 12), (1, 11, 12), (0, 10, 12),
      (3, 12, 12), (2, 10, 12), (1, 10, 12), (0, 9, 12), (3, 11, 11), (2, 9, 11), (1, 9, 11),
      (0, 8, 11), (3, 10, 11), (2, 8, 11), (1, 8, 11), (0, 7, 11), (3, 9, 9), (2, 7, 9),
      (1, 7, 9), (0, 6, 9), (0, 5, 8), (0, 5, 8), (2, 6, 8), (2, 6, 8), (1, 6, 8), (1, 6, 8),
      (0, 4, 8), (0, 4, 8), (3, 8, 7), (2, 5, 7), (1, 5, 7), (0, 3, 7), (3, 7, 6), (3, 7, 6),
      (2, 4, 6), (2, 4, 6), (1, 4, 6), (1, 4, 6), (0, 2, 6), (0, 2, 6), (3, 6, 6), (2, 3, 6),
      (1, 3, 6), (0, 1, 6), (3, 5, 5), (3, 5, 5), (1, 2, 5), (1, 2, 5), (3, 4, 4), (3, 3, 4),
      (2, 2, 3), (2, 2, 3), (1, 1, 2), (1, 1, 2), (1, 1, 2), (1, 1, 2), (0, 0, 2), (0, 0, 2),
      (0, 0, 2), (0, 0, 2)]"

definition TotCofNTrail3 :: "(int \<times> int \<times> int) list" where
  "TotCofNTrail3 =
      [(0, 0, 10), (0, 16, 10), (3, 16, 10), (2, 16, 10), (1, 16, 10), (0, 15, 10), (3, 15, 10),
      (2, 15, 10), (1, 15, 10), (0, 14, 10), (3, 14, 10), (2, 14, 10), (1, 14, 10), (0, 13, 10),
      (1, 13, 9), (1, 13, 9), (0, 12, 9), (2, 13, 9), (1, 12, 9), (0, 11, 9), (3, 13, 9),
      (2, 12, 9), (1, 11, 9), (0, 10, 9), (3, 12, 8), (2, 11, 8), (1, 10, 8), (0, 9, 8),
      (3, 11, 8), (2, 10, 8), (1, 9, 8), (0, 8, 8), (0, 7, 7), (0, 6, 7), (2, 9, 7), (0, 5, 7),
      (3, 10, 7), (2, 8, 7), (1, 8, 7), (0, 4, 7), (0, 3, 6), (2, 7, 6), (1, 7, 6), (0, 2, 6),
      (3, 9, 6), (2, 6, 6), (1, 6, 6), (0, 1, 6), (1, 5, 5), (2, 5, 5), (1, 4, 5), (2, 4, 5),
      (1, 3, 5), (3, 8, 5), (2, 3, 5), (1, 2, 5), (3, 7, 4), (3, 6, 4), (3, 5, 4), (3, 4, 4),
      (3, 3, 4), (2, 2, 4), (1, 1, 4), (0, 0, 4)]"

text \<open>The entry each code of 16, 14 or 10 bits selects.\<close>

definition TotCofNTrail1_index :: "uint \<Rightarrow> int" where
  "TotCofNTrail1_index code =
     (if code \<ge> 8192 then uint (drop_bit 13 code) + 65 + 2
      else if code \<ge> 2048 then uint (drop_bit 9 code) + 50 + 2
      else if code \<ge> 1024 then uint (drop_bit 8 code) + 46 + 2
      else if code \<ge> 512 then uint (drop_bit 7 code) + 42 + 2
      else if code \<ge> 256 then uint (drop_bit 6 code) + 38 + 2
      else if code \<ge> 128 then uint (drop_bit 5 code) + 34 + 2
      else if code \<ge> 64 then uint (drop_bit 3 code) + 22 + 2
      else if code \<ge> 32 then uint (drop_bit 2 code) + 14 + 2
      else if code \<ge> 16 then uint (drop_bit 1 code) + 6 + 2
      else uint code - 2 + 2)"

definition TotCofNTrail2_index :: "uint \<Rightarrow> int" where
  "TotCofNTrail2_index code =
     (if code \<ge> 4096 then uint (drop_bit 10 code) + 66 + 2
      else if code \<ge> 2048 then uint (drop_bit 8 code) + 54 + 2
      else if code \<ge> 512 then uint (drop_bit 7 code) + 46 + 2
      else if code \<ge> 128 then uint (drop_bit 5 code) + 34 + 2
      else if code \<ge> 64 then uint (drop_bit 3 code) + 22 + 2
      else if code \<ge> 32 then uint (drop_bit 2 code) + 14 + 2
      else if code \<ge> 16 then uint (drop_bit 1 code) + 6 + 2
      else uint code - 2 + 2)"

definition TotCofNTrail3_index :: "uint \<Rightarrow> int" where
  "TotCofNTrail3_index code =
     (if code \<ge> 512 then uint (drop_bit 6 code) + 47 + 1
      else if code \<ge> 256 then uint (drop_bit 5 code) + 39 + 1
      else if code \<ge> 128 then uint (drop_bit 4 code) + 31 + 1
      else if code \<ge> 64 then uint (drop_bit 3 code) + 23 + 1
      else if code \<ge> 32 then uint (drop_bit 2 code) + 15 + 1
      else if code \<ge> 16 then uint (drop_bit 1 code) + 7 + 1
      else uint code - 1 + 1)"

text \<open>The results are \<open>TrailingOnes\<close> and \<open>TotalCoeff\<close>.\<close>

definition ce_TotalCoeffTrailingOnes ::
  "AVCDecBitstream \<Rightarrow> int \<Rightarrow> ((int \<times> int) \<times> AVCDecBitstream) option" where
  "ce_TotalCoeffTrailingOnes stream nC =
     (if nC < 2 then
        do { (code, s1) \<leftarrow> BitstreamShowBits stream 16;
             (t, c, l) \<leftarrow> nth_opt TotCofNTrail1 (TotCofNTrail1_index code);
             s2 \<leftarrow> BitstreamFlushBits s1 l;
             Some ((t, c), s2) }
      else if nC < 4 then
        do { (code, s1) \<leftarrow> BitstreamShowBits stream 14;
             (t, c, l) \<leftarrow> nth_opt TotCofNTrail2 (TotCofNTrail2_index code);
             s2 \<leftarrow> BitstreamFlushBits s1 l;
             Some ((t, c), s2) }
      else if nC < 8 then
        do { (code, s1) \<leftarrow> BitstreamShowBits stream 10;
             (t, c, l) \<leftarrow> nth_opt TotCofNTrail3 (TotCofNTrail3_index code);
             s2 \<leftarrow> BitstreamFlushBits s1 l;
             Some ((t, c), s2) }
      else
        do { (code, s1) \<leftarrow> BitstreamReadBits stream 6;
             let t = uint (code AND 3);
             let c0 = uint (drop_bit 2 code) + 1;
             let c = (if c0 > 16 then 16 else c0);
             Some (if code = 3 then ((0, c - 1), s1) else ((t, c), s1)) })"

definition TotCofNTrail5 :: "(int \<times> int \<times> int) list" where
  "TotCofNTrail5 =
      [(3, 4, 7), (3, 4, 7), (2, 4, 8), (1, 4, 8), (2, 3, 7), (2, 3, 7), (1, 3, 7), (1, 3, 7),
      (0, 4, 6), (0, 3, 6), (0, 2, 6), (3, 3, 6), (1, 2, 6), (0, 1, 6), (2, 2, 3), (0, 0, 2),
      (0, 0, 2), (1, 1, 1), (1, 1, 1), (1, 1, 1), (1, 1, 1)]"

definition TotCofNTrail5_index :: "uint \<Rightarrow> int" where
  "TotCofNTrail5_index code =
     (if code \<ge> 32 then uint (drop_bit 5 code) + 13
      else if code \<ge> 8 then uint (drop_bit 2 code) + 6
      else uint code)"

definition ce_TotalCoeffTrailingOnesChromaDC ::
  "AVCDecBitstream \<Rightarrow> ((int \<times> int) \<times> AVCDecBitstream) option" where
  "ce_TotalCoeffTrailingOnesChromaDC stream =
     do { (code, s1) \<leftarrow> BitstreamShowBits stream 8;
          (t, c, l) \<leftarrow> nth_opt TotCofNTrail5 (TotCofNTrail5_index code);
          s2 \<leftarrow> BitstreamFlushBits s1 l;
          Some ((t, c), s2) }"

section \<open>Levels and zeros\<close>

definition ce_LevelPrefix :: "AVCDecBitstream \<Rightarrow> (int \<times> AVCDecBitstream) option" where
  "ce_LevelPrefix stream =
     do { (temp, s1) \<leftarrow> BitstreamShowBits stream 16;
          leading_zeros \<leftarrow> PV_CLZ 0 (temp OR 1);
          s2 \<leftarrow> BitstreamFlushBits s1 (leading_zeros + 1);
          Some (leading_zeros, s2) }"

definition TotZero1 :: "(int \<times> int) list" where
  "TotZero1 =
      [(15, 9), (14, 9), (13, 9), (12, 8), (12, 8), (11, 8), (11, 8), (10, 7), (9, 7), (8, 6),
      (8, 6), (7, 6), (7, 6), (6, 5), (6, 5), (6, 5), (6, 5), (5, 5), (5, 5), (5, 5), (5, 5),
      (4, 4), (3, 4), (2, 3), (2, 3), (1, 3), (1, 3), (0, 1)]"

definition TotZero2n3 :: "(int \<times> int) list list" where
  "TotZero2n3 =
      [[(14, 6), (13, 6), (12, 6), (11, 6), (10, 5), (10, 5), (9, 5), (9, 5), (8, 4), (7, 4),
      (6, 4), (5, 4), (4, 3), (4, 3), (3, 3), (2, 3), (1, 3), (0, 3)], [(13, 6), (11, 6),
      (12, 5), (12, 5), (10, 5), (10, 5), (9, 5), (9, 5), (8, 4), (5, 4), (4, 4), (0, 4),
      (7, 3), (7, 3), (6, 3), (3, 3), (2, 3), (1, 3)]]"

definition TotZero4 :: "(int \<times> int) list" where
  "TotZero4 =
      [(12, 5), (11, 5), (10, 5), (0, 5), (9, 4), (9, 4), (7, 4), (7, 4), (3, 4), (3, 4),
      (2, 4), (2, 4), (8, 3), (6, 3), (5, 3), (4, 3), (1, 3)]"

definition TotZero5 :: "(int \<times> int) list" where
  "TotZero5 =
      [(11, 5), (9, 5), (10, 4), (8, 4), (2, 4), (1, 4), (0, 4), (7, 3), (7, 3), (6, 3), (5, 3),
      (4, 3), (3, 3)]"

definition TotZero6to10 :: "(int \<times> int) list list" where
  "TotZero6to10 =
      [[(10, 6), (0, 6), (1, 5), (1, 5), (8, 4), (8, 4), (8, 4), (8, 4), (9, 3), (7, 3), (6, 3),
      (5, 3), (4, 3), (3, 3), (2, 3)], [(9, 6), (0, 6), (1, 5), (1, 5), (7, 4), (7, 4), (7, 4),
      (7, 4), (8, 3), (6, 3), (4, 3), (3, 3), (2, 3), (5, 2), (5, 2)], [(8, 6), (0, 6), (2, 5),
      (2, 5), (1, 4), (1, 4), (1, 4), (1, 4), (7, 3), (6, 3), (3, 3), (5, 2), (5, 2), (4, 2),
      (4, 2)], [(1, 6), (0, 6), (7, 5), (7, 5), (2, 4), (2, 4), (2, 4), (2, 4), (5, 3), (6, 2),
      (6, 2), (4, 2), (4, 2), (3, 2), (3, 2)], [(1, 5), (0, 5), (6, 4), (6, 4), (2, 3), (2, 3),
      (2, 3), (2, 3), (5, 2), (4, 2), (3, 2), (0, 0), (0, 0), (0, 0), (0, 0)]]"

definition TotZero11 :: "(int \<times> int) list" where
  "TotZero11 =
      [(0, 4), (1, 4), (2, 3), (2, 3), (3, 3), (5, 3), (4, 1)]"

definition TotZero12to15 :: "(int \<times> int) list list" where
  "TotZero12to15 =
      [[(3, 1), (2, 2), (4, 3), (1, 4), (0, 4)], [(2, 1), (3, 2), (1, 3), (0, 3), (0, 0)], [
      (2, 1), (1, 2), (0, 2), (0, 0), (0, 0)], [(1, 1), (0, 1), (0, 0), (0, 0), (0, 0)]]"

text \<open>The search for the first one bit under a moving mask.\<close>

function search_one_bit :: "uint \<Rightarrow> uint \<Rightarrow> int \<Rightarrow> int \<Rightarrow> int" where
  "search_one_bit temp msk indx limit =
     (if temp AND msk = 0 \<and> indx < limit
      then search_one_bit temp (drop_bit 1 msk) (indx + 1) limit else indx)"
  by pat_completeness auto
termination by (relation "measure (\<lambda>(temp, msk, indx, limit). nat (limit - indx))") auto

declare search_one_bit.simps [simp del]

text \<open>How many bits are shown for a given \<open>TotalCoeff\<close>, and the entry they select.\<close>

definition TotalZeros_show :: "int \<Rightarrow> int" where
  "TotalZeros_show TotalCoeff =
     (if TotalCoeff = 1 then 9
      else if TotalCoeff = 2 \<or> TotalCoeff = 3 then 6
      else if TotalCoeff = 4 then 5
      else if TotalCoeff = 5 then 5
      else if TotalCoeff \<ge> 6 \<and> TotalCoeff \<le> 10 then (if TotalCoeff = 10 then 5 else 6)
      else if TotalCoeff = 11 then 4
      else 16 - TotalCoeff)"

definition TotalZeros_entry :: "int \<Rightarrow> uint \<Rightarrow> (int \<times> int) option" where
  "TotalZeros_entry TotalCoeff temp =
     (if TotalCoeff = 1 then
        (if temp \<ge> 256 then nth_opt TotZero1 27
         else if temp \<ge> 64 then nth_opt TotZero1 (uint (drop_bit 5 temp) + 19)
         else if temp \<ge> 8 then nth_opt TotZero1 (uint (drop_bit 2 temp) + 5)
         else nth_opt TotZero1 (uint temp - 1))
      else if TotalCoeff = 2 \<or> TotalCoeff = 3 then
        do { tab \<leftarrow> nth_opt TotZero2n3 (TotalCoeff - 2);
             if temp \<ge> 32 then nth_opt tab (uint (drop_bit 3 temp) + 10)
             else if temp \<ge> 8 then nth_opt tab (uint (drop_bit 2 temp) + 6)
             else nth_opt tab (uint temp) }
      else if TotalCoeff = 4 then
        (if temp \<ge> 12 then nth_opt TotZero4 (uint (drop_bit 2 temp) + 9)
         else nth_opt TotZero4 (uint temp))
      else if TotalCoeff = 5 then
        (if temp \<ge> 16 then nth_opt TotZero5 (uint (drop_bit 2 temp) + 5)
         else if temp \<ge> 2 then nth_opt TotZero5 (uint (drop_bit 1 temp) + 1)
         else nth_opt TotZero5 (uint temp))
      else if TotalCoeff \<ge> 6 \<and> TotalCoeff \<le> 10 then
        do { tab \<leftarrow> nth_opt TotZero6to10 (TotalCoeff - 6);
             if temp \<ge> 8 then nth_opt tab (uint (drop_bit 3 temp) + 7)
             else nth_opt tab (uint temp) }
      else if TotalCoeff = 11 then
        (if temp \<ge> 8 then nth_opt TotZero11 6
         else if temp \<ge> 4 then nth_opt TotZero11 (uint (drop_bit 1 temp) + 2)
         else nth_opt TotZero11 (uint temp))
      else
        do { msk \<leftarrow> shl32 1 (15 - TotalCoeff);
             tab \<leftarrow> nth_opt TotZero12to15 (TotalCoeff - 12);
             nth_opt tab (search_one_bit temp msk 0 (16 - TotalCoeff)) })"

definition ce_TotalZeros :: "AVCDecBitstream \<Rightarrow> int \<Rightarrow> (int \<times> AVCDecBitstream) option" where
  "ce_TotalZeros stream TotalCoeff =
     do { (temp, s1) \<leftarrow> BitstreamShowBits stream (TotalZeros_show TotalCoeff);
          (code, l) \<leftarrow> TotalZeros_entry TotalCoeff temp;
          s2 \<leftarrow> BitstreamFlushBits s1 l;
          Some (code, s2) }"

definition TotZeroChrom1to3 :: "(int \<times> int) list list" where
  "TotZeroChrom1to3 =
      [[(3, 3), (2, 3), (1, 2), (1, 2), (0, 1), (0, 1), (0, 1), (0, 1)], [(2, 2), (2, 2),
      (1, 2), (1, 2), (0, 1), (0, 1), (0, 1), (0, 1)], [(1, 1), (1, 1), (1, 1), (1, 1), (0, 1),
      (0, 1), (0, 1), (0, 1)]]"

definition ce_TotalZerosChromaDC :: "AVCDecBitstream \<Rightarrow> int \<Rightarrow> (int \<times> AVCDecBitstream) option" where
  "ce_TotalZerosChromaDC stream TotalCoeff =
     do { (temp, s1) \<leftarrow> BitstreamShowBits stream 3;
          tab \<leftarrow> nth_opt TotZeroChrom1to3 (TotalCoeff - 1);
          (code, l) \<leftarrow> nth_opt tab (uint temp);
          s2 \<leftarrow> BitstreamFlushBits s1 l;
          Some (code, s2) }"

definition codlen :: "int list" where
  "codlen = [1, 2, 2, 3, 3, 3]"

definition RunBeforeTab :: "(int \<times> int) list list" where
  "RunBeforeTab =
      [[(1, 1), (0, 1), (0, 0), (0, 0), (0, 0), (0, 0), (0, 0), (0, 0)], [(2, 2), (1, 2),
      (0, 1), (0, 1), (0, 0), (0, 0), (0, 0), (0, 0)], [(3, 2), (2, 2), (1, 2), (0, 2), (0, 0),
      (0, 0), (0, 0), (0, 0)], [(4, 3), (3, 3), (2, 2), (2, 2), (1, 2), (1, 2), (0, 2), (0, 2)],
      [(5, 3), (4, 3), (3, 3), (2, 3), (1, 2), (1, 2), (0, 2), (0, 2)], [(1, 3), (2, 3), (4, 3),
      (3, 3), (6, 3), (5, 3), (0, 2), (0, 2)]]"

definition ce_RunBefore :: "AVCDecBitstream \<Rightarrow> int \<Rightarrow> (int \<times> AVCDecBitstream) option" where
  "ce_RunBefore stream zerosLeft =
     (if zerosLeft \<le> 6 then
        do { n \<leftarrow> nth_opt codlen (zerosLeft - 1);
             (temp, s1) \<leftarrow> BitstreamShowBits stream n;
             tab \<leftarrow> nth_opt RunBeforeTab (zerosLeft - 1);
             (code, l) \<leftarrow> nth_opt tab (uint temp);
             s2 \<leftarrow> BitstreamFlushBits s1 l;
             Some (code, s2) }
      else
        do { (temp, s1) \<leftarrow> BitstreamReadBits stream 3;
             if temp \<noteq> 0 then Some (7 - uint temp, s1)
             else
               do { (temp2, s2) \<leftarrow> BitstreamShowBits s1 9;
                    indx \<leftarrow> PV_CLZ 0 (push_bit 7 temp2 OR 1);
                    s3 \<leftarrow> BitstreamFlushBits s2 (indx + 1);
                    Some (7 + indx, s3) } })"

end
