(* ===== verification/CavlcRoundtrip.thy ===== *)
theory CavlcRoundtrip
  imports DecCavlc EncVlc
begin

text \<open>
  The encoder's and the decoder's variable-length codes against each other: for every value the encoder
  can code, the bits its table gives are consumed by the decoder, which answers the value. The decoder's
  comparison chains are restated as ladders of (threshold, shift, offset), so that a code word, which is
  an interval of shown words, is checked with one table access per distinct index.
\<close>

section \<open>Ladders\<close>

type_synonym ladder = "(int \<times> nat \<times> int) list"

fun ladder_pos :: "ladder \<Rightarrow> int \<Rightarrow> nat" where
  "ladder_pos [] c = 0"
| "ladder_pos ((th, k, off) # r) c = (if c \<ge> th then 0 else Suc (ladder_pos r c))"

fun ladder_index :: "ladder \<Rightarrow> int \<Rightarrow> int" where
  "ladder_index [] c = - 1"
| "ladder_index ((th, k, off) # r) c = (if c \<ge> th then c div 2 ^ k + off else ladder_index r c)"

lemma ladder_pos_mono: "c \<le> d \<Longrightarrow> ladder_pos lad d \<le> ladder_pos lad c"
  by (induction lad c rule: ladder_pos.induct) auto

fun ladder_shift :: "ladder \<Rightarrow> nat \<Rightarrow> (nat \<times> int) option" where
  "ladder_shift [] i = None"
| "ladder_shift ((th, k, off) # r) 0 = Some (k, off)"
| "ladder_shift ((th, k, off) # r) (Suc i) = ladder_shift r i"

lemma ladder_index_shift:
  "ladder_shift lad (ladder_pos lad c) = Some (k, off) \<Longrightarrow> ladder_index lad c = c div 2 ^ k + off"
  by (induction lad c rule: ladder_pos.induct) (auto split: if_splits)

text \<open>
  The check for a code word \<open>code\<close> of \<open>len\<close> bits shown in \<open>n\<close> bits: its words lie in one branch, and
  every index they have holds the entry \<open>e\<close>.
\<close>

definition ladder_chk :: "'a list \<Rightarrow> ladder \<Rightarrow> nat \<Rightarrow> nat \<Rightarrow> int \<Rightarrow> 'a \<Rightarrow> bool" where
  "ladder_chk tab lad n len code e \<longleftrightarrow>
     (let lo = code * 2 ^ (n - len); hi = lo + 2 ^ (n - len) - 1 in
      ladder_pos lad lo = ladder_pos lad hi \<and>
      (case ladder_shift lad (ladder_pos lad lo) of
         None \<Rightarrow> False
       | Some (k, off) \<Rightarrow>
           list_all (\<lambda>q. nth_opt tab (q + off) = Some e) [lo div 2 ^ k .. hi div 2 ^ k]))"

lemma ladder_chkD:
  assumes chk: "ladder_chk tab lad n len code e"
    and c: "code * 2 ^ (n - len) \<le> c" "c < (code + 1) * 2 ^ (n - len)"
  shows "nth_opt tab (ladder_index lad c) = Some e"
proof -
  define lo hi where "lo = code * 2 ^ (n - len)" and "hi = lo + 2 ^ (n - len) - 1"
  have range: "lo \<le> c" "c \<le> hi" using c by (simp_all add: lo_def hi_def algebra_simps)
  obtain k off where k: "ladder_pos lad lo = ladder_pos lad hi"
      "ladder_shift lad (ladder_pos lad lo) = Some (k, off)"
      "list_all (\<lambda>q. nth_opt tab (q + off) = Some e) [lo div 2 ^ k .. hi div 2 ^ k]"
    using chk unfolding ladder_chk_def Let_def lo_def hi_def by (auto split: option.splits)
  have "ladder_pos lad c = ladder_pos lad lo"
    using ladder_pos_mono [OF range(1), of lad] ladder_pos_mono [OF range(2), of lad] k(1) by simp
  then have "ladder_index lad c = c div 2 ^ k + off" using ladder_index_shift k(2) by metis
  moreover have "c div 2 ^ k \<in> {lo div 2 ^ k .. hi div 2 ^ k}"
    using range by (simp add: zdiv_mono1)
  ultimately show ?thesis using k(3) by (simp add: list_all_iff)
qed

text \<open>The words that start with a code word.\<close>

lemma uint_bits_word_append:
  assumes "length (bs @ t) \<le> 31"
  shows "uint (bits_word (bs @ t)) = int (bits_val bs) * 2 ^ length t + int (bits_val t)"
proof -
  have "bits_val (bs @ t) < 2 ^ 32"
    using bits_val_less [of "bs @ t"] assms power_increasing [of "length (bs @ t)" 32 "2::nat"] by linarith
  then have "unat (bits_word (bs @ t)) = bits_val (bs @ t)"
    unfolding bits_word_def by (rule unat_of_nat_small)
  then have "uint (bits_word (bs @ t)) = int (bits_val (bs @ t))" by (simp only: uint_nat)
  then show ?thesis by (simp add: bits_val_append)
qed

lemma ladder_lookup:
  assumes chk: "ladder_chk tab lad n len (uint code) e" and n: "len \<le> n" "n \<le> 31"
    and code: "uint code < 2 ^ len" and t: "length t = n - len"
  shows "nth_opt tab (ladder_index lad (uint (bits_word (nat_bits len (unat code) @ t)))) = Some e"
proof (rule ladder_chkD [OF chk])
  have "unat code < 2 ^ len" using code unfolding uint_nat by (simp only: of_nat_less_numeral_power_cancel_iff)
  then have v: "int (bits_val (nat_bits len (unat code))) = uint code"
    by (simp add: bits_val_nat_bits)
  have u: "uint (bits_word (nat_bits len (unat code) @ t)) = uint code * 2 ^ (n - len) + int (bits_val t)"
    using uint_bits_word_append [of "nat_bits len (unat code)" t] n t v by simp
  have "bits_val t < 2 ^ (n - len)" using bits_val_less [of t] t by simp
  then have "int (bits_val t) < 2 ^ (n - len)" by (metis of_nat_less_numeral_power_cancel_iff)
  then show "uint code * 2 ^ (n - len) \<le> uint (bits_word (nat_bits len (unat code) @ t))"
    and "uint (bits_word (nat_bits len (unat code) @ t)) < (uint code + 1) * 2 ^ (n - len)"
    unfolding u by (simp_all add: algebra_simps)
qed

section \<open>Number of coefficients and trailing ones\<close>

definition trail1_ladder :: ladder where
  "trail1_ladder = [(8192, 13, 67), (2048, 9, 52), (1024, 8, 48), (512, 7, 44), (256, 6, 40),
     (128, 5, 36), (64, 3, 24), (32, 2, 16), (16, 1, 8), (0, 0, 0)]"

definition trail2_ladder :: ladder where
  "trail2_ladder = [(4096, 10, 68), (2048, 8, 56), (512, 7, 48), (128, 5, 36), (64, 3, 24),
     (32, 2, 16), (16, 1, 8), (0, 0, 0)]"

definition trail3_ladder :: ladder where
  "trail3_ladder = [(512, 6, 48), (256, 5, 40), (128, 4, 32), (64, 3, 24), (32, 2, 16),
     (16, 1, 8), (0, 0, 0)]"

definition trail5_ladder :: ladder where
  "trail5_ladder = [(32, 5, 13), (8, 2, 6), (0, 0, 0)]"

lemma uint_drop_bit: "uint (drop_bit k (w :: uint)) = uint w div 2 ^ k"
  unfolding uint_nat unat_drop_bit_eq unfolding drop_bit_eq_div
  by (simp only: zdiv_int of_nat_power of_nat_numeral)

lemma trail_ladders:
  "TotCofNTrail1_index w = ladder_index trail1_ladder (uint w)"
  "TotCofNTrail2_index w = ladder_index trail2_ladder (uint w)"
  "TotCofNTrail3_index w = ladder_index trail3_ladder (uint w)"
  "TotCofNTrail5_index w = ladder_index trail5_ladder (uint w)"
  by (simp_all add: TotCofNTrail1_index_def TotCofNTrail2_index_def TotCofNTrail3_index_def
      TotCofNTrail5_index_def trail1_ladder_def trail2_ladder_def trail3_ladder_def trail5_ladder_def
      word_le_def uint_drop_bit)

text \<open>The pairs the encoder codes: as many trailing ones as coefficients at most.\<close>

definition trail_pairs :: "int \<Rightarrow> (int \<times> int) list" where
  "trail_pairs m = concat (map (\<lambda>t. map (\<lambda>c. (t, c)) [t .. m]) [0, 1, 2, 3])"

definition enc_trail :: "int \<Rightarrow> int \<Rightarrow> int \<Rightarrow> (int \<times> uint) option" where
  "enc_trail v t c = do { a \<leftarrow> nth_opt totCoeffTrailOne v; b \<leftarrow> nth_opt a t; nth_opt b c }"

definition trail_chk :: "(int \<times> int \<times> int) list \<Rightarrow> ladder \<Rightarrow> nat \<Rightarrow> int \<Rightarrow> bool" where
  "trail_chk tab lad n v =
     list_all (\<lambda>(t, c). case enc_trail v t c of
         None \<Rightarrow> False
       | Some (len, code) \<Rightarrow> 1 \<le> len \<and> len \<le> int n \<and> uint code < 2 ^ nat len
           \<and> ladder_chk tab lad n (nat len) (uint code) (t, c, len)) (trail_pairs 16)"

lemma trail_chk1: "trail_chk TotCofNTrail1 trail1_ladder 16 0"
  by code_simp

lemma trail_chk2: "trail_chk TotCofNTrail2 trail2_ladder 14 1"
  by code_simp

lemma trail_chk3: "trail_chk TotCofNTrail3 trail3_ladder 10 2"
  by code_simp

text \<open>
  A value is \<open>coded\<close> when the encoder's and the decoder's operations agree on its bits.
\<close>

definition coded ::
  "(AVCEncBitstream \<Rightarrow> (AVCEnc_Status \<times> AVCEncBitstream) option) \<Rightarrow>
   (AVCDecBitstream \<Rightarrow> ('a \<times> AVCDecBitstream) option) \<Rightarrow> 'a \<Rightarrow> bool list \<Rightarrow> bool" where
  "coded e d x bs \<longleftrightarrow> enc_emits e bs \<and> consumes dec_inv dec_bits d bs x"

lemma trail_pairs_mem: "(t, c) \<in> set (trail_pairs m) \<longleftrightarrow> 0 \<le> t \<and> t \<le> 3 \<and> t \<le> c \<and> c \<le> m"
proof
  assume "0 \<le> t \<and> t \<le> 3 \<and> t \<le> c \<and> c \<le> m"
  moreover from this have "t = 0 \<or> t = 1 \<or> t = 2 \<or> t = 3" by linarith
  ultimately show "(t, c) \<in> set (trail_pairs m)" by (auto simp: trail_pairs_def)
qed (auto simp: trail_pairs_def)

lemma consumes_table:
  assumes look: "\<And>u. length u = n - len \<Longrightarrow> nth_opt tab (idx (bits_word (nat_bits len (unat code) @ u))) = Some (t, c, int len)"
    and n: "1 \<le> len" "len \<le> n" "n \<le> 31"
  shows "consumes dec_inv dec_bits
    (\<lambda>s. do { (w, s1) \<leftarrow> BitstreamShowBits s (int n);
              (t, c, l) \<leftarrow> nth_opt tab (idx w);
              s2 \<leftarrow> BitstreamFlushBits s1 l;
              Some ((t, c), s2) }) (nat_bits len (unat code)) (t, c)"
proof -
  have "consumes dec_inv dec_bits
    (\<lambda>s. do { (w, s1) \<leftarrow> BitstreamShowBits s (int n);
              (y, l) \<leftarrow> do { (t, c, l) \<leftarrow> nth_opt tab (idx w); Some ((t, c), l) };
              s2 \<leftarrow> BitstreamFlushBits s1 l;
              Some (y, s2) }) (nat_bits len (unat code)) (t, c)"
    by (rule dec.consumes_vlc) (use n look in simp_all)
  then show ?thesis
    by (simp add: case_prod_unfold)
qed

lemma trail_coded:
  assumes chk: "trail_chk tab lad n v" and idx: "\<And>w. idx w = ladder_index lad (uint w)"
    and n: "n \<le> 31" and pair: "0 \<le> t" "t \<le> 3" "t \<le> c" "c \<le> 16"
  shows "\<exists>bs. coded
    (\<lambda>s. do { a \<leftarrow> nth_opt totCoeffTrailOne v; b \<leftarrow> nth_opt a t; (len, code) \<leftarrow> nth_opt b c;
              BitstreamWriteBits malloc s len code })
    (\<lambda>s. do { (w, s1) \<leftarrow> BitstreamShowBits s (int n);
              (t, c, l) \<leftarrow> nth_opt tab (idx w);
              s2 \<leftarrow> BitstreamFlushBits s1 l;
              Some ((t, c), s2) }) (t, c) bs"
proof -
  have "(t, c) \<in> set (trail_pairs 16)" using pair by (simp add: trail_pairs_mem)
  then obtain l code where e: "enc_trail v t c = Some (l, code)" "1 \<le> l" "l \<le> int n" "uint code < 2 ^ nat l"
      "ladder_chk tab lad n (nat l) (uint code) (t, c, l)"
    using chk unfolding trail_chk_def list_all_iff by (fastforce split: option.splits)
  define len where "len = nat l"
  have l: "l = int len" "1 \<le> len" "len \<le> n" using e by (simp_all add: len_def)
  note e' = e [unfolded l(1) nat_int]
  have "consumes dec_inv dec_bits
    (\<lambda>s. do { (w, s1) \<leftarrow> BitstreamShowBits s (int n); (t, c, l) \<leftarrow> nth_opt tab (idx w);
              s2 \<leftarrow> BitstreamFlushBits s1 l; Some ((t, c), s2) }) (nat_bits len (unat code)) (t, c)"
    by (rule consumes_table [OF _ l(2,3) n]) (simp only: idx ladder_lookup [OF e'(5) l(3) n e'(4)])
  moreover have "unat code < 2 ^ len" using e'(4) unfolding uint_nat by (simp only: of_nat_less_numeral_power_cancel_iff)
  then have "enc_emits (\<lambda>s. BitstreamWriteBits malloc s (int len) code) (nat_bits len (unat code))"
    using l n by (intro enc.emits_wr) simp_all
  moreover have "(do { a \<leftarrow> nth_opt totCoeffTrailOne v; b \<leftarrow> nth_opt a t; (len, code) \<leftarrow> nth_opt b c;
      BitstreamWriteBits malloc s len code }) = BitstreamWriteBits malloc s (int len) code" for s
    using e'(1) by (auto simp: enc_trail_def bind_eq_Some_conv)
  ultimately show ?thesis unfolding coded_def by auto
qed

text \<open>The six-bit code of \<open>nC \<ge> 8\<close>.\<close>

definition flc_code :: "int \<Rightarrow> int \<Rightarrow> uint" where
  "flc_code t c = (if c \<noteq> 0 then word_of_int (push_bit 2 (c - 1) OR t) else 3)"

definition flc_value :: "uint \<Rightarrow> int \<times> int" where
  "flc_value code =
     (let t = uint (code AND 3); c0 = uint (drop_bit 2 code) + 1; c = (if c0 > 16 then 16 else c0)
      in if code = 3 then (0, c - 1) else (t, c))"

lemma flc_chk:
  "list_all (\<lambda>(t, c). uint (flc_code t c) < 64 \<and> flc_value (flc_code t c) = (t, c)) (trail_pairs 16)"
  by code_simp

lemma flc_coded:
  assumes "0 \<le> t" "t \<le> 3" "t \<le> c" "c \<le> 16"
  shows "coded (\<lambda>s. BitstreamWriteBits malloc s 6 (flc_code t c))
    (\<lambda>s. do { (code, s1) \<leftarrow> BitstreamReadBits s 6; Some (flc_value code, s1) }) (t, c)
    (nat_bits 6 (unat (flc_code t c)))"
proof -
  have "(t, c) \<in> set (trail_pairs 16)" using assms by (simp add: trail_pairs_mem)
  then have v: "uint (flc_code t c) < 64" "flc_value (flc_code t c) = (t, c)"
    using flc_chk unfolding list_all_iff by fastforce+
  let ?bs = "nat_bits 6 (unat (flc_code t c))"
  have "int (unat (flc_code t c)) < 64" using v(1) by (simp only: uint_nat)
  then have "unat (flc_code t c) < 64" by linarith
  then have u: "unat (flc_code t c) < 2 ^ 6" by simp
  have w: "bits_word ?bs = flc_code t c"
    using u by (simp add: bits_word_def bits_val_nat_bits)
  have "consumes dec_inv dec_bits (\<lambda>s. BitstreamReadBits s (int 6)) ?bs (bits_word ?bs)"
    by (rule dec.consumes_rd) simp_all
  then have "consumes dec_inv dec_bits
      (\<lambda>s. do { (code, s1) \<leftarrow> BitstreamReadBits s (int 6); Some (flc_value code, s1) }) ?bs (t, c)"
    by (rule consumes_map) (simp add: w v)
  moreover have "enc_emits (\<lambda>s. BitstreamWriteBits malloc s (int 6) (flc_code t c)) ?bs"
    using u by (intro enc.emits_wr) simp_all
  ultimately show ?thesis by (simp add: coded_def)
qed

lemma TotalCoeffTrailingOnes_coded:
  assumes "0 \<le> t" "t \<le> 3" "t \<le> c" "c \<le> 16"
  shows "\<exists>bs. coded (\<lambda>s. enc_ce_TotalCoeffTrailingOnes malloc s t c nC)
    (\<lambda>s. ce_TotalCoeffTrailingOnes s nC) (t, c) bs"
proof -
  consider "nC < 2" | "2 \<le> nC" "nC < 4" | "4 \<le> nC" "nC < 8" | "8 \<le> nC" by linarith
  then show ?thesis
  proof cases
    case 1
    then show ?thesis
      using trail_coded [OF trail_chk1 trail_ladders(1) _ assms, of malloc] assms
      by (simp add: enc_ce_TotalCoeffTrailingOnes_def ce_TotalCoeffTrailingOnes_def Let_def)
  next
    case 2
    then show ?thesis
      using trail_coded [OF trail_chk2 trail_ladders(2) _ assms, of malloc] assms
      by (simp add: enc_ce_TotalCoeffTrailingOnes_def ce_TotalCoeffTrailingOnes_def Let_def)
  next
    case 3
    then show ?thesis
      using trail_coded [OF trail_chk3 trail_ladders(3) _ assms, of malloc] assms
      by (simp add: enc_ce_TotalCoeffTrailingOnes_def ce_TotalCoeffTrailingOnes_def Let_def)
  next
    case 4
    have "enc_ce_TotalCoeffTrailingOnes malloc s t c nC = BitstreamWriteBits malloc s 6 (flc_code t c)" for s
      using 4 assms by (simp add: enc_ce_TotalCoeffTrailingOnes_def flc_code_def)
    moreover have "ce_TotalCoeffTrailingOnes s nC
        = do { (code, s1) \<leftarrow> BitstreamReadBits s 6; Some (flc_value code, s1) }" for s
      using 4 by (simp add: ce_TotalCoeffTrailingOnes_def flc_value_def Let_def)
        (intro bind_option_cong; auto)
    ultimately show ?thesis using flc_coded [OF assms, of malloc] by auto
  qed
qed

section \<open>The smaller tables, checked word by word\<close>

definition vlc_chk :: "nat \<Rightarrow> (uint \<Rightarrow> ('a \<times> int) option) \<Rightarrow> bool list \<Rightarrow> 'a \<Rightarrow> bool" where
  "vlc_chk n f bs x \<longleftrightarrow> 1 \<le> length bs \<and> length bs \<le> n \<and> n \<le> 31 \<and>
     list_all (\<lambda>u. f (bits_word (bs @ u)) = Some (x, int (length bs)))
       (List.n_lists (n - length bs) [False, True])"

lemma vlc_chkD:
  assumes "vlc_chk n f bs x"
  shows "consumes dec_inv dec_bits
    (\<lambda>s. do { (w, s1) \<leftarrow> BitstreamShowBits s (int n); (y, l) \<leftarrow> f w; s2 \<leftarrow> BitstreamFlushBits s1 l; Some (y, s2) })
    bs x"
proof (rule dec.consumes_vlc)
  fix u :: "bool list" assume "length u = n - length bs"
  then have "u \<in> set (List.n_lists (n - length bs) [False, True])" by (auto simp: set_n_lists)
  then show "f (bits_word (bs @ u)) = Some (x, int (length bs))"
    using assms by (simp add: vlc_chk_def list_all_iff)
qed (use assms in \<open>auto simp: vlc_chk_def\<close>)

text \<open>The encoder's side: a length and a code that fits it.\<close>

definition code_bits :: "int \<times> uint \<Rightarrow> bool list" where
  "code_bits e = nat_bits (nat (fst e)) (unat (snd e))"

definition code_ok :: "int \<times> uint \<Rightarrow> bool" where
  "code_ok e \<longleftrightarrow> 1 \<le> fst e \<and> fst e \<le> 31 \<and> uint (snd e) < 2 ^ nat (fst e)"

lemma code_ok_emits:
  assumes "code_ok (l, code)"
  shows "enc_emits (\<lambda>s. BitstreamWriteBits malloc s l code) (code_bits (l, code))"
proof -
  have u: "unat code < 2 ^ nat l"
    using assms unfolding code_ok_def uint_nat by (simp only: of_nat_less_numeral_power_cancel_iff snd_conv fst_conv)
  have l: "int (nat l) = l" "1 \<le> nat l" "nat l \<le> 31" using assms by (auto simp: code_ok_def)
  show ?thesis unfolding code_bits_def fst_conv snd_conv
    using enc.emits_wr [OF l(2,3) u, of malloc] unfolding l(1) .
qed

subsection \<open>Chroma DC coefficients\<close>

definition enc_trail_chroma :: "int \<Rightarrow> int \<Rightarrow> (int \<times> uint) option" where
  "enc_trail_chroma t c = do { a \<leftarrow> nth_opt totCoeffTrailOneChrom t; nth_opt a c }"

definition trail_chroma_entry :: "uint \<Rightarrow> ((int \<times> int) \<times> int) option" where
  "trail_chroma_entry w = do { (t, c, l) \<leftarrow> nth_opt TotCofNTrail5 (TotCofNTrail5_index w); Some ((t, c), l) }"

lemma trail_chroma_chk:
  "list_all (\<lambda>(t, c). case enc_trail_chroma t c of None \<Rightarrow> False
     | Some e \<Rightarrow> code_ok e \<and> vlc_chk 8 trail_chroma_entry (code_bits e) (t, c)) (trail_pairs 4)"
  by code_simp

subsection \<open>Total zeros\<close>

definition enc_total_zeros :: "int \<Rightarrow> int \<Rightarrow> (int \<times> uint) option" where
  "enc_total_zeros tz tc =
     do { lens \<leftarrow> nth_opt lenTotalZeros (tc - 1); len \<leftarrow> nth_opt lens tz;
          codes \<leftarrow> nth_opt codTotalZeros (tc - 1); code \<leftarrow> nth_opt codes tz; Some (len, code) }"

lemma total_zeros_chk:
  "list_all (\<lambda>tc. list_all (\<lambda>tz. case enc_total_zeros tz tc of None \<Rightarrow> False
     | Some e \<Rightarrow> code_ok e \<and> vlc_chk (nat (TotalZeros_show tc)) (TotalZeros_entry tc) (code_bits e) tz)
     [0 .. 16 - tc]) [1 .. 15]"
  by code_simp

definition enc_total_zeros_chroma :: "int \<Rightarrow> int \<Rightarrow> (int \<times> uint) option" where
  "enc_total_zeros_chroma tz tc =
     do { lens \<leftarrow> nth_opt lenTotalZerosChromaDC (tc - 1); len \<leftarrow> nth_opt lens tz;
          codes \<leftarrow> nth_opt codTotalZerosChromaDC (tc - 1); code \<leftarrow> nth_opt codes tz; Some (len, code) }"

definition total_zeros_chroma_entry :: "int \<Rightarrow> uint \<Rightarrow> (int \<times> int) option" where
  "total_zeros_chroma_entry tc w = do { tab \<leftarrow> nth_opt TotZeroChrom1to3 (tc - 1); nth_opt tab (uint w) }"

lemma total_zeros_chroma_chk:
  "list_all (\<lambda>tc. list_all (\<lambda>tz. case enc_total_zeros_chroma tz tc of None \<Rightarrow> False
     | Some e \<Rightarrow> code_ok e \<and> vlc_chk 3 (total_zeros_chroma_entry tc) (code_bits e) tz)
     [0 .. 4 - tc]) [1 .. 3]"
  by code_simp

subsection \<open>Runs\<close>

definition enc_run :: "int \<Rightarrow> int \<Rightarrow> (int \<times> uint) option" where
  "enc_run rb row =
     do { lens \<leftarrow> nth_opt lenRunBefore row; len \<leftarrow> nth_opt lens rb;
          codes \<leftarrow> nth_opt codRunBefore row; code \<leftarrow> nth_opt codes rb; Some (len, code) }"

definition run_entry :: "int \<Rightarrow> uint \<Rightarrow> (int \<times> int) option" where
  "run_entry zl w = do { tab \<leftarrow> nth_opt RunBeforeTab (zl - 1); nth_opt tab (uint w) }"

lemma run_chk:
  "list_all (\<lambda>zl. case nth_opt codlen (zl - 1) of None \<Rightarrow> False
     | Some n \<Rightarrow> 0 \<le> n \<and> list_all (\<lambda>rb. case enc_run rb (zl - 1) of None \<Rightarrow> False
        | Some e \<Rightarrow> code_ok e \<and> vlc_chk (nat n) (run_entry zl) (code_bits e) rb) [0 .. zl]) [1 .. 6]"
  by code_simp

text \<open>Runs with more than six zeros left: three bits, or as many zeros as the run exceeds six.\<close>

lemma run_long_chk:
  "list_all (\<lambda>rb. case enc_run rb 6 of None \<Rightarrow> False
     | Some e \<Rightarrow> code_ok e \<and>
        (if rb < 7 then code_bits e = nat_bits 3 (nat (7 - rb))
         else code_bits e = replicate (nat (rb - 4)) False @ [True])) [0 .. 14]"
  by code_simp

subsection \<open>The elements\<close>

lemma TotalCoeffTrailingOnesChromaDC_coded:
  assumes "0 \<le> t" "t \<le> 3" "t \<le> c" "c \<le> 4"
  shows "\<exists>bs. coded (\<lambda>s. enc_ce_TotalCoeffTrailingOnesChromaDC malloc s t c)
    ce_TotalCoeffTrailingOnesChromaDC (t, c) bs"
proof -
  have "(t, c) \<in> set (trail_pairs 4)" using assms by (simp add: trail_pairs_mem)
  then obtain l code where e: "enc_trail_chroma t c = Some (l, code)" "code_ok (l, code)"
      "vlc_chk 8 trail_chroma_entry (code_bits (l, code)) (t, c)"
    using trail_chroma_chk unfolding list_all_iff by (fastforce split: option.splits)
  have "enc_ce_TotalCoeffTrailingOnesChromaDC malloc s t c = BitstreamWriteBits malloc s l code" for s
    using e(1) by (auto simp: enc_trail_chroma_def enc_ce_TotalCoeffTrailingOnesChromaDC_def bind_eq_Some_conv)
  moreover have "ce_TotalCoeffTrailingOnesChromaDC = (\<lambda>s. do { (w, s1) \<leftarrow> BitstreamShowBits s (int 8);
      (y, l) \<leftarrow> trail_chroma_entry w; s2 \<leftarrow> BitstreamFlushBits s1 l; Some (y, s2) })"
    by (simp add: fun_eq_iff ce_TotalCoeffTrailingOnesChromaDC_def trail_chroma_entry_def case_prod_unfold)
  ultimately show ?thesis
    unfolding coded_def using code_ok_emits [OF e(2), of malloc] vlc_chkD [OF e(3)] by auto
qed

lemma TotalZeros_coded:
  assumes "1 \<le> tc" "tc \<le> 15" "0 \<le> tz" "tz \<le> 16 - tc"
  shows "\<exists>bs. coded (\<lambda>s. enc_ce_TotalZeros malloc s tz tc) (\<lambda>s. ce_TotalZeros s tc) tz bs"
proof -
  obtain l code where e: "enc_total_zeros tz tc = Some (l, code)" "code_ok (l, code)"
      "vlc_chk (nat (TotalZeros_show tc)) (TotalZeros_entry tc) (code_bits (l, code)) tz"
    using total_zeros_chk assms unfolding list_all_iff by (fastforce split: option.splits)
  have "enc_ce_TotalZeros malloc s tz tc = BitstreamWriteBits malloc s l code" for s
    using e(1) by (auto simp: enc_total_zeros_def enc_ce_TotalZeros_def bind_eq_Some_conv)
  moreover have "int (nat (TotalZeros_show tc)) = TotalZeros_show tc"
    using assms by (simp add: TotalZeros_show_def)
  ultimately show ?thesis
    unfolding coded_def ce_TotalZeros_def using code_ok_emits [OF e(2), of malloc] vlc_chkD [OF e(3)] by auto
qed

lemma TotalZerosChromaDC_coded:
  assumes "1 \<le> tc" "tc \<le> 3" "0 \<le> tz" "tz \<le> 4 - tc"
  shows "\<exists>bs. coded (\<lambda>s. enc_ce_TotalZerosChromaDC malloc s tz tc) (\<lambda>s. ce_TotalZerosChromaDC s tc) tz bs"
proof -
  obtain l code where e: "enc_total_zeros_chroma tz tc = Some (l, code)" "code_ok (l, code)"
      "vlc_chk 3 (total_zeros_chroma_entry tc) (code_bits (l, code)) tz"
    using total_zeros_chroma_chk assms unfolding list_all_iff by (fastforce split: option.splits)
  have "enc_ce_TotalZerosChromaDC malloc s tz tc = BitstreamWriteBits malloc s l code" for s
    using e(1) by (auto simp: enc_total_zeros_chroma_def enc_ce_TotalZerosChromaDC_def bind_eq_Some_conv)
  moreover have "(\<lambda>s. ce_TotalZerosChromaDC s tc) = (\<lambda>s. do { (w, s1) \<leftarrow> BitstreamShowBits s (int 3);
      (y, l) \<leftarrow> total_zeros_chroma_entry tc w; s2 \<leftarrow> BitstreamFlushBits s1 l; Some (y, s2) })"
    by (simp add: fun_eq_iff ce_TotalZerosChromaDC_def total_zeros_chroma_entry_def case_prod_unfold)
  ultimately show ?thesis
    unfolding coded_def using code_ok_emits [OF e(2), of malloc] vlc_chkD [OF e(3)] by auto
qed

lemma RunBefore_short_coded:
  assumes "1 \<le> zl" "zl \<le> 6" "0 \<le> rb" "rb \<le> zl"
  shows "\<exists>bs. coded (\<lambda>s. enc_ce_RunBefore malloc s rb zl) (\<lambda>s. ce_RunBefore s zl) rb bs"
proof -
  have "zl \<in> set [1 .. 6]" using assms by simp
  then obtain n where n: "nth_opt codlen (zl - 1) = Some n" "0 \<le> n"
      "list_all (\<lambda>rb. case enc_run rb (zl - 1) of None \<Rightarrow> False
        | Some e \<Rightarrow> code_ok e \<and> vlc_chk (nat n) (run_entry zl) (code_bits e) rb) [0 .. zl]"
    using run_chk unfolding list_all_iff [of _ "[1 .. 6]"] by (fastforce split: option.splits)
  have "rb \<in> set [0 .. zl]" using assms by simp
  then obtain l code where e: "enc_run rb (zl - 1) = Some (l, code)" "code_ok (l, code)"
      "vlc_chk (nat n) (run_entry zl) (code_bits (l, code)) rb"
    using n(3) unfolding list_all_iff by (fastforce split: option.splits)
  have "enc_ce_RunBefore malloc s rb zl = BitstreamWriteBits malloc s l code" for s
    using e(1) assms by (auto simp: enc_run_def enc_ce_RunBefore_def bind_eq_Some_conv Let_def)
  moreover have "(\<lambda>s. ce_RunBefore s zl) = (\<lambda>s. do { (w, s1) \<leftarrow> BitstreamShowBits s (int (nat n));
      (y, l) \<leftarrow> run_entry zl w; s2 \<leftarrow> BitstreamFlushBits s1 l; Some (y, s2) })"
    using n(1,2) assms by (simp add: fun_eq_iff ce_RunBefore_def run_entry_def case_prod_unfold)
  ultimately show ?thesis
    unfolding coded_def using code_ok_emits [OF e(2), of malloc] vlc_chkD [OF e(3)] by auto
qed

text \<open>
  The escape of \<open>ce_RunBefore\<close>, and \<open>ce_LevelPrefix\<close>, count zeros in a shown word.
\<close>

lemma LevelPrefix_consumes:
  assumes "k \<le> 15"
  shows "consumes dec_inv dec_bits ce_LevelPrefix (replicate k False @ [True]) (int k)"
proof -
  let ?bs = "replicate k False @ [True]"
  have "consumes dec_inv dec_bits
    (\<lambda>s. do { (w, s1) \<leftarrow> BitstreamShowBits s (int 16);
              (y, l) \<leftarrow> do { z \<leftarrow> PV_CLZ 0 (w OR 1); Some (z, z + 1) };
              s2 \<leftarrow> BitstreamFlushBits s1 l; Some (y, s2) }) ?bs (int k)"
  proof (rule dec.consumes_vlc)
    fix t :: "bool list" assume "length t = 16 - length ?bs"
    then have "PV_CLZ 0 (bits_word (replicate k False @ True # t) OR 1) = Some (int k)"
      using PV_CLZ_shown [of t k 0] assms by simp
    then show "do { z \<leftarrow> PV_CLZ 0 (bits_word (?bs @ t) OR 1); Some (z, z + 1) } = Some (int k, int (length ?bs))"
      by simp
  qed (use assms in simp_all)
  moreover have "ce_LevelPrefix = (\<lambda>s. do { (w, s1) \<leftarrow> BitstreamShowBits s (int 16);
              (y, l) \<leftarrow> do { z \<leftarrow> PV_CLZ 0 (w OR 1); Some (z, z + 1) };
              s2 \<leftarrow> BitstreamFlushBits s1 l; Some (y, s2) })"
    by (simp add: fun_eq_iff ce_LevelPrefix_def case_prod_unfold)
  ultimately show ?thesis by simp
qed

lemma run_escape:
  assumes "k \<le> 7" and "length t = 8 - k"
  shows "PV_CLZ 0 (push_bit 7 (bits_word (replicate k False @ True # t)) OR 1) = Some (int k)"
proof -
  let ?bs = "replicate k False @ True # t"
  have "push_bit 7 (bits_word ?bs) = bits_word (?bs @ replicate 7 False)"
    by (simp add: bits_word_def bits_val_append push_bit_eq_mult power_add)
  moreover have "length (t @ replicate 7 False) = 15 - k" using assms by simp
  ultimately show ?thesis using PV_CLZ_shown [of "t @ replicate 7 False" k 0] assms by simp
qed

lemma RunBefore_escape_consumes:
  assumes "k \<le> 7" and "6 < zl"
  shows "consumes dec_inv dec_bits (\<lambda>s. ce_RunBefore s zl) (replicate (k + 3) False @ [True]) (7 + int k)"
proof -
  let ?bs = "replicate k False @ [True]"
  have esc: "consumes dec_inv dec_bits
    (\<lambda>s. do { (w, s1) \<leftarrow> BitstreamShowBits s (int 9);
              (y, l) \<leftarrow> do { z \<leftarrow> PV_CLZ 0 (push_bit 7 w OR 1); Some (7 + z, z + 1) };
              s2 \<leftarrow> BitstreamFlushBits s1 l; Some (y, s2) }) ?bs (7 + int k)"
    (is "consumes _ _ ?esc _ _")
  proof (rule dec.consumes_vlc)
    fix t :: "bool list" assume "length t = 9 - length ?bs"
    then have "PV_CLZ 0 (push_bit 7 (bits_word (?bs @ t)) OR 1) = Some (int k)"
      using run_escape [OF assms(1), of t] by simp
    then show "do { z \<leftarrow> PV_CLZ 0 (push_bit 7 (bits_word (?bs @ t)) OR 1); Some (7 + z, z + 1) }
        = Some (7 + int k, int (length ?bs))"
      by simp
  qed (use assms in simp_all)
  have "consumes dec_inv dec_bits (\<lambda>s. BitstreamReadBits s (int 3)) (replicate 3 False)
      (bits_word (replicate 3 False))"
    by (rule dec.consumes_rd) simp_all
  then have rd3: "consumes dec_inv dec_bits (\<lambda>s. BitstreamReadBits s 3) (replicate 3 False) 0"
    by (simp add: bits_word_def)
  define q where "q v = (if v \<noteq> 0 then (\<lambda>t. Some (7 - uint v, t)) else ?esc)" for v :: uint
  have "q 0 = ?esc" by (simp add: q_def)
  then have "consumes dec_inv dec_bits (q 0) ?bs (7 + int k)" using esc by (simp only:)
  then have "consumes dec_inv dec_bits
      (\<lambda>s. Option.bind (BitstreamReadBits s 3) (\<lambda>(v, t). q v t)) (replicate 3 False @ ?bs) (7 + int k)"
    by (rule consumes_bind [OF rd3])
  moreover have "replicate 3 False @ ?bs = replicate (k + 3) False @ [True]"
    by (metis add.commute append_assoc replicate_add)
  moreover have "(\<lambda>s. ce_RunBefore s zl) = (\<lambda>s. Option.bind (BitstreamReadBits s 3) (\<lambda>(v, t). q v t))"
    using assms(2) by (simp add: fun_eq_iff ce_RunBefore_def q_def case_prod_unfold)
      (auto intro!: bind_option_cong)
  ultimately show ?thesis by simp
qed

lemma RunBefore_three_bits:
  assumes "0 \<le> rb" "rb < 7" and "6 < zl"
  shows "consumes dec_inv dec_bits (\<lambda>s. ce_RunBefore s zl) (nat_bits 3 (nat (7 - rb))) rb"
proof -
  define w :: uint where "w = of_nat (nat (7 - rb))"
  have "unat w = nat (7 - rb)" unfolding w_def by (rule unat_of_nat_small) (use assms in simp)
  then have "int (unat w) = 7 - rb" using assms by simp
  then have u: "uint w = 7 - rb" by (simp only: uint_nat)
  then have w0: "w \<noteq> 0" using assms(2) by auto
  have "bits_word (nat_bits 3 (nat (7 - rb))) = w"
    using assms by (simp add: bits_word_def bits_val_nat_bits w_def)
  moreover have "consumes dec_inv dec_bits (\<lambda>s. BitstreamReadBits s (int 3)) (nat_bits 3 (nat (7 - rb)))
      (bits_word (nat_bits 3 (nat (7 - rb))))"
    by (rule dec.consumes_rd) simp_all
  ultimately have "consumes dec_inv dec_bits (\<lambda>s. BitstreamReadBits s 3) (nat_bits 3 (nat (7 - rb))) w" by simp
  then show ?thesis
    using assms(3) w0 u by (fastforce simp: consumes_def ce_RunBefore_def)
qed

lemma RunBefore_coded:
  assumes "1 \<le> zl" "0 \<le> rb" "rb \<le> zl" "rb \<le> 14"
  shows "\<exists>bs. coded (\<lambda>s. enc_ce_RunBefore malloc s rb zl) (\<lambda>s. ce_RunBefore s zl) rb bs"
proof (cases "zl \<le> 6")
  case True
  then show ?thesis using RunBefore_short_coded assms by simp
next
  case False
  have "rb \<in> set [0 .. 14]" using assms by simp
  then obtain l code where e: "enc_run rb 6 = Some (l, code)" "code_ok (l, code)"
      "if rb < 7 then code_bits (l, code) = nat_bits 3 (nat (7 - rb))
       else code_bits (l, code) = replicate (nat (rb - 4)) False @ [True]"
    using run_long_chk unfolding list_all_iff by (fastforce split: option.splits)
  have enc: "enc_emits (\<lambda>s. enc_ce_RunBefore malloc s rb zl) (code_bits (l, code))"
  proof -
    have "enc_ce_RunBefore malloc s rb zl = BitstreamWriteBits malloc s l code" for s
      using e(1) False by (auto simp: enc_run_def enc_ce_RunBefore_def bind_eq_Some_conv Let_def)
    then show ?thesis using code_ok_emits [OF e(2)] by simp
  qed
  have "consumes dec_inv dec_bits (\<lambda>s. ce_RunBefore s zl) (code_bits (l, code)) rb"
  proof (cases "rb < 7")
    case True
    then show ?thesis using e(3) RunBefore_three_bits [of rb zl] False assms by simp
  next
    case long: False
    have "nat (rb - 4) = nat (rb - 7) + 3" "7 + int (nat (rb - 7)) = rb" "nat (rb - 7) \<le> 7"
      using long assms by simp_all
    then show ?thesis using e(3) RunBefore_escape_consumes [of "nat (rb - 7)" zl] long False by simp
  qed
  then show ?thesis using enc unfolding coded_def by blast
qed

section \<open>Coded block pattern\<close>

text \<open>The two maps of Table 9-4 are inverse to each other, for intra 4x4 and for the other modes.\<close>

lemma MapCBP_inverse:
  "list_all (\<lambda>cbp. case nth_opt MapCBP2code cbp of None \<Rightarrow> False
     | Some (a, b) \<Rightarrow> a \<le> 47 \<and> b \<le> 47
         \<and> (case nth_opt MapCBP (uint a) of None \<Rightarrow> False | Some (x, y) \<Rightarrow> uint x = cbp)
         \<and> (case nth_opt MapCBP (uint b) of None \<Rightarrow> False | Some (x, y) \<Rightarrow> uint y = cbp)) [0 .. 47]"
  by code_simp

lemma CBP_coded:
  assumes "CBP mb \<le> 47"
  shows "\<exists>bs. coded (EncodeCBP malloc mb)
    (\<lambda>s. do { (st, mb', s') \<leftarrow> DecodeCBP (mb\<lparr>CBP := c0\<rparr>) s; Some ((st, mb'), s') })
    (AVCDEC_SUCCESS, mb) bs"
proof -
  define cbp where "cbp = uint (CBP mb)"
  have "cbp \<in> set [0 .. 47]" using assms unfolding cbp_def word_le_def by simp
  then have chk: "case nth_opt MapCBP2code cbp of None \<Rightarrow> False
     | Some (a, b) \<Rightarrow> a \<le> 47 \<and> b \<le> 47
         \<and> (case nth_opt MapCBP (uint a) of None \<Rightarrow> False | Some (x, y) \<Rightarrow> uint x = cbp)
         \<and> (case nth_opt MapCBP (uint b) of None \<Rightarrow> False | Some (x, y) \<Rightarrow> uint y = cbp)"
    using MapCBP_inverse unfolding list_all_iff by (rule bspec [rotated])
  obtain a b where ab: "nth_opt MapCBP2code cbp = Some (a, b)"
    using chk by (cases "nth_opt MapCBP2code cbp") auto
  note ab = ab chk [unfolded ab option.case prod.case, THEN conjunct1]
    chk [unfolded ab option.case prod.case, THEN conjunct2, THEN conjunct1]
    chk [unfolded ab option.case prod.case, THEN conjunct2, THEN conjunct2, THEN conjunct1]
    chk [unfolded ab option.case prod.case, THEN conjunct2, THEN conjunct2, THEN conjunct2]
  define k where "k = (if mbMode mb = AVC_I4 then a else b)"
  have k: "k \<le> 47" using ab by (simp add: k_def)
  have "unat k \<le> 47" using k by (simp add: word_le_nat_alt)
  then have "unat k + 1 < 2 ^ 31" "unat k < 65535" by simp_all
  from enc_ue_v_emits [OF this(1), of malloc] ue_v_consumes [OF this(2)]
  have e: "enc_emits (\<lambda>s. enc_ue_v malloc s k) (eg_bits (unat k))"
    and d: "consumes dec_inv dec_bits ue_v (eg_bits (unat k)) k" by simp_all
  have "EncodeCBP malloc mb = (\<lambda>s. enc_ue_v malloc s k)"
    using ab(1) by (simp add: fun_eq_iff EncodeCBP_def k_def flip: cbp_def)
  moreover obtain p where p: "nth_opt MapCBP (uint k) = Some p"
      "(if mbMode mb = AVC_I4 then fst p else snd p) = CBP mb"
    using ab(4,5) by (cases "mbMode mb = AVC_I4") (auto simp: k_def cbp_def dest!: word_uint_eqI split: option.splits)
  have "consumes dec_inv dec_bits
      (\<lambda>s. do { (st, mb', s') \<leftarrow> DecodeCBP (mb\<lparr>CBP := c0\<rparr>) s; Some ((st, mb'), s') })
      (eg_bits (unat k)) (AVCDEC_SUCCESS, mb)"
  proof (rule consumesI)
    fix s rest assume "dec_inv s" "dec_bits s = eg_bits (unat k) @ rest"
    then obtain s' where "ue_v s = Some (k, s')" "dec_inv s'" "dec_bits s' = rest"
      by (rule consumesE [OF d])
    then show "\<exists>s'. (do { (st, mb', s') \<leftarrow> DecodeCBP (mb\<lparr>CBP := c0\<rparr>) s; Some ((st, mb'), s') })
        = Some ((AVCDEC_SUCCESS, mb), s') \<and> dec_inv s' \<and> dec_bits s' = rest"
      using p k by (auto simp: DecodeCBP_def Let_def)
  qed
  ultimately show ?thesis using e unfolding coded_def by auto
qed

end
