(* ===== verification/CavlcProps.thy ===== *)
theory CavlcProps
  imports CavlcRoundtrip StreamProps
begin

text \<open>
  The properties of the variable-length codes of the macroblock layer: for every value the encoder can
  meet there is a bit string that its function emits and that the decoder's function consumes, answering
  the value (\<open>coded\<close>).
\<close>

text \<open>C21: \<open>ce_TotalCoeffTrailingOnes\<close>: every pair of trailing ones and total coefficients of a 4x4 block
  survives, for each of the four tables that the number of neighbouring coefficients selects.\<close>

theorem TotalCoeff_roundtrip:
  assumes "0 \<le> t" "t \<le> 3" "t \<le> c" "c \<le> 16"
  shows "\<exists>bs. coded (\<lambda>s. enc_ce_TotalCoeffTrailingOnes malloc s t c nC) (\<lambda>s. ce_TotalCoeffTrailingOnes s nC) (t, c) bs"
  by (rule TotalCoeffTrailingOnes_coded [OF assms])

lemma TotalCoeff_roundtrip_witness:
  "\<exists>bs. coded (\<lambda>s. enc_ce_TotalCoeffTrailingOnes demo_malloc s 2 5 3) (\<lambda>s. ce_TotalCoeffTrailingOnes s 3) (2, 5) bs"
  by (rule TotalCoeff_roundtrip) simp_all

text \<open>C36: \<open>ce_TotalZeros\<close>: the number of zeros before the last coefficient survives for each of the
  fifteen tables.\<close>

theorem TotalZeros_roundtrip:
  assumes "1 \<le> tc" "tc \<le> 15" "0 \<le> tz" "tz \<le> 16 - tc"
  shows "\<exists>bs. coded (\<lambda>s. enc_ce_TotalZeros malloc s tz tc) (\<lambda>s. ce_TotalZeros s tc) tz bs"
  by (rule TotalZeros_coded [OF assms])

lemma TotalZeros_roundtrip_witness:
  "\<exists>bs. coded (\<lambda>s. enc_ce_TotalZeros demo_malloc s 7 4) (\<lambda>s. ce_TotalZeros s 4) 7 bs"
  by (rule TotalZeros_roundtrip) simp_all

text \<open>C37: \<open>ce_RunBefore\<close>: every run of zeros survives, with the tables for one to six zeros left and the
  open-ended code for more.\<close>

theorem RunBefore_roundtrip:
  assumes "1 \<le> zl" "0 \<le> rb" "rb \<le> zl" "rb \<le> 14"
  shows "\<exists>bs. coded (\<lambda>s. enc_ce_RunBefore malloc s rb zl) (\<lambda>s. ce_RunBefore s zl) rb bs"
  by (rule RunBefore_coded [OF assms])

lemma RunBefore_roundtrip_witness:
  "\<exists>bs. coded (\<lambda>s. enc_ce_RunBefore demo_malloc s 9 11) (\<lambda>s. ce_RunBefore s 11) 9 bs"
  by (rule RunBefore_roundtrip) simp_all

text \<open>C38: the coded block pattern of a macroblock, intra or inter, that \<open>EncodeCBP\<close> writes is what
  \<open>DecodeCBP\<close> stores in the macroblock: the two tables are inverse to each other.\<close>

theorem CBP_roundtrip:
  assumes "CBP mb \<le> 47"
  shows "\<exists>bs. coded (EncodeCBP malloc mb)
    (\<lambda>s. do { (st, mb', s') \<leftarrow> DecodeCBP (mb\<lparr>CBP := c0\<rparr>) s; Some ((st, mb'), s') }) (AVCDEC_SUCCESS, mb) bs"
  by (rule CBP_coded [OF assms])

definition demo_mb :: AVCMacroblock where
  "demo_mb = blank_mb\<lparr>mbMode := AVC_I4, CBP := 29\<rparr>"

lemma CBP_roundtrip_witness:
  "\<exists>bs. coded (EncodeCBP demo_malloc demo_mb)
    (\<lambda>s. do { (st, mb', s') \<leftarrow> DecodeCBP (demo_mb\<lparr>CBP := 0\<rparr>) s; Some ((st, mb'), s') }) (AVCDEC_SUCCESS, demo_mb) bs"
  by (rule CBP_roundtrip) (simp add: demo_mb_def)

end
