(* ===== verification/DpbProps.thy ===== *)
theory DpbProps
  imports Samples
begin

text \<open>
  The properties of the decoded picture buffer, with witnesses at a buffer of three frames.
\<close>

section \<open>Storing a picture\<close>

text \<open>C12: \<open>StorePictureInDPB\<close>, with any of its marking processes and any slice header, keeps the buffer
  well formed, and the application is only told to take back frames that are neither the current one
  nor a reference and that have been output.\<close>

theorem Store_keeps_marking:
  assumes "marking_inv v"
  shows "marking_inv (snd (StorePictureInDPB sps h v)) \<and> num_fs (snd (StorePictureInDPB sps h v)) = num_fs v
     \<and> currFS (snd (StorePictureInDPB sps h v)) = currFS v"
  using StorePictureInDPB_inv [OF assms, of sps h] by (simp add: marking_of_def)

lemma Store_keeps_marking_witness:
  "marking_inv (snd (StorePictureInDPB (demo_sps 2) demo_hdr demo_p))
     \<and> num_fs (snd (StorePictureInDPB (demo_sps 2) demo_hdr demo_p)) = num_fs demo_p
     \<and> currFS (snd (StorePictureInDPB (demo_sps 2) demo_hdr demo_p)) = currFS demo_p"
  by (rule Store_keeps_marking [OF demo_p_inv])



text \<open>C35: a stored picture never leaves more references in the buffer than the sequence allows: when
  \<open>StorePictureInDPB\<close> succeeds, at most \<open>num_ref_frames\<close> frames are marked.\<close>

theorem Store_bounds_refs:
  assumes "StorePictureInDPB sps h v = (AVC_SUCCESS, v')"
  shows "int (card {i. i < num_fs v' \<and> IsReference (fs v' ! i) \<noteq> 0}) \<le> num_ref_frames sps"
  using StorePictureInDPB_refs [of sps h v] by (simp add: assms)

lemma store_demo_p: "\<exists>v'. StorePictureInDPB (demo_sps 2) demo_hdr demo_p = (AVC_SUCCESS, v')"
  using StorePictureInDPB_sliding [OF demo_p_inv _ _ _ _ _ demo_p_wrap, of demo_hdr "demo_sps 2"]
  by (auto simp: demo_sets(2) demo_p_nums demo_sps_def)

lemma Store_bounds_refs_witness:
  "\<exists>v'. StorePictureInDPB (demo_sps 2) demo_hdr demo_p = (AVC_SUCCESS, v')
     \<and> int (card {i. i < num_fs v' \<and> IsReference (fs v' ! i) \<noteq> 0}) \<le> num_ref_frames (demo_sps 2)"
  using store_demo_p Store_bounds_refs by blast

text \<open>C34: an IDR picture empties the buffer: afterwards the current frame is the only reference, whatever
  the two IDR flags say, and the released frames are reported.\<close>

theorem Store_IDR_empties:
  assumes "marking_inv v"
  shows "marking_inv (store_IDR h v) \<and> {i. i < num_fs v \<and> IsReference (fs (store_IDR h v) ! i) \<noteq> 0} = {currFS v}"
  using store_IDR_inv [OF assms, of h] marking_inv_num [OF assms]
  by (auto simp: idr_inv_def marking_of_def)

lemma Store_IDR_empties_witness:
  "marking_inv (store_IDR demo_hdr demo_p)
     \<and> {i. i < num_fs demo_p \<and> IsReference (fs (store_IDR demo_hdr demo_p) ! i) \<noteq> 0} = {currFS demo_p}"
  by (rule Store_IDR_empties [OF demo_p_inv])

section \<open>Control operations\<close>

text \<open>C25: no two long-term frames ever share a long-term frame index, whatever list of control operations
  a slice header carries.\<close>

theorem marking_keeps_lt_distinct:
  assumes "lt_distinct v" and "num_fs v = length (fs v)"
  shows "lt_distinct (snd (adaptive_memory_marking h v))"
  using lt_distinct_loop [OF assms, of h 0] by (auto simp: adaptive_memory_marking_def split: prod.splits)

lemma marking_keeps_lt_distinct_witness: "lt_distinct (snd (adaptive_memory_marking demo_hdr demo_lt))"
  by (rule marking_keeps_lt_distinct [OF _ demo_lt_wf])
    (auto simp: lt_distinct_def demo_defs less_Suc_eq)

section \<open>Frames\<close>

text \<open>\<open>InitDPB\<close> allocates more frames than the sequence has references, at most seventeen, all free,
  and its byte count comes out as the size it computed.\<close>

theorem InitDPB_frames:
  assumes "\<And>i. alloc i \<noteq> None" and "dpb_capacity (level_idc sps) (h * w) = Some n0"
    and "0 \<le> num_ref_frames sps" and "num_ref_frames sps \<le> 16"
  shows "\<exists>v'. InitDPB alloc sps h w padding v = Some (AVC_SUCCESS, v')
     \<and> num_fs v' = length (fs v') \<and> num_ref_frames sps < int (num_fs v') \<and> num_fs v' \<le> MAX_FS
     \<and> list_all free_store (fs v') \<and> used_size v' = dpb_size v'"
  by (rule InitDPB_spec [OF assms])

lemma InitDPB_frames_witness:
  "\<exists>v'. InitDPB (\<lambda>i. Some (demo_store 0 0 0 (int i))) (demo_sps 3) 9 11 True demo_p = Some (AVC_SUCCESS, v')
     \<and> num_fs v' = length (fs v') \<and> num_ref_frames (demo_sps 3) < int (num_fs v') \<and> num_fs v' \<le> MAX_FS
     \<and> list_all free_store (fs v') \<and> used_size v' = dpb_size v'"
  by (rule InitDPB_frames [of "\<lambda>i. Some (demo_store 0 0 0 (int i))" "demo_sps 3" 9 11 "the (dpb_capacity 10 99)"]) (simp_all add: demo_sps_def dpb_capacity_def mapLev2Idx_def MaxDPBX2_def)

text \<open>\<open>DPBInitBuffer\<close> finds the first free frame whenever fewer frames are references than there are
  and the others have been output.\<close>

theorem DPBInitBuffer_succeeds:
  assumes "card {i. i < num_fs v \<and> IsReference (fs v ! i) \<noteq> 0} < num_fs v"
    and "\<And>i. i < num_fs v \<Longrightarrow> IsReference (fs v ! i) = 0 \<Longrightarrow> IsOutputted (fs v ! i) = 3"
    and "\<And>i. fbind i \<noteq> None"
  shows "\<exists>ii v'. DPBInitBuffer fbind v = (AVC_SUCCESS, v') \<and> currFS v' = ii \<and> ii < num_fs v
     \<and> IsReference (fs v ! ii) = 0 \<and> IsOutputted (fs v ! ii) = 3
     \<and> (\<forall>jj < ii. IsReference (fs v ! jj) \<noteq> 0)"
  by (rule DPBInitBuffer_finds [OF assms])

definition demo_free :: AVCCommonObj where
  "demo_free = demo_video [demo_store 3 0 1 2, demo_store 0 0 3 1, demo_store 0 0 3 0] 0 False"

lemma DPBInitBuffer_succeeds_witness:
  "\<exists>ii v'. DPBInitBuffer (\<lambda>i. Some 0) demo_free = (AVC_SUCCESS, v') \<and> currFS v' = ii \<and> ii < num_fs demo_free
     \<and> IsReference (fs demo_free ! ii) = 0 \<and> IsOutputted (fs demo_free ! ii) = 3
     \<and> (\<forall>jj < ii. IsReference (fs demo_free ! jj) \<noteq> 0)"
proof (rule DPBInitBuffer_succeeds)
  have "{i. i < num_fs demo_free \<and> IsReference (fs demo_free ! i) \<noteq> 0} = {0}"
    by (auto simp: demo_free_def demo_defs less_Suc_eq)
  then show "card {i. i < num_fs demo_free \<and> IsReference (fs demo_free ! i) \<noteq> 0} < num_fs demo_free"
    by (simp add: demo_free_def demo_video_def)
qed (auto simp: demo_free_def demo_defs less_Suc_eq)

end
