(* ===== verification/RefListOrder.thy ===== *)
theory RefListOrder
  imports RefList DpbMarking "HOL-Library.Multiset"
begin

text \<open>
  The order of the reference lists. The contract of the exchange sorts is the locale \<open>sort_order\<close>: a
  strict weak order, under which a sort permutes the entries it is given and leaves them in order.
  Every comparison of \<open>reflist.cpp\<close> interprets it. On it rest the order of the initial list of a P
  slice and, with the two list loops, the effect of one reordering command.
\<close>

section \<open>The exchange sort under a strict weak order\<close>

lemma take_eq_nth: "take i xs = take i ys \<Longrightarrow> k < i \<Longrightarrow> xs ! k = ys ! k"
  by (metis nth_take)

lemma mset_drop_eq: "mset xs = mset ys \<Longrightarrow> take i xs = take i ys \<Longrightarrow> mset (drop i xs) = mset (drop i ys)"
  using mset_append [of "take i xs" "drop i xs"] mset_append [of "take i ys" "drop i ys"] by (metis append_take_drop_id add_left_imp_eq)

locale sort_order =
  fixes before :: "'a \<Rightarrow> 'a \<Rightarrow> bool"
  assumes asym: "before x y \<Longrightarrow> \<not> before y x"
    and neg_trans: "\<not> before y x \<Longrightarrow> \<not> before z y \<Longrightarrow> \<not> before z x"
begin

definition perm_upto :: "nat \<Rightarrow> 'a list \<Rightarrow> 'a list \<Rightarrow> bool" where
  "perm_upto n d d' \<longleftrightarrow> length d' = length d \<and> mset (take n d') = mset (take n d) \<and> drop n d' = drop n d"

lemma perm_upto_refl: "perm_upto n d d"
  by (simp add: perm_upto_def)

lemma perm_upto_trans: "perm_upto n d e \<Longrightarrow> perm_upto n e f \<Longrightarrow> perm_upto n d f"
  by (simp add: perm_upto_def)

lemma perm_upto_step:
  assumes "i < n" and "j < n" and "n \<le> length d"
  shows "perm_upto n d (exchange_step before i j d)"
proof -
  have "mset (take n (d[j := d ! i, i := d ! j])) = mset (take n d)"
    using assms mset_swap [of i "take n d" j] by (simp add: take_update_swap list_update_swap)
  then show ?thesis using assms by (simp add: perm_upto_def exchange_step_def)
qed

text \<open>After the turns up to \<open>j\<close> the entry at \<open>i\<close> precedes every entry between.\<close>

lemma inner_loop:
  assumes "i < n" and "n \<le> length d" and "j \<le> n" and "i < j"
  shows "perm_upto n d (fold (exchange_step before i) [i + 1..<j] d)
    \<and> take i (fold (exchange_step before i) [i + 1..<j] d) = take i d
    \<and> (\<forall>m. i < m \<and> m < j \<longrightarrow> \<not> before (fold (exchange_step before i) [i + 1..<j] d ! m)
                                        (fold (exchange_step before i) [i + 1..<j] d ! i))
    \<and> (\<forall>m. j \<le> m \<longrightarrow> fold (exchange_step before i) [i + 1..<j] d ! m = d ! m)"
  using assms(3,4)
proof (induction j)
  case 0
  then show ?case by simp
next
  case (Suc j)
  show ?case
  proof (cases "i = j")
    case True
    then show ?thesis by (auto simp: perm_upto_refl)
  next
    case False
    then have ij: "i < j" "j < n" using Suc.prems by auto
    let ?f = "fold (exchange_step before i) [i + 1..<j] d"
    have IH: "perm_upto n d ?f" "take i ?f = take i d"
        "\<And>m. i < m \<Longrightarrow> m < j \<Longrightarrow> \<not> before (?f ! m) (?f ! i)" "\<And>m. j \<le> m \<Longrightarrow> ?f ! m = d ! m"
      using Suc.IH ij by auto
    have len: "length ?f = length d" using IH(1) by (simp add: perm_upto_def)
    have eq: "fold (exchange_step before i) [i + 1..<Suc j] d = exchange_step before i j ?f"
      using ij by simp
    let ?g = "exchange_step before i j ?f"
    have "perm_upto n d ?g"
      using IH(1) perm_upto_step [of i n j ?f] ij len assms(1,2) by (auto intro: perm_upto_trans)
    moreover have "take i ?g = take i d" using IH(2) ij by (simp add: exchange_step_def)
    moreover have "\<not> before (?g ! m) (?g ! i)" if "i < m" "m < Suc j" for m
    proof (cases "before (?f ! j) (?f ! i)")
      case True
      then have "\<not> before (?f ! i) (?f ! j)" by (rule asym)
      then show ?thesis
        using True that ij len assms(2) IH(3) [of m] neg_trans [of "?f ! i" "?f ! j" "?f ! m"]
        by (cases "m = j") (simp_all add: exchange_step_def)
    next
      case False
      then show ?thesis using that IH(3) [of m] by (cases "m = j") (simp_all add: exchange_step_def)
    qed
    moreover have "?g ! m = d ! m" if "Suc j \<le> m" for m
      using that ij IH(4) [of m] by (simp add: exchange_step_def)
    ultimately show ?thesis unfolding eq by blast
  qed
qed

lemma outer_loop:
  assumes "n \<le> length d" and "i \<le> n - 1"
  shows "perm_upto n d (fold (\<lambda>i. fold (exchange_step before i) [i + 1..<n]) [0..<i] d)
    \<and> (\<forall>k m. k < i \<and> k < m \<and> m < n \<longrightarrow>
          \<not> before (fold (\<lambda>i. fold (exchange_step before i) [i + 1..<n]) [0..<i] d ! m)
                   (fold (\<lambda>i. fold (exchange_step before i) [i + 1..<n]) [0..<i] d ! k))"
  using assms(2)
proof (induction i)
  case 0
  then show ?case by (simp add: perm_upto_refl)
next
  case (Suc i)
  then have i: "i < n" "Suc i \<le> n" by auto
  let ?f = "fold (\<lambda>i. fold (exchange_step before i) [i + 1..<n]) [0..<i] d"
  let ?g = "fold (exchange_step before i) [i + 1..<n] ?f"
  have IH: "perm_upto n d ?f" "\<And>k m. k < i \<Longrightarrow> k < m \<Longrightarrow> m < n \<Longrightarrow> \<not> before (?f ! m) (?f ! k)"
    using Suc by auto
  have len: "length ?f = length d" using IH(1) by (simp add: perm_upto_def)
  have inner: "perm_upto n ?f ?g" "take i ?g = take i ?f" "\<And>m. i < m \<Longrightarrow> m < n \<Longrightarrow> \<not> before (?g ! m) (?g ! i)"
    using inner_loop [of i n ?f n] i assms(1) len by auto
  have eq: "fold (\<lambda>i. fold (exchange_step before i) [i + 1..<n]) [0..<Suc i] d = ?g" by simp
  have early: "?g ! k = ?f ! k" if "k < i" for k
    using inner(2) that by (rule take_eq_nth)
  have later: "\<exists>l. i \<le> l \<and> l < n \<and> ?g ! m = ?f ! l" if "i \<le> m" "m < n" for m
  proof -
    have "mset (take n ?g) = mset (take n ?f)" using inner(1) by (simp add: perm_upto_def)
    moreover have "take i (take n ?g) = take i (take n ?f)" using i inner(2) by (simp add: min_def)
    ultimately have "mset (drop i (take n ?g)) = mset (drop i (take n ?f))" by (rule mset_drop_eq)
    then have "set (drop i (take n ?g)) = set (drop i (take n ?f))" by (rule mset_eq_setD)
    moreover have "?g ! m \<in> set (drop i (take n ?g))"
    proof -
      have "length ?g = length d" using inner(1) len by (simp add: perm_upto_def)
      then show ?thesis
        using that assms(1) i nth_mem [of "m - i" "drop i (take n ?g)"] by simp
    qed
    ultimately have "?g ! m \<in> set (drop i (take n ?f))" by simp
    then obtain l where "l < n - i" "?g ! m = ?f ! (i + l)"
      using assms(1) len i by (auto simp: in_set_conv_nth)
    then show ?thesis using i by (intro exI [of _ "i + l"]) auto
  qed
  have "\<not> before (?g ! m) (?g ! k)" if "k < Suc i" "k < m" "m < n" for k m
  proof (cases "k = i")
    case True
    then show ?thesis using inner(3) that by simp
  next
    case False
    then have k: "k < i" using that by simp
    show ?thesis
    proof (cases "m < i")
      case True
      then show ?thesis using early k that IH(2) [of k m] by simp
    next
      case False
      then have "i \<le> m" by simp
      then obtain l where "i \<le> l" "l < n" "?g ! m = ?f ! l" using later [OF _ \<open>m < n\<close>] by blast
      then show ?thesis using early [OF k] IH(2) [of k l] k by simp
    qed
  qed
  then show ?case unfolding eq using perm_upto_trans [OF IH(1) inner(1)] by blast
qed

lemma sorts:
  assumes "n \<le> length d"
  shows "mset (take n (exchange_sort before n d)) = mset (take n d)"
    and "drop n (exchange_sort before n d) = drop n d"
    and "length (exchange_sort before n d) = length d"
    and "sorted_wrt (\<lambda>x y. \<not> before y x) (take n (exchange_sort before n d))"
proof -
  have o: "perm_upto n d (exchange_sort before n d)"
      "\<And>k m. k < n - 1 \<Longrightarrow> k < m \<Longrightarrow> m < n \<Longrightarrow> \<not> before (exchange_sort before n d ! m) (exchange_sort before n d ! k)"
    using outer_loop [of n d "n - 1"] assms by (auto simp: exchange_sort_def)
  then show "mset (take n (exchange_sort before n d)) = mset (take n d)"
    and "drop n (exchange_sort before n d) = drop n d" and l: "length (exchange_sort before n d) = length d"
    by (simp_all add: perm_upto_def)
  show "sorted_wrt (\<lambda>x y. \<not> before y x) (take n (exchange_sort before n d))"
    unfolding sorted_wrt_iff_nth_less using o(2) l assms by simp
qed

end

text \<open>The comparisons of the seven sorts.\<close>

interpretation pic_num: sort_order "\<lambda>y x. PicNum (pic v y) > PicNum (pic v x)" for v
  by unfold_locales auto

interpretation lt_pic_num: sort_order "\<lambda>y x. LongTermPicNum (pic v y) < LongTermPicNum (pic v x)" for v
  by unfold_locales auto

interpretation num_wrap: sort_order "\<lambda>y x. FrameNumWrap (fs v ! y) > FrameNumWrap (fs v ! x)" for v
  by unfold_locales auto

interpretation lt_idx: sort_order "\<lambda>y x. LongTermFrameIdx (fs v ! y) < LongTermFrameIdx (fs v ! x)" for v
  by unfold_locales auto

interpretation poc_down: sort_order "\<lambda>y x. pic_PicOrderCnt (pic v y) > pic_PicOrderCnt (pic v x)" for v
  by unfold_locales auto

interpretation poc_up: sort_order "\<lambda>y x. pic_PicOrderCnt (pic v y) < pic_PicOrderCnt (pic v x)" for v
  by unfold_locales auto

interpretation fs_poc_down: sort_order "\<lambda>y x. fs_PicOrderCnt (fs v ! y) > fs_PicOrderCnt (fs v ! x)" for v
  by unfold_locales auto

interpretation fs_poc_up: sort_order "\<lambda>y x. fs_PicOrderCnt (fs v ! y) < fs_PicOrderCnt (fs v ! x)" for v
  by unfold_locales auto

section \<open>The loops that collect the references\<close>

definition collect_step ::
  "(AVCFrameStore \<Rightarrow> bool) \<Rightarrow> (AVCFrameStore \<Rightarrow> AVCFrameStore) \<Rightarrow> nat \<Rightarrow> nat \<times> AVCCommonObj \<Rightarrow> nat \<times> AVCCommonObj" where
  "collect_step P g i = (\<lambda>(c, v).
     if P (fs v ! i) then (c + 1, (upd_fs i g v)\<lparr>RefPicList0 := (RefPicList0 v)[c := Some i]\<rparr>) else (c, v))"

lemma collect_step_pair:
  "collect_step P g i (c, v) =
     (if P (fs v ! i) then (c + 1, (upd_fs i g v)\<lparr>RefPicList0 := (RefPicList0 v)[c := Some i]\<rparr>) else (c, v))"
  by (simp add: collect_step_def)

definition collected :: "(AVCFrameStore \<Rightarrow> bool) \<Rightarrow> AVCCommonObj \<Rightarrow> nat \<Rightarrow> nat list" where
  "collected P v k = filter (\<lambda>i. P (fs v ! i)) [0..<k]"

definition mapped :: "(AVCFrameStore \<Rightarrow> bool) \<Rightarrow> (AVCFrameStore \<Rightarrow> AVCFrameStore) \<Rightarrow> AVCCommonObj \<Rightarrow> nat \<Rightarrow> AVCFrameStore list" where
  "mapped P g v k = map (\<lambda>i. if i < k \<and> P (fs v ! i) then g (fs v ! i) else fs v ! i) [0..<length (fs v)]"

lemma fold_collect:
  assumes "k \<le> length (fs v)" and "c + length (collected P v k) \<le> length (RefPicList0 v)"
  shows "fold (collect_step P g) [0..<k] (c, v) = (c + length (collected P v k),
    v\<lparr>fs := mapped P g v k,
      RefPicList0 := take c (RefPicList0 v) @ map Some (collected P v k) @ drop (c + length (collected P v k)) (RefPicList0 v)\<rparr>)"
  using assms
proof (induction k)
  case 0
  then show ?case by (simp add: mapped_def collected_def map_nth)
next
  case (Suc k)
  have snoc: "collected P v (Suc k) = collected P v k @ (if P (fs v ! k) then [k] else [])" by (simp add: collected_def)
  then have IH: "fold (collect_step P g) [0..<k] (c, v) = (c + length (collected P v k),
      v\<lparr>fs := mapped P g v k,
        RefPicList0 := take c (RefPicList0 v) @ map Some (collected P v k) @ drop (c + length (collected P v k)) (RefPicList0 v)\<rparr>)"
    using Suc by (auto split: if_splits)
  have kth: "mapped P g v k ! k = fs v ! k" using Suc.prems(1) by (simp add: mapped_def)
  have mp: "(mapped P g v k)[k := g (fs v ! k)] = mapped P g v (Suc k)" if "P (fs v ! k)"
    using Suc.prems(1) that by (intro nth_equalityI) (auto simp: mapped_def nth_list_update)
  have mn: "mapped P g v k = mapped P g v (Suc k)" if "\<not> P (fs v ! k)"
    using that by (intro nth_equalityI) (auto simp: mapped_def less_Suc_eq)
  show ?case
  proof (cases "P (fs v ! k)")
    case True
    then have "c + length (collected P v k) < length (RefPicList0 v)" using Suc.prems(2) snoc by simp
    then have "drop (c + length (collected P v k)) (RefPicList0 v)
        = RefPicList0 v ! (c + length (collected P v k)) # drop (Suc (c + length (collected P v k))) (RefPicList0 v)"
      by (simp add: Cons_nth_drop_Suc)
    then have "(take c (RefPicList0 v) @ map Some (collected P v k) @ drop (c + length (collected P v k)) (RefPicList0 v))
          [c + length (collected P v k) := Some k]
        = take c (RefPicList0 v) @ map Some (collected P v (Suc k)) @ drop (c + length (collected P v (Suc k))) (RefPicList0 v)"
      using True Suc.prems(2) snoc by (simp add: list_update_append min_def)
    then show ?thesis using True snoc IH kth mp by (simp add: collect_step_pair upd_fs_def)
  next
    case False
    then show ?thesis using snoc IH kth mn by (simp add: collect_step_pair)
  qed
qed


lemma init_P_step_collect:
  "init_P_step h i (c, v) = collect_step is_short_store (wrap_frame_num h (MaxFrameNum v)) i (c, v)"
  by (simp add: init_P_step_def collect_step_def)

lemma collect_step_max:
  obtains c' v' where "collect_step P g i (c, v) = (c', v')" and "MaxFrameNum v' = MaxFrameNum v"
  by (cases "P (fs v ! i)") (auto simp: collect_step_pair upd_fs_def)

lemma init_P_collect:
  "fold (init_P_step h) xs (c, v) = fold (collect_step is_short_store (wrap_frame_num h (MaxFrameNum v))) xs (c, v)"
proof (induction xs arbitrary: c v)
  case (Cons i xs)
  obtain c' v' where "collect_step is_short_store (wrap_frame_num h (MaxFrameNum v)) i (c, v) = (c', v')"
      "MaxFrameNum v' = MaxFrameNum v"
    by (rule collect_step_max)
  then show ?case using Cons.IH [of c' v'] by (simp add: init_P_step_collect)
qed simp

lemma init_LT_collect:
  "fold init_LT_step [0..<k] (c, v) =
     fold (collect_step (\<lambda>f. IsLongTerm f = 3) (\<lambda>f. f\<lparr>frame := (frame f)\<lparr>LongTermPicNum := LongTermFrameIdx f\<rparr>\<rparr>)) [0..<k] (c, v)"
  by (simp add: init_LT_step_def [abs_def] collect_step_def [abs_def])

text \<open>
  \<open>p_list v v' S L\<close>: \<open>S\<close> are the short-term references of \<open>v\<close> with their picture numbers for this slice,
  in descending order, \<open>L\<close> the long-term ones in ascending order of their numbers.
\<close>

definition p_list :: "AVCSliceHeader \<Rightarrow> AVCCommonObj \<Rightarrow> AVCCommonObj \<Rightarrow> nat list \<Rightarrow> nat list \<Rightarrow> bool" where
  "p_list h v v' S L \<longleftrightarrow>
     distinct S \<and> set S = {i. i < num_fs v \<and> is_short_store (fs v ! i)} \<and>
     distinct L \<and> set L = {i. i < num_fs v \<and> IsLongTerm (fs v ! i) = 3} \<and>
     (\<forall>i \<in> set S. PicNum (frame (fs v' ! i)) =
        (if FrameNum (fs v ! i) > frame_num h then c_int (FrameNum (fs v ! i) - MaxFrameNum v) else FrameNum (fs v ! i))) \<and>
     (\<forall>i \<in> set L. LongTermPicNum (frame (fs v' ! i)) = LongTermFrameIdx (fs v ! i)) \<and>
     sorted_wrt (\<lambda>i j. PicNum (frame (fs v' ! i)) \<ge> PicNum (frame (fs v' ! j))) S \<and>
     sorted_wrt (\<lambda>i j. LongTermPicNum (frame (fs v' ! i)) \<le> LongTermPicNum (frame (fs v' ! j))) L"

text \<open>A permutation of a list of pointers to stores is again one.\<close>

lemma mset_map_Some:
  assumes "mset xs = mset (map Some ys)" and "distinct ys"
  shows "xs = map Some (map the xs) \<and> distinct (map the xs) \<and> set (map the xs) = set ys"
proof -
  have s: "set xs = Some ` set ys" using mset_eq_setD [OF assms(1)] by simp
  have "length xs = length ys" using assms(1) by (metis length_map mset_eq_length)
  moreover have "card (set xs) = length ys" using s assms(2) by (simp add: card_image distinct_card)
  ultimately have "distinct xs" by (simp add: card_distinct)
  moreover have "inj_on the (set xs)" using s by (auto simp: inj_on_def)
  moreover have "map Some (map the xs) = xs" using s by (intro nth_equalityI) (auto simp: nth_mem subset_iff image_iff dest!: nth_mem)
  ultimately show ?thesis using s by (auto simp: distinct_map image_image)
qed

lemma init_P_spec:
  assumes wf: "num_fs v = length (fs v)" and len: "num_fs v \<le> length (RefPicList0 v)"
    and short: "i0 < num_fs v" "is_short_store (fs v ! i0)"
  shows "\<exists>S L. p_list h v (init_P h v) S L
    \<and> take (length S + length L) (RefPicList0 (init_P h v)) = map Some (S @ L)
    \<and> refList0Size (init_P h v) = int (length S + length L) \<and> refList1Size (init_P h v) = 0"
proof -
  let ?wrap = "wrap_frame_num h (MaxFrameNum v)" and ?lt = "\<lambda>f. f\<lparr>frame := (frame f)\<lparr>LongTermPicNum := LongTermFrameIdx f\<rparr>\<rparr>"
  define n where "n = num_fs v"
  define xs where "xs = collected is_short_store v n"
  define F1 where "F1 = mapped is_short_store ?wrap v n"
  define R1 where "R1 = map Some xs @ drop (length xs) (RefPicList0 v)"
  define v2 where "v2 = v\<lparr>fs := F1, RefPicList0 := R1\<rparr>"
  have setxs: "set xs = {i. i < num_fs v \<and> is_short_store (fs v ! i)}" and dxs: "distinct xs"
    by (auto simp: xs_def collected_def n_def)
  define R3 where "R3 = SortPicByPicNum v2 R1 (length xs)"
  define v3 where "v3 = v2\<lparr>RefPicList0 := R3, refList0Size := int (length xs)\<rparr>"
  define ys where "ys = collected (\<lambda>f. IsLongTerm f = 3) v3 n"
  define v4 where "v4 = v3\<lparr>fs := mapped (\<lambda>f. IsLongTerm f = 3) ?lt v3 n,
      RefPicList0 := take (length xs) R3 @ map Some ys @ drop (length xs + length ys) R3\<rparr>"
  have F1len: "length F1 = num_fs v" by (simp add: F1_def mapped_def wf)
  have F1nth: "F1 ! i = (if is_short_store (fs v ! i) then ?wrap (fs v ! i) else fs v ! i)" if "i < num_fs v" for i
    using that by (simp add: F1_def mapped_def wf n_def)
  have kinds: "IsLongTerm (F1 ! i) = IsLongTerm (fs v ! i) \<and> LongTermFrameIdx (F1 ! i) = LongTermFrameIdx (fs v ! i)"
    if "i < num_fs v" for i
    using F1nth [OF that] by (simp add: wrap_frame_num_def Let_def)
  have ysv: "ys = filter (\<lambda>i. IsLongTerm (fs v ! i) = 3) [0..<n]"
    unfolding ys_def collected_def by (rule filter_cong) (auto simp: v3_def v2_def kinds n_def)
  have total: "length xs + length ys \<le> n"
  proof -
    have "set xs \<inter> set ys = {}" by (auto simp: xs_def ysv collected_def is_short_store_def)
    moreover have "distinct ys" by (simp add: ysv)
    ultimately have "distinct (xs @ ys)" using dxs by simp
    moreover have "set (xs @ ys) \<subseteq> {0..<n}" by (auto simp: xs_def ysv collected_def)
    ultimately show ?thesis using card_mono [of "{0..<n}" "set (xs @ ys)"] by (simp add: distinct_card del: set_append)
  qed
  have lenR1: "length R1 = length (RefPicList0 v)" using total len by (simp add: R1_def n_def)
  note sorts3 = pic_num.sorts [of "length xs" R1 v2, folded SortPicByPicNum_def R3_def]
  have len3: "length xs \<le> length R1" using lenR1 total len n_def by simp
  have lenR3: "length R3 = length (RefPicList0 v)" using sorts3(3) len3 lenR1 by simp
  have fold1: "fold (init_P_step h) [0..<num_fs v] (0, v) = (length xs, v2)"
    using fold_collect [of "num_fs v" v 0 is_short_store ?wrap] total len wf
    by (simp add: init_P_collect xs_def F1_def v2_def R1_def n_def)
  have fold2: "fold init_LT_step [0..<num_fs v] (length xs, v3) = (length xs + length ys, v4)"
    using fold_collect [of "num_fs v" v3 "length xs" "\<lambda>f. IsLongTerm f = 3" ?lt] total len lenR3 F1len
    by (simp add: init_LT_collect v4_def ys_def n_def) (simp add: v3_def v2_def)
  define T where "T = SortPicByPicNumLongTerm v4 (drop (length xs) (RefPicList0 v4)) (length ys)"
  define S where "S = map the (take (length xs) R3)"
  define L where "L = map the (take (length ys) T)"
  have R4: "RefPicList0 v4 = take (length xs) R3 @ map Some ys @ drop (length xs + length ys) R3" by (simp add: v4_def)
  have drop4: "drop (length xs) (RefPicList0 v4) = map Some ys @ drop (length xs + length ys) R3"
    using lenR3 len3 lenR1 by (simp add: R4)
  have take4: "take (length xs) (RefPicList0 v4) = take (length xs) R3"
    using lenR3 len3 lenR1 by (simp add: R4)
  note sorts5 = lt_pic_num.sorts [of "length ys" "drop (length xs) (RefPicList0 v4)" v4, folded SortPicByPicNumLongTerm_def T_def]
  have "i0 \<in> set xs" unfolding setxs using short by simp
  then have ne: "length xs \<noteq> 0" by (cases xs) simp_all
  have result: "init_P h v = v4\<lparr>RefPicList0 := take (length xs) R3 @ T,
      refList0Size := int (length xs + length ys), refList1Size := 0\<rparr>"
    using ne fold1 fold2 by (simp add: init_P_def Let_def v3_def R3_def v2_def T_def take4)
  have SR: "take (length xs) R3 = map Some S \<and> distinct S \<and> set S = set xs"
    unfolding S_def using sorts3(1) [OF len3] dxs by (intro mset_map_Some) (simp_all add: R1_def)
  have dys: "distinct ys" by (simp add: ysv)
  have LT: "take (length ys) T = map Some L \<and> distinct L \<and> set L = set ys"
    unfolding L_def using sorts5(1) dys by (intro mset_map_Some) (simp_all add: drop4)
  have lens: "length S = length xs" "length L = length ys"
    using total len lenR1 lenR3 len3 sorts5(3) by (simp_all add: S_def L_def drop4 n_def)
  have fs4: "fs v4 ! i = (if IsLongTerm (fs v ! i) = 3 then ?lt (F1 ! i) else F1 ! i)" if "i < num_fs v" for i
    using that F1len kinds [OF that] by (simp add: v4_def v3_def v2_def mapped_def n_def)
  have num4: "PicNum (frame (fs v4 ! i)) = PicNum (frame (F1 ! i))" if "i < num_fs v" for i
    using fs4 [OF that] by simp
  have sl: "i < num_fs v" if "i \<in> set S \<or> i \<in> set L" for i
    using that SR LT setxs by (auto simp: ysv n_def)
  have "sorted_wrt (\<lambda>i j. \<not> PicNum (pic v2 (Some j)) > PicNum (pic v2 (Some i))) S"
    using sorts3(4) [OF len3] SR by (simp add: sorted_wrt_map)
  then have sortS: "sorted_wrt (\<lambda>i j. PicNum (frame (fs v4 ! i)) \<ge> PicNum (frame (fs v4 ! j))) S"
    by (rule sorted_wrt_mono_rel [rotated]) (simp add: num4 sl pic_def v2_def)
  have "sorted_wrt (\<lambda>i j. \<not> LongTermPicNum (pic v4 (Some j)) < LongTermPicNum (pic v4 (Some i))) L"
    using sorts5(4) LT by (simp add: sorted_wrt_map drop4)
  then have sortL: "sorted_wrt (\<lambda>i j. LongTermPicNum (frame (fs v4 ! i)) \<le> LongTermPicNum (frame (fs v4 ! j))) L"
    by (rule sorted_wrt_mono_rel [rotated]) (simp add: pic_def)
  have "p_list h v (init_P h v) S L"
    unfolding p_list_def result
    using SR LT sortS sortL setxs
    by (auto simp: fs4 F1nth ysv n_def wrap_frame_num_def Let_def)
  then show ?thesis
    using SR LT lens by (intro exI [of _ S] exI [of _ L]) (simp add: result)
qed


text \<open>\<open>init_finish\<close> only cuts the sizes, since list 1 is empty for a P slice.\<close>

lemma init_finish_P:
  "refList1Size v = 0 \<Longrightarrow> init_finish h v = v\<lparr>
     refList0Size := AVC_MIN (refList0Size v) (sint (num_ref_idx_l0_active_minus1 h) + 1),
     refList1Size := AVC_MIN (refList1Size v) (sint (num_ref_idx_l1_active_minus1 h) + 1)\<rparr>"
  by (cases "1 < refList0Size v") (simp_all add: init_finish_def Let_def)

lemma RefListInit_P:
  assumes "slice_type v = AVC_P_SLICE" and "num_fs v = length (fs v)" and "num_fs v \<le> length (RefPicList0 v)"
    and "i0 < num_fs v" "is_short_store (fs v ! i0)"
  shows "\<exists>S L. p_list h v (RefListInit h v) S L
    \<and> take (length S + length L) (RefPicList0 (RefListInit h v)) = map Some (S @ L)
    \<and> refList0Size (RefListInit h v)
        = min (int (length S + length L)) (sint (num_ref_idx_l0_active_minus1 h) + 1)"
proof -
  obtain S L where SL: "p_list h v (init_P h v) S L"
      "take (length S + length L) (RefPicList0 (init_P h v)) = map Some (S @ L)"
      "refList0Size (init_P h v) = int (length S + length L)" "refList1Size (init_P h v) = 0"
    using init_P_spec [OF assms(2-5), of h] by blast
  have same: "RefListInit h v = (init_P h v)\<lparr>
      refList0Size := AVC_MIN (refList0Size (init_P h v)) (sint (num_ref_idx_l0_active_minus1 h) + 1),
      refList1Size := AVC_MIN (refList1Size (init_P h v)) (sint (num_ref_idx_l1_active_minus1 h) + 1)\<rparr>"
    using assms(1) init_finish_P [OF SL(4)] by (simp add: RefListInit_def AVC_P_SLICE_def AVC_I_SLICE_def)
  show ?thesis
    using SL unfolding same by (intro exI [of _ S] exI [of _ L]) (simp add: p_list_def AVC_MIN_def min_def)
qed

section \<open>One reordering command\<close>

lemma length_shift_up [simp]: "length (shift_up r l R) = length R"
proof -
  have "length (fold (\<lambda>cIdx R. R[cIdx := R ! (cIdx - 1)]) xs R) = length R" for xs
    by (induction xs arbitrary: R) simp_all
  then show ?thesis by (simp add: shift_up_def)
qed

lemma nth_shift_up:
  assumes "l < length R" and "r \<le> l"
  shows "shift_up r l R ! k = (if r < k \<and> k \<le> l then R ! (k - 1) else R ! k)"
  using assms
proof (induction l arbitrary: R)
  case 0
  then show ?case by (simp add: shift_up_def)
next
  case (Suc l)
  show ?case
  proof (cases "r = Suc l")
    case True
    then show ?thesis by (auto simp: shift_up_def)
  next
    case False
    then have r: "r \<le> l" using Suc.prems by simp
    then have "shift_up r (Suc l) R = shift_up r l (R[Suc l := R ! l])" by (simp add: shift_up_def)
    then show ?thesis using Suc.IH [of "R[Suc l := R ! l]"] Suc.prems r by (auto simp: nth_list_update)
  qed
qed

lemma compact_step_Some:
  "keep (R ! i) = Some k \<Longrightarrow>
     compact_step keep i (Some (m, R)) = Some (if k then (m + 1, R[m := R ! i]) else (m, R))"
  by (simp add: compact_step_def)

text \<open>The entries that are kept move down, in order; what lies behind them is left as it was.\<close>

lemma fold_compact:
  assumes keep: "\<And>x. x \<in> set (take b R) \<Longrightarrow> keep x = Some (K x)" and "a \<le> b" and "b \<le> length R" and "n0 \<le> a"
  shows "fold (compact_step keep) [a..<b] (Some (n0, R)) =
    (let kept = filter K (drop a (take b R))
     in Some (n0 + length kept, take n0 R @ kept @ drop (n0 + length kept) R))"
  using assms(2,3) keep
proof (induction b)
  case 0
  then show ?case by simp
next
  case (Suc b)
  show ?case
  proof (cases "a = Suc b")
    case True
    then show ?thesis by simp
  next
    case False
    then have ab: "a \<le> b" "b < length R" using Suc.prems by auto
    have "take b R @ [R ! b] = take (Suc b) R" using ab by (simp add: take_Suc_conv_app_nth)
    then have kb: "keep (R ! b) = Some (K (R ! b))" and kx: "\<And>x. x \<in> set (take b R) \<Longrightarrow> keep x = Some (K x)"
      using Suc.prems(3) by (auto simp: take_Suc_conv_app_nth ab)
    define kept where "kept = filter K (drop a (take b R))"
    have IH: "fold (compact_step keep) [a..<b] (Some (n0, R)) = Some (n0 + length kept, take n0 R @ kept @ drop (n0 + length kept) R)"
      using Suc.IH [OF ab(1) _ kx] ab by (simp add: kept_def Let_def)
    have snoc: "filter K (drop a (take (Suc b) R)) = kept @ (if K (R ! b) then [R ! b] else [])"
      using ab by (simp add: kept_def take_Suc_conv_app_nth)
    have le: "n0 + length kept \<le> b"
      using length_filter_le [of K "drop a (take b R)"] ab assms(4) by (simp add: kept_def)
    then have same: "(take n0 R @ kept @ drop (n0 + length kept) R) ! b = R ! b"
      using ab assms(4) by (simp add: append_assoc [symmetric] nth_append min_def del: append_assoc)
    have d: "drop (n0 + length kept) R = R ! (n0 + length kept) # drop (Suc (n0 + length kept)) R"
      using le ab by (simp add: Cons_nth_drop_Suc)
    have "(take n0 R @ kept @ drop (n0 + length kept) R)[n0 + length kept := R ! b]
        = take n0 R @ kept @ R ! b # drop (Suc (n0 + length kept)) R"
      using le ab by (subst d) (simp add: list_update_append min_def)
    then show ?thesis
      unfolding snoc using IH same kb ab by (simp add: compact_step_Some Let_def)
  qed
qed

text \<open>
  The list after a command, with \<open>n\<close> active entries and the picture \<open>p\<close> found: the entries before
  \<open>r\<close>, \<open>p\<close>, then the entries from \<open>r\<close> on without the ones the command names.
\<close>

definition reordered :: "('a \<Rightarrow> bool) \<Rightarrow> nat \<Rightarrow> nat \<Rightarrow> 'a \<Rightarrow> 'a list \<Rightarrow> 'a list" where
  "reordered K r n p R = take r R @ p # filter K (drop r (take n R))"

lemma move_to_front:
  assumes r: "r < n" and n: "n < length R" and keep: "\<And>x. x \<in> set (take n R) \<Longrightarrow> keep x = Some (K x)"
    and p: "keep p = Some (K p)"
  defines "R1 \<equiv> (shift_up r n R)[r := p]"
  shows "\<exists>R2. compact keep (r + 1) n R1 = Some R2 \<and> length R2 = length R
    \<and> take (length (reordered K r n p R)) R2 = reordered K r n p R"
proof -
  have R1: "R1 = take r R @ p # drop r (take n R) @ drop (Suc n) R"
  proof (rule nth_equalityI)
    fix k assume "k < length R1"
    then show "R1 ! k = (take r R @ p # drop r (take n R) @ drop (Suc n) R) ! k"
      using r n by (auto simp: R1_def nth_shift_up nth_list_update nth_append nth_Cons' min_def)
  qed (use r n in \<open>simp add: R1_def\<close>)
  have len: "length R1 = length R" by (simp add: R1_def)
  have tk: "take (n + 1) R1 = take r R @ p # drop r (take n R)" using r n by (simp add: R1 min_def Suc_diff_le)
  have "x \<in> set (take n R) \<or> x = p" if "x \<in> set (take (n + 1) R1)" for x
    using that [unfolded tk] r set_take_subset_set_take [of r n R] by (auto dest: in_set_dropD)
  then have keep1: "keep x = Some (K x)" if "x \<in> set (take (n + 1) R1)" for x using that keep p by blast
  have dr: "drop (r + 1) (take (n + 1) R1) = drop r (take n R)" unfolding tk using r n by simp
  have "compact keep (r + 1) n R1
      = (let kept = filter K (drop r (take n R)) in Some (take (r + 1) R1 @ kept @ drop (r + 1 + length kept) R1))"
    using fold_compact [of "n + 1" R1 keep K "r + 1" "r + 1"] keep1 r n len
    by (simp add: compact_def Let_def dr [unfolded Suc_eq_plus1 [symmetric]])
  moreover have "take (r + 1) R1 = take r R @ [p]" using r n by (simp add: R1 min_def)
  moreover have "length (filter K (drop r (take n R))) \<le> n - r"
    using length_filter_le [of K "drop r (take n R)"] r n by simp
  ultimately show ?thesis using r n len by (simp add: reordered_def Let_def min_def)
qed


definition named_short :: "AVCCommonObj \<Rightarrow> int \<Rightarrow> nat option \<Rightarrow> bool" where
  "named_short v picNumLX q \<longleftrightarrow>
     (case q of None \<Rightarrow> True | Some i \<Rightarrow> \<not> isLongTerm (frame (fs v ! i)) \<and> PicNum (frame (fs v ! i)) = picNumLX)"

definition named_long :: "AVCCommonObj \<Rightarrow> int \<Rightarrow> nat option \<Rightarrow> bool" where
  "named_long v LongTermNum q \<longleftrightarrow>
     (case q of None \<Rightarrow> True | Some i \<Rightarrow> isLongTerm (frame (fs v ! i)) \<and> LongTermPicNum (frame (fs v ! i)) = LongTermNum)"

lemma keep_short_named: "keep_short v x q = Some (\<not> named_short v x q)"
  by (simp add: keep_short_def named_short_def split: option.split)

lemma keep_long_named: "q \<noteq> None \<Longrightarrow> keep_long v x q = Some (\<not> named_long v x q)"
  by (auto simp: keep_long_def named_long_def split: option.split)

lemma get_set_list [simp]: "get_list b (set_list b R v) = R"
  by (simp add: get_list_def set_list_def)

lemma ReorderShortTerm_spec:
  assumes n: "num_active_minus1 b h + 1 = int n" "n < 33" "r < n" and len: "length (get_list b v) = 33"
    and p: "GetShortTermPic v x = Some p"
  shows "\<exists>v'. ReorderShortTerm h v x r b = Some (AVC_SUCCESS, r + 1, v') \<and> v' = set_list b (get_list b v') v
    \<and> length (get_list b v') = 33
    \<and> (let R' = reordered (\<lambda>q. \<not> named_short v x q) r n (Some p) (get_list b v)
       in take (length R') (get_list b v') = R')"
proof -
  obtain R2 where "compact (keep_short v x) (r + 1) n ((shift_up r n (get_list b v))[r := Some p]) = Some R2"
      "length R2 = 33" "take (length (reordered (\<lambda>q. \<not> named_short v x q) r n (Some p) (get_list b v))) R2
         = reordered (\<lambda>q. \<not> named_short v x q) r n (Some p) (get_list b v)"
    using move_to_front [of r n "get_list b v" "keep_short v x" "\<lambda>q. \<not> named_short v x q" "Some p"] n len
    by (auto simp: keep_short_named)
  then show ?thesis
    using n p by (simp add: ReorderShortTerm_def MAX_REF_PIC_LIST_def Let_def)
qed

lemma ReorderLongTerm_spec:
  assumes n: "num_active_minus1 b h + 1 = int n" "n < 33" "r < n" and len: "length (get_list b v) = 33"
    and p: "GetLongTermPic v x = Some p" and filled: "None \<notin> set (take n (get_list b v))"
  shows "\<exists>v'. ReorderLongTerm h v x r b = Some (AVC_SUCCESS, r + 1, v') \<and> v' = set_list b (get_list b v') v
    \<and> length (get_list b v') = 33
    \<and> (let R' = reordered (\<lambda>q. \<not> named_long v x q) r n (Some p) (get_list b v)
       in take (length R') (get_list b v') = R')"
proof -
  have keep: "keep_long v x q = Some (\<not> named_long v x q)" if "q \<in> set (take n (get_list b v))" for q
  proof (rule keep_long_named)
    show "q \<noteq> None" using that filled by metis
  qed
  obtain R2 where "compact (keep_long v x) (r + 1) n ((shift_up r n (get_list b v))[r := Some p]) = Some R2"
      "length R2 = 33" "take (length (reordered (\<lambda>q. \<not> named_long v x q) r n (Some p) (get_list b v))) R2
         = reordered (\<lambda>q. \<not> named_long v x q) r n (Some p) (get_list b v)"
    using move_to_front [of r n "get_list b v" "keep_long v x" "\<lambda>q. \<not> named_long v x q" "Some p"] n len keep
    by (auto simp: keep_long_named)
  then show ?thesis
    using n p by (simp add: ReorderLongTerm_def MAX_REF_PIC_LIST_def Let_def)
qed

text \<open>The prediction stays a residue modulo \<open>MaxPicNum\<close>.\<close>

lemma pic_num_no_wrap_mod:
  assumes "0 \<le> pred" "pred < m" "0 \<le> d" "d < m"
  shows "0 \<le> pic_num_no_wrap c pred d m \<and> pic_num_no_wrap c pred d m < m"
    and "pic_num_no_wrap c pred d m = (if c = 0 then pred - (d + 1) else pred + (d + 1)) mod m"
proof -
  have "(pred - (d + 1)) mod m = (if pred < d + 1 then pred - (d + 1) + m else pred - (d + 1))"
    using assms mod_add_self2 [of "pred - (d + 1)" m] by (auto simp del: mod_add_self2)
  moreover have "(pred + (d + 1)) mod m = (if pred + (d + 1) \<ge> m then pred + (d + 1) - m else pred + (d + 1))"
    using assms minus_mod_self2 [of "pred + (d + 1)" m] by (auto simp del: minus_mod_self2)
  ultimately show "pic_num_no_wrap c pred d m = (if c = 0 then pred - (d + 1) else pred + (d + 1)) mod m"
    by (simp add: pic_num_no_wrap_def)
  then show "0 \<le> pic_num_no_wrap c pred d m \<and> pic_num_no_wrap c pred d m < m"
    using assms by simp
qed

end
