(* ===== verification/RefListProps.thy ===== *)
theory RefListProps
  imports RefListOrder Samples
begin




text \<open>C27: a short-term reordering command moves the picture of the given number to the place of the
  command's index, and the entries from there on follow in their order without that picture (and without
  null entries); \<open>ReorderShortTerm\<close> then advances the index by one.\<close>

theorem ReorderShortTerm_moves:
  assumes "num_active_minus1 b h + 1 = int n" "n < 33" "r < n" and "length (get_list b v) = 33"
    and "GetShortTermPic v x = Some p"
  shows "\<exists>v'. ReorderShortTerm h v x r b = Some (AVC_SUCCESS, r + 1, v') \<and> v' = set_list b (get_list b v') v
    \<and> length (get_list b v') = 33
    \<and> (let R' = reordered (\<lambda>q. \<not> named_short v x q) r n (Some p) (get_list b v)
       in take (length R') (get_list b v') = R')"
  by (rule ReorderShortTerm_spec [OF assms])

text \<open>The buffer with its two references in list 0.\<close>

definition demo_list :: AVCCommonObj where
  "demo_list = demo_p\<lparr>RefPicList0 := [Some 0, Some 1] @ replicate 31 None\<rparr>"

lemma demo_list_facts: "num_active_minus1 False demo_hdr + 1 = int 2" "length (get_list False demo_list) = 33"
    "GetShortTermPic demo_list 1 = Some 1"
  by (simp_all add: demo_list_def demo_defs num_active_minus1_def demo_hdr_def get_list_def GetShortTermPic_def
      first_fs_def upt_rec numeral_3_eq_3)

lemma ReorderShortTerm_moves_witness:
  "\<exists>v'. ReorderShortTerm demo_hdr demo_list 1 0 False = Some (AVC_SUCCESS, 0 + 1, v') \<and> v' = set_list False (get_list False v') demo_list
    \<and> length (get_list False v') = 33
    \<and> (let R' = reordered (\<lambda>q. \<not> named_short demo_list 1 q) 0 2 (Some 1) (get_list False demo_list)
       in take (length R') (get_list False v') = R')"
  by (rule ReorderShortTerm_moves [OF demo_list_facts(1) _ _ demo_list_facts(2,3)]) simp_all

text \<open>C28: the same for a long-term command, for a list without null entries in its active part.\<close>

theorem ReorderLongTerm_moves:
  assumes "num_active_minus1 b h + 1 = int n" "n < 33" "r < n" and "length (get_list b v) = 33"
    and "GetLongTermPic v x = Some p" and "None \<notin> set (take n (get_list b v))"
  shows "\<exists>v'. ReorderLongTerm h v x r b = Some (AVC_SUCCESS, r + 1, v') \<and> v' = set_list b (get_list b v') v
    \<and> length (get_list b v') = 33
    \<and> (let R' = reordered (\<lambda>q. \<not> named_long v x q) r n (Some p) (get_list b v)
       in take (length R') (get_list b v') = R')"
  by (rule ReorderLongTerm_spec [OF assms])

definition demo_lt_list :: AVCCommonObj where
  "demo_lt_list = demo_lt\<lparr>RefPicList0 := [Some 0, Some 1] @ replicate 31 None\<rparr>"

lemma demo_lt_list_facts: "length (get_list False demo_lt_list) = 33" "GetLongTermPic demo_lt_list 0 = Some 0"
    "None \<notin> set (take 2 (get_list False demo_lt_list))"
  by (simp_all add: demo_lt_list_def demo_defs get_list_def GetLongTermPic_def first_fs_def upt_rec numeral_3_eq_3)

lemma ReorderLongTerm_moves_witness:
  "\<exists>v'. ReorderLongTerm demo_hdr demo_lt_list 0 1 False = Some (AVC_SUCCESS, 1 + 1, v') \<and> v' = set_list False (get_list False v') demo_lt_list
    \<and> length (get_list False v') = 33
    \<and> (let R' = reordered (\<lambda>q. \<not> named_long demo_lt_list 0 q) 1 2 (Some 0) (get_list False demo_lt_list)
       in take (length R') (get_list False v') = R')"
  by (rule ReorderLongTerm_moves [OF demo_list_facts(1) _ _ demo_lt_list_facts]) simp_all

end
