(* ===== verification/Fmo.thy ===== *)
theory Fmo
  imports Dpb
begin

text \<open>
  Slice group maps, \<open>codecs_v2/video/avc_h264/common/src/fmo.cpp\<close>: \<open>FMOInit\<close> and the seven generators.
  \<open>MbToSliceGroupMap\<close> is a list whose entries are written with bounds checks; a write outside it, a
  division by a zero width and a null map are \<open>None\<close>. The first loop of the type 0 generator and
  the spiral of type 3 have no bound and are \<open>partial_function\<close>s. The group of a unit by subclause
  8.2.2 is \<open>std_group\<close>, and the generators without a search (types 0, 1, 2, 4, 5, 6) are shown to compute it.
\<close>

section \<open>The generators\<close>

function fill_run :: "nat \<Rightarrow> nat \<Rightarrow> nat \<Rightarrow> nat \<Rightarrow> int \<Rightarrow> int list \<Rightarrow> int list option" where
  "fill_run i j run siz g mp =
     (if j \<le> run \<and> i + j < siz
      then do { m \<leftarrow> set_opt mp (int (i + j)) g; fill_run i (j + 1) run siz g m }
      else Some mp)"
  by pat_completeness auto
termination by (relation "measure (\<lambda>(i, j, run, siz, g, mp). siz - (i + j))") auto

declare fill_run.simps [simp del]

function type0_groups :: "uint list \<Rightarrow> uint \<Rightarrow> uint \<Rightarrow> nat \<Rightarrow> uint \<Rightarrow> int list \<Rightarrow> (uint \<times> int list) option" where
  "type0_groups run_lengths n siz iGroup i mp =
     (if iGroup \<le> unat n \<and> i < siz
      then do { r \<leftarrow> nth_opt run_lengths (int iGroup);
                m \<leftarrow> fill_run (unat i) 0 (unat r) (unat siz) (int iGroup) mp;
                type0_groups run_lengths n siz (iGroup + 1) (i + (r + 1)) m }
      else Some (i, mp))"
  by pat_completeness auto
termination by (relation "measure (\<lambda>(run_lengths, n, siz, iGroup, i, mp). unat n + 1 - iGroup)") auto

declare type0_groups.simps [simp del]

partial_function (option) type0_loop :: "uint list \<Rightarrow> uint \<Rightarrow> uint \<Rightarrow> uint \<Rightarrow> int list \<Rightarrow> int list option" where
  [code]: "type0_loop run_lengths n siz i mp =
     do { (i1, m) \<leftarrow> type0_groups run_lengths n siz 0 i mp;
          if i1 < siz then type0_loop run_lengths n siz i1 m else Some m }"

definition FmoGenerateType0MapUnitMap :: "int list \<Rightarrow> uint list \<Rightarrow> uint \<Rightarrow> uint \<Rightarrow> int list option" where
  "FmoGenerateType0MapUnitMap mp run_lengths n siz = type0_loop run_lengths n siz 0 mp"

definition FmoGenerateType1MapUnitMap :: "int list \<Rightarrow> int \<Rightarrow> int \<Rightarrow> int \<Rightarrow> int list option" where
  "FmoGenerateType1MapUnitMap mp W n siz =
     for_range 0 (nat siz) (\<lambda>i m.
       if W = 0 then None
       else set_opt m (int i) ((int i mod W + c_uint ((int i div W) * (n + 1)) div 2) mod (n + 1))) mp"

text \<open>The groups of type 2 from the highest down, each a rectangle.\<close>

definition type2_group :: "AVCPicParamSet \<Rightarrow> int \<Rightarrow> int \<Rightarrow> int list \<Rightarrow> int list option" where
  "type2_group pps W iGroup mp =
     do { tl \<leftarrow> nth_opt (top_left pps) iGroup;
          br \<leftarrow> nth_opt (bottom_right pps) iGroup;
          if W = 0 then None else
          for_range (unat tl div nat W) (Suc (unat br div nat W) - unat tl div nat W) (\<lambda>y.
            for_range (unat tl mod nat W) (Suc (unat br mod nat W) - unat tl mod nat W) (\<lambda>x m.
              set_opt m (int y * W + int x) iGroup)) mp }"

fun type2_groups :: "AVCPicParamSet \<Rightarrow> int \<Rightarrow> nat \<Rightarrow> int list \<Rightarrow> int list option" where
  "type2_groups pps W 0 mp = Some mp"
| "type2_groups pps W (Suc k) mp = Option.bind (type2_group pps W (int k) mp) (type2_groups pps W k)"

definition FmoGenerateType2MapUnitMap :: "AVCPicParamSet \<Rightarrow> int list \<Rightarrow> int \<Rightarrow> int \<Rightarrow> int \<Rightarrow> int list option" where
  "FmoGenerateType2MapUnitMap pps mp W n siz =
     do { m \<leftarrow> for_range 0 (nat siz) (\<lambda>i m. set_opt m (int i) n) mp;
          type2_groups pps W (nat n) m }"

text \<open>The spiral of type 3: position, bounds and direction.\<close>

record spiral =
  sp_x :: int
  sp_y :: int
  leftBound :: int
  topBound :: int
  rightBound :: int
  bottomBound :: int
  xDir :: int
  yDir :: int

definition spiral_move :: "int \<Rightarrow> int \<Rightarrow> int \<Rightarrow> spiral \<Rightarrow> spiral" where
  "spiral_move flag W H s =
     (if xDir s = - 1 \<and> sp_x s = leftBound s then
        let b = AVC_MAX (leftBound s - 1) 0
        in s\<lparr>leftBound := b, sp_x := b, xDir := 0, yDir := 2 * flag - 1\<rparr>
      else if xDir s = 1 \<and> sp_x s = rightBound s then
        let b = AVC_MIN (rightBound s + 1) (W - 1)
        in s\<lparr>rightBound := b, sp_x := b, xDir := 0, yDir := 1 - 2 * flag\<rparr>
      else if yDir s = - 1 \<and> sp_y s = topBound s then
        let b = AVC_MAX (topBound s - 1) 0
        in s\<lparr>topBound := b, sp_y := b, xDir := 1 - 2 * flag, yDir := 0\<rparr>
      else if yDir s = 1 \<and> sp_y s = bottomBound s then
        let b = AVC_MIN (bottomBound s + 1) (H - 1)
        in s\<lparr>bottomBound := b, sp_y := b, xDir := 2 * flag - 1, yDir := 0\<rparr>
      else s\<lparr>sp_x := sp_x s + xDir s, sp_y := sp_y s + yDir s\<rparr>)"

partial_function (option) type3_loop :: "int \<Rightarrow> int \<Rightarrow> int \<Rightarrow> int \<Rightarrow> int \<Rightarrow> spiral \<Rightarrow> int list \<Rightarrow> int list option" where
  [code]: "type3_loop flag W H k units s mp =
     (if k < units then
        do { c \<leftarrow> nth_opt mp (sp_y s * W + sp_x s);
             m \<leftarrow> (if c = 1 then set_opt mp (sp_y s * W + sp_x s) 0 else Some mp);
             type3_loop flag W H (k + of_bool (c = 1)) units (spiral_move flag W H s) m }
      else Some mp)"

definition FmoGenerateType3MapUnitMap :: "AVCCommonObj \<Rightarrow> AVCPicParamSet \<Rightarrow> int list \<Rightarrow> int \<Rightarrow> int list option" where
  "FmoGenerateType3MapUnitMap v pps mp W =
     (let flag = of_bool (slice_group_change_direction_flag pps);
          x = c_uint (W - flag) div 2;
          y = c_uint (PicHeightInMapUnits v - flag) div 2
      in do { m \<leftarrow> for_range 0 (nat (PicSizeInMapUnits v)) (\<lambda>i m. set_opt m (int i) 1) mp;
              type3_loop flag W (PicHeightInMapUnits v) 0 (MapUnitsInSliceGroup0 v)
                \<lparr>sp_x = x, sp_y = y, leftBound = x, topBound = y, rightBound = x, bottomBound = y,
                 xDir = flag - 1, yDir = flag\<rparr> m })"

definition FmoGenerateType4MapUnitMap :: "int list \<Rightarrow> int \<Rightarrow> bool \<Rightarrow> int \<Rightarrow> int list option" where
  "FmoGenerateType4MapUnitMap mp units0 flag siz =
     (let sizeOfUpperLeftGroup = c_uint (if flag then siz - units0 else units0)
      in for_range 0 (nat siz) (\<lambda>i m. set_opt m (int i)
           (if int i < sizeOfUpperLeftGroup then 1 - of_bool flag else of_bool flag)) mp)"

definition FmoGenerateType5MapUnitMap :: "int list \<Rightarrow> AVCCommonObj \<Rightarrow> bool \<Rightarrow> int \<Rightarrow> int list option" where
  "FmoGenerateType5MapUnitMap mp v flag siz =
     (let W = PicWidthInMbs v; H = PicHeightInMapUnits v; units0 = MapUnitsInSliceGroup0 v;
          sizeOfUpperLeftGroup = c_int (if flag then siz - units0 else units0)
      in Option.bind
           (for_range 0 (nat W) (\<lambda>j.
              for_range 0 (nat H) (\<lambda>i (k, m).
                do { m1 \<leftarrow> set_opt m (int i * W + int j)
                       (if k < sizeOfUpperLeftGroup then 1 - of_bool flag else of_bool flag);
                     Some (k + 1, m1) })) (0, mp))
           (\<lambda>(k, m). Some m))"

definition FmoGenerateType6MapUnitMap :: "int list \<Rightarrow> uint list \<Rightarrow> int \<Rightarrow> int list option" where
  "FmoGenerateType6MapUnitMap mp ids siz =
     for_range 0 (nat siz) (\<lambda>i m. do { g \<leftarrow> nth_opt ids (int i); set_opt m (int i) (sint g) }) mp"

definition FMOInit :: "AVCPicParamSet \<Rightarrow> AVCCommonObj \<Rightarrow> (AVCStatus \<times> AVCCommonObj) option" where
  "FMOInit pps v =
     (let siz = PicSizeInMapUnits v; W = PicWidthInMbs v; n = num_slice_groups_minus1 pps; t = slice_group_map_type pps;
          done = (\<lambda>r. Option.bind r (\<lambda>m. Some (AVC_SUCCESS, v\<lparr>MbToSliceGroupMap := Some m\<rparr>)))
      in do { mp \<leftarrow> MbToSliceGroupMap v;
              if n = 0 then done (for_range 0 (nat siz) (\<lambda>i m. set_opt m (int i) 0) mp)
              else if t = 0 then done (FmoGenerateType0MapUnitMap mp (run_length_minus1 pps) (word_of_int n) (word_of_int siz))
              else if t = 1 then done (FmoGenerateType1MapUnitMap mp W n siz)
              else if t = 2 then done (FmoGenerateType2MapUnitMap pps mp W n siz)
              else if t = 3 then done (FmoGenerateType3MapUnitMap v pps mp W)
              else if t = 4 then
                done (FmoGenerateType4MapUnitMap mp (MapUnitsInSliceGroup0 v) (slice_group_change_direction_flag pps) siz)
              else if t = 5 then done (FmoGenerateType5MapUnitMap mp v (slice_group_change_direction_flag pps) siz)
              else if t = 6 then done (FmoGenerateType6MapUnitMap mp (slice_group_id pps) siz)
              else Some (AVC_FAIL, v) })"

section \<open>The groups of subclause 8.2.2\<close>

text \<open>Type 0: the runs of the groups, repeated over the picture.\<close>

definition runs :: "AVCPicParamSet \<Rightarrow> nat list" where
  "runs pps = map unat (take (Suc (nat (num_slice_groups_minus1 pps))) (run_length_minus1 pps))"

definition run_start :: "nat list \<Rightarrow> nat \<Rightarrow> nat" where
  "run_start rs k = sum_list (map Suc (take k rs))"

fun run_group :: "nat list \<Rightarrow> nat \<Rightarrow> nat" where
  "run_group [] t = 0"
| "run_group (r # rs) t = (if t \<le> r then 0 else Suc (run_group rs (t - Suc r)))"

text \<open>Type 2: the rectangle of a group.\<close>

definition in_rect :: "AVCPicParamSet \<Rightarrow> nat \<Rightarrow> nat \<Rightarrow> nat \<Rightarrow> bool" where
  "in_rect pps W k u \<longleftrightarrow>
     unat (top_left pps ! k) div W \<le> u div W \<and> u div W \<le> unat (bottom_right pps ! k) div W
     \<and> unat (top_left pps ! k) mod W \<le> u mod W \<and> u mod W \<le> unat (bottom_right pps ! k) mod W"

definition upper_left :: "AVCPicParamSet \<Rightarrow> AVCCommonObj \<Rightarrow> int" where
  "upper_left pps v =
     (if slice_group_change_direction_flag pps then PicSizeInMapUnits v - MapUnitsInSliceGroup0 v else MapUnitsInSliceGroup0 v)"

definition std_group :: "AVCPicParamSet \<Rightarrow> AVCCommonObj \<Rightarrow> nat \<Rightarrow> int" where
  "std_group pps v u =
     (let n = num_slice_groups_minus1 pps; t = slice_group_map_type pps;
          W = nat (PicWidthInMbs v); H = nat (PicHeightInMapUnits v);
          flag = of_bool (slice_group_change_direction_flag pps)
      in if n = 0 then 0
         else if t = 0 then int (run_group (runs pps) (u mod run_start (runs pps) (length (runs pps))))
         else if t = 1 then (int (u mod W) + (int (u div W) * (n + 1)) div 2) mod (n + 1)
         else if t = 2 then (case List.find (\<lambda>k. in_rect pps W k u) [0..<nat n] of None \<Rightarrow> n | Some k \<Rightarrow> int k)
         else if t = 4 then (if int u < upper_left pps v then 1 - flag else flag)
         else if t = 5 then (if int ((u mod W) * H + u div W) < upper_left pps v then 1 - flag else flag)
         else sint (slice_group_id pps ! u))"

section \<open>Filling a map\<close>

definition filled :: "(nat \<Rightarrow> int) \<Rightarrow> nat \<Rightarrow> int list \<Rightarrow> int list \<Rightarrow> bool" where
  "filled g n mp m \<longleftrightarrow> length m = length mp \<and> (\<forall>u < n. m ! u = g u)"

lemma filledD: "filled g n mp m \<Longrightarrow> length m = length mp" "filled g n mp m \<Longrightarrow> u < n \<Longrightarrow> m ! u = g u"
  by (simp_all add: filled_def)

lemma filled_0 [simp]: "filled g 0 mp mp"
  by (simp add: filled_def)

lemma filled_set: "filled g n mp m \<Longrightarrow> n < length mp \<Longrightarrow> x = g n \<Longrightarrow> filled g (Suc n) mp (m[n := x])"
  by (auto simp: filled_def nth_list_update)

lemma filled_mono: "filled g n mp m \<Longrightarrow> k \<le> n \<Longrightarrow> filled g k mp m"
  by (simp add: filled_def)

lemma for_fill:
  assumes "n \<le> length mp" and "\<And>i m. i < n \<Longrightarrow> body i m = set_opt m (int i) (g i)"
  shows "\<exists>m. for_range 0 n body mp = Some m \<and> filled g n mp m"
proof -
  have "\<exists>m. for_range 0 n body mp = Some m \<and> filled g (0 + n) mp m"
  proof (rule for_range_inv [where P = "\<lambda>i m. filled g i mp m"])
    fix i m assume i: "i < 0 + n" and m: "filled g i mp m"
    have "i < length m" using i assms(1) filledD(1) [OF m] by simp
    moreover have "filled g (Suc i) mp (m[i := g i])" using filled_set [OF m] i assms(1) by simp
    ultimately show "\<exists>u. body i m = Some u \<and> filled g (Suc i) mp u"
      using assms(2) [of i m] i by simp
  qed simp
  then show ?thesis by simp
qed

lemma type1_fill:
  assumes "0 < W" and "nat siz \<le> length mp" and "0 \<le> n" and "siz * (n + 1) < 4294967296"
  shows "\<exists>m. FmoGenerateType1MapUnitMap mp W n siz = Some m
    \<and> filled (\<lambda>i. (int i mod W + (int i div W * (n + 1)) div 2) mod (n + 1)) (nat siz) mp m"
  unfolding FmoGenerateType1MapUnitMap_def
proof (rule for_fill [OF assms(2)])
  fix i m assume "i < nat siz"
  have "int i div W * (n + 1) \<le> int i * (n + 1)"
    using assms(1,3) div_by_1 zdiv_mono2 [of "int i" 1 W] by (intro mult_right_mono) simp_all
  also have "\<dots> \<le> siz * (n + 1)" using \<open>i < nat siz\<close> assms(3) by (intro mult_right_mono) simp_all
  also have "\<dots> < 4294967296" by (rule assms(4))
  finally have "c_uint (int i div W * (n + 1)) = int i div W * (n + 1)"
    using assms(1,3) by (intro c_uint_id) (simp_all add: pos_imp_zdiv_nonneg_iff)
  then show "(if W = 0 then None else set_opt m (int i) ((int i mod W + c_uint (int i div W * (n + 1)) div 2) mod (n + 1)))
      = set_opt m (int i) ((int i mod W + (int i div W * (n + 1)) div 2) mod (n + 1))"
    using assms(1) by simp
qed

lemma type4_fill:
  assumes "nat siz \<le> length mp" and "0 \<le> units0" and "units0 \<le> siz" and "siz < 4294967296"
  shows "\<exists>m. FmoGenerateType4MapUnitMap mp units0 flag siz = Some m
    \<and> filled (\<lambda>i. if int i < (if flag then siz - units0 else units0) then 1 - of_bool flag else of_bool flag) (nat siz) mp m"
  unfolding FmoGenerateType4MapUnitMap_def Let_def
  by (rule for_fill [OF assms(1)]) (use assms in simp)

lemma type6_fill:
  assumes "nat siz \<le> length mp" and "nat siz \<le> length ids"
  shows "\<exists>m. FmoGenerateType6MapUnitMap mp ids siz = Some m \<and> filled (\<lambda>i. sint (ids ! i)) (nat siz) mp m"
  unfolding FmoGenerateType6MapUnitMap_def
  by (rule for_fill [OF assms(1)]) (use assms in simp)

section \<open>Type 0\<close>

lemma run_start_Suc: "k < length rs \<Longrightarrow> run_start rs (Suc k) = run_start rs k + rs ! k + 1"
  by (simp add: run_start_def take_Suc_conv_app_nth)

lemma run_start_mono: "j \<le> k \<Longrightarrow> run_start rs j \<le> run_start rs k"
proof -
  assume "j \<le> k"
  then have "take k rs = take j rs @ take (k - j) (drop j rs)" by (metis le_add_diff_inverse take_add)
  then show ?thesis by (simp add: run_start_def)
qed

lemma run_group_start: "k < length rs \<Longrightarrow> t \<le> rs ! k \<Longrightarrow> run_group rs (run_start rs k + t) = k"
proof (induction rs arbitrary: k)
  case (Cons r rs)
  show ?case
  proof (cases k)
    case (Suc j)
    then have "run_group rs (run_start rs j + t) = j" using Cons by simp
    then show ?thesis using Suc by (simp add: run_start_def)
  qed (use Cons.prems in \<open>simp add: run_start_def\<close>)
qed simp

lemma run_group_less: "t < run_start rs (length rs) \<Longrightarrow> run_group rs t < length rs"
proof (induction rs arbitrary: t)
  case (Cons r rs)
  have "run_group rs (t - Suc r) < length rs" if "\<not> t \<le> r"
    by (rule Cons.IH) (use Cons.prems that in \<open>simp add: run_start_def\<close>)
  then show ?case by simp
qed (simp add: run_start_def)

lemma fill_run_spec:
  assumes "filled g (min (i + j) siz) mp m" and "siz \<le> length mp" and "j \<le> Suc r"
    and "\<And>t. t \<le> r \<Longrightarrow> i + t < siz \<Longrightarrow> g (i + t) = x"
  shows "\<exists>m'. fill_run i j r siz x m = Some m' \<and> filled g (min (i + Suc r) siz) mp m'"
  using assms
proof (induction i j r siz x m rule: fill_run.induct)
  case (1 i j r siz x m)
  show ?case
  proof (cases "j \<le> r \<and> i + j < siz")
    case True
    have len: "length m = length mp" using 1(2) by (rule filledD)
    have "filled g (Suc (i + j)) mp (m[i + j := x])"
      by (rule filled_set) (use 1(2,3,5) True in \<open>auto simp: min_def\<close>)
    then have "filled g (min (i + (j + 1)) siz) mp (m[i + j := x])" by (rule filled_mono) simp
    moreover have "set_opt m (int (i + j)) x = Some (m[i + j := x])"
      using True len 1(3) by (simp flip: of_nat_add)
    ultimately obtain m' where "fill_run i (j + 1) r siz x (m[i + j := x]) = Some m'"
        "filled g (min (i + Suc r) siz) mp m'"
      using 1(1) [OF True, of "m[i + j := x]"] True 1(3,5) by auto
    then show ?thesis
      using True len 1(3) by (subst fill_run.simps) (simp flip: of_nat_add)
  next
    case False
    then have "min (i + j) siz = min (i + Suc r) siz" using 1(4) by auto
    then show ?thesis using False 1(2) by (subst fill_run.simps) auto
  qed
qed

lemma mod_offset: "b mod t = 0 \<Longrightarrow> c < t \<Longrightarrow> (b + c) mod t = (c :: nat)"
  by (metis add_cancel_left_left mod_add_left_eq mod_less)

lemma type0_groups_spec:
  fixes n siz :: uint
  assumes len: "unat siz \<le> length mp" "unat siz < 2 ^ 31" "unat n < length rl"
    and rs: "rs = map unat (take (Suc (unat n)) rl)" "T = run_start rs (length rs)" "\<forall>r \<in> set rs. r < unat siz"
    and g: "g = (\<lambda>u. int (run_group rs (u mod T)))" and b: "b mod T = 0"
  shows "filled g (min (unat i) (unat siz)) mp m \<Longrightarrow> unat i = b + run_start rs k \<Longrightarrow> k \<le> Suc (unat n) \<Longrightarrow>
    \<exists>i' m'. type0_groups rl n siz k i m = Some (i', m') \<and> filled g (min (unat i') (unat siz)) mp m'
      \<and> (unat i' < unat siz \<longrightarrow> unat i' = b + T) \<and> (unat siz \<le> unat i' \<or> unat i' = b + T)"
proof (induction "Suc (unat n) - k" arbitrary: k i m)
  case 0
  then have "k = length rs" using rs(1) len(3) by simp
  then show ?case using 0 rs(2) by (subst type0_groups.simps) auto
next
  case (Suc d)
  show ?case
  proof (cases "i < siz")
    case False
    then show ?thesis using Suc.prems by (subst type0_groups.simps) (auto simp: word_less_nat_alt)
  next
    case True
    have k: "k < length rs" "k \<le> unat n" using Suc.hyps(2) rs(1) len(3) by simp_all
    have rk: "rs ! k = unat (rl ! k)" using k rs(1) len(3) by simp
    have small: "rs ! k < unat siz" using rs(3) k(1) nth_mem by blast
    have i: "unat i < unat siz" using True by (simp add: word_less_nat_alt)
    have nxt: "unat (i + (rl ! k + 1)) = unat i + Suc (rs ! k)"
    proof -
      have "unat (rl ! k + 1) = Suc (rs ! k)" using small len(2) rk by (simp add: unat_word_ariths)
      then show ?thesis using i small len(2) by (simp add: unat_word_ariths)
    qed
    have gr: "g (unat i + t) = int k" if "t \<le> rs ! k" "unat i + t < unat siz" for t
    proof -
      have "run_start rs k + t < T"
        using run_start_mono [of "Suc k" "length rs" rs] k(1) that(1) run_start_Suc [OF k(1)] rs(2) by simp
      then have "(b + (run_start rs k + t)) mod T = run_start rs k + t" by (rule mod_offset [OF b])
      then show ?thesis using run_group_start [OF k(1) that(1)] g Suc.prems(2) by (simp add: add.assoc)
    qed
    obtain m1 where m1: "fill_run (unat i) 0 (rs ! k) (unat siz) (int k) m = Some m1"
        "filled g (min (unat i + Suc (rs ! k)) (unat siz)) mp m1"
      using fill_run_spec [of g "unat i" 0 "unat siz" mp m "rs ! k" "int k"] Suc.prems(1) len(1) gr by auto
    have "unat (i + (rl ! k + 1)) = b + run_start rs (Suc k)"
      using nxt run_start_Suc [OF k(1)] Suc.prems(2) by simp
    with Suc.hyps(1) [of "Suc k" "i + (rl ! k + 1)" m1] m1(2) nxt Suc.hyps(2) k(2)
    show ?thesis
      using True k rk m1(1) len(3) by (subst type0_groups.simps) auto
  qed
qed

lemma type0_fill:
  fixes n siz :: uint
  assumes len: "unat siz \<le> length mp" "unat siz < 2 ^ 31" "unat n < length rl"
    and rs: "rs = map unat (take (Suc (unat n)) rl)" "\<forall>r \<in> set rs. r < unat siz"
  shows "\<exists>m. FmoGenerateType0MapUnitMap mp rl n siz = Some m
    \<and> filled (\<lambda>u. int (run_group rs (u mod run_start rs (length rs)))) (unat siz) mp m"
proof -
  define T where "T = run_start rs (length rs)"
  define g where "g = (\<lambda>u. int (run_group rs (u mod T)))"
  have "0 < T"
    using run_start_mono [of 1 "length rs" rs] len(3) rs(1) by (cases rs) (auto simp: T_def run_start_def)
  note step = type0_groups_spec [OF len rs(1) T_def rs(2) g_def]
  have "\<exists>m'. type0_loop rl n siz i m = Some m' \<and> filled g (unat siz) mp m'"
    if "filled g (min (unat i) (unat siz)) mp m" and "unat i mod T = 0" for i m
    using that
  proof (induction "unat siz - unat i" arbitrary: i m rule: less_induct)
    case less
    obtain i1 m1 where r: "type0_groups rl n siz 0 i m = Some (i1, m1)"
        "filled g (min (unat i1) (unat siz)) mp m1" "unat siz \<le> unat i1 \<or> unat i1 = unat i + T"
      using step [OF less.prems(2) less.prems(1), of 0] by (auto simp: run_start_def)
    show ?case
    proof (cases "i1 < siz")
      case True
      then have i1: "unat i1 = unat i + T" "unat i1 < unat siz" using r(3) by (auto simp: word_less_nat_alt)
      have "\<exists>m'. type0_loop rl n siz i1 m1 = Some m' \<and> filled g (unat siz) mp m'"
      proof (rule less.hyps [OF _ r(2)])
        show "unat i1 mod T = 0" using i1(1) less.prems(2) by simp
        show "unat siz - unat i1 < unat siz - unat i" using i1 \<open>0 < T\<close> by linarith
      qed
      then obtain m2 where "type0_loop rl n siz i1 m1 = Some m2" "filled g (unat siz) mp m2" by blast
      then show ?thesis using r(1) True by (subst type0_loop.simps) simp
    next
      case False
      then have "unat siz \<le> unat i1" by (simp add: word_less_nat_alt)
      then show ?thesis using r(1,2) False by (subst type0_loop.simps) (simp add: min_absorb2)
    qed
  qed
  from this [of 0 mp] show ?thesis by (simp add: FmoGenerateType0MapUnitMap_def g_def T_def)
qed

section \<open>Type 2\<close>

lemma div_mod_iff: "x < W \<Longrightarrow> u = y * W + x \<longleftrightarrow> u div W = y \<and> u mod W = (x :: nat)"
  using div_mult_mod_eq [of u W] by auto

lemma rectangle:
  assumes "x0 + nx \<le> W" and "\<And>y x. y0 \<le> y \<Longrightarrow> y < y0 + ny \<Longrightarrow> x0 \<le> x \<Longrightarrow> x < x0 + nx \<Longrightarrow> y * W + x < length mp"
  shows "\<exists>m. for_range y0 ny (\<lambda>y. for_range x0 nx (\<lambda>x m. set_opt m (int y * int W + int x) g)) mp = Some m
    \<and> length m = length mp
    \<and> (\<forall>u < length mp. m ! u = (if y0 \<le> u div W \<and> u div W < y0 + ny \<and> x0 \<le> u mod W \<and> u mod W < x0 + nx then g else mp ! u))"
proof (rule for_range_inv [where P = "\<lambda>y m. length m = length mp
    \<and> (\<forall>u < length mp. m ! u = (if y0 \<le> u div W \<and> u div W < y \<and> x0 \<le> u mod W \<and> u mod W < x0 + nx then g else mp ! u))"])
  fix y m assume y: "y0 \<le> y" "y < y0 + ny"
    and m: "length m = length mp \<and> (\<forall>u < length mp. m ! u
      = (if y0 \<le> u div W \<and> u div W < y \<and> x0 \<le> u mod W \<and> u mod W < x0 + nx then g else mp ! u))"
  let ?Q = "\<lambda>x r. length r = length mp \<and> (\<forall>u < length mp. r ! u =
    (if y0 \<le> u div W \<and> u div W < y \<and> x0 \<le> u mod W \<and> u mod W < x0 + nx \<or> u div W = y \<and> x0 \<le> u mod W \<and> u mod W < x
     then g else mp ! u))"
  have "\<exists>r. for_range x0 nx (\<lambda>x m. set_opt m (int y * int W + int x) g) m = Some r \<and> ?Q (x0 + nx) r"
  proof (rule for_range_inv [where P = ?Q])
    show "?Q x0 m" using m by auto
    fix x r assume x: "x0 \<le> x" "x < x0 + nx" and r: "?Q x r"
    have pos: "y * W + x < length r" using assms(2) [of y x] x y r by simp
    have set: "set_opt r (int y * int W + int x) g = Some (r[y * W + x := g])"
      using pos by (simp flip: of_nat_mult of_nat_add)
    have W: "x < W" using assms(1) x by simp
    have "?Q (Suc x) (r[y * W + x := g])"
    proof (intro conjI allI impI)
      fix u assume u: "u < length mp"
      show "r[y * W + x := g] ! u =
        (if y0 \<le> u div W \<and> u div W < y \<and> x0 \<le> u mod W \<and> u mod W < x0 + nx \<or> u div W = y \<and> x0 \<le> u mod W \<and> u mod W < Suc x
         then g else mp ! u)"
      proof (cases "u = y * W + x")
        case True
        then have "u div W = y" "u mod W = x" using div_mod_iff [OF W, of u y] by simp_all
        then show ?thesis using True x(1) pos by simp
      next
        case False
        then have "\<not> (u div W = y \<and> u mod W = x)" using div_mod_iff [OF W, of u y] by simp
        then show ?thesis using False r u by (auto simp: less_Suc_eq)
      qed
    qed (use r in simp)
    then show "\<exists>u. set_opt r (int y * int W + int x) g = Some u \<and> ?Q (Suc x) u" using set by blast
  qed
  then obtain r where r: "for_range x0 nx (\<lambda>x m. set_opt m (int y * int W + int x) g) m = Some r" "?Q (x0 + nx) r"
    by blast
  have "r ! u = (if y0 \<le> u div W \<and> u div W < Suc y \<and> x0 \<le> u mod W \<and> u mod W < x0 + nx then g else mp ! u)"
    if "u < length mp" for u
    using r(2) that y(1) by (auto simp: less_Suc_eq)
  then show "\<exists>u. for_range x0 nx (\<lambda>x m. set_opt m (int y * int W + int x) g) m = Some u \<and> length u = length mp
      \<and> (\<forall>ua < length mp. u ! ua
        = (if y0 \<le> ua div W \<and> ua div W < Suc y \<and> x0 \<le> ua mod W \<and> ua mod W < x0 + nx then g else mp ! ua))"
    using r by blast
qed auto

lemma type2_group_spec:
  assumes "0 < W" and "k < length (top_left pps)" and "k < length (bottom_right pps)"
    and "unat (bottom_right pps ! k) < length mp"
  shows "\<exists>m. type2_group pps (int W) (int k) mp = Some m \<and> length m = length mp
    \<and> (\<forall>u < length mp. m ! u = (if in_rect pps W k u then int k else mp ! u))"
proof -
  let ?t = "unat (top_left pps ! k)" and ?b = "unat (bottom_right pps ! k)"
  have "\<exists>m. for_range (?t div W) (Suc (?b div W) - ?t div W) (\<lambda>y.
      for_range (?t mod W) (Suc (?b mod W) - ?t mod W) (\<lambda>x m. set_opt m (int y * int W + int x) (int k))) mp = Some m
    \<and> length m = length mp
    \<and> (\<forall>u < length mp. m ! u = (if ?t div W \<le> u div W \<and> u div W < ?t div W + (Suc (?b div W) - ?t div W)
        \<and> ?t mod W \<le> u mod W \<and> u mod W < ?t mod W + (Suc (?b mod W) - ?t mod W) then int k else mp ! u))"
  proof (rule rectangle)
    have "?b mod W < W" "?t mod W < W" using assms(1) by simp_all
    then show "?t mod W + (Suc (?b mod W) - ?t mod W) \<le> W" by linarith
  next
    fix y x assume y: "?t div W \<le> y" "y < ?t div W + (Suc (?b div W) - ?t div W)"
      and x: "?t mod W \<le> x" "x < ?t mod W + (Suc (?b mod W) - ?t mod W)"
    have "y \<le> ?b div W" "x \<le> ?b mod W" using y x by linarith+
    then have "y * W + x \<le> ?b div W * W + ?b mod W" by (intro add_mono mult_le_mono1)
    then show "y * W + x < length mp" using assms(4) by simp
  qed
  moreover have "(?t div W \<le> u div W \<and> u div W < ?t div W + (Suc (?b div W) - ?t div W)
        \<and> ?t mod W \<le> u mod W \<and> u mod W < ?t mod W + (Suc (?b mod W) - ?t mod W)) = in_rect pps W k u" for u
    unfolding in_rect_def by linarith
  ultimately show ?thesis using assms(1-3) by (simp add: type2_group_def)
qed


lemma find_append:
  "List.find P (xs @ ys) = (case List.find P xs of None \<Rightarrow> List.find P ys | Some x \<Rightarrow> Some x)"
  by (induction xs) simp_all

lemma type2_groups_spec:
  assumes "0 < W" and "n \<le> length (top_left pps)" and "n \<le> length (bottom_right pps)"
    and "\<And>k. k < n \<Longrightarrow> unat (bottom_right pps ! k) < length mp"
  shows "\<exists>m. type2_groups pps (int W) n mp = Some m \<and> length m = length mp
    \<and> (\<forall>u < length mp. m ! u = (case List.find (\<lambda>k. in_rect pps W k u) [0..<n] of None \<Rightarrow> mp ! u | Some k \<Rightarrow> int k))"
  using assms(2-)
proof (induction n arbitrary: mp)
  case (Suc n)
  obtain m where m: "type2_group pps (int W) (int n) mp = Some m" "length m = length mp"
      "\<forall>u < length mp. m ! u = (if in_rect pps W n u then int n else mp ! u)"
    using type2_group_spec [OF assms(1), of n pps mp] Suc.prems by auto
  obtain m' where m': "type2_groups pps (int W) n m = Some m'" "length m' = length mp"
      "\<forall>u < length mp. m' ! u = (case List.find (\<lambda>k. in_rect pps W k u) [0..<n] of None \<Rightarrow> m ! u | Some k \<Rightarrow> int k)"
    using Suc.IH [of m] Suc.prems m(2) by auto
  have find: "List.find P [0..<Suc n] = (case List.find P [0..<n] of None \<Rightarrow> if P n then Some n else None | Some k \<Rightarrow> Some k)" for P
    by (simp add: find_append split: option.split)
  have "m' ! u = (case List.find (\<lambda>k. in_rect pps W k u) [0..<Suc n] of None \<Rightarrow> mp ! u | Some k \<Rightarrow> int k)"
    if "u < length mp" for u
    unfolding find using m(3) m'(3) that by (simp split: option.split)
  then show ?case using m(1) m'(1,2) by simp
qed simp

lemma type2_fill:
  assumes "0 < W" and "nat siz \<le> length mp" and "0 \<le> n" and "nat n \<le> length (top_left pps)" and "nat n \<le> length (bottom_right pps)"
    and "\<And>k. k < nat n \<Longrightarrow> unat (bottom_right pps ! k) < length mp"
  shows "\<exists>m. FmoGenerateType2MapUnitMap pps mp (int W) n siz = Some m
    \<and> filled (\<lambda>u. case List.find (\<lambda>k. in_rect pps W k u) [0..<nat n] of None \<Rightarrow> n | Some k \<Rightarrow> int k) (nat siz) mp m"
proof -
  obtain m where m: "for_range 0 (nat siz) (\<lambda>i m. set_opt m (int i) n) mp = Some m" "filled (\<lambda>u. n) (nat siz) mp m"
    using for_fill [OF assms(2), of "\<lambda>i m. set_opt m (int i) n" "\<lambda>u. n"] by blast
  have len: "length m = length mp" by (rule filledD [OF m(2)])
  obtain m' where "type2_groups pps (int W) (nat n) m = Some m'" "length m' = length mp"
      "\<forall>u < length mp. m' ! u = (case List.find (\<lambda>k. in_rect pps W k u) [0..<nat n] of None \<Rightarrow> m ! u | Some k \<Rightarrow> int k)"
    using type2_groups_spec [OF assms(1,4,5), of m] assms(6) len by auto
  then show ?thesis
    using m filledD(2) [OF m(2)] assms(2) by (auto simp: FmoGenerateType2MapUnitMap_def filled_def split: option.split)
qed

section \<open>Type 5\<close>

lemma type5_fill:
  assumes W: "PicWidthInMbs v = int W" "PicHeightInMapUnits v = int H" "0 < W" and siz: "siz = int W * int H" "nat siz \<le> length mp"
    and "0 \<le> MapUnitsInSliceGroup0 v" "MapUnitsInSliceGroup0 v \<le> siz" "siz < 2147483648"
    and ul: "ul = (if flag then siz - MapUnitsInSliceGroup0 v else MapUnitsInSliceGroup0 v)"
  shows "\<exists>m. FmoGenerateType5MapUnitMap mp v flag siz = Some m
    \<and> filled (\<lambda>u. if int ((u mod W) * H + u div W) < ul then 1 - of_bool flag else of_bool flag) (nat siz) mp m"
proof -
  define g :: "nat \<Rightarrow> int" where "g k = (if int k < ul then 1 - of_bool flag else of_bool flag)" for k
  define body where "body j = (\<lambda>i (k, m). do { m1 \<leftarrow> set_opt m (int i * int W + int j)
    (if k < ul then 1 - of_bool flag else (of_bool flag :: int)); Some (k + 1, m1) })" for j
  define past where "past j i u \<longleftrightarrow> u mod W < j \<or> u mod W = j \<and> u div W < i" for j i u :: nat
  define P where "P j i s \<longleftrightarrow> fst s = int (j * H + i) \<and> length (snd s) = length mp
    \<and> (\<forall>u < W * H. past j i u \<longrightarrow> snd s ! u = g ((u mod W) * H + u div W))" for j i and s :: "int \<times> int list"
  have ul': "c_int (if flag then siz - MapUnitsInSliceGroup0 v else MapUnitsInSliceGroup0 v) = ul"
    using assms by (intro c_int_id [THEN trans]) simp_all
  have col: "\<exists>s'. for_range 0 H (body j) s = Some s' \<and> P j H s'" if j: "j < W" and s: "P j 0 s" for j s
  proof -
    have "\<exists>s'. for_range 0 H (body j) s = Some s' \<and> P j (0 + H) s'"
    proof (rule for_range_inv)
      fix i t assume i: "i < 0 + H" and t: "P j i t"
      have "i * W + j < Suc i * W" using j by simp
      also have "\<dots> \<le> H * W" using i by (intro mult_le_mono1) simp
      finally have pos: "i * W + j < W * H" by (simp add: mult.commute)
      have len: "W * H \<le> length mp" using siz by (simp add: nat_mult_distrib)
      have "set_opt (snd t) (int i * int W + int j) x = Some ((snd t)[i * W + j := x])" for x
        using pos len t by (simp add: P_def flip: of_nat_mult of_nat_add)
      then have b: "body j i t = Some (fst t + 1, (snd t)[i * W + j := g (j * H + i)])"
        using t by (cases t) (simp add: body_def P_def g_def)
      have "P j (Suc i) (fst t + 1, (snd t)[i * W + j := g (j * H + i)])"
        unfolding P_def
      proof (intro conjI allI impI)
        fix u assume u: "u < W * H" "past j (Suc i) u"
        show "snd (fst t + 1, (snd t)[i * W + j := g (j * H + i)]) ! u = g ((u mod W) * H + u div W)"
        proof (cases "u = i * W + j")
          case True
          then show ?thesis using div_mod_iff [OF j, of u i] t pos len by (simp add: P_def)
        next
          case False
          then have "past j i u" using div_mod_iff [OF j, of u i] u(2) by (auto simp: past_def less_Suc_eq)
          then show ?thesis using False t u(1) by (simp add: P_def)
        qed
      qed (use t in \<open>simp_all add: P_def\<close>)
      then show "\<exists>u. body j i t = Some u \<and> P j (Suc i) u" using b by blast
    qed (rule s)
    then show ?thesis by simp
  qed
  have "\<exists>s'. for_range 0 W (\<lambda>j. for_range 0 H (body j)) (0, mp) = Some s' \<and> P (0 + W) 0 s'"
  proof (rule for_range_inv [where P = "\<lambda>j. P j 0"])
    fix j s assume "j < 0 + W" and "P j 0 s"
    then obtain s' where s': "for_range 0 H (body j) s = Some s'" "P j H s'" using col [of j s] by auto
    have "past j H u" if "u < W * H" "past (Suc j) 0 u" for u
      using that less_mult_imp_div_less [of u H W] by (auto simp: past_def less_Suc_eq mult.commute)
    then have "P (Suc j) 0 s'" using s'(2) by (simp add: P_def)
    then show "\<exists>u. for_range 0 H (body j) s = Some u \<and> P (Suc j) 0 u" using s'(1) by blast
  qed (simp add: P_def past_def)
  then obtain k m where m: "for_range 0 W (\<lambda>j. for_range 0 H (body j)) (0, mp) = Some (k, m)" "P W 0 (k, m)"
    by auto
  have "past W 0 u" for u using W(3) by (simp add: past_def)
  then have "filled (\<lambda>u. g ((u mod W) * H + u div W)) (nat siz) mp m"
    using m(2) siz(1) by (simp add: P_def filled_def nat_mult_distrib)
  then show ?thesis
    using m(1) by (simp add: FmoGenerateType5MapUnitMap_def W ul' Let_def body_def [abs_def] g_def)
qed

section \<open>FMOInit\<close>

text \<open>
  What the parameter sets guarantee when \<open>FMOInit\<close> is called: a map of at least the size of the picture,
  and syntax elements in the ranges of subclause 7.4.2.2. The ranges are not checked by \<open>DecodePPS\<close>.
\<close>

definition fmo_ok :: "AVCPicParamSet \<Rightarrow> AVCCommonObj \<Rightarrow> int list \<Rightarrow> bool" where
  "fmo_ok pps v mp \<longleftrightarrow> MbToSliceGroupMap v = Some mp
     \<and> 0 < PicWidthInMbs v \<and> 0 < PicHeightInMapUnits v \<and> PicSizeInMapUnits v = PicWidthInMbs v * PicHeightInMapUnits v
     \<and> PicSizeInMapUnits v \<le> int (length mp) \<and> PicSizeInMapUnits v < 2 ^ 28
     \<and> 0 \<le> MapUnitsInSliceGroup0 v \<and> MapUnitsInSliceGroup0 v \<le> PicSizeInMapUnits v
     \<and> 0 \<le> num_slice_groups_minus1 pps \<and> num_slice_groups_minus1 pps \<le> 7
     \<and> slice_group_map_type pps \<in> {0, 1, 2, 4, 5, 6}
     \<and> length (run_length_minus1 pps) = 8 \<and> length (top_left pps) = 7 \<and> length (bottom_right pps) = 7
     \<and> (slice_group_map_type pps = 0 \<longrightarrow> (\<forall>r \<in> set (runs pps). r < nat (PicSizeInMapUnits v)))
     \<and> (slice_group_map_type pps = 2 \<longrightarrow> (\<forall>k < nat (num_slice_groups_minus1 pps).
          unat (bottom_right pps ! k) < nat (PicSizeInMapUnits v)))
     \<and> (slice_group_map_type pps = 6 \<longrightarrow> nat (PicSizeInMapUnits v) \<le> length (slice_group_id pps)
          \<and> (\<forall>u < nat (PicSizeInMapUnits v). unat (slice_group_id pps ! u) \<le> nat (num_slice_groups_minus1 pps)))"

text \<open>Each generator that \<open>FMOInit\<close> selects fills the map with \<open>std_group\<close>.\<close>

lemma fmo_run:
  assumes "MbToSliceGroupMap v = Some mp" and "\<exists>m. gen = Some m \<and> filled g n mp m"
    and "FMOInit pps v = Option.bind gen (\<lambda>m. Some (AVC_SUCCESS, v\<lparr>MbToSliceGroupMap := Some m\<rparr>))"
    and "\<And>u. u < n \<Longrightarrow> g u = h u"
  shows "\<exists>m. FMOInit pps v = Some (AVC_SUCCESS, v\<lparr>MbToSliceGroupMap := Some m\<rparr>) \<and> filled h n mp m"
  using assms(2-4) by (auto simp: filled_def)

lemma FMOInit_std:
  assumes ok: "fmo_ok pps v mp"
  shows "\<exists>m. FMOInit pps v = Some (AVC_SUCCESS, v\<lparr>MbToSliceGroupMap := Some m\<rparr>)
    \<and> filled (std_group pps v) (nat (PicSizeInMapUnits v)) mp m"
proof -
  obtain W H where WH: "PicWidthInMbs v = int W" "PicHeightInMapUnits v = int H"
    using ok by (metis fmo_ok_def less_imp_le nonneg_int_cases)
  let ?n = "num_slice_groups_minus1 pps" and ?t = "slice_group_map_type pps"
  define siz where "siz = PicSizeInMapUnits v"
  have W: "0 < W" "0 < H" and siz: "siz = int W * int H" "nat siz \<le> length mp" "0 < siz" "siz < 2 ^ 28"
    using ok WH by (simp_all add: fmo_ok_def siz_def nat_le_iff)
  have mp: "MbToSliceGroupMap v = Some mp" and n: "0 \<le> ?n" "?n \<le> 7"
    and units0: "0 \<le> MapUnitsInSliceGroup0 v" "MapUnitsInSliceGroup0 v \<le> siz"
    and len: "length (run_length_minus1 pps) = 8" "length (top_left pps) = 7" "length (bottom_right pps) = 7"
    using ok by (simp_all add: fmo_ok_def siz_def)
  consider "?n = 0" | "?n \<noteq> 0" "?t = 0" | "?n \<noteq> 0" "?t = 1" | "?n \<noteq> 0" "?t = 2" | "?n \<noteq> 0" "?t = 4"
    | "?n \<noteq> 0" "?t = 5" | "?n \<noteq> 0" "?t = 6"
    using ok unfolding fmo_ok_def by blast
  then have "\<exists>m. FMOInit pps v = Some (AVC_SUCCESS, v\<lparr>MbToSliceGroupMap := Some m\<rparr>)
      \<and> filled (std_group pps v) (nat siz) mp m" (is ?goal)
  proof cases
    case 1
    show ?goal
      by (rule fmo_run [OF mp for_fill [OF siz(2), of "\<lambda>i m. set_opt m (int i) 0" "\<lambda>u. 0"]])
        (simp_all add: FMOInit_def Let_def mp 1 siz_def std_group_def)
  next
    case 2
    have u: "unat (word_of_int ?n :: uint) = nat ?n" "unat (word_of_int siz :: uint) = nat siz"
      using n siz(3,4) by (simp_all add: unat_word_small)
    have "?t = 0 \<longrightarrow> (\<forall>r \<in> set (runs pps). r < nat siz)"
      using ok unfolding fmo_ok_def siz_def by (elim conjE)
    then have "\<forall>r \<in> set (runs pps). r < unat (word_of_int siz :: uint)" unfolding u by (rule HOL.mp [OF _ 2(2)])
    moreover have "runs pps = map unat (take (Suc (unat (word_of_int ?n :: uint))) (run_length_minus1 pps))"
      by (simp only: runs_def u)
    moreover have "unat (word_of_int siz :: uint) \<le> length mp" "unat (word_of_int siz :: uint) < 2 ^ 31"
      "unat (word_of_int ?n :: uint) < length (run_length_minus1 pps)"
      unfolding u using siz(2-4) n len(1) by simp_all
    ultimately have "\<exists>m. FmoGenerateType0MapUnitMap mp (run_length_minus1 pps) (word_of_int ?n) (word_of_int siz) = Some m
        \<and> filled (\<lambda>u. int (run_group (runs pps) (u mod run_start (runs pps) (length (runs pps)))))
            (unat (word_of_int siz :: uint)) mp m"
      by (intro type0_fill) assumption+
    note fill = this [unfolded u]
    show ?goal
      by (rule fmo_run [OF mp fill])
        (simp_all add: FMOInit_def Let_def mp 2 siz_def std_group_def)
  next
    case 3
    have "siz * (?n + 1) \<le> siz * 8" using siz(3) n by (intro mult_left_mono) simp_all
    then have small: "siz * (?n + 1) < 4294967296" using siz(4) by simp
    show ?goal
      by (rule fmo_run [OF mp type1_fill [OF _ siz(2) n(1) small, of "int W"]])
        (use W in \<open>simp_all add: FMOInit_def Let_def mp 3 siz_def std_group_def WH of_nat_mod of_nat_div\<close>)
  next
    case 4
    have fill: "\<exists>m. FmoGenerateType2MapUnitMap pps mp (int W) ?n siz = Some m
      \<and> filled (\<lambda>u. case List.find (\<lambda>k. in_rect pps W k u) [0..<nat ?n] of None \<Rightarrow> ?n | Some k \<Rightarrow> int k) (nat siz) mp m"
      by (rule type2_fill [OF W(1) siz(2) n(1)]) (use ok 4 n len siz(2) in \<open>auto simp: fmo_ok_def siz_def\<close>)
    show ?goal
      by (rule fmo_run [OF mp fill])
        (simp_all add: FMOInit_def Let_def mp 4 siz_def std_group_def WH)
  next
    case 5
    show ?goal
      by (rule fmo_run [OF mp type4_fill [OF siz(2) units0, of "slice_group_change_direction_flag pps"]])
        (use siz(4) in \<open>simp_all add: FMOInit_def Let_def mp 5 siz_def std_group_def upper_left_def\<close>)
  next
    case 6
    show ?goal
      by (rule fmo_run [OF mp type5_fill [OF WH W(1) siz(1,2) units0 _ refl, of "slice_group_change_direction_flag pps"]])
        (use siz(4) in \<open>simp_all add: FMOInit_def Let_def mp 6 siz_def std_group_def upper_left_def WH\<close>)
  next
    case 7
    have "?t = 6 \<longrightarrow> nat siz \<le> length (slice_group_id pps) \<and> (\<forall>u < nat siz. unat (slice_group_id pps ! u) \<le> nat ?n)"
      using ok unfolding fmo_ok_def siz_def by (elim conjE)
    then have ids: "nat siz \<le> length (slice_group_id pps)" using 7(2) by simp
    show ?goal
      by (rule fmo_run [OF mp type6_fill [OF siz(2) ids]])
        (simp_all add: FMOInit_def Let_def mp 7 siz_def std_group_def)
  qed
  then show ?thesis by (simp add: siz_def)
qed

lemma std_group_range:
  assumes ok: "fmo_ok pps v mp" and u: "u < nat (PicSizeInMapUnits v)"
  shows "0 \<le> std_group pps v u \<and> std_group pps v u \<le> num_slice_groups_minus1 pps"
proof -
  let ?n = "num_slice_groups_minus1 pps" and ?t = "slice_group_map_type pps"
  have n: "0 \<le> ?n" "length (run_length_minus1 pps) = 8" "?n \<le> 7" using ok by (simp_all add: fmo_ok_def)
  have t: "?t \<in> {0, 1, 2, 4, 5, 6}" using ok unfolding fmo_ok_def by (elim conjE)
  have len: "length (runs pps) = Suc (nat ?n)" using n by (simp add: runs_def)
  have "0 < run_start (runs pps) (length (runs pps))" using len by (cases "runs pps") (auto simp: run_start_def)
  then have 0: "run_group (runs pps) (u mod run_start (runs pps) (length (runs pps))) < Suc (nat ?n)"
    using run_group_less [of "u mod run_start (runs pps) (length (runs pps))" "runs pps"] len by simp
  have 2: "k < nat ?n" if "List.find P [0..<nat ?n] = Some k" for P k
    using that by (auto simp: find_Some_iff)
  have 6: "sint (slice_group_id pps ! u) = int (unat (slice_group_id pps ! u)) \<and> unat (slice_group_id pps ! u) \<le> nat ?n" if "?t = 6"
  proof -
    have "?t = 6 \<longrightarrow> nat (PicSizeInMapUnits v) \<le> length (slice_group_id pps)
        \<and> (\<forall>u < nat (PicSizeInMapUnits v). unat (slice_group_id pps ! u) \<le> nat ?n)"
      using ok unfolding fmo_ok_def by (elim conjE)
    then have le: "unat (slice_group_id pps ! u) \<le> nat ?n" using that u by simp
    then have "unat (slice_group_id pps ! u) \<le> 7" using n(3) by linarith
    then have "uint (slice_group_id pps ! u) \<le> 7" by (metis nat_le_iff nat_uint_eq of_nat_numeral)
    then have "sint (slice_group_id pps ! u) = uint (slice_group_id pps ! u)"
      using c_int_id [OF order_trans [OF _ unsigned_greater_eq], of "slice_group_id pps ! u"] by (simp add: sint_uint c_int_def)
    then show ?thesis using le by simp
  qed
  show ?thesis
  proof (cases "?n = 0")
    case True
    then show ?thesis by (simp add: std_group_def Let_def)
  next
    case False
    note unf = std_group_def Let_def if_not_P [OF False]
    consider "?t = 0" | "?t = 1" | "?t = 2" | "?t = 4 \<or> ?t = 5" | "?t = 6" using t by blast
    then show ?thesis
    proof cases
      case 1
      then show ?thesis using 0 n(1) by (simp add: unf)
    next
      case 2
      then show ?thesis using n(1) pos_mod_bound [of "?n + 1"] by (simp add: unf zle_diff1_eq [symmetric] del: zle_diff1_eq)
    next
      case 3
      then show ?thesis using n(1) 2 by (fastforce simp: unf split: option.split)
    next
      case 4
      then show ?thesis using n(1) False by (auto simp: unf)
    next
      case 5
      then have "int (unat (slice_group_id pps ! u)) \<le> ?n" using 6 n(1) le_nat_iff by blast
      then show ?thesis using 5 6 by (simp add: unf)
    qed
  qed
qed

end
