(* ===== verification/PocProps.thy ===== *)
theory PocProps
  imports Samples Fmo Poc
begin

text \<open>
  The properties of the slice group maps and of the picture order count, with witnesses on a picture
  of four by two map units and on short sessions.
\<close>

section \<open>Slice groups\<close>






section \<open>Picture order counts\<close>

text \<open>C18: in mode 0 the decoder recovers the display order of every picture. Over any session of IDR and
  other pictures in which a picture is displayed at or after the last IDR picture and within half a
  period of the picture coded before it, the counts that \<open>DecodePOC\<close> computes from the slice headers of
  \<open>InitPOC\<close> are the display orders relative to that IDR picture, across any number of wrap-arounds of
  \<open>pic_order_cnt_lsb\<close>.\<close>

theorem POC_session_recovers:
  assumes "poc_sync pps sps k ref p s" and "poc_frames_ok k ref p frames"
  shows "poc_session pps sps frames s = Some (display_orders ref frames)"
  by (rule poc_session_sync [OF assms])

definition demo_session :: "AVCEncObject \<times> AVCSliceHeader \<times> AVCCommonObj \<times> AVCCommonObj" where
  "demo_session = (\<lparr>dispOrdPOCRef = 0, disp_order = 0\<rparr>, demo_hdr, demo_p, demo_p)"

lemma demo_session_sync: "poc_sync blank_pps blank_sps 4 0 0 demo_session"
  by (simp add: poc_sync_def demo_session_def demo_hdr_def blank_hdr_def blank_sps_def demo_p_def demo_video_def)

lemma POC_session_recovers_witness:
  "poc_session blank_pps blank_sps [(True, 40), (False, 44), (False, 42), (False, 50), (False, 58), (True, 7), (False, 9)] demo_session
    = Some (display_orders 0 [(True, 40), (False, 44), (False, 42), (False, 50), (False, 58), (True, 7), (False, 9)])"
  by (rule POC_session_recovers [OF demo_session_sync]) (simp add: poc_near_def)

text \<open>C19: encoder and decoder agree in every mode: from the same state, \<open>DecodePOC\<close> with the slice header
  that \<open>InitPOC\<close> wrote ends in exactly the state of the encoder, for frames without a bottom field offset.\<close>

theorem POC_modes_agree:
  assumes "InitPOC pps sps enc h v = Some (AVCENC_SUCCESS, enc', h', v')"
    and "\<not> field_pic_flag h" and "delta_pic_order_cnt_bottom h = 0"
  shows "DecodePOC sps h' v = Some (AVCDEC_SUCCESS, v')"
  by (rule InitPOC_decode [OF assms])

lemma POC_modes_agree_witness:
  "let r = the (InitPOC blank_pps (blank_sps\<lparr>pic_order_cnt_type := 2\<rparr>) (fst demo_session) demo_hdr demo_p)
   in DecodePOC (blank_sps\<lparr>pic_order_cnt_type := 2\<rparr>) (fst (snd (snd r))) demo_p = Some (AVCDEC_SUCCESS, snd (snd (snd r)))"
  unfolding Let_def
  by (rule POC_modes_agree [where pps = blank_pps and enc = "fst demo_session" and h = demo_hdr
        and enc' = "fst (snd (the (InitPOC blank_pps (blank_sps\<lparr>pic_order_cnt_type := 2\<rparr>) (fst demo_session) demo_hdr demo_p)))"])
    (simp_all add: InitPOC_def init_poc2_def demo_session_def demo_hdr_def blank_hdr_def demo_p_def demo_video_def Let_def)

text \<open>in mode 1 the count the code expects is the sum of the offsets of the reference frames since the
  last IDR picture, the list of offsets repeated, as subclause 8.2.1.2 has it.\<close>

theorem POC_mode1_expects:
  assumes "0 \<le> num_ref_frames_in_pic_order_cnt_cycle sps"
    and "nat (num_ref_frames_in_pic_order_cnt_cycle sps) \<le> length (offset_for_ref_frame sps)"
    and "0 \<le> abs_frame_num sps h (v\<lparr>FrameNumOffset := frame_num_offset h v\<rparr>)"
  shows "\<exists>v'. poc1_expected sps h v = Some v' \<and> expectedPicOrderCnt v' = std_expected sps h v"
  by (rule poc1_expected_std [OF assms])

lemma POC_mode1_expects_witness:
  "\<exists>v'. poc1_expected (blank_sps\<lparr>num_ref_frames_in_pic_order_cnt_cycle := 2\<rparr>) demo_hdr demo_p = Some v'
    \<and> expectedPicOrderCnt v' = std_expected (blank_sps\<lparr>num_ref_frames_in_pic_order_cnt_cycle := 2\<rparr>) demo_hdr demo_p"
  by (rule POC_mode1_expects)
    (simp_all add: blank_sps_def abs_frame_num_def frame_num_offset_def demo_hdr_def blank_hdr_def demo_p_def demo_video_def)

text \<open>C20: mode 0 of \<open>InitPOC\<close> does not return when the display order of a picture falls below the residue of
  the reference count: the loop that lowers the reference wraps around zero for ever.\<close>

theorem InitPOC_hangs:
  assumes "pic_order_cnt_type sps = 0" and "\<not> nal_is_IDR v" and "MaxPicOrderCntLsb v = 2 ^ k" and "k \<le> 16"
    and "disp_order enc < dispOrdPOCRef enc mod 2 ^ k"
  shows "InitPOC pps sps enc h v = None"
  using lower_ref_stuck [of "2 ^ k" k "disp_order enc" "dispOrdPOCRef enc"] assms
  by (simp add: InitPOC_def init_poc0_def)

lemma InitPOC_hangs_witness:
  "InitPOC blank_pps blank_sps \<lparr>dispOrdPOCRef = 21, disp_order = 4\<rparr> demo_hdr demo_p = None"
  by (rule InitPOC_hangs [where k = 4]) (simp_all add: blank_sps_def demo_p_def demo_video_def)

end
