(* ===== verification/OutputProps.thy ===== *)
theory OutputProps
  imports Samples Output
begin






text \<open>C15: draining the buffer makes room: after the application has taken frames until
  \<open>PVAVCDecGetOutput\<close> fails, which happens after at most as many calls as there are frames waiting and
  one more, nothing waits for output and \<open>DPBInitBuffer\<close> succeeds, whatever the frames are marked as.\<close>

theorem Drain_makes_room:
  assumes "run_inv es v" and "\<not> mem_mgr_ctrl_eq_5 v" and "0 < num_fs v" and "\<And>i. fbind i \<noteq> None"
  shows "\<exists>w u. drain (Suc (card (pending v))) v = Some w \<and> pending w = {} \<and> DPBInitBuffer fbind w = (AVC_SUCCESS, u)"
  by (rule drain_room [OF assms])

lemma Drain_makes_room_witness:
  "\<exists>w u. drain (Suc (card (pending demo_p))) demo_p = Some w \<and> pending w = {}
    \<and> DPBInitBuffer (\<lambda>i. Some 0) w = (AVC_SUCCESS, u)"
  by (rule Drain_makes_room [where es = "[Start 1, Start 2, Start 0]"])
    (auto simp: run_inv_def demo_defs store_ok_def awaits_def less_Suc_eq)

text \<open>C14: \<open>fill_frame_num_gap\<close> returns: for a \<open>frame_num\<close> below \<open>MaxFrameNum\<close> the loop over the missing
  frames ends, and when it succeeds the slice header and \<open>CurrPicNum\<close> are what they were and the last
  frame made up is the one just before the current frame, modulo \<open>MaxFrameNum\<close>.\<close>

theorem Gap_is_filled:
  assumes "pic_order_cnt_type sps \<noteq> 1" and "0 < MaxFrameNum v" and "0 \<le> frame_num h" and "frame_num h < MaxFrameNum v"
  shows "\<exists>st h' w. fill_frame_num_gap fbind sps h v = Some (st, h', w)
    \<and> (st = AVCDEC_SUCCESS \<longrightarrow> h' = h \<and> CurrPicNum w = CurrPicNum v \<and> (prevFrameNum w + 1) mod MaxFrameNum v = frame_num h)"
  by (rule fill_frame_num_gap_total [OF assms])

lemma Gap_is_filled_witness:
  "\<exists>st h' w. fill_frame_num_gap (\<lambda>i. Some 0) blank_sps (demo_hdr\<lparr>frame_num := 1\<rparr>) demo_p = Some (st, h', w)
    \<and> (st = AVCDEC_SUCCESS \<longrightarrow> h' = demo_hdr\<lparr>frame_num := 1\<rparr> \<and> CurrPicNum w = CurrPicNum demo_p
         \<and> (prevFrameNum w + 1) mod MaxFrameNum demo_p = frame_num (demo_hdr\<lparr>frame_num := 1\<rparr>))"
  by (rule Gap_is_filled) (simp_all add: blank_sps_def demo_defs)

end
