(* ===== verification/MbAccess.thy ===== *)
theory MbAccess
  imports MbData
begin

text \<open>
  The neighbours of a macroblock, \<open>common/src/mb_access.cpp\<close>: their availability, the prediction of the number of
  coefficients of a block, and the prediction of motion vectors. Blocks of four by four samples are counted by column and
  row within the macroblock, \<open>0 \<dots> 3\<close>, so the indices into the arrays of a macroblock are within them; a neighbouring
  macroblock is read only if it is available.
\<close>

section \<open>Availability\<close>

definition same_slice :: "AVCMbObj \<Rightarrow> int \<Rightarrow> bool option" where
  "same_slice ob addr = map_option (\<lambda>m. slice_id m = slice_id (currMB ob)) (nth_opt (mblock ob) addr)"

definition InitNeighborAvailability :: "int \<Rightarrow> int \<Rightarrow> AVCMbObj \<Rightarrow> AVCMbObj option" where
  "InitNeighborAvailability PicWidthInMbs mbNum ob =
     do { let a = mbNum - 1;
          let b = mbNum - PicWidthInMbs;
          let c = mbNum - PicWidthInMbs + 1;
          let d = mbNum - PicWidthInMbs - 1;
          availA \<leftarrow> (if mb_x ob \<noteq> 0 then same_slice ob a else Some False);
          availD \<leftarrow> (if mb_x ob \<noteq> 0 \<and> mb_y ob \<noteq> 0 then same_slice ob d else Some False);
          availB \<leftarrow> (if mb_y ob \<noteq> 0 then same_slice ob b else Some False);
          availC \<leftarrow> (if mb_y ob \<noteq> 0 \<and> mb_x ob < PicWidthInMbs - 1 then same_slice ob c else Some False);
          Some (ob\<lparr>mbAddrA := a, mbAddrB := b, mbAddrC := c, mbAddrD := d,
                   mbAvailA := availA, mbAvailB := availB, mbAvailC := availC, mbAvailD := availD\<rparr>) }"

definition mb_is_available :: "AVCMacroblock list \<Rightarrow> int \<Rightarrow> int \<Rightarrow> int \<Rightarrow> bool option" where
  "mb_is_available mbs PicSizeInMbs mbAddr currAddr =
     (if mbAddr < 0 \<or> mbAddr \<ge> PicSizeInMbs then Some False
      else do { m \<leftarrow> nth_opt mbs mbAddr; cur \<leftarrow> nth_opt mbs currAddr; Some (slice_id m = slice_id cur) })"

abbreviation mbA :: "AVCMbObj \<Rightarrow> AVCMacroblock" where "mbA ob \<equiv> mblock ob ! nat (mbAddrA ob)"
abbreviation mbB :: "AVCMbObj \<Rightarrow> AVCMacroblock" where "mbB ob \<equiv> mblock ob ! nat (mbAddrB ob)"
abbreviation mbC :: "AVCMbObj \<Rightarrow> AVCMacroblock" where "mbC ob \<equiv> mblock ob ! nat (mbAddrC ob)"
abbreviation mbD :: "AVCMbObj \<Rightarrow> AVCMacroblock" where "mbD ob \<equiv> mblock ob ! nat (mbAddrD ob)"

text \<open>Neighbours that intra prediction may use: as \<open>mb_pred\<close> of the decoder and \<open>AVCEncodeSlice\<close> set the flags.\<close>

definition set_intraAvail :: "bool \<Rightarrow> AVCMbObj \<Rightarrow> AVCMbObj" where
  "set_intraAvail constrained ob =
     ob\<lparr>intraAvailA := mbAvailA ob \<and> (constrained \<longrightarrow> mb_intra (mbA ob)),
        intraAvailB := mbAvailB ob \<and> (constrained \<longrightarrow> mb_intra (mbB ob)),
        intraAvailC := mbAvailC ob \<and> (constrained \<longrightarrow> mb_intra (mbC ob)),
        intraAvailD := mbAvailD ob \<and> (constrained \<longrightarrow> mb_intra (mbD ob))\<rparr>"

section \<open>Prediction of the intra 4x4 modes\<close>

definition AVC_I4_DC :: int where "AVC_I4_DC = 2"

text \<open>The mode of the left and of the upper block; none if the neighbour cannot be used.\<close>

definition i4_mode_A :: "AVCMbObj \<Rightarrow> nat \<Rightarrow> nat \<Rightarrow> int option" where
  "i4_mode_A ob x y =
     (if x > 0 then Some (i4Mode (currMB ob) ! (y * 4 + x - 1))
      else if intraAvailA ob then Some (if mbMode (mbA ob) = AVC_I4 then i4Mode (mbA ob) ! (y * 4 + 3) else AVC_I4_DC)
      else None)"

definition i4_mode_B :: "AVCMbObj \<Rightarrow> nat \<Rightarrow> nat \<Rightarrow> int option" where
  "i4_mode_B ob x y =
     (if y > 0 then Some (i4Mode (currMB ob) ! ((y - 1) * 4 + x))
      else if intraAvailB ob then Some (if mbMode (mbB ob) = AVC_I4 then i4Mode (mbB ob) ! (3 * 4 + x) else AVC_I4_DC)
      else None)"

text \<open>\<open>dcOnlyPredictionFlag\<close>: without either neighbour both modes count as DC.\<close>

definition predIntra4x4PredMode :: "AVCMbObj \<Rightarrow> nat \<Rightarrow> nat \<Rightarrow> int" where
  "predIntra4x4PredMode ob x y =
     (case (i4_mode_A ob x y, i4_mode_B ob x y) of (Some a, Some b) \<Rightarrow> AVC_MIN a b | _ \<Rightarrow> AVC_MIN AVC_I4_DC AVC_I4_DC)"

text \<open>Column and row of the 4x4 blocks in coding order.\<close>

definition coded_block_xy :: "nat \<Rightarrow> nat \<times> nat" where
  "coded_block_xy k =
     (let component = k div 4; sub = k mod 4
      in ((component mod 2) * 2 + sub mod 2, (component div 2) * 2 + sub div 2))"

section \<open>Number of coefficients\<close>

definition predict_nnz :: "AVCMbObj \<Rightarrow> nat \<Rightarrow> nat \<Rightarrow> int" where
  "predict_nnz ob i j =
     (let (p, cnt) =
            (if i \<noteq> 0 then (nz_coeff (currMB ob) ! (j * 4 + i - 1), 1)
             else if mbAvailA ob then (nz_coeff (mbA ob) ! (j * 4 + 3), 1)
             else (0, 0 :: nat));
          (q, cnt') =
            (if j \<noteq> 0 then (p + nz_coeff (currMB ob) ! ((j - 1) * 4 + i), cnt + 1)
             else if mbAvailB ob then (p + nz_coeff (mbB ob) ! (12 + i), cnt + 1)
             else (p, cnt))
      in if cnt' = 2 then (q + 1) div 2 else q)"

text \<open>Chroma: \<open>j\<close> is 4 or 5, \<open>i\<close> counts Cb (0, 1) and Cr (2, 3).\<close>

definition predict_nnz_chroma :: "AVCMbObj \<Rightarrow> nat \<Rightarrow> nat \<Rightarrow> int" where
  "predict_nnz_chroma ob i j =
     (let (p, cnt) =
            (if odd i then (nz_coeff (currMB ob) ! (j * 4 + i - 1), 1)
             else if mbAvailA ob then (nz_coeff (mbA ob) ! (j * 4 + i + 1), 1)
             else (0, 0 :: nat));
          (q, cnt') =
            (if odd j then (p + nz_coeff (currMB ob) ! ((j - 1) * 4 + i), cnt + 1)
             else if mbAvailB ob then (p + nz_coeff (mbB ob) ! (20 + i), cnt + 1)
             else (p, cnt))
      in if cnt' = 2 then (q + 1) div 2 else q)"

section \<open>Motion vector prediction\<close>

text \<open>A candidate: available or not, its reference index, its vector.\<close>

type_synonym candidate = "bool \<times> int \<times> mv"

definition mv_at :: "AVCMacroblock \<Rightarrow> nat \<Rightarrow> nat \<Rightarrow> mv" where
  "mv_at m x y = mvL0 m ! (y * 4 + x)"

text \<open>The reference index of the quarter that holds the block.\<close>

definition ref_at :: "AVCMacroblock \<Rightarrow> nat \<Rightarrow> nat \<Rightarrow> int" where
  "ref_at m x y = ref_idx_L0 m ! ((y div 2) * 2 + x div 2)"

definition candidate_at :: "AVCMacroblock \<Rightarrow> nat \<Rightarrow> nat \<Rightarrow> candidate" where
  "candidate_at m x y = (True, ref_at m x y, mv_at m x y)"

definition none_at :: candidate where
  "none_at = (False, - 1, (0, 0))"

definition candidate_A :: "AVCMbObj \<Rightarrow> nat \<Rightarrow> nat \<Rightarrow> candidate" where
  "candidate_A ob x y =
     (if x \<noteq> 0 then candidate_at (currMB ob) (x - 1) y
      else if mbAvailA ob then candidate_at (mbA ob) 3 y else none_at)"

definition candidate_B :: "AVCMbObj \<Rightarrow> nat \<Rightarrow> nat \<Rightarrow> candidate" where
  "candidate_B ob x y =
     (if y \<noteq> 0 then candidate_at (currMB ob) x (y - 1)
      else if mbAvailB ob then candidate_at (mbB ob) x 3 else none_at)"

definition candidate_D :: "AVCMbObj \<Rightarrow> nat \<Rightarrow> nat \<Rightarrow> candidate" where
  "candidate_D ob x y =
     (if x \<noteq> 0 \<and> y \<noteq> 0 then candidate_at (currMB ob) (x - 1) (y - 1)
      else if y \<noteq> 0 then if mbAvailA ob then candidate_at (mbA ob) 3 (y - 1) else none_at
      else if x \<noteq> 0 then if mbAvailB ob then candidate_at (mbB ob) (x - 1) 3 else none_at
      else if mbAvailD ob then candidate_at (mbD ob) 3 3 else none_at)"

text \<open>The blocks whose right upper neighbour in the macroblock comes before them: the bits of \<open>C = 0x5750\<close>.\<close>

definition upper_right_before :: "nat \<Rightarrow> nat \<Rightarrow> bool" where
  "upper_right_before x y = bit (0x5750 :: int) (y * 4 + x)"

text \<open>\<open>x'\<close> is the last column of the partition.\<close>

definition candidate_C :: "AVCMbObj \<Rightarrow> nat \<Rightarrow> nat \<Rightarrow> nat \<Rightarrow> candidate" where
  "candidate_C ob x x' y =
     (if upper_right_before x' y then candidate_at (currMB ob) (x' + 1) (y - 1)
      else if y = 0 \<and> x' < 3 \<and> mbAvailB ob then candidate_at (mbB ob) (x' + 1) 3
      else if y = 0 \<and> x' = 3 \<and> mbAvailC ob then candidate_at (mbC ob) 0 3
      else candidate_D ob x y)"

text \<open>The predictor of the block from the three candidates and its own reference index.\<close>

definition median_predictor :: "candidate \<Rightarrow> candidate \<Rightarrow> candidate \<Rightarrow> int \<Rightarrow> mv" where
  "median_predictor a b c ref =
     (let (availA, refA, mvA) = a; (availB, refB, mvB) = b; (availC, refC, mvC) = c
      in if availA \<and> \<not> (availB \<or> availC) then mvA
         else if of_bool (ref = refA) + of_bool (ref = refB) + of_bool (ref = refC) = (1 :: nat) then
           if ref = refA then mvA else if ref = refB then mvB else mvC
         else (AVC_MEDIAN (fst mvA) (fst mvB) (fst mvC), AVC_MEDIAN (snd mvA) (snd mvB) (snd mvC)))"

text \<open>The two halves of a macroblock of 16x8 or 8x16 take one candidate if it has their reference index.\<close>

definition select_predictor :: "nat \<Rightarrow> nat \<Rightarrow> nat \<Rightarrow> candidate \<Rightarrow> candidate \<Rightarrow> candidate \<Rightarrow> int \<Rightarrow> mv" where
  "select_predictor num width mbPartIdx a b c ref =
     (let (_, refA, mvA) = a; (_, refB, mvB) = b; (_, refC, mvC) = c; p = median_predictor a b c ref
      in if num = 2 then
           if width = 16 then
             if mbPartIdx = 0 then if refB = ref then mvB else p
             else if refA = ref then mvA else p
           else if mbPartIdx = 0 then if refA = ref then mvA else p
           else if refC = ref then mvC else p
         else p)"

definition mv_predictor :: "AVCMbObj \<Rightarrow> nat \<Rightarrow> nat \<Rightarrow> nat \<Rightarrow> nat \<Rightarrow> mv" where
  "mv_predictor ob mbPartIdx x x' y =
     select_predictor (NumMbPart (currMB ob)) (MbPartWidth (currMB ob)) mbPartIdx
       (candidate_A ob x y) (candidate_B ob x y) (candidate_C ob x x' y) (ref_at (currMB ob) x y)"

text \<open>\<open>int16\<close>: the two halves of the predictor.\<close>

definition c_int16 :: "int \<Rightarrow> int" where
  "c_int16 x = signed_take_bit 15 x"

text \<open>Column and row of the first block of a sub-partition.\<close>

definition part_block :: "AVCMacroblock \<Rightarrow> nat \<Rightarrow> nat \<Rightarrow> nat \<times> nat" where
  "part_block m mbPartIdx subMbPartIdx =
     (let p = mbPartIdx + (if mbPartIdx = 0 then 0 else MbPartWidth m div 16);
          s = subMbPartIdx + (if subMbPartIdx = 0 then 0 else SubMbPartWidth m ! mbPartIdx div 8)
      in ((p mod 2) * 2 + s mod 2, (p div 2 mod 2) * 2 + s div 2 mod 2))"

fun fill_row :: "nat \<Rightarrow> nat \<Rightarrow> 'a \<Rightarrow> 'a list \<Rightarrow> 'a list" where
  "fill_row k 0 v xs = xs"
| "fill_row k (Suc n) v xs = fill_row (k + 1) n v (xs[k := v])"

fun fill_rect :: "nat \<Rightarrow> nat \<Rightarrow> nat \<Rightarrow> 'a \<Rightarrow> 'a list \<Rightarrow> 'a list" where
  "fill_rect k w 0 v xs = xs"
| "fill_rect k w (Suc h) v xs = fill_rect (k + 4) w h v (fill_row k w v xs)"

definition mv_step :: "bool \<Rightarrow> nat \<times> nat \<Rightarrow> AVCMbObj \<Rightarrow> AVCMbObj" where
  "mv_step encFlag part ob =
     (let (mbPartIdx, subMbPartIdx) = part;
          cur = currMB ob;
          (x, y) = part_block cur mbPartIdx subMbPartIdx;
          w = SubMbPartWidth cur ! mbPartIdx div 4;
          h = SubMbPartHeight cur ! mbPartIdx div 4;
          (px, py) = mv_predictor ob mbPartIdx x (x + w - 1) y
      in if encFlag then
           let (vx, vy) = mv_at cur x y
           in ob\<lparr>mvd_l0 := (mvd_l0 ob)[mbPartIdx := (mvd_l0 ob ! mbPartIdx)[subMbPartIdx := (vx - px, vy - py)]]\<rparr>
         else
           let (dx, dy) = mvd_l0 ob ! mbPartIdx ! subMbPartIdx;
               v = (c_int16 (px + dx), c_int16 (py + dy))
           in upd_currMB (\<lambda>m. m\<lparr>mvL0 := fill_rect (y * 4 + x) w h v (mvL0 m)\<rparr>) ob)"

definition partitions :: "AVCMacroblock \<Rightarrow> (nat \<times> nat) list" where
  "partitions m = concat (map (\<lambda>i. map (Pair i) [0..<NumSubMbPart m ! i]) [0..<NumMbPart m])"

definition is_still :: "AVCMacroblock \<Rightarrow> nat \<Rightarrow> nat \<Rightarrow> bool" where
  "is_still m quarter blk \<longleftrightarrow> ref_idx_L0 m ! quarter = 0 \<and> mvL0 m ! blk = (0, 0)"

text \<open>A skipped macroblock: the vectors are zero at the border of the slice or beside a still block.\<close>

definition GetMotionVectorPredictor :: "bool \<Rightarrow> AVCMbObj \<Rightarrow> AVCMbObj" where
  "GetMotionVectorPredictor encFlag ob =
     (let run = (\<lambda>ob. fold (mv_step encFlag) (partitions (currMB ob)) ob)
      in if mbMode (currMB ob) = AVC_SKIP then
           let ob1 = upd_currMB (\<lambda>m. m\<lparr>ref_idx_L0 := [0, 0, 0, 0]\<rparr>) ob
           in if mbAvailA ob \<and> mbAvailB ob \<and> \<not> (is_still (mbA ob) 1 3 \<or> is_still (mbB ob) 2 12)
              then run (ob1\<lparr>mvd_l0 := (mvd_l0 ob1)[0 := (mvd_l0 ob1 ! 0)[0 := (0, 0)]]\<rparr>)
              else upd_currMB (\<lambda>m. m\<lparr>mvL0 := replicate 16 (0, 0)\<rparr>) ob1
         else run ob)"

end
