(* ===== verification/EncResidual.thy ===== *)
theory EncResidual
  imports EncVlc MbAccess
begin

text \<open>
  The residual block of the encoder, \<open>enc_residual_block\<close> of \<open>enc/src/residual.cpp\<close>, on the levels and runs that the
  transform left in the arrays of \<open>AVCEncObject\<close>, in the order of the scan.
\<close>

datatype AVCResidualType = AVC_Luma | AVC_Intra16DC | AVC_Intra16AC | AVC_ChromaDC | AVC_ChromaAC

record AVCEncCoeffs =
  enc_level :: "int list list"
  enc_run :: "int list list"
  leveldc :: "int list"
  rundc :: "int list"
  levelcdc :: "int list"
  runcdc :: "int list"
  numcoefcdc :: "int list"
  numcoefdc :: int

definition blkIdx2blkXY :: "int list list" where
  "blkIdx2blkXY = [[0, 1, 4, 5], [2, 3, 6, 7], [8, 9, 12, 13], [10, 11, 14, 15]]"

definition blk_at :: "int \<Rightarrow> int option" where
  "blk_at cindx = do { row \<leftarrow> nth_opt blkIdx2blkXY (cindx div 4); nth_opt row (cindx mod 4) }"

section \<open>Trailing ones\<close>

text \<open>Backwards from coefficient \<open>n - 1\<close>: the trailing ones, and the sum of the runs.\<close>

fun scan_back :: "int list \<Rightarrow> int list \<Rightarrow> nat \<Rightarrow> bool \<Rightarrow> int \<times> int \<Rightarrow> int \<times> int" where
  "scan_back lv rn 0 c tz = tz"
| "scan_back lv rn (Suc i) c (t, z) =
     (let one = c \<and> (lv ! i = 1 \<or> lv ! i = - 1)
      in scan_back lv rn i one (if one then t + 1 else t, z + rn ! i))"

fun sign_flag :: "int list \<Rightarrow> int \<Rightarrow> nat \<Rightarrow> uint \<Rightarrow> uint" where
  "sign_flag lv i 0 flag = flag"
| "sign_flag lv i (Suc n) flag =
     sign_flag lv (i - 1) n (push_bit 1 flag OR drop_bit 31 (word_of_int (lv ! nat i)))"

section \<open>Levels\<close>

definition incVlc :: "int list" where
  "incVlc = [0, 3, 6, 12, 24, 48, 32768]"

definition put_level ::
  "malloc \<Rightarrow> AVCEncBitstream \<Rightarrow> nat \<Rightarrow> int \<Rightarrow> int \<Rightarrow> (AVCEnc_Status \<times> AVCEncBitstream) option" where
  "put_level malloc s vlcnum val sign =
     (if vlcnum = 0 then
        if val < 8 then BitstreamWriteBits malloc s (val * 2 + sign - 1) 1
        else if val < 8 + 8 then
          BitstreamWriteBits malloc s (14 + 1 + 4) (word_of_int ((push_bit 4 1 OR push_bit 1 (val - 8)) OR sign))
        else BitstreamWriteBits malloc s (14 + 2 + 12) (word_of_int ((push_bit 12 1 OR push_bit 1 (val - 16)) OR sign))
      else
        let shift = vlcnum - 1;
            escape = push_bit shift 15 + 1;
            numPrefix = drop_bit shift (val - 1);
            suffix = take_bit shift (val - 1)
        in if val < escape then
             BitstreamWriteBits malloc s (numPrefix + int vlcnum + 1)
               (word_of_int ((push_bit (shift + 1) 1 OR push_bit 1 suffix) OR sign))
           else BitstreamWriteBits malloc s 28 (word_of_int ((push_bit 12 1 OR push_bit 1 (val - escape)) OR sign)))"

text \<open>
  The levels \<open>lv ! i\<close> for \<open>i = n - 1 \<dots> 0\<close>; \<open>first\<close> holds in the first round, \<open>two\<close> is \<open>level_two_or_higher\<close>, \<open>st\<close> the
  status so far.
\<close>

fun put_levels ::
  "malloc \<Rightarrow> int list \<Rightarrow> nat \<Rightarrow> bool \<Rightarrow> bool \<Rightarrow> nat \<Rightarrow> AVCEnc_Status \<Rightarrow> AVCEncBitstream \<Rightarrow>
     (AVCEnc_Status \<times> AVCEncBitstream) option" where
  "put_levels malloc lv 0 first two vlcnum st s = Some (st, s)"
| "put_levels malloc lv (Suc i) first two vlcnum st s =
     (let v = lv ! i;
          absvalue = (if v \<ge> 0 then v else - v);
          v1 = (if two then if v > 0 then v - 1 else v + 1 else v);
          (sign, v2) = (if v1 \<ge> 0 then (0, v1) else (1, - v1))
      in do { (st1, s1) \<leftarrow> put_level malloc s vlcnum v2 sign;
              inc \<leftarrow> nth_opt incVlc (int vlcnum);
              let vlcnum1 = (if absvalue > inc then vlcnum + 1 else vlcnum);
              put_levels malloc lv i False False (if first \<and> absvalue > 3 then 2 else vlcnum1) st1 s1 })"

section \<open>Runs\<close>

fun put_runs ::
  "malloc \<Rightarrow> int list \<Rightarrow> nat \<Rightarrow> int \<Rightarrow> AVCEncBitstream \<Rightarrow> AVCEncBitstream option" where
  "put_runs malloc rn 0 zerosLeft s = Some s"
| "put_runs malloc rn (Suc i) zerosLeft s =
     do { (st, s1) \<leftarrow> (if zerosLeft > 0 then enc_ce_RunBefore malloc s (rn ! Suc i) zerosLeft else Some (AVCENC_SUCCESS, s));
          put_runs malloc rn i (zerosLeft - rn ! Suc i) s1 }"

section \<open>The block\<close>

text \<open>The block with its levels, runs, number of coefficients and, except for chroma DC, its place.\<close>

definition put_coeffs ::
  "malloc \<Rightarrow> bool \<Rightarrow> int \<Rightarrow> int list \<Rightarrow> int list \<Rightarrow> int \<Rightarrow> int \<Rightarrow> AVCEncBitstream \<Rightarrow>
     (AVCEnc_Status \<times> AVCEncBitstream) option" where
  "put_coeffs malloc cdc nC lv rn TotalCoeff maxNumCoeff s =
     (let (ones, zerosLeft) = scan_back lv rn (nat TotalCoeff) True (0, 0);
          TrailingOnes = (if ones > 3 then 3 else ones)
      in do { (st, s1) \<leftarrow> (if \<not> cdc then enc_ce_TotalCoeffTrailingOnes malloc s TrailingOnes TotalCoeff nC
                           else enc_ce_TotalCoeffTrailingOnesChromaDC malloc s TrailingOnes TotalCoeff);
              if TotalCoeff > 0 then
                do { (st2, s2) \<leftarrow> (if TrailingOnes \<noteq> 0
                                   then BitstreamWriteBits malloc s1 TrailingOnes (sign_flag lv (TotalCoeff - 1) (nat TrailingOnes) 0)
                                   else Some (st, s1));
                     (st3, s3) \<leftarrow> put_levels malloc lv (nat (TotalCoeff - TrailingOnes)) True (\<not> (TotalCoeff > 3 \<and> TrailingOnes = 3))
                                   (if TotalCoeff > 10 \<and> TrailingOnes < 3 then 1 else 0) st2 s2;
                     if st3 \<noteq> AVCENC_SUCCESS then Some (st3, s3)
                     else do { (st4, s4) \<leftarrow> (if TotalCoeff < maxNumCoeff then
                                               if \<not> cdc then enc_ce_TotalZeros malloc s3 zerosLeft TotalCoeff
                                               else enc_ce_TotalZerosChromaDC malloc s3 zerosLeft TotalCoeff
                                             else Some (st3, s3));
                               s5 \<leftarrow> put_runs malloc rn (nat (TotalCoeff - 1)) (if TotalCoeff < maxNumCoeff then zerosLeft else 0) s4;
                               Some (st3, s5) } }
              else Some (st, s1) })"

text \<open>The entry of \<open>blkIdx2blkXY\<close> that the C function reads before its switch is read here where it is used.\<close>

definition enc_residual_block ::
  "malloc \<Rightarrow> AVCEncCoeffs \<Rightarrow> AVCMbObj \<Rightarrow> AVCResidualType \<Rightarrow> int \<Rightarrow> AVCEncBitstream \<Rightarrow>
     (AVCEnc_Status \<times> AVCEncBitstream) option" where
  "enc_residual_block malloc enc ob type cindx s =
     (let luma = (\<lambda>maxNumCoeff. do { b \<leftarrow> blk_at cindx; lv \<leftarrow> nth_opt (enc_level enc) cindx; rn \<leftarrow> nth_opt (enc_run enc) cindx;
                    TotalCoeff \<leftarrow> nth_opt (nz_coeff (currMB ob)) b;
                    put_coeffs malloc False (predict_nnz ob (nat (b mod 4)) (nat (b div 4))) lv rn TotalCoeff maxNumCoeff s })
      in case type of
        AVC_Luma \<Rightarrow> luma 16
      | AVC_Intra16DC \<Rightarrow> put_coeffs malloc False (predict_nnz ob 0 0) (leveldc enc) (rundc enc) cindx 16 s
      | AVC_Intra16AC \<Rightarrow> luma 15
      | AVC_ChromaDC \<Rightarrow>
          if cindx \<ge> 8 then put_coeffs malloc True (- 1) (drop 4 (levelcdc enc)) (drop 4 (runcdc enc)) (cindx - 8) 4 s
          else put_coeffs malloc True (- 1) (levelcdc enc) (runcdc enc) cindx 4 s
      | AVC_ChromaAC \<Rightarrow>
          do { b0 \<leftarrow> blk_at (cindx - 16); lv \<leftarrow> nth_opt (enc_level enc) cindx; rn \<leftarrow> nth_opt (enc_run enc) cindx;
               let b = 16 + b0;
               TotalCoeff \<leftarrow> nth_opt (nz_coeff (currMB ob)) b;
               put_coeffs malloc False (predict_nnz_chroma ob (nat (b mod 4)) (nat (b div 4))) lv rn TotalCoeff 15 s })"

end
