(* ===== verification/DecMb.thy ===== *)
theory DecMb
  imports DecCavlc MbAccess HeaderSyntax
begin

text \<open>
  The syntax of a macroblock in the decoder, \<open>dec/src/slice.cpp\<close>: the interpretation of \<open>mb_type\<close> and \<open>sub_mb_type\<close> for
  I and P slices, the prediction modes, reference indices and motion vector differences.
\<close>

section \<open>Macroblock types\<close>

definition InterpretMBModeI :: "uint \<Rightarrow> AVCMacroblock \<Rightarrow> AVCMacroblock" where
  "InterpretMBModeI mb_type m =
     (let m1 = m\<lparr>NumMbPart := 1, mb_intra := True\<rparr>
      in if mb_type = 0 then m1\<lparr>mbMode := AVC_I4\<rparr>
         else if mb_type < 25 then
           m1\<lparr>mbMode := AVC_I16, i16Mode := uint ((mb_type - 1) AND 0x3),
              CBP := (if mb_type > 12 then push_bit 4 (drop_bit 2 (mb_type - 13)) + 0x0F
                      else push_bit 4 (drop_bit 2 (mb_type - 1)))\<rparr>
         else m1\<lparr>mbMode := AVC_I_PCM\<rparr>)"

definition map2PartWidth :: "nat list" where "map2PartWidth = [16, 16, 8, 8, 8]"
definition map2PartHeight :: "nat list" where "map2PartHeight = [16, 8, 16, 8, 8]"
definition map2NumPart :: "nat list" where "map2NumPart = [1, 2, 2, 4, 4]"
definition map2mbMode :: "AVCMBMode list" where "map2mbMode = [AVC_P16, AVC_P16x8, AVC_P8x16, AVC_P8, AVC_P8ref0]"

definition set_parts :: "nat \<Rightarrow> nat \<Rightarrow> nat \<Rightarrow> AVCMacroblock \<Rightarrow> AVCMacroblock" where
  "set_parts num w h m = m\<lparr>MbPartWidth := w, MbPartHeight := h, NumMbPart := num,
     NumSubMbPart := replicate 4 1, SubMbPartWidth := replicate 4 w, SubMbPartHeight := replicate 4 h\<rparr>"

definition InterpretMBModeP :: "uint \<Rightarrow> AVCMacroblock \<Rightarrow> AVCMacroblock" where
  "InterpretMBModeP mb_type m =
     (if mb_type < 5 then
        let t = unat mb_type
        in set_parts (map2NumPart ! t) (map2PartWidth ! t) (map2PartHeight ! t) (m\<lparr>mb_intra := False, mbMode := map2mbMode ! t\<rparr>)
      else (InterpretMBModeI (mb_type - 5) (m\<lparr>mb_intra := False\<rparr>))
             \<lparr>mvL0 := replicate 16 (0, 0), ref_idx_L0 := replicate 4 (- 1)\<rparr>)"

definition map2subPartWidth :: "nat list" where "map2subPartWidth = [8, 8, 4, 4]"
definition map2subPartHeight :: "nat list" where "map2subPartHeight = [8, 4, 8, 4]"
definition map2numSubPart :: "nat list" where "map2numSubPart = [1, 2, 2, 4]"

definition InterpretSubMBModeP :: "uint list \<Rightarrow> AVCMacroblock \<Rightarrow> AVCMacroblock" where
  "InterpretSubMBModeP sub_mb_type m =
     m\<lparr>NumSubMbPart := map (\<lambda>i. map2numSubPart ! unat (sub_mb_type ! i)) [0..<4],
       SubMbPartWidth := map (\<lambda>i. map2subPartWidth ! unat (sub_mb_type ! i)) [0..<4],
       SubMbPartHeight := map (\<lambda>i. map2subPartHeight ! unat (sub_mb_type ! i)) [0..<4]\<rparr>"

section \<open>Intra 4x4 modes\<close>

definition read_i4_mode :: "nat \<Rightarrow> AVCMbObj \<Rightarrow> AVCDecBitstream \<Rightarrow> (AVCMbObj \<times> AVCDecBitstream) option" where
  "read_i4_mode bindx ob s =
     do { (flag, s1) \<leftarrow> BitstreamRead1Bit s;
          (rm, s2) \<leftarrow> (if flag = 0 then BitstreamReadBits s1 3 else Some (0, s1));
          let (x, y) = coded_block_xy bindx;
          let pred = predIntra4x4PredMode ob x y;
          let mode = (if flag \<noteq> 0 then pred else if uint rm < pred then uint rm else uint rm + 1);
          Some (upd_currMB (\<lambda>m. m\<lparr>i4Mode := (i4Mode m)[y * 4 + x := mode]\<rparr>) ob, s2) }"

definition DecodeIntra4x4Mode :: "AVCMbObj \<Rightarrow> AVCDecBitstream \<Rightarrow> (AVCMbObj \<times> AVCDecBitstream) option" where
  "DecodeIntra4x4Mode ob s = read_loop read_i4_mode 0 16 ob s"

section \<open>Reference indices and motion vector differences\<close>

text \<open>A parser of the macroblock layer: its status and the object.\<close>

type_synonym mb_parser = "AVCDecBitstream \<Rightarrow> ((AVCDec_Status \<times> AVCMbObj) \<times> AVCDecBitstream) option"

fun read_refs :: "uint \<Rightarrow> nat \<Rightarrow> nat \<Rightarrow> AVCMbObj \<Rightarrow> mb_parser" where
  "read_refs max_ref_idx i 0 ob s = Some ((AVCDEC_SUCCESS, ob), s)"
| "read_refs max_ref_idx i (Suc n) ob s =
     do { (code, s1) \<leftarrow> te_v s max_ref_idx;
          if code > max_ref_idx then Some ((AVCDEC_FAIL, ob), s1)
          else read_refs max_ref_idx (Suc i) n
                 (upd_currMB (\<lambda>m. m\<lparr>ref_idx_L0 := (ref_idx_L0 m)[i := uint code]\<rparr>) ob) s1 }"

definition max_ref :: "AVCSliceCtx \<Rightarrow> uint" where
  "max_ref cx = word_of_int (ctx_refList0Size cx - 1)"

definition mb_refs :: "AVCSliceCtx \<Rightarrow> bool \<Rightarrow> nat \<Rightarrow> AVCMbObj \<Rightarrow> mb_parser" where
  "mb_refs cx allowed n ob s =
     (if ctx_num_ref_idx_l0_active_minus1 cx > 0 \<and> allowed then read_refs (max_ref cx) 0 n ob s
      else Some ((AVCDEC_SUCCESS, ob), s))"

definition mbPart2raster :: "nat list list" where
  "mbPart2raster = [[0, 0, 0, 0], [1, 1, 0, 0], [1, 0, 1, 0]]"

text \<open>The row of a mode: \<open>mbMode - AVC_P16\<close>.\<close>

definition raster_row :: "AVCMBMode \<Rightarrow> nat list option" where
  "raster_row mode = (case mode of AVC_P16 \<Rightarrow> nth_opt mbPart2raster 0 | AVC_P16x8 \<Rightarrow> nth_opt mbPart2raster 1
     | AVC_P8x16 \<Rightarrow> nth_opt mbPart2raster 2 | _ \<Rightarrow> None)"

text \<open>From the last quarter to the first, in place.\<close>

definition populate_refs :: "nat list \<Rightarrow> int list \<Rightarrow> int list" where
  "populate_refs row r0 =
     (let r1 = r0[3 := r0 ! (row ! 0)]; r2 = r1[2 := r1 ! (row ! 1)]; r3 = r2[1 := r2 ! (row ! 2)]
      in r3[0 := r3 ! (row ! 3)])"

definition set_RefIdx :: "AVCSliceCtx \<Rightarrow> AVCMbObj \<Rightarrow> AVCMbObj option" where
  "set_RefIdx cx ob =
     (let r = ref_idx_L0 (currMB ob)
      in do { a \<leftarrow> nth_opt (ctx_RefIdx cx) (r ! 0); b \<leftarrow> nth_opt (ctx_RefIdx cx) (r ! 1);
              c \<leftarrow> nth_opt (ctx_RefIdx cx) (r ! 2); d \<leftarrow> nth_opt (ctx_RefIdx cx) (r ! 3);
              Some (upd_currMB (\<lambda>m. m\<lparr>RefIdxs := [a, b, c, d]\<rparr>) ob) })"

definition read_mvd :: "nat \<times> nat \<Rightarrow> AVCMbObj \<Rightarrow> AVCDecBitstream \<Rightarrow> (AVCMbObj \<times> AVCDecBitstream) option" where
  "read_mvd part ob s =
     do { (dx, s1) \<leftarrow> se_v s;
          (dy, s2) \<leftarrow> se_v s1;
          Some (ob\<lparr>mvd_l0 := (mvd_l0 ob)[fst part := (mvd_l0 ob ! fst part)[snd part := (dx, dy)]]\<rparr>, s2) }"

fun read_mvds :: "(nat \<times> nat) list \<Rightarrow> AVCMbObj \<Rightarrow> AVCDecBitstream \<Rightarrow> (AVCMbObj \<times> AVCDecBitstream) option" where
  "read_mvds [] ob s = Some (ob, s)"
| "read_mvds (p # ps) ob s = do { (ob1, s1) \<leftarrow> read_mvd p ob s; read_mvds ps ob1 s1 }"

section \<open>Prediction syntax\<close>

definition mb_pred_intra :: "AVCSliceCtx \<Rightarrow> AVCMbObj \<Rightarrow> mb_parser" where
  "mb_pred_intra cx ob s =
     (let ob1 = set_intraAvail (ctx_constrained_intra_pred_flag cx) ob
      in do { (ob2, s1) \<leftarrow> (if mbMode (currMB ob1) = AVC_I4 then DecodeIntra4x4Mode ob1 s else Some (ob1, s));
              (code, s2) \<leftarrow> ue_v s1;
              if code > 3 then Some ((AVCDEC_FAIL, ob2), s2)
              else Some ((AVCDEC_SUCCESS, upd_currMB (\<lambda>m. m\<lparr>intra_chroma_pred_mode := uint code\<rparr>) ob2), s2) })"

definition mb_pred_inter :: "AVCSliceCtx \<Rightarrow> AVCMbObj \<Rightarrow> mb_parser" where
  "mb_pred_inter cx ob =
     on_success (mb_refs cx True (NumMbPart (currMB ob)) (upd_currMB (\<lambda>m. m\<lparr>ref_idx_L0 := replicate 4 0\<rparr>) ob))
       (\<lambda>ob1 s. do { row \<leftarrow> raster_row (mbMode (currMB ob1));
                     ob2 \<leftarrow> set_RefIdx cx (upd_currMB (\<lambda>m. m\<lparr>ref_idx_L0 := populate_refs row (ref_idx_L0 m)\<rparr>) ob1);
                     (ob3, s1) \<leftarrow> read_mvds (map (\<lambda>i. (i, 0)) [0..<NumMbPart (currMB ob2)]) ob2 s;
                     Some ((AVCDEC_SUCCESS, ob3), s1) })"

definition mb_pred :: "AVCSliceCtx \<Rightarrow> AVCMbObj \<Rightarrow> mb_parser" where
  "mb_pred cx ob = (if mbMode (currMB ob) = AVC_I4 \<or> mbMode (currMB ob) = AVC_I16 then mb_pred_intra cx ob else mb_pred_inter cx ob)"

text \<open>The four types of the quarters: the loop stops at one out of range.\<close>

fun read_sub_types :: "nat \<Rightarrow> AVCDecBitstream \<Rightarrow> ((AVCDec_Status \<times> uint list) \<times> AVCDecBitstream) option" where
  "read_sub_types 0 s = Some ((AVCDEC_SUCCESS, []), s)"
| "read_sub_types (Suc n) s =
     do { (t, s1) \<leftarrow> ue_v s;
          if t > 3 then Some ((AVCDEC_FAIL, [t]), s1)
          else do { ((st, ts), s2) \<leftarrow> read_sub_types n s1; Some ((st, t # ts), s2) } }"

definition sub_mb_pred :: "AVCSliceCtx \<Rightarrow> AVCMbObj \<Rightarrow> mb_parser" where
  "sub_mb_pred cx ob s =
     (let ob0 = upd_currMB (\<lambda>m. m\<lparr>ref_idx_L0 := replicate 4 0\<rparr>) ob
      in do { ((st, sub_mb_type), s1) \<leftarrow> read_sub_types 4 s;
              if st \<noteq> AVCDEC_SUCCESS then Some ((AVCDEC_FAIL, ob0), s1)
              else on_success (mb_refs cx (mbMode (currMB ob) \<noteq> AVC_P8ref0) 4 (upd_currMB (InterpretSubMBModeP sub_mb_type) ob0))
                     (\<lambda>ob1 s. do { (ob2, s1) \<leftarrow> read_mvds (concat (map (\<lambda>i. map (Pair i) [0..<NumSubMbPart (currMB ob1) ! i]) [0..<4])) ob1 s;
                                   ob3 \<leftarrow> set_RefIdx cx ob2;
                                   Some ((AVCDEC_SUCCESS, ob3), s1) }) s1 })"

end
