(* ===== verification/EncMb.thy ===== *)
theory EncMb
  imports EncResidual DecMb
begin

text \<open>
  The syntax of a macroblock in the encoder, \<open>enc/src/slice.cpp\<close>: \<open>EncodeMBHeader\<close> and what it calls, the decision to
  skip an inter macroblock and the entropy coding of \<open>EncodeMB\<close>. Macroblocks predict from list 0: the parts of the code
  for list 1 do not run, and \<open>MBPartPredMode\<close> is \<open>AVC_Pred_L0\<close> throughout.
\<close>

section \<open>Macroblock types\<close>

text \<open>The distance of an inter mode from \<open>AVC_P16\<close> in the enumeration; \<open>AVC_SKIP\<close> is its last member.\<close>

definition P_index :: "AVCMBMode \<Rightarrow> int" where
  "P_index mode = (case mode of AVC_I4 \<Rightarrow> - 5 | AVC_I16 \<Rightarrow> - 4 | AVC_I_PCM \<Rightarrow> - 3 | AVC_SI4 \<Rightarrow> - 2 | AVC_BDirect16 \<Rightarrow> - 1
     | AVC_P16 \<Rightarrow> 0 | AVC_P16x8 \<Rightarrow> 1 | AVC_P8x16 \<Rightarrow> 2 | AVC_P8 \<Rightarrow> 3 | AVC_P8ref0 \<Rightarrow> 4 | AVC_SKIP \<Rightarrow> 5)"

text \<open>The coded block pattern of an intra 16x16 macroblock is changed on the way.\<close>

definition InterpretMBType :: "AVCMacroblock \<Rightarrow> int \<Rightarrow> uint \<times> AVCMacroblock" where
  "InterpretMBType m slice_ty =
     (let (ty, m1) =
            (if mb_intra m then
               if mbMode m = AVC_I4 then (0, m)
               else if mbMode m = AVC_I16 then
                 let CBP_chrom = uint (CBP m AND 0x30);
                     (base, m1) = (if CBP m AND 0xF \<noteq> 0 then (13, m\<lparr>CBP := CBP m OR 0xF\<rparr>) else (1, m))
                 in (base + CBP_chrom div 4 + i16Mode m, m1)
               else (25, m)
             else (P_index (mbMode m), m))
      in (word_of_int (if slice_ty = 0 \<and> mb_intra m then ty + 5 else ty), m1))"

definition sub_mode_num :: "AVCSubMBMode \<Rightarrow> int" where
  "sub_mode_num mode = (case mode of AVC_BDirect8 \<Rightarrow> 0 | AVC_8x8 \<Rightarrow> 1 | AVC_8x4 \<Rightarrow> 2 | AVC_4x8 \<Rightarrow> 3 | AVC_4x4 \<Rightarrow> 4)"

definition InterpretSubMBTypeP :: "AVCMacroblock \<Rightarrow> uint list" where
  "InterpretSubMBTypeP m = map (\<lambda>i. word_of_int (sub_mode_num (subMbMode m ! i) - sub_mode_num AVC_8x8)) [0..<4]"

section \<open>Intra 4x4 modes\<close>

definition write_i4_mode :: "malloc \<Rightarrow> AVCMbObj \<Rightarrow> nat \<Rightarrow> AVCEncBitstream \<Rightarrow> (AVCEnc_Status \<times> AVCEncBitstream) option" where
  "write_i4_mode malloc ob bindx s =
     (let (x, y) = coded_block_xy bindx;
          pred = predIntra4x4PredMode ob x y;
          mode = i4Mode (currMB ob) ! (y * 4 + x);
          flag = (mode = pred);
          rm = (if mode < pred then mode else mode - 1)
      in do { (st, s1) \<leftarrow> BitstreamWrite1Bit malloc s (of_bool flag);
              if \<not> flag then BitstreamWriteBits malloc s1 3 (word_of_int rm) else Some (st, s1) })"

definition EncodeIntra4x4Mode :: "malloc \<Rightarrow> AVCMbObj \<Rightarrow> AVCEncBitstream \<Rightarrow> (AVCEnc_Status \<times> AVCEncBitstream) option" where
  "EncodeIntra4x4Mode malloc ob s =
     do { (st, s1) \<leftarrow> write_loop (write_i4_mode malloc ob) 0 16 AVCENC_SUCCESS s; Some (AVCENC_SUCCESS, s1) }"

section \<open>Reference indices and motion vector differences\<close>

definition write_refs :: "malloc \<Rightarrow> AVCSliceCtx \<Rightarrow> bool \<Rightarrow> nat \<Rightarrow> AVCMbObj \<Rightarrow> AVCEnc_Status \<Rightarrow> AVCEncBitstream
    \<Rightarrow> (AVCEnc_Status \<times> AVCEncBitstream) option" where
  "write_refs malloc cx allowed n ob st s =
     (if ctx_num_ref_idx_l0_active_minus1 cx > 0 \<and> allowed then
        write_loop (\<lambda>i s. enc_te_v malloc s (word_of_int (ref_idx_L0 (currMB ob) ! i)) (ctx_num_ref_idx_l0_active_minus1 cx)) 0 n st s
      else Some (st, s))"

definition write_mvd :: "malloc \<Rightarrow> AVCMbObj \<Rightarrow> nat \<times> nat \<Rightarrow> AVCEncBitstream \<Rightarrow> (AVCEnc_Status \<times> AVCEncBitstream) option" where
  "write_mvd malloc ob part s =
     (let (dx, dy) = mvd_l0 ob ! fst part ! snd part
      in do { (st1, s1) \<leftarrow> enc_se_v malloc s dx; enc_se_v malloc s1 dy })"

fun write_mvds :: "malloc \<Rightarrow> AVCMbObj \<Rightarrow> (nat \<times> nat) list \<Rightarrow> AVCEnc_Status \<Rightarrow> AVCEncBitstream
    \<Rightarrow> (AVCEnc_Status \<times> AVCEncBitstream) option" where
  "write_mvds malloc ob [] st s = Some (st, s)"
| "write_mvds malloc ob (p # ps) st s = do { (st1, s1) \<leftarrow> write_mvd malloc ob p s; write_mvds malloc ob ps st1 s1 }"

section \<open>Prediction syntax\<close>

definition enc_mb_pred :: "malloc \<Rightarrow> AVCSliceCtx \<Rightarrow> AVCMbObj \<Rightarrow> AVCEncBitstream
    \<Rightarrow> ((AVCEnc_Status \<times> AVCMbObj) \<times> AVCEncBitstream) option" where
  "enc_mb_pred malloc cx ob s =
     (if mbMode (currMB ob) = AVC_I4 \<or> mbMode (currMB ob) = AVC_I16 then
        do { (st1, s1) \<leftarrow> (if mbMode (currMB ob) = AVC_I4 then EncodeIntra4x4Mode malloc ob s else Some (AVCENC_SUCCESS, s));
             (st2, s2) \<leftarrow> enc_ue_v malloc s1 (word_of_int (intra_chroma_pred_mode (currMB ob)));
             Some ((st2, ob), s2) }
      else
        let ob1 = upd_currMB (\<lambda>m. m\<lparr>ref_idx_L0 := replicate 4 0\<rparr>) ob
        in do { (st1, s1) \<leftarrow> write_refs malloc cx True (NumMbPart (currMB ob1)) ob1 AVCENC_SUCCESS s;
                (st2, s2) \<leftarrow> write_mvds malloc ob1 (map (\<lambda>i. (i, 0)) [0..<NumMbPart (currMB ob1)]) st1 s1;
                Some ((st2, ob1), s2) })"

definition enc_sub_mb_pred :: "malloc \<Rightarrow> AVCSliceCtx \<Rightarrow> AVCMbObj \<Rightarrow> AVCEncBitstream
    \<Rightarrow> ((AVCEnc_Status \<times> AVCMbObj) \<times> AVCEncBitstream) option" where
  "enc_sub_mb_pred malloc cx ob s =
     (let ob1 = (if mbMode (currMB ob) = AVC_P8ref0 then upd_currMB (\<lambda>m. m\<lparr>ref_idx_L0 := replicate 4 0\<rparr>) ob else ob);
          sub_mb_type = InterpretSubMBTypeP (currMB ob1)
      in do { (st1, s1) \<leftarrow> write_loop (\<lambda>i s. enc_ue_v malloc s (sub_mb_type ! i)) 0 4 AVCENC_SUCCESS s;
              (st2, s2) \<leftarrow> write_refs malloc cx (mbMode (currMB ob1) \<noteq> AVC_P8ref0) 4 ob1 st1 s1;
              ob2 \<leftarrow> set_RefIdx cx ob1;
              (st3, s3) \<leftarrow> write_mvds malloc ob2 (concat (map (\<lambda>i. map (Pair i) [0..<NumSubMbPart (currMB ob2) ! i]) [0..<4])) st2 s2;
              Some ((st3, ob2), s3) })"

text \<open>\<open>RCInitChromaQP\<close> of the rate control, without the constants of the quantiser.\<close>

definition RCInitChromaQP :: "AVCSliceCtx \<Rightarrow> AVCMbObj \<Rightarrow> AVCMbObj option" where
  "RCInitChromaQP cx ob =
     (let qp = mb_QPy (currMB ob); d = qp * 43 div 256
      in do { qc \<leftarrow> nth_opt mapQPi2QPc (AVC_CLIP3 0 51 (qp + ctx_chroma_qp_index_offset cx));
              let dc = qc * 43 div 256;
              Some ((upd_currMB (\<lambda>m. m\<lparr>mb_QPc := qc\<rparr>) ob)\<lparr>QPc := qc, v_QPy_div_6 := d, v_QPy_mod_6 := qp - 6 * d,
                v_QPc_div_6 := dc, v_QPc_mod_6 := qc - 6 * dc\<rparr>) })"

definition RCRestoreQP :: "AVCSliceCtx \<Rightarrow> AVCMbObj \<Rightarrow> AVCMbObj option" where
  "RCRestoreQP cx ob = RCInitChromaQP cx (upd_currMB (\<lambda>m. m\<lparr>mb_QPy := QPy ob\<rparr>) ob)"

definition EncodeMBHeader :: "malloc \<Rightarrow> AVCSliceCtx \<Rightarrow> AVCMbObj \<Rightarrow> AVCEncBitstream
    \<Rightarrow> ((AVCEnc_Status \<times> AVCMbObj) \<times> AVCEncBitstream) option" where
  "EncodeMBHeader malloc cx ob s =
     (let ob1 = upd_currMB (\<lambda>m. if CBP m > 47 then m\<lparr>CBP := CBP m - 16\<rparr> else m) ob;
          (mb_type, m2) = InterpretMBType (currMB ob1) (ctx_slice_type cx);
          ob2 = upd_currMB (\<lambda>_. m2) ob1
      in do { (st1, s1) \<leftarrow> enc_ue_v malloc s mb_type;
              ((st2, ob3), s2) \<leftarrow> (if mbMode m2 = AVC_P8 \<or> mbMode m2 = AVC_P8ref0 then enc_sub_mb_pred malloc cx ob2 s1
                                   else enc_mb_pred malloc cx ob2 s1);
              (st3, s3) \<leftarrow> (if mbMode m2 \<noteq> AVC_I16 then EncodeCBP malloc (currMB ob3) s2 else Some (st2, s2));
              if CBP (currMB ob3) > 0 \<or> mbMode m2 = AVC_I16 then
                do { (st4, s4) \<leftarrow> enc_se_v malloc s3 (mb_QPy (currMB ob3) - QPy ob3);
                     Some ((st4, ob3\<lparr>QPy := mb_QPy (currMB ob3)\<rparr>), s4) }
              else if mb_QPy (currMB ob3) \<noteq> QPy ob3 then do { ob4 \<leftarrow> RCRestoreQP cx ob3; Some ((st3, ob4), s3) }
              else Some ((st3, ob3), s3) })"

section \<open>Residual\<close>

text \<open>The blocks of a macroblock in coding order, with the argument \<open>cindx\<close>.\<close>

definition residual_blocks :: "AVCMacroblock \<Rightarrow> AVCEncCoeffs \<Rightarrow> (AVCResidualType \<times> int) list" where
  "residual_blocks m enc =
     (let i16 = (mbMode m = AVC_I16); resType = (if i16 then AVC_Intra16AC else AVC_Luma)
      in (if i16 then [(AVC_Intra16DC, numcoefdc enc)] else [])
         @ concat (map (\<lambda>b8. if CBP m AND push_bit b8 1 \<noteq> 0 then map (\<lambda>b4. (resType, int (4 * b8 + b4))) [0..<4] else []) [0..<4])
         @ (if CBP m AND push_bit 4 3 \<noteq> 0 then map (\<lambda>b8. (AVC_ChromaDC, numcoefcdc enc ! b8 + int (8 * b8))) [0..<2] else [])
         @ (if CBP m AND push_bit 4 2 \<noteq> 0
            then concat (map (\<lambda>b8. map (\<lambda>b4. (AVC_ChromaAC, int (16 + 4 * b8 + b4))) [0..<4]) [0..<2]) else []))"

text \<open>One after the other until one fails.\<close>

fun enc_blocks :: "malloc \<Rightarrow> AVCEncCoeffs \<Rightarrow> AVCMbObj \<Rightarrow> (AVCResidualType \<times> int) list \<Rightarrow> AVCEnc_Status \<Rightarrow> AVCEncBitstream
    \<Rightarrow> (AVCEnc_Status \<times> AVCEncBitstream) option" where
  "enc_blocks malloc enc ob [] st s = Some (st, s)"
| "enc_blocks malloc enc ob ((ty, cindx) # bs) st s =
     do { (st1, s1) \<leftarrow> enc_residual_block malloc enc ob ty cindx s;
          if st1 \<noteq> AVCENC_SUCCESS then Some (st1, s1) else enc_blocks malloc enc ob bs st1 s1 }"

section \<open>The macroblock\<close>

text \<open>
  \<open>EncodeMB\<close> from \<open>START ENTROPY CODING\<close>: the run of skipped macroblocks, the header, the residual. Before it the macroblock
  has been predicted, transformed and perhaps turned into a skipped one.
\<close>

definition EncodeMB_entropy :: "malloc \<Rightarrow> AVCSliceCtx \<Rightarrow> AVCEncCoeffs \<Rightarrow> AVCMbObj \<Rightarrow> AVCEncBitstream
    \<Rightarrow> ((AVCEnc_Status \<times> AVCMbObj) \<times> AVCEncBitstream) option" where
  "EncodeMB_entropy malloc cx enc ob s =
     (let skip = (mbMode (currMB ob) = AVC_SKIP)
      in do { (ob1, s1) \<leftarrow> (if ctx_slice_type cx \<noteq> 2 \<and> ctx_slice_type cx \<noteq> 4 \<and> \<not> skip
                              then do { (st, s1) \<leftarrow> enc_ue_v malloc s (word_of_int (mb_skip_run ob)); Some (ob\<lparr>mb_skip_run := 0\<rparr>, s1) }
                              else Some (ob, s));
              ((st, ob2), s2) \<leftarrow> (if \<not> skip then EncodeMBHeader malloc cx ob1 s1 else Some ((AVCENC_SUCCESS, ob1), s1));
              if st \<noteq> AVCENC_SUCCESS then Some ((st, ob2), s2)
              else do { (st3, s3) \<leftarrow> enc_blocks malloc enc ob2 (residual_blocks (currMB ob2) enc) st s2;
                        Some ((st3, ob2), s3) } })"

end
