(* ===== verification/Transform.thy ===== *)
theory Transform
  imports MbAccess
begin

text \<open>
  The arithmetic of a block of four by four coefficients that the encoder (\<open>enc/src/block.cpp\<close>) and the decoder
  (\<open>dec/src/itrans.cpp\<close>) share. The coefficients of a macroblock are one array of \<open>int16\<close> (\<open>video->block\<close>), sixteen in a
  row; a block is given by the index of its first coefficient. Every store into the array is cut to sixteen bits.
\<close>

section \<open>Lines of four coefficients\<close>

text \<open>Four stores at \<open>p\<close> and \<open>s\<close>, \<open>2 s\<close>, \<open>3 s\<close> behind it.\<close>

definition put4 :: "nat \<Rightarrow> nat \<Rightarrow> int \<times> int \<times> int \<times> int \<Rightarrow> int list \<Rightarrow> int list" where
  "put4 p s v B = (case v of (a, b, c, d) \<Rightarrow>
     B[p := c_int16 a, p + s := c_int16 b, p + 2 * s := c_int16 c, p + 3 * s := c_int16 d])"

definition line4 :: "(int \<Rightarrow> int \<Rightarrow> int \<Rightarrow> int \<Rightarrow> int \<times> int \<times> int \<times> int) \<Rightarrow> nat \<Rightarrow> nat \<Rightarrow> int list \<Rightarrow> int list" where
  "line4 f p s B = put4 p s (f (B ! p) (B ! (p + s)) (B ! (p + 2 * s)) (B ! (p + 3 * s))) B"

text \<open>The forward and the inverse transform of a line.\<close>

definition fwd1 :: "int \<Rightarrow> int \<Rightarrow> int \<Rightarrow> int \<Rightarrow> int \<times> int \<times> int \<times> int" where
  "fwd1 x0 x1 x2 x3 =
     (let r0 = x0 + x3; r3 = x0 - x3; r1 = x1 + x2; r2 = x1 - x2
      in (r0 + r1, push_bit 1 r3 + r2, r0 - r1, r3 - push_bit 1 r2))"

definition inv1 :: "int \<Rightarrow> int \<Rightarrow> int \<Rightarrow> int \<Rightarrow> int \<times> int \<times> int \<times> int" where
  "inv1 x0 x1 x2 x3 =
     (let e0 = x0 + x2; e1 = x0 - x2; e2 = drop_bit 1 x1 - x3; e3 = x1 + drop_bit 1 x3
      in (e0 + e3, e1 + e2, e1 - e2, e0 - e3))"

section \<open>Tables\<close>

definition ZZ_SCAN_BLOCK :: "nat list" where
  "ZZ_SCAN_BLOCK = [0, 1, 16, 32, 17, 2, 3, 18, 33, 48, 49, 34, 19, 35, 50, 51]"

definition dequant_coefres :: "int list list" where
  "dequant_coefres = [[10, 13, 13, 10, 16, 10, 13, 13, 13, 13, 16, 10, 16, 13, 13, 16],
     [11, 14, 14, 11, 18, 11, 14, 14, 14, 14, 18, 11, 18, 14, 14, 18],
     [13, 16, 16, 13, 20, 13, 16, 16, 16, 16, 20, 13, 20, 16, 16, 20],
     [14, 18, 18, 14, 23, 14, 18, 18, 18, 18, 23, 14, 23, 18, 18, 23],
     [16, 20, 20, 16, 25, 16, 20, 20, 20, 20, 25, 16, 25, 20, 20, 25],
     [18, 23, 23, 18, 29, 18, 23, 23, 23, 23, 29, 18, 29, 23, 23, 29]]"

definition quant_coef :: "int list list" where
  "quant_coef = [[13107, 8066, 8066, 13107, 5243, 13107, 8066, 8066, 8066, 8066, 5243, 13107, 5243, 8066, 8066, 5243],
     [11916, 7490, 7490, 11916, 4660, 11916, 7490, 7490, 7490, 7490, 4660, 11916, 4660, 7490, 7490, 4660],
     [10082, 6554, 6554, 10082, 4194, 10082, 6554, 6554, 6554, 6554, 4194, 10082, 4194, 6554, 6554, 4194],
     [9362, 5825, 5825, 9362, 3647, 9362, 5825, 5825, 5825, 5825, 3647, 9362, 3647, 5825, 5825, 3647],
     [8192, 5243, 5243, 8192, 3355, 8192, 5243, 5243, 5243, 5243, 3355, 8192, 3355, 5243, 5243, 3355],
     [7282, 4559, 4559, 7282, 2893, 7282, 4559, 4559, 4559, 4559, 2893, 7282, 2893, 4559, 4559, 2893]]"

section \<open>Pixels\<close>

text \<open>\<open>if ((uint)r > 0xFF) r = 0xFF & (~(r >> 31))\<close>\<close>

definition clip_px :: "int \<Rightarrow> int" where
  "clip_px r = (if r < 0 \<or> r > 0xFF then 0xFF AND NOT (drop_bit 31 r) else r)"

text \<open>A block of pixels in a plane: its first pixel and the pitch.\<close>

type_synonym pixels = "int list \<times> nat \<times> nat"

definition px :: "pixels \<Rightarrow> nat \<Rightarrow> nat \<Rightarrow> int" where
  "px pl j i = (case pl of (xs, o0, pitch) \<Rightarrow> xs ! (o0 + j * pitch + i))"

definition put_column :: "nat \<Rightarrow> int \<times> int \<times> int \<times> int \<Rightarrow> pixels \<Rightarrow> pixels" where
  "put_column i v pl = (case (v, pl) of ((a, b, c, d), (xs, o0, pitch)) \<Rightarrow>
     (xs[o0 + i := a, o0 + pitch + i := b, o0 + 2 * pitch + i := c, o0 + 3 * pitch + i := d], o0, pitch))"

text \<open>A column of the inverse transform, with the rounding and the clipping of its four pixels.\<close>

definition inv_column :: "int list \<Rightarrow> nat \<Rightarrow> (nat \<Rightarrow> int) \<Rightarrow> int \<times> int \<times> int \<times> int" where
  "inv_column B q pred =
     (let (e0, e1, e2, e3) = inv1 (B ! q) (B ! (q + 16)) (B ! (q + 32)) (B ! (q + 48));
          f = (\<lambda>j e. clip_px (pred j + drop_bit 6 (e + 32)))
      in (f 0 e0, f 1 e1, f 2 e2, f 3 e3))"

definition inv_rows :: "nat \<Rightarrow> int list \<Rightarrow> int list" where
  "inv_rows p B = fold (\<lambda>j. line4 inv1 (p + 16 * j) 1) [0..<4] B"

end
