(* ===== verification/EncTransform.thy ===== *)
theory EncTransform
  imports Transform
begin

text \<open>
  Transform and quantisation in the encoder, \<open>dct_luma\<close> of \<open>enc/src/block.cpp\<close>: the residue of a block is transformed, quantised into
  levels and runs along the zigzag scan, dequantised in place and, in an intra macroblock, added to the prediction again.
  The arrays \<open>level\<close> and \<open>run\<close> are the lists of the entries written.
\<close>

section \<open>Quantisation\<close>

definition MAX_VALUE :: int where "MAX_VALUE = 999999"

definition COEFF_COST :: "int list list" where
  "COEFF_COST = [[3, 2, 2, 1, 1, 1, 0, 0, 0, 0, 0, 0, 0, 0, 0, 0], [9, 9, 9, 9, 9, 9, 9, 9, 9, 9, 9, 9, 9, 9, 9, 9]]"

record quant_state =
  q_coef :: "int list"
  q_level :: "int list"
  q_run :: "int list"
  q_zeros :: nat
  q_cost :: int

definition quant_level :: "int \<Rightarrow> nat \<Rightarrow> int \<Rightarrow> int \<Rightarrow> int" where
  "quant_level quant q_bits qp_const data =
     drop_bit q_bits (if data > 0 then data * quant + qp_const else (- data) * quant + qp_const)"

definition quant_step :: "nat \<Rightarrow> nat \<Rightarrow> int \<Rightarrow> nat \<Rightarrow> nat \<Rightarrow> quant_state \<Rightarrow> quant_state" where
  "quant_step Rq Qq qp_const p k st =
     (let idx = p + ZZ_SCAN_BLOCK ! k;
          data = q_coef st ! idx;
          lev = quant_level (quant_coef ! Rq ! k) (15 + Qq) qp_const data
      in if lev \<noteq> 0 then
           let quant = dequant_coefres ! Rq ! k;
               v = (if data > 0 then lev else - lev)
           in st\<lparr>q_cost := q_cost st + (if lev > 1 then MAX_VALUE else COEFF_COST ! 0 ! q_zeros st),
                 q_level := q_level st @ [v], q_coef := (q_coef st)[idx := c_int16 (push_bit Qq (v * quant))],
                 q_run := q_run st @ [int (q_zeros st)], q_zeros := 0\<rparr>
         else st\<lparr>q_zeros := q_zeros st + 1, q_coef := (q_coef st)[idx := 0]\<rparr>)"

definition quantise :: "nat \<Rightarrow> nat \<Rightarrow> int \<Rightarrow> nat \<Rightarrow> nat \<Rightarrow> int list \<Rightarrow> int \<Rightarrow> quant_state" where
  "quantise Rq Qq qp_const p k0 B coef_cost =
     fold (quant_step Rq Qq qp_const p) [k0..<16]
       \<lparr>q_coef = B, q_level = [], q_run = [], q_zeros = 0, q_cost = coef_cost\<rparr>"

section \<open>The block\<close>

definition residue_row :: "pixels \<Rightarrow> pixels \<Rightarrow> nat \<Rightarrow> int \<times> int \<times> int \<times> int" where
  "residue_row org pred j =
     fwd1 (px org j 0 - px pred j 0) (px org j 1 - px pred j 1) (px org j 2 - px pred j 2) (px org j 3 - px pred j 3)"

definition fwd_block :: "pixels \<Rightarrow> pixels \<Rightarrow> nat \<Rightarrow> int list \<Rightarrow> int list" where
  "fwd_block org pred p B =
     fold (\<lambda>i. line4 fwd1 (p + i) 16) [0..<4] (fold (\<lambda>j. put4 (p + 16 * j) 1 (residue_row org pred j)) [0..<4] B)"

text \<open>Prediction and inverse transform into the plane \<open>cur\<close>; without coefficients the prediction is copied.\<close>

definition enc_recon :: "nat \<Rightarrow> pixels \<Rightarrow> pixels \<Rightarrow> int list \<Rightarrow> pixels" where
  "enc_recon p pred cur B = fold (\<lambda>i. put_column i (inv_column B (p + i) (\<lambda>j. px pred j i))) [0..<4] cur"

definition copy_pred :: "pixels \<Rightarrow> pixels \<Rightarrow> pixels" where
  "copy_pred pred cur = fold (\<lambda>i. put_column i (px pred 0 i, px pred 1 i, px pred 2 i, px pred 3 i)) [0..<4] cur"

record luma_result =
  lr_numcoeff :: nat
  lr_level :: "int list"
  lr_run :: "int list"
  lr_cost :: int
  lr_coef :: "int list"
  lr_cur :: pixels

definition dct_luma :: "bool \<Rightarrow> nat \<Rightarrow> nat \<Rightarrow> int \<Rightarrow> nat \<Rightarrow> pixels \<Rightarrow> pixels \<Rightarrow> pixels \<Rightarrow> int \<Rightarrow> int list \<Rightarrow> luma_result" where
  "dct_luma intra Rq Qq qp_const blkidx cur org pred coef_cost B =
     (let p = 4 * (blkidx mod 4) + 64 * (blkidx div 4);
          q = quantise Rq Qq qp_const p 0 (fwd_block org pred p B) coef_cost;
          numcoeff = length (q_level q);
          B1 = (if intra \<and> numcoeff \<noteq> 0 then inv_rows p (q_coef q) else q_coef q);
          cur1 = (if intra then if numcoeff \<noteq> 0 then enc_recon p pred cur B1 else copy_pred pred cur else cur)
      in \<lparr>lr_numcoeff = numcoeff, lr_level = q_level q, lr_run = q_run q, lr_cost = q_cost q, lr_coef = B1, lr_cur = cur1\<rparr>)"

end
