(* ===== verification/DecResidual.thy ===== *)
theory DecResidual
  imports DecCavlc MbAccess
begin

text \<open>
  The residual block of the decoder, \<open>residual_block_cavlc\<close> of \<open>dec/src/residual.cpp\<close>. The caller's arrays \<open>level\<close> and
  \<open>run\<close> are the lists of the entries written, from the highest frequency down; the statuses of the entropy decoder are
  not looked at.
\<close>

section \<open>Trailing ones\<close>

definition sign_level :: "uint \<Rightarrow> int \<Rightarrow> int \<Rightarrow> int" where
  "sign_level flag TrailingOnes i = sint (1 - (drop_bit (nat (TrailingOnes - i - 1)) flag AND 2))"

definition read_signs :: "AVCDecBitstream \<Rightarrow> int \<Rightarrow> (int list \<times> AVCDecBitstream) option" where
  "read_signs s TrailingOnes =
     (if TrailingOnes \<noteq> 0 then
        do { (flag, s1) \<leftarrow> BitstreamReadBits s TrailingOnes;
             Some (map (\<lambda>i. sign_level (push_bit 1 flag) TrailingOnes (int i)) [0..<nat TrailingOnes], s1) }
      else Some ([], s))"

section \<open>Levels\<close>

definition first_levelCode :: "AVCDecBitstream \<Rightarrow> int \<Rightarrow> int \<Rightarrow> (int \<times> AVCDecBitstream) option" where
  "first_levelCode s TotalCoeff TrailingOnes =
     do { (prefix, s1) \<leftarrow> ce_LevelPrefix s;
          if TotalCoeff < 11 \<or> TrailingOnes = 3 then
            if prefix < 14 then Some (prefix, s1)
            else if prefix = 14 then do { (suffix, s2) \<leftarrow> BitstreamReadBits s1 4; Some (14 + uint suffix, s2) }
            else do { (suffix, s2) \<leftarrow> BitstreamReadBits s1 12; Some (30 + uint suffix, s2) }
          else do { (suffix, s2) \<leftarrow> BitstreamReadBits s1 (if prefix < 15 then 1 else 12);
                    Some (2 * prefix + uint suffix, s2) } }"

definition signed_level :: "int \<Rightarrow> int \<Rightarrow> int" where
  "signed_level levelCode magnitude = (if odd levelCode then - magnitude else magnitude)"

fun next_levels :: "nat \<Rightarrow> nat \<Rightarrow> AVCDecBitstream \<Rightarrow> (int list \<times> AVCDecBitstream) option" where
  "next_levels 0 suffixLength s = Some ([], s)"
| "next_levels (Suc j) suffixLength s =
     do { (prefix, s1) \<leftarrow> ce_LevelPrefix s;
          (suffix, s2) \<leftarrow> BitstreamReadBits s1 (if prefix < 15 then int suffixLength else 12);
          let levelCode = push_bit suffixLength prefix + uint suffix;
          let magnitude = levelCode div 2 + 1;
          (rest, s3) \<leftarrow> next_levels j
            (if magnitude > push_bit (suffixLength - 1) 3 \<and> suffixLength < 6 then suffixLength + 1 else suffixLength) s2;
          Some (signed_level levelCode magnitude # rest, s3) }"

definition read_levels :: "AVCDecBitstream \<Rightarrow> int \<Rightarrow> int \<Rightarrow> (int list \<times> AVCDecBitstream) option" where
  "read_levels s TotalCoeff TrailingOnes =
     (if TotalCoeff > TrailingOnes then
        do { (code, s1) \<leftarrow> first_levelCode s TotalCoeff TrailingOnes;
             let levelCode = (if TrailingOnes < 3 then code + 2 else code);
             let magnitude = (levelCode + 2) div 2;
             (rest, s2) \<leftarrow> next_levels (nat (TotalCoeff - (TrailingOnes + 1))) (if magnitude > 3 then 2 else 1) s1;
             Some (signed_level levelCode magnitude # rest, s2) }
      else Some ([], s))"

section \<open>Runs\<close>

text \<open>The loop over the coefficients but the last; what is left of \<open>zerosLeft\<close> is the run of the last.\<close>

fun read_runs :: "nat \<Rightarrow> int \<Rightarrow> AVCDecBitstream \<Rightarrow> ((int list \<times> int) \<times> AVCDecBitstream) option" where
  "read_runs 0 zerosLeft s = Some (([], zerosLeft), s)"
| "read_runs (Suc n) zerosLeft s =
     do { ((r, left), s1) \<leftarrow>
            (if zerosLeft > 0 then do { (run_before, s1) \<leftarrow> ce_RunBefore s zerosLeft;
                                        Some ((run_before, zerosLeft - run_before), s1) }
             else Some ((0, 0), s));
          ((rs, left'), s2) \<leftarrow> read_runs n left s1;
          Some ((r # rs, left'), s2) }"

definition read_zeros :: "AVCDecBitstream \<Rightarrow> int \<Rightarrow> int \<Rightarrow> int \<Rightarrow> (int \<times> AVCDecBitstream) option" where
  "read_zeros s nC maxNumCoeff TotalCoeff =
     (if TotalCoeff < maxNumCoeff then if nC \<ge> 0 then ce_TotalZeros s TotalCoeff else ce_TotalZerosChromaDC s TotalCoeff
      else Some (0, s))"

definition residual_block_cavlc ::
  "AVCDecBitstream \<Rightarrow> int \<Rightarrow> int \<Rightarrow> ((int list \<times> int list \<times> int) \<times> AVCDecBitstream) option" where
  "residual_block_cavlc s nC maxNumCoeff =
     do { ((TrailingOnes, TotalCoeff), s1) \<leftarrow>
            (if nC \<ge> 0 then ce_TotalCoeffTrailingOnes s nC else ce_TotalCoeffTrailingOnesChromaDC s);
          if TotalCoeff = 0 then Some (([], [], 0), s1)
          else do { (ones, s2) \<leftarrow> read_signs s1 TrailingOnes;
                    (levels, s3) \<leftarrow> read_levels s2 TotalCoeff TrailingOnes;
                    (zerosLeft, s4) \<leftarrow> read_zeros s3 nC maxNumCoeff TotalCoeff;
                    ((runs, left), s5) \<leftarrow> read_runs (nat (TotalCoeff - 1)) zerosLeft s4;
                    Some ((ones @ levels, runs @ [if left < 0 then 0 else left], TotalCoeff), s5) } }"

end
