(* ===== verification/DecTransform.thy ===== *)
theory DecTransform
  imports Transform DecMb DecResidual
begin

text \<open>
  The coefficients of a macroblock in the decoder: \<open>residual\<close> of \<open>dec/src/residual.cpp\<close>, which reads the blocks, undoes the
  scan and dequantises, and the inverse transforms of \<open>dec/src/itrans.cpp\<close>, which add a block to the prediction in the
  frame (\<open>USE_PRED_BLOCK\<close> is not defined).
\<close>

section \<open>Inverse transforms\<close>

definition itrans :: "nat \<Rightarrow> int list \<Rightarrow> pixels \<Rightarrow> pixels" where
  "itrans p B cur =
     (let B1 = inv_rows p B
      in fold (\<lambda>i cur. put_column i (inv_column B1 (p + i) (\<lambda>j. px cur j i)) cur) [0..<4] cur)"

text \<open>The DC coefficients of an intra 16x16 macroblock.\<close>

definition dc_row :: "int \<Rightarrow> int \<Rightarrow> int \<Rightarrow> int \<Rightarrow> int \<times> int \<times> int \<times> int" where
  "dc_row x0 x1 x2 x3 =
     (let m0 = x0 + x1; m1 = x0 - x1; m2 = x2 + x3; m3 = x2 - x3 in (m0 + m2, m0 - m2, m1 - m3, m1 + m3))"

definition dc_scaled :: "(int \<Rightarrow> int) \<Rightarrow> int \<Rightarrow> int \<Rightarrow> int \<Rightarrow> int \<Rightarrow> int \<times> int \<times> int \<times> int" where
  "dc_scaled f x0 x1 x2 x3 = (let (a, b, c, d) = dc_row x0 x1 x2 x3 in (f a, f b, f c, f d))"

definition Intra16DCTrans :: "nat \<Rightarrow> nat \<Rightarrow> int list \<Rightarrow> int list" where
  "Intra16DCTrans Qq Rq B =
     (let scale = dequant_coefres ! Rq ! 0;
          B1 = fold (\<lambda>j. line4 dc_row (64 * j) 4) [0..<4] B;
          f = (\<lambda>m. if Qq \<ge> 2 then push_bit (Qq - 2) (m * scale)
                   else drop_bit (2 - Qq) (m * scale + push_bit (2 - Qq - 1) 1))
      in fold (\<lambda>j. line4 (dc_scaled f) (4 * j) 64) [0..<4] B1)"

text \<open>The DC coefficients of a chroma component, whose block begins at \<open>p\<close>.\<close>

definition ChromaDCTrans :: "nat \<Rightarrow> nat \<Rightarrow> nat \<Rightarrow> int list \<Rightarrow> int list" where
  "ChromaDCTrans p Qq Rq B =
     (let scale = dequant_coefres ! Rq ! 0;
          c00 = B ! p + B ! (p + 4); c01 = B ! p - B ! (p + 4);
          c10 = B ! (p + 64) + B ! (p + 68); c11 = B ! (p + 64) - B ! (p + 68);
          f = (\<lambda>m. if Qq \<ge> 1 then push_bit (Qq - 1) (m * scale) else drop_bit 1 (m * scale))
      in B[p := c_int16 (f (c00 + c10)), p + 4 := c_int16 (f (c01 + c11)),
           p + 64 := c_int16 (f (c00 - c10)), p + 68 := c_int16 (f (c01 - c11))])"

section \<open>Placing coefficients\<close>

text \<open>
  The loops from the last entry of \<open>level\<close> and \<open>run\<close> to the first; \<open>put\<close> stores the coefficient of a scan position. A
  position beyond \<open>limit\<close> is an error, one before the first is outside the scan table.
\<close>

fun place_coeffs ::
  "(nat \<Rightarrow> int \<Rightarrow> int list \<Rightarrow> int list) \<Rightarrow> int \<Rightarrow> int \<Rightarrow> (int \<times> int) list \<Rightarrow> int list \<Rightarrow> (AVCDec_Status \<times> int list) option" where
  "place_coeffs put limit coeffNum [] B = Some (AVCDEC_SUCCESS, B)"
| "place_coeffs put limit coeffNum ((v, r) # ps) B =
     (let coeffNum = coeffNum + (r + 1)
      in if coeffNum > limit then Some (AVCDEC_FAIL, B)
         else if coeffNum < 0 then None
         else place_coeffs put limit coeffNum ps (put (nat coeffNum) v B))"

definition from_last :: "int list \<Rightarrow> int list \<Rightarrow> (int \<times> int) list" where
  "from_last level run = zip (rev level) (rev run)"

definition put_scaled :: "nat \<Rightarrow> nat \<Rightarrow> nat \<Rightarrow> nat \<Rightarrow> int \<Rightarrow> int list \<Rightarrow> int list" where
  "put_scaled Rq Qq p k v B = B[p + ZZ_SCAN_BLOCK ! k := c_int16 (push_bit Qq (v * dequant_coefres ! Rq ! k))]"

definition put_dc16 :: "nat \<Rightarrow> int \<Rightarrow> int list \<Rightarrow> int list" where
  "put_dc16 k v B = B[4 * ZZ_SCAN_BLOCK ! k := c_int16 v]"

definition put_dc_chroma :: "nat \<Rightarrow> nat \<Rightarrow> int \<Rightarrow> int list \<Rightarrow> int list" where
  "put_dc_chroma p k v B = B[p + 64 * (k div 2) + 4 * (k mod 2) := c_int16 v]"

section \<open>The macroblock\<close>

text \<open>The object and the local \<open>cbp4x4\<close>, stored at the end.\<close>

type_synonym coeff_state = "AVCMbObj \<times> uint"

definition read_block ::
  "int \<Rightarrow> int \<Rightarrow> (nat \<Rightarrow> int \<Rightarrow> int list \<Rightarrow> int list) \<Rightarrow> int \<Rightarrow> int \<Rightarrow> (int \<Rightarrow> coeff_state \<Rightarrow> coeff_state)
    \<Rightarrow> coeff_state \<Rightarrow> AVCDecBitstream \<Rightarrow> ((AVCDec_Status \<times> coeff_state) \<times> AVCDecBitstream) option" where
  "read_block nC maxNumCoeff put limit start fin x s =
     do { ((level, run, numcoeff), s1) \<leftarrow> residual_block_cavlc s nC maxNumCoeff;
          (st, B) \<leftarrow> place_coeffs put limit start (from_last level run) (mb_block (fst x));
          let x1 = ((fst x)\<lparr>mb_block := B\<rparr>, snd x);
          if st \<noteq> AVCDEC_SUCCESS then Some ((AVCDEC_FAIL, x1), s1)
          else Some ((AVCDEC_SUCCESS, fin numcoeff x1), s1) }"

fun each_block ::
  "('b \<Rightarrow> 'a \<Rightarrow> AVCDecBitstream \<Rightarrow> ((AVCDec_Status \<times> 'a) \<times> AVCDecBitstream) option) \<Rightarrow> 'b list
    \<Rightarrow> 'a \<Rightarrow> AVCDecBitstream \<Rightarrow> ((AVCDec_Status \<times> 'a) \<times> AVCDecBitstream) option" where
  "each_block f [] x s = Some ((AVCDEC_SUCCESS, x), s)"
| "each_block f (b # bs) x s = on_success (f b x) (each_block f bs) s"

definition set_nz :: "nat \<Rightarrow> int \<Rightarrow> coeff_state \<Rightarrow> coeff_state" where
  "set_nz k numcoeff x =
     (upd_currMB (\<lambda>m. m\<lparr>nz_coeff := (nz_coeff m)[k := numcoeff]\<rparr>) (fst x),
      if numcoeff \<noteq> 0 then snd x OR push_bit k 1 else snd x)"

definition residual_dc16 :: "coeff_state \<Rightarrow> AVCDecBitstream \<Rightarrow> ((AVCDec_Status \<times> coeff_state) \<times> AVCDecBitstream) option" where
  "residual_dc16 x =
     read_block (predict_nnz (fst x) 0 0) 16 put_dc16 15 (- 1)
       (\<lambda>n (ob, cbp). if n \<noteq> 0
          then (ob\<lparr>mb_block := Intra16DCTrans (nat (v_QPy_div_6 ob)) (nat (v_QPy_mod_6 ob)) (mb_block ob)\<rparr>, 0xFFFF)
          else (ob, cbp)) x"

text \<open>Column and row of the blocks of a quarter, of the quarters in coding order; of the chroma blocks.\<close>

definition luma_blocks :: "uint \<Rightarrow> (nat \<times> nat) list" where
  "luma_blocks cbp =
     concat (map (\<lambda>q. if cbp AND push_bit q 1 \<noteq> 0
                      then map (\<lambda>b. (2 * (q mod 2) + b mod 2, 2 * (q div 2) + b div 2)) [0..<4] else []) [0..<4])"

definition chroma_blocks :: "(nat \<times> nat) list" where
  "chroma_blocks = concat (map (\<lambda>bx. concat (map (\<lambda>j. map (\<lambda>i. (i, j)) [bx..<bx + 2]) [4..<6])) [0, 2])"

definition residual_luma :: "int \<Rightarrow> nat \<times> nat \<Rightarrow> coeff_state \<Rightarrow> AVCDecBitstream
    \<Rightarrow> ((AVCDec_Status \<times> coeff_state) \<times> AVCDecBitstream) option" where
  "residual_luma start = (\<lambda>(i, j) x.
     read_block (predict_nnz (fst x) i j) (16 - start)
       (put_scaled (nat (v_QPy_mod_6 (fst x))) (nat (v_QPy_div_6 (fst x))) (64 * j + 4 * i)) 15 (start - 1) (set_nz (4 * j + i)) x)"

definition residual_dc_chroma :: "nat \<Rightarrow> coeff_state \<Rightarrow> AVCDecBitstream \<Rightarrow> ((AVCDec_Status \<times> coeff_state) \<times> AVCDecBitstream) option" where
  "residual_dc_chroma iCbCr x =
     read_block (- 1) 4 (put_dc_chroma (256 + 8 * iCbCr)) 3 (- 1)
       (\<lambda>n (ob, cbp). if n \<noteq> 0
          then (ob\<lparr>mb_block := ChromaDCTrans (256 + 8 * iCbCr) (nat (v_QPc_div_6 ob)) (nat (v_QPc_mod_6 ob)) (mb_block ob)\<rparr>,
                cbp OR (if iCbCr \<noteq> 0 then 0xcc0000 else 0x330000))
          else (ob, cbp)) x"

definition residual_chroma :: "nat \<times> nat \<Rightarrow> coeff_state \<Rightarrow> AVCDecBitstream \<Rightarrow> ((AVCDec_Status \<times> coeff_state) \<times> AVCDecBitstream) option" where
  "residual_chroma = (\<lambda>(i, j) x.
     read_block (predict_nnz_chroma (fst x) i j) 15
       (put_scaled (nat (v_QPc_mod_6 (fst x))) (nat (v_QPc_div_6 (fst x))) (64 * j + 4 * i)) 15 0 (set_nz (4 * j + i)) x)"

definition clear_nz :: "coeff_state \<Rightarrow> coeff_state" where
  "clear_nz x = (upd_currMB (\<lambda>m. m\<lparr>nz_coeff := replicate 24 0\<rparr>) (fst x), snd x)"

definition residual :: "AVCMbObj \<Rightarrow> mb_parser" where
  "residual ob s =
     (let cbp = CBP (currMB ob); i16 = (mbMode (currMB ob) = AVC_I16);
          dc = (if i16 then residual_dc16 else (\<lambda>x s. Some ((AVCDEC_SUCCESS, x), s)));
          luma = (\<lambda>x. each_block (residual_luma (of_bool i16)) (luma_blocks cbp) (clear_nz x));
          chroma_dc = each_block residual_dc_chroma (if cbp AND push_bit 4 3 \<noteq> 0 then [0, 1] else []);
          chroma_ac = each_block residual_chroma (if cbp AND push_bit 4 2 \<noteq> 0 then chroma_blocks else [])
      in do { ((st, x), s1) \<leftarrow> on_success (dc (ob\<lparr>mb_block := replicate 384 0\<rparr>, 0))
                                 (\<lambda>x. on_success (luma x) (\<lambda>x. on_success (chroma_dc x) chroma_ac)) s;
              if st \<noteq> AVCDEC_SUCCESS then Some ((AVCDEC_FAIL, fst x), s1)
              else Some ((AVCDEC_SUCCESS, (fst x)\<lparr>cbp4x4 := snd x\<rparr>), s1) })"

end
