(* ===== verification/ResidualRoundtrip.thy ===== *)
theory ResidualRoundtrip
  imports DecResidual EncResidual CavlcRoundtrip
begin

text \<open>
  The bits that \<open>enc_residual_block\<close> writes for a block of levels and runs are those that \<open>residual_block_cavlc\<close> turns
  back into the same levels and runs, in reverse order: signs of the trailing ones, then each level with the table that
  the levels before it select on either side, then zeros and runs.
\<close>

section \<open>Codes with a prefix of zeros\<close>

lemma emits_prefix_code:
  assumes "k + 1 + n \<le> 31" "suf < 2 ^ n"
  shows "enc_emits (\<lambda>s. BitstreamWriteBits malloc s (int (k + 1 + n)) (of_nat (2 ^ n + suf)))
    (replicate k False @ True # nat_bits n suf)"
proof -
  let ?bs = "replicate k False @ True # nat_bits n suf"
  have "bits_val ?bs = 2 ^ n + suf" using assms(2) by (simp add: bits_val_append bits_val_nat_bits)
  then have "bits_word ?bs = (of_nat (2 ^ n + suf) :: uint)" by (simp add: bits_word_def)
  moreover have "enc_emits (\<lambda>s. BitstreamWriteBits malloc s (int (k + 1 + n)) (bits_word ?bs)) ?bs"
    by (rule enc.emits_wr_bits) (use assms(1) in simp_all)
  ultimately show ?thesis by simp
qed

lemma reads_suffix:
  assumes "1 \<le> n" "n \<le> 31" "suf < 2 ^ n"
  shows "consumes dec_inv dec_bits (\<lambda>s. BitstreamReadBits s (int n)) (nat_bits n suf) (of_nat suf)"
proof -
  have "bits_word (nat_bits n suf) = (of_nat suf :: uint)" using assms(3) by (simp add: bits_word_def bits_val_nat_bits)
  then show ?thesis using dec.consumes_rd [of "nat_bits n suf" n] assms by simp
qed

lemma uint_of_nat_small: "n < 2 ^ 31 \<Longrightarrow> uint (of_nat n :: uint) = int n"
  by (simp add: unsigned_of_nat take_bit_nat_eq_self)

text \<open>The parts of the code of a level in a table: zeros, length of the suffix, suffix.\<close>

definition level_parts :: "nat \<Rightarrow> nat \<Rightarrow> nat \<Rightarrow> nat \<times> nat \<times> nat" where
  "level_parts vlcnum val sign =
     (if vlcnum = 0 then
        if val < 8 then (2 * (val - 1) + sign, 0, 0) else if val < 16 then (14, 4, 2 * (val - 8) + sign)
        else (15, 12, 2 * (val - 16) + sign)
      else let q = (val - 1) div 2 ^ (vlcnum - 1) in
        if q < 15 then (q, vlcnum, 2 * ((val - 1) mod 2 ^ (vlcnum - 1)) + sign)
        else (15, 12, 2 * (val - (15 * 2 ^ (vlcnum - 1) + 1)) + sign))"

definition level_bits :: "nat \<Rightarrow> nat \<Rightarrow> nat \<Rightarrow> bool list" where
  "level_bits vlcnum val sign = (case level_parts vlcnum val sign of (k, n, suf) \<Rightarrow> replicate k False @ True # nat_bits n suf)"

lemma or_code:
  assumes "sign \<le> 1" "x < 2 ^ m"
  shows "(push_bit (m + 1) 1 OR push_bit 1 (int x)) OR int sign = int (2 ^ (m + 1) + (2 * x + sign))"
proof -
  have x: "int x < 2 ^ m" using assms(2) by (metis of_nat_less_iff of_nat_numeral of_nat_power)
  have "(push_bit (m + 1) 1 :: int) AND push_bit 1 (int x) = 0"
  proof (rule bit_eqI)
    fix i
    have "take_bit m (int x) = int x" using x by (simp add: take_bit_int_eq_self)
    then have "\<not> bit (int x) m" by (metis bit_take_bit_iff less_irrefl)
    then have "\<not> bit (push_bit 1 (int x)) (m + 1)" unfolding bit_push_bit_iff by simp
    moreover have "bit (push_bit (m + 1) 1 :: int) i \<longleftrightarrow> i = m + 1" unfolding bit_push_bit_iff by (auto simp: bit_1_iff)
    ultimately show "bit ((push_bit (m + 1) 1 :: int) AND push_bit 1 (int x)) i \<longleftrightarrow> bit (0 :: int) i"
      unfolding bit_and_iff by auto
  qed
  then have "push_bit (m + 1) 1 OR push_bit 1 (int x) = push_bit (m + 1) 1 + push_bit 1 (int x)"
    by (simp add: disjunctive_add_eq_or)
  moreover have "(push_bit (m + 1) 1 + push_bit 1 (int x)) OR int sign = push_bit (m + 1) 1 + push_bit 1 (int x) + int sign"
  proof -
    have "push_bit (m + 1) 1 + push_bit 1 (int x) = 2 * (2 ^ m + int x)" by (simp add: push_bit_eq_mult)
    moreover have "sign = 0 \<or> sign = 1" using assms(1) by linarith
    ultimately show ?thesis by (auto simp: or_one_eq)
  qed
  ultimately show ?thesis by (simp add: push_bit_eq_mult)
qed


lemma emits_level_code:
  assumes "k + 2 + m \<le> 30" "x < 2 ^ m" "sign \<le> 1"
  shows "enc_emits (\<lambda>s. BitstreamWriteBits malloc s (int (k + 1 + (m + 1)))
      (word_of_int ((push_bit (m + 1) 1 OR push_bit 1 (int x)) OR int sign)))
    (replicate k False @ True # nat_bits (m + 1) (2 * x + sign))"
  using emits_prefix_code [of k "m + 1" "2 * x + sign" malloc] assms
  unfolding or_code [OF assms(3,2)] by simp

lemma level_escape:
  assumes "1 \<le> v"
  shows "(v - 1) div 2 ^ m < 15 \<longleftrightarrow> v < 15 * 2 ^ m + (1 :: nat)"
proof -
  have "(v - 1) div 2 ^ m < 15 \<longleftrightarrow> v - 1 < 15 * 2 ^ m" by (rule div_less_iff_less_mult) simp
  then show ?thesis using assms by linarith
qed

lemma put_level_emits:
  assumes v: "1 \<le> v" "v \<le> 2063" and sign: "sign \<le> 1" and n: "vlcnum \<le> 6"
  shows "enc_emits (\<lambda>s. put_level malloc s vlcnum (int v) (int sign)) (level_bits vlcnum v sign)"
proof (cases "vlcnum = 0")
  case True
  consider "v < 8" | "8 \<le> v" "v < 16" | "16 \<le> v" by linarith
  then show ?thesis
  proof cases
    case 1
    have "int v * 2 + int sign - 1 = int (2 * (v - 1) + sign + 1 + 0)" using v by simp
    then show ?thesis
      using emits_prefix_code [of "2 * (v - 1) + sign" 0 0 malloc] 1 v sign True
      by (simp add: put_level_def level_bits_def level_parts_def mult.commute [of "int v"])
  next
    case 2
    have "v - 8 < 2 ^ 3" using 2 by simp
    from emits_level_code [of 14 3 "v - 8" sign malloc, OF _ this sign] show ?thesis
      using 2 True by (simp add: put_level_def level_bits_def level_parts_def of_nat_diff)
  next
    case 3
    have "v - 16 < 2 ^ 11" using v by simp
    from emits_level_code [of 15 11 "v - 16" sign malloc, OF _ this sign] show ?thesis
      using 3 True by (simp add: put_level_def level_bits_def level_parts_def of_nat_diff)
  qed
next
  case False
  define m where "m = vlcnum - 1"
  have m: "vlcnum = m + 1" "m \<le> 5" using False n by (auto simp: m_def)
  have e: "push_bit m 15 + 1 = int (15 * 2 ^ m + 1)" by (simp add: push_bit_eq_mult)
  show ?thesis
  proof (cases "v < 15 * 2 ^ m + 1")
    case True
    have q: "(v - 1) div 2 ^ m < 15" using level_escape [OF v(1)] True by blast
    have "drop_bit m (int v - 1) = int ((v - 1) div 2 ^ m)" "take_bit m (int v - 1) = int ((v - 1) mod 2 ^ m)"
      using v by (simp_all add: drop_bit_eq_div take_bit_eq_mod zdiv_int zmod_int of_nat_diff)
    moreover have "int v < push_bit m 15 + 1" using True unfolding e of_nat_less_iff .
    ultimately have "put_level malloc s vlcnum (int v) (int sign) = BitstreamWriteBits malloc s (int ((v - 1) div 2 ^ m + 1 + (m + 1)))
        (word_of_int ((push_bit (m + 1) 1 OR push_bit 1 (int ((v - 1) mod 2 ^ m))) OR int sign))" for s
      by (simp add: put_level_def m Let_def)
    moreover have "(v - 1) div 2 ^ m + 2 + m \<le> 30" using q m by linarith
    ultimately show ?thesis
      using emits_level_code [of "(v - 1) div 2 ^ m" m "(v - 1) mod 2 ^ m" sign malloc] sign q m
      by (simp add: level_bits_def level_parts_def)
  next
    case esc: False
    have q: "\<not> (v - 1) div 2 ^ m < 15" using level_escape [OF v(1)] esc by blast
    have "(1 :: nat) \<le> 2 ^ m" by simp
    then have "v - (15 * 2 ^ m + 1) < 2048" using v by linarith
    then have small: "v - (15 * 2 ^ m + 1) < 2 ^ 11" by simp
    have "\<not> int v < push_bit m 15 + 1" using esc unfolding e of_nat_less_iff .
    moreover have "int v - (push_bit m 15 + 1) = int (v - (15 * 2 ^ m + 1))" using esc unfolding e by (simp add: of_nat_diff)
    ultimately have "put_level malloc s vlcnum (int v) (int sign) = BitstreamWriteBits malloc s (int (15 + 1 + (11 + 1)))
        (word_of_int ((push_bit (11 + 1) 1 OR push_bit 1 (int (v - (15 * 2 ^ m + 1)))) OR int sign))" for s
      by (simp add: put_level_def m Let_def)
    then show ?thesis
      using emits_level_code [of 15 11, OF _ small sign, of malloc] q m
      by (simp add: level_bits_def level_parts_def)
  qed
qed


section \<open>Reading a level\<close>

text \<open>The code number of a level: twice its distance from one, plus its sign.\<close>

definition lcode :: "nat \<Rightarrow> nat \<Rightarrow> nat" where
  "lcode v sign = 2 * (v - 1) + sign"

lemma level_prefix_consumes_more:
  assumes "level_parts vlcnum v sign = (k, n, suf)" "k \<le> 15"
    and "consumes dec_inv dec_bits (q (int k)) (nat_bits n suf @ cs) y"
  shows "consumes dec_inv dec_bits (\<lambda>s. Option.bind (ce_LevelPrefix s) (\<lambda>(p, t). q p t)) (level_bits vlcnum v sign @ cs) y"
  using consumes_bind [where q = q, OF LevelPrefix_consumes [OF assms(2)] assms(3)] by (simp add: level_bits_def assms(1))

lemmas level_prefix_consumes = level_prefix_consumes_more [where cs = "[]", unfolded append_Nil2]

lemma suffix_consumes:
  assumes "1 \<le> n" "n \<le> 12" "suf < 2 ^ n" "y = f (int suf)"
  shows "consumes dec_inv dec_bits (\<lambda>s. do { (x, t) \<leftarrow> BitstreamReadBits s (int n); Some (f (uint x), t) }) (nat_bits n suf) y"
proof -
  have "(2 :: nat) ^ n \<le> 2 ^ 12" using assms(2) by (intro power_increasing) simp_all
  then have "uint (of_nat suf :: uint) = int suf" using assms(3) by (intro uint_of_nat_small) simp
  then show ?thesis using consumes_map [OF reads_suffix [of n suf], of y "\<lambda>x. f (uint x)"] assms by simp
qed

lemma level_parts_bounds:
  assumes "1 \<le> v" "v \<le> 2063" "sign \<le> 1" "1 \<le> vlcnum" "vlcnum \<le> 6"
    and "level_parts vlcnum v sign = (k, n, suf)"
  shows "k \<le> 15" "1 \<le> n" "n \<le> 12" "suf < 2 ^ n" "n = (if k < 15 then vlcnum else 12)"
    "2 ^ vlcnum * k + suf = lcode v sign"
proof -
  define m where "m = vlcnum - 1"
  have m: "vlcnum = m + 1" "m \<le> 5" using assms(4,5) by (auto simp: m_def)
  have d: "2 ^ m * ((v - 1) div 2 ^ m) + (v - 1) mod 2 ^ m = v - 1" by simp
  have r: "(v - 1) mod 2 ^ m < 2 ^ m" by simp
  have one: "(1 :: nat) \<le> 2 ^ m" by simp
  have dist: "2 ^ (m + 1) * d + (2 * r + sign) = 2 * (2 ^ m * d + r) + sign" for d r by (simp add: algebra_simps)
  have "k \<le> 15 \<and> 1 \<le> n \<and> n \<le> 12 \<and> suf < 2 ^ n \<and> n = (if k < 15 then vlcnum else 12) \<and> 2 ^ vlcnum * k + suf = lcode v sign"
  proof (cases "(v - 1) div 2 ^ m < 15")
    case True
    then have p: "k = (v - 1) div 2 ^ m" "n = m + 1" "suf = 2 * ((v - 1) mod 2 ^ m) + sign"
      using assms(6) m by (auto simp: level_parts_def)
    have "2 ^ vlcnum * k + suf = 2 * (2 ^ m * ((v - 1) div 2 ^ m) + (v - 1) mod 2 ^ m) + sign"
      unfolding p m by (rule dist)
    then have "2 ^ vlcnum * k + suf = lcode v sign" unfolding d by (simp add: lcode_def)
    moreover have "2 * ((v - 1) mod 2 ^ m) + sign < 2 * 2 ^ m" using r assms(3) by linarith
    then have "suf < 2 ^ n" by (simp add: p)
    ultimately show ?thesis using True m by (simp add: p)
  next
    case False
    then have p: "k = 15" "n = 12" "suf = 2 * (v - (15 * 2 ^ m + 1)) + sign"
      using assms(6) m by (auto simp: level_parts_def)
    have "\<not> v < 15 * 2 ^ m + 1" using level_escape [OF assms(1)] False by blast
    then have "2 ^ vlcnum * k + suf = lcode v sign" by (simp add: p m lcode_def)
    moreover have "2 * (v - (15 * 2 ^ m + 1)) + sign < 4096" using one assms(2,3) by linarith
    ultimately show ?thesis by (simp add: p)
  qed
  then show "k \<le> 15" "1 \<le> n" "n \<le> 12" "suf < 2 ^ n" "n = (if k < 15 then vlcnum else 12)"
    "2 ^ vlcnum * k + suf = lcode v sign" by blast+
qed

lemma first_levelCode_consumes:
  assumes v: "1 \<le> v" "v \<le> 2063" "sign \<le> 1" and n: "vlcnum = (if c < 11 \<or> t = 3 then 0 else 1)"
  shows "consumes dec_inv dec_bits (\<lambda>s. first_levelCode s c t) (level_bits vlcnum v sign) (int (lcode v sign))"
proof (cases "c < 11 \<or> t = 3")
  case True
  then have n0: "vlcnum = 0" using n by simp
  let ?q = "\<lambda>prefix s1. if prefix < 14 then Some (prefix, s1)
            else if prefix = 14 then do { (suffix, s2) \<leftarrow> BitstreamReadBits s1 4; Some (14 + uint suffix, s2) }
            else do { (suffix, s2) \<leftarrow> BitstreamReadBits s1 12; Some (30 + uint suffix, s2) }"
  have eq: "(\<lambda>s. first_levelCode s c t) = (\<lambda>s. Option.bind (ce_LevelPrefix s) (\<lambda>(p, s1). ?q p s1))"
    using True by (simp add: first_levelCode_def fun_eq_iff)
  consider "v < 8" | "8 \<le> v" "v < 16" | "16 \<le> v" by linarith
  then show ?thesis
  proof cases
    case 1
    then have p: "level_parts vlcnum v sign = (lcode v sign, 0, 0)" "lcode v sign < 14 \<or> lcode v sign = 14 \<and> False"
      using v n0 by (auto simp: level_parts_def lcode_def)
    show ?thesis unfolding eq
      by (rule level_prefix_consumes [OF p(1)]) (use p in \<open>auto simp: consumes_return\<close>)
  next
    case 2
    then have p: "level_parts vlcnum v sign = (14, 4, 2 * (v - 8) + sign)" using n0 by (simp add: level_parts_def)
    have q: "?q (int 14) = (\<lambda>s. do { (x, t) \<leftarrow> BitstreamReadBits s (int 4); Some (14 + uint x, t) })" by simp
    have "consumes dec_inv dec_bits (?q (int 14)) (nat_bits 4 (2 * (v - 8) + sign)) (int (lcode v sign))"
      unfolding q by (rule suffix_consumes) (use 2 v in \<open>auto simp: lcode_def\<close>)
    then show ?thesis unfolding eq by (intro level_prefix_consumes [OF p]) simp_all
  next
    case 3
    then have p: "level_parts vlcnum v sign = (15, 12, 2 * (v - 16) + sign)" using n0 by (simp add: level_parts_def)
    have q: "?q (int 15) = (\<lambda>s. do { (x, t) \<leftarrow> BitstreamReadBits s (int 12); Some (30 + uint x, t) })" by simp
    have "consumes dec_inv dec_bits (?q (int 15)) (nat_bits 12 (2 * (v - 16) + sign)) (int (lcode v sign))"
      unfolding q by (rule suffix_consumes) (use 3 v in \<open>auto simp: lcode_def\<close>)
    then show ?thesis unfolding eq by (intro level_prefix_consumes [OF p]) simp_all
  qed
next
  case False
  then have n1: "vlcnum = 1" using n by simp
  obtain k m suf where p: "level_parts vlcnum v sign = (k, m, suf)" by (metis prod_cases3)
  note b = level_parts_bounds [OF v _ _ p, unfolded n1, simplified]
  have eq: "(\<lambda>s. first_levelCode s c t) = (\<lambda>s. Option.bind (ce_LevelPrefix s) (\<lambda>(p, s1).
      do { (suffix, s2) \<leftarrow> BitstreamReadBits s1 (if p < 15 then 1 else 12); Some (2 * p + uint suffix, s2) }))"
    using False by (simp add: first_levelCode_def fun_eq_iff)
  have m: "(if int k < 15 then 1 else 12) = int m" using b(5) by simp
  show ?thesis unfolding eq
  proof (rule level_prefix_consumes [OF p b(1)])
    show "consumes dec_inv dec_bits (\<lambda>s. do { (suffix, s2) \<leftarrow> BitstreamReadBits s (if int k < 15 then 1 else 12);
        Some (2 * int k + uint suffix, s2) }) (nat_bits m suf) (int (lcode v sign))"
      unfolding m by (rule suffix_consumes) (use b in auto)
  qed
qed


section \<open>The levels of a block\<close>

text \<open>The tables follow each other: \<open>incVlc\<close> of the encoder is the threshold of the decoder.\<close>

lemma incVlc_eq:
  assumes "1 \<le> vlcnum" "vlcnum \<le> 6"
  shows "nth_opt incVlc (int vlcnum) = Some (if vlcnum = 6 then 32768 else push_bit (vlcnum - 1) 3)"
proof -
  have "vlcnum \<in> set [1, 2, 3, 4, 5, 6]" using assms by auto
  then show ?thesis by (auto simp: incVlc_def push_bit_eq_mult)
qed

definition level_ok :: "int \<Rightarrow> bool" where
  "level_ok v \<longleftrightarrow> v \<noteq> 0 \<and> \<bar>v\<bar> \<le> 2063"

definition sign_of :: "int \<Rightarrow> nat" where
  "sign_of v = of_bool (v < 0)"

lemma signed_level_back:
  assumes "v \<noteq> 0" "2 * (\<bar>v\<bar> - 1) + int (sign_of v) = c"
  shows "signed_level c \<bar>v\<bar> = v" "signed_level (c + 2) \<bar>v\<bar> = v" "c div 2 = \<bar>v\<bar> - 1" "odd c \<longleftrightarrow> v < 0"
proof -
  show o: "odd c \<longleftrightarrow> v < 0" using assms(2) by (auto simp: sign_of_def)
  show "c div 2 = \<bar>v\<bar> - 1" using assms(2) by (auto simp: sign_of_def split: if_splits)
  show "signed_level c \<bar>v\<bar> = v" "signed_level (c + 2) \<bar>v\<bar> = v" using o by (auto simp: signed_level_def)
qed

lemma put_levels_step:
  assumes "lv ! i = v" "v \<noteq> 0" "(if two then \<bar>v\<bar> - 1 else \<bar>v\<bar>) = int m" "1 \<le> m" "nth_opt incVlc (int vlcnum) = Some inc"
  shows "put_levels malloc lv (Suc i) first two vlcnum st s =
    do { (st1, s1) \<leftarrow> put_level malloc s vlcnum (int m) (int (sign_of v));
         put_levels malloc lv i False False
           (if first \<and> \<bar>v\<bar> > 3 then 2 else if \<bar>v\<bar> > inc then vlcnum + 1 else vlcnum) st1 s1 }"
proof -
  have a: "(if v \<ge> 0 then v else - v) = \<bar>v\<bar>" by simp
  let ?v1 = "if two then if v > 0 then v - 1 else v + 1 else v"
  have "(if ?v1 \<ge> 0 then (0, ?v1) else (1, - ?v1)) = (int (sign_of v), int m)"
    using assms(2-4) by (auto simp: sign_of_def)
  then show ?thesis unfolding put_levels.simps assms(1) Let_def assms(5) a by simp
qed

lemma put_levels_none: "enc_emits (put_levels malloc lv 0 fst_round two vlcnum AVCENC_SUCCESS) []"
  by (simp add: emits_def)

lemma next_levels_coded:
  assumes "\<And>i. i < n \<Longrightarrow> level_ok (lv ! i)" "1 \<le> vlcnum" "vlcnum \<le> 6"
  shows "\<exists>bs. enc_emits (put_levels malloc lv n False False vlcnum AVCENC_SUCCESS) bs
    \<and> consumes dec_inv dec_bits (next_levels n vlcnum) bs (map (\<lambda>i. lv ! i) (rev [0..<n]))"
  using assms
proof (induction n arbitrary: vlcnum)
  case 0
  then show ?case by (intro exI [of _ "[]"]) (simp add: emits_return consumes_return)
next
  case (Suc n)
  let ?v = "lv ! n"
  define m where "m = nat \<bar>?v\<bar>"
  have v: "?v \<noteq> 0" "\<bar>?v\<bar> = int m" "1 \<le> m" "m \<le> 2063" using Suc.prems(1) [of n] by (auto simp: m_def level_ok_def)
  have sign: "sign_of ?v \<le> 1" by (simp add: sign_of_def)
  define next_num where "next_num = (if int m > push_bit (vlcnum - 1) 3 \<and> vlcnum < 6 then vlcnum + 1 else vlcnum)"
  have next_num: "1 \<le> next_num" "next_num \<le> 6" using Suc.prems(2,3) by (auto simp: next_num_def)
  obtain bs where bs: "enc_emits (put_levels malloc lv n False False next_num AVCENC_SUCCESS) bs"
      "consumes dec_inv dec_bits (next_levels n next_num) bs (map (\<lambda>i. lv ! i) (rev [0..<n]))"
    using Suc.IH [OF _ next_num] Suc.prems(1) by auto
  obtain inc where inc: "nth_opt incVlc (int vlcnum) = Some inc"
      "(if \<bar>?v\<bar> > inc then vlcnum + 1 else vlcnum) = next_num"
    using incVlc_eq [OF Suc.prems(2,3)] v Suc.prems(3) by (cases "vlcnum = 6") (auto simp: next_num_def)
  have "put_levels malloc lv (Suc n) False False vlcnum AVCENC_SUCCESS s =
      Option.bind (put_level malloc s vlcnum (int m) (int (sign_of ?v))) (\<lambda>(st, t). put_levels malloc lv n False False next_num st t)" for s
    by (subst put_levels_step [OF refl v(1) _ v(3) inc(1)]) (use v(2) inc(2) in \<open>simp_all del: put_levels.simps\<close>)
  then have enc: "put_levels malloc lv (Suc n) False False vlcnum AVCENC_SUCCESS = (\<lambda>s.
      Option.bind (put_level malloc s vlcnum (int m) (int (sign_of ?v))) (\<lambda>(st, t). put_levels malloc lv n False False next_num st t))"
    by (rule ext)
  have "enc_emits (put_levels malloc lv (Suc n) False False vlcnum AVCENC_SUCCESS) (level_bits vlcnum m (sign_of ?v) @ bs)"
    unfolding enc by (rule emits_seq [where q = "put_levels malloc lv n False False next_num", OF put_level_emits [OF v(3,4) sign Suc.prems(3)] bs(1)])
  moreover have "consumes dec_inv dec_bits (next_levels (Suc n) vlcnum) (level_bits vlcnum m (sign_of ?v) @ bs)
    (map (\<lambda>i. lv ! i) (rev [0..<Suc n]))"
  proof -
    obtain k l suf where p: "level_parts vlcnum m (sign_of ?v) = (k, l, suf)" by (metis prod_cases3)
    note b = level_parts_bounds [OF v(3,4) sign Suc.prems(2,3) p]
    define rest where "rest suffix = (\<lambda>s2. let levelCode = push_bit vlcnum (int k) + uint (suffix :: uint);
        magnitude = levelCode div 2 + 1
      in do { (rest, s3) \<leftarrow> next_levels n (if magnitude > push_bit (vlcnum - 1) 3 \<and> vlcnum < 6 then vlcnum + 1 else vlcnum) s2;
              Some (signed_level levelCode magnitude # rest, s3) })" for suffix
    have l: "(if int k < 15 then int vlcnum else 12) = int l" using b(5) by simp
    have "(2 :: nat) ^ l \<le> 2 ^ 12" using b(3) by (intro power_increasing) simp_all
    then have suf: "uint (of_nat suf :: uint) = int suf" using b(4) by (intro uint_of_nat_small) simp
    have code: "push_bit vlcnum (int k) + int suf = 2 * (\<bar>?v\<bar> - 1) + int (sign_of ?v)"
    proof -
      have "int (2 ^ vlcnum * k + suf) = int (lcode m (sign_of ?v))" by (simp only: b(6))
      then show ?thesis using v(2,3) by (simp add: push_bit_eq_mult lcode_def of_nat_diff mult.commute)
    qed
    have again: "signed_level (push_bit vlcnum (int k) + int suf) \<bar>?v\<bar> = ?v" "(push_bit vlcnum (int k) + int suf) div 2 + 1 = \<bar>?v\<bar>"
      using signed_level_back(1,3) [OF v(1) code [symmetric]] by simp_all
    have "rest (of_nat suf) = (\<lambda>s2. do { (rest, s3) \<leftarrow> next_levels n next_num s2; Some (?v # rest, s3) })"
      unfolding rest_def suf Let_def again(2) unfolding again(1) unfolding next_num_def v(2) by simp
    then have "consumes dec_inv dec_bits (rest (of_nat suf)) bs (map (\<lambda>i. lv ! i) (rev [0..<Suc n]))"
      using consumes_map [OF bs(2), where f = "\<lambda>r. ?v # r"] by simp
    from consumes_bind [where q = rest, OF reads_suffix [OF b(2) _ b(4)] this]
    have "consumes dec_inv dec_bits (\<lambda>s. Option.bind (BitstreamReadBits s (if int k < 15 then int vlcnum else 12)) (\<lambda>(v, t). rest v t))
        (nat_bits l suf @ bs) (map (\<lambda>i. lv ! i) (rev [0..<Suc n]))"
      unfolding l using b(3) by simp
    from level_prefix_consumes_more [where q = "\<lambda>prefix s1. Option.bind (BitstreamReadBits s1 (if prefix < 15 then int vlcnum else 12))
        (\<lambda>(suffix, s2). let levelCode = push_bit vlcnum prefix + uint suffix; magnitude = levelCode div 2 + 1
      in do { (rest, s3) \<leftarrow> next_levels n (if magnitude > push_bit (vlcnum - 1) 3 \<and> vlcnum < 6 then vlcnum + 1 else vlcnum) s2;
              Some (signed_level levelCode magnitude # rest, s3) })", OF p b(1) this [unfolded rest_def]]
    show ?thesis by (subst consumes_cong [OF next_levels.simps(2)])
  qed
  ultimately show ?case by blast
qed


lemma levels_coded:
  assumes lv: "\<And>i. i < n \<Longrightarrow> level_ok (lv ! i)" and n: "c = n + t" "t \<le> 3"
    and big: "t < 3 \<Longrightarrow> 0 < n \<Longrightarrow> 2 \<le> \<bar>lv ! (n - 1)\<bar>"
  shows "\<exists>bs. enc_emits (put_levels malloc lv n True (\<not> (int c > 3 \<and> int t = 3)) (if int c > 10 \<and> int t < 3 then 1 else 0) AVCENC_SUCCESS) bs
    \<and> consumes dec_inv dec_bits (\<lambda>s. read_levels s (int c) (int t)) bs (map (\<lambda>i. lv ! i) (rev [0..<n]))"
proof (cases n)
  case 0
  then show ?thesis using n by (intro exI [of _ "[]"]) (simp add: put_levels_none consumes_return read_levels_def)
next
  case (Suc i)
  let ?v = "lv ! i"
  define two where "two \<longleftrightarrow> t < 3"
  define num :: nat where "num = (if c < 11 \<or> int t = 3 then 0 else 1)"
  define m where "m = nat \<bar>?v\<bar> - (if two then 1 else 0)"
  have v: "?v \<noteq> 0" "\<bar>?v\<bar> \<le> 2063" using lv [of i] Suc by (auto simp: level_ok_def)
  have m: "(if two then \<bar>?v\<bar> - 1 else \<bar>?v\<bar>) = int m" "1 \<le> m" "m \<le> 2063"
    using v big Suc by (auto simp: m_def two_def of_nat_diff)
  have sign: "sign_of ?v \<le> 1" by (simp add: sign_of_def)
  have two: "(\<not> (int c > 3 \<and> int t = 3)) = two" using n Suc by (auto simp: two_def)
  have num: "(if int c > 10 \<and> int t < 3 then 1 else 0) = num" "num \<le> 6" "num = 0 \<or> num = 1" using n(2) by (auto simp: num_def)
  define vlc :: nat where "vlc = (if \<bar>?v\<bar> > 3 then 2 else 1)"
  have vlc: "1 \<le> vlc" "vlc \<le> 6" by (auto simp: vlc_def)
  obtain bs where bs: "enc_emits (put_levels malloc lv i False False vlc AVCENC_SUCCESS) bs"
      "consumes dec_inv dec_bits (next_levels i vlc) bs (map (\<lambda>i. lv ! i) (rev [0..<i]))"
    using next_levels_coded [OF _ vlc, of i lv] lv Suc by auto
  obtain inc where inc: "nth_opt incVlc (int num) = Some inc"
      "(if True \<and> \<bar>?v\<bar> > 3 then 2 else if \<bar>?v\<bar> > inc then num + 1 else num) = vlc"
    using num(3) v(1) by (auto simp: incVlc_def vlc_def)
  have "put_levels malloc lv (Suc i) True two num AVCENC_SUCCESS s =
      Option.bind (put_level malloc s num (int m) (int (sign_of ?v))) (\<lambda>(st, t). put_levels malloc lv i False False vlc st t)" for s
    by (subst put_levels_step [OF refl v(1) m(1,2) inc(1)]) (simp only: inc(2))
  then have enc: "put_levels malloc lv (Suc i) True two num AVCENC_SUCCESS = (\<lambda>s.
      Option.bind (put_level malloc s num (int m) (int (sign_of ?v))) (\<lambda>(st, t). put_levels malloc lv i False False vlc st t))"
    by (rule ext)
  have "enc_emits (put_levels malloc lv (Suc i) True two num AVCENC_SUCCESS) (level_bits num m (sign_of ?v) @ bs)"
    unfolding enc by (rule emits_seq [where q = "put_levels malloc lv i False False vlc", OF put_level_emits [OF m(2,3) sign num(2)] bs(1)])
  moreover have "consumes dec_inv dec_bits (\<lambda>s. read_levels s (int c) (int t)) (level_bits num m (sign_of ?v) @ bs)
    (map (\<lambda>i. lv ! i) (rev [0..<Suc i]))"
  proof -
    define rest where "rest code = (\<lambda>s1. let levelCode = (if int t < 3 then code + 2 else code); magnitude = (levelCode + 2) div 2
      in do { (rest, s2) \<leftarrow> next_levels (nat (int c - (int t + 1))) (if magnitude > 3 then 2 else 1) s1;
              Some (signed_level levelCode magnitude # rest, s2) })" for code
    define code where "code = (if int t < 3 then int (lcode m (sign_of ?v)) + 2 else int (lcode m (sign_of ?v)))"
    have code: "2 * (\<bar>?v\<bar> - 1) + int (sign_of ?v) = code" using m(1,2) by (auto simp: code_def two_def lcode_def of_nat_diff split: if_splits)
    have again: "(code + 2) div 2 = \<bar>?v\<bar>" "signed_level code \<bar>?v\<bar> = ?v" using signed_level_back(1,3) [OF v(1) code] by auto
    have "nat (int c - (int t + 1)) = i" using n Suc by simp
    then have "rest (int (lcode m (sign_of ?v))) = (\<lambda>s2. do { (rest, s3) \<leftarrow> next_levels i vlc s2; Some (?v # rest, s3) })"
      unfolding rest_def code_def [symmetric] Let_def again(1) unfolding again(2) vlc_def by simp
    then have "consumes dec_inv dec_bits (rest (int (lcode m (sign_of ?v)))) bs (map (\<lambda>i. lv ! i) (rev [0..<Suc i]))"
      using consumes_map [OF bs(2), where f = "\<lambda>r. ?v # r"] by simp
    moreover have "num = (if int c < 11 \<or> int t = 3 then 0 else 1)" by (simp add: num_def)
    ultimately have "consumes dec_inv dec_bits (\<lambda>s. Option.bind (first_levelCode s (int c) (int t)) (\<lambda>(v, t). rest v t))
        (level_bits num m (sign_of ?v) @ bs) (map (\<lambda>i. lv ! i) (rev [0..<Suc i]))"
      by (intro consumes_bind [where q = rest, OF first_levelCode_consumes [OF m(2,3) sign]])
    moreover have "read_levels s (int c) (int t) = Option.bind (first_levelCode s (int c) (int t)) (\<lambda>(v, t). rest v t)" for s
      using n Suc by (simp add: read_levels_def rest_def)
    ultimately show ?thesis by (subst consumes_cong) assumption
  qed
  ultimately show ?thesis unfolding two num(1) Suc by blast
qed


section \<open>Trailing ones\<close>

lemma scan_back_eq:
  assumes "n \<le> length lv" "n \<le> length rn"
  shows "scan_back lv rn n b (t, z) =
    (t + (if b then int (length (takeWhile (\<lambda>x. x = 1 \<or> x = - 1) (rev (take n lv)))) else 0), z + sum_list (take n rn))"
  using assms
proof (induction n arbitrary: b t z)
  case (Suc n)
  have "rev (take (Suc n) lv) = lv ! n # rev (take n lv)" "take (Suc n) rn = take n rn @ [rn ! n]"
    using Suc.prems by (simp_all add: take_Suc_conv_app_nth)
  then show ?case using Suc by (auto simp: Let_def)
qed simp

text \<open>The signs of the last levels, the last one first.\<close>

definition signs :: "int list \<Rightarrow> nat \<Rightarrow> nat \<Rightarrow> bool list" where
  "signs lv c t = map (\<lambda>j. lv ! (c - 1 - j) < 0) [0..<t]"

lemma sign_bit: "x = 1 \<or> x = - 1 \<Longrightarrow> drop_bit 31 (word_of_int x :: uint) = of_bool (x < 0)"
  by auto

lemma bits_word_snoc: "push_bit 1 (bits_word bs) OR of_bool b = (bits_word (bs @ [b]) :: uint)"
  by (cases b) (simp_all add: bits_word_def bits_val_append or_one_eq mult.commute)

lemma sign_flag_bits:
  assumes "\<And>j. j < t \<Longrightarrow> lv ! nat (i - int j) = 1 \<or> lv ! nat (i - int j) = - 1"
  shows "sign_flag lv i t (bits_word bs) = bits_word (bs @ map (\<lambda>j. lv ! nat (i - int j) < 0) [0..<t])"
  using assms
proof (induction t arbitrary: i bs)
  case (Suc t)
  have s: "nat (i - 1 - int j) = nat (i - int (Suc j))" for j by simp
  have ones: "lv ! nat (i - 1 - int j) = 1 \<or> lv ! nat (i - 1 - int j) = - 1" if "j < t" for j
    unfolding s using Suc.prems [of "Suc j"] that by blast
  have "drop_bit 31 (word_of_int (lv ! nat i) :: uint) = of_bool (lv ! nat i < 0)"
    using Suc.prems [of 0] by (intro sign_bit) simp
  then have "sign_flag lv i (Suc t) (bits_word bs) = sign_flag lv (i - 1) t (bits_word (bs @ [lv ! nat i < 0]))"
    by (simp only: sign_flag.simps bits_word_snoc)
  also have "\<dots> = bits_word ((bs @ [lv ! nat i < 0]) @ map (\<lambda>j. lv ! nat (i - 1 - int j) < 0) [0..<t])"
    by (rule Suc.IH [OF ones])
  also have "(bs @ [lv ! nat i < 0]) @ map (\<lambda>j. lv ! nat (i - 1 - int j) < 0) [0..<t]
      = bs @ map (\<lambda>j. lv ! nat (i - int j) < 0) [0..<Suc t]"
    unfolding s by (simp add: upt_conv_Cons map_Suc_upt [symmetric] del: upt_Suc of_nat_Suc)
  finally show ?case .
qed simp

lemma sign_flag_eq:
  assumes "t \<le> c" and ones: "\<And>j. j < t \<Longrightarrow> lv ! (c - 1 - j) = 1 \<or> lv ! (c - 1 - j) = - 1"
  shows "sign_flag lv (int c - 1) t 0 = bits_word (signs lv c t)"
proof -
  have i: "nat (int c - 1 - int j) = c - 1 - j" for j by simp
  have "sign_flag lv (int c - 1) t (bits_word []) = bits_word ([] @ signs lv c t)"
    unfolding signs_def by (subst sign_flag_bits) (use ones i in simp_all)
  then show ?thesis by (simp add: bits_word_def)
qed

text \<open>The decoder reads them back.\<close>

lemma sign_level_chk:
  "list_all (\<lambda>t. list_all (\<lambda>bs. list_all (\<lambda>i.
     sign_level (push_bit 1 (bits_word bs)) (int t) (int i) = (if bs ! i then - 1 else 1)) [0..<t]) (List.n_lists t [False, True]))
     [0, 1, 2, 3]"
  by code_simp

lemma sign_level_bits:
  assumes "t \<le> 3" "length bs = t" "i < t"
  shows "sign_level (push_bit 1 (bits_word bs)) (int t) (int i) = (if bs ! i then - 1 else 1)"
proof -
  have "t \<in> set [0, 1, 2, 3]" "bs \<in> set (List.n_lists t [False, True])" "i \<in> set [0..<t]"
    using assms by (auto simp: set_n_lists)
  then show ?thesis using sign_level_chk unfolding list_all_iff by blast
qed


lemma signs_coded:
  assumes "t \<le> 3" "t \<le> c" "0 < t" and ones: "\<And>j. j < t \<Longrightarrow> lv ! (c - 1 - j) = 1 \<or> lv ! (c - 1 - j) = - 1"
  shows "enc_emits (\<lambda>s. BitstreamWriteBits malloc s (int t) (sign_flag lv (int c - 1) t 0)) (signs lv c t)"
    "consumes dec_inv dec_bits (\<lambda>s. read_signs s (int t)) (signs lv c t) (map (\<lambda>j. lv ! (c - 1 - j)) [0..<t])"
proof -
  have len: "length (signs lv c t) = t" by (simp add: signs_def)
  show "enc_emits (\<lambda>s. BitstreamWriteBits malloc s (int t) (sign_flag lv (int c - 1) t 0)) (signs lv c t)"
    using enc.emits_wr_bits [OF len, of malloc] assms(1,3) by (simp add: sign_flag_eq [OF assms(2) ones])
  have "map (\<lambda>i. sign_level (push_bit 1 (bits_word (signs lv c t))) (int t) (int i)) [0..<t] = map (\<lambda>j. lv ! (c - 1 - j)) [0..<t]"
    using sign_level_bits [OF assms(1) len] ones by (fastforce simp: signs_def)
  then have "consumes dec_inv dec_bits (\<lambda>s. Option.bind (BitstreamReadBits s (int t))
      (\<lambda>(flag, s1). Some (map (\<lambda>i. sign_level (push_bit 1 flag) (int t) (int i)) [0..<nat (int t)], s1)))
      (signs lv c t) (map (\<lambda>j. lv ! (c - 1 - j)) [0..<t])"
    by (intro consumes_map [OF dec.consumes_rd [OF len]]) (use assms in simp_all)
  then show "consumes dec_inv dec_bits (\<lambda>s. read_signs s (int t)) (signs lv c t) (map (\<lambda>j. lv ! (c - 1 - j)) [0..<t])"
    using assms(3) by (simp add: read_signs_def)
qed

section \<open>Runs\<close>

lemma runs_coded:
  assumes "n < length rn" "\<And>i. i \<le> n \<Longrightarrow> 0 \<le> rn ! i" "sum_list (take (Suc n) rn) \<le> 15" "n = 0 \<or> sum_list (take (Suc n) rn) \<le> 14"
  shows "\<exists>bs. enc_emits (\<lambda>s. do { s1 \<leftarrow> put_runs malloc rn n (sum_list (take (Suc n) rn)) s; Some (AVCENC_SUCCESS, s1) }) bs
    \<and> consumes dec_inv dec_bits (\<lambda>s. read_runs n (sum_list (take (Suc n) rn)) s) bs
        (map (\<lambda>i. rn ! i) (rev [1..<Suc n]), rn ! 0)"
  using assms
proof (induction n)
  case 0
  then show ?case
    by (intro exI [of _ "[]"]) (auto simp: emits_return consumes_return take_Suc_conv_app_nth)
next
  case (Suc n)
  let ?z = "sum_list (take (Suc (Suc n)) rn)" and ?r = "rn ! Suc n"
  have z: "?z = sum_list (take (Suc n) rn) + ?r" using Suc.prems(1) by (simp add: take_Suc_conv_app_nth)
  have nn: "0 \<le> sum_list (take (Suc n) rn)"
    using Suc.prems(1,2) by (intro sum_list_nonneg) (auto simp: in_set_conv_nth)
  have r: "0 \<le> ?r" using Suc.prems(2) by simp
  have le: "sum_list (take (Suc n) rn) \<le> 14" using Suc.prems(4) z r by linarith
  have zr: "?z - ?r = sum_list (take (Suc n) rn)" using z by simp
  have "\<exists>bs. enc_emits (\<lambda>s. do { s1 \<leftarrow> put_runs malloc rn n (sum_list (take (Suc n) rn)) s; Some (AVCENC_SUCCESS, s1) }) bs
      \<and> consumes dec_inv dec_bits (\<lambda>s. read_runs n (sum_list (take (Suc n) rn)) s) bs (map (\<lambda>i. rn ! i) (rev [1..<Suc n]), rn ! 0)"
    by (rule Suc.IH) (use Suc.prems le in auto)
  then obtain bs where bs: "enc_emits (\<lambda>s. do { s1 \<leftarrow> put_runs malloc rn n (?z - ?r) s; Some (AVCENC_SUCCESS, s1) }) bs"
      "consumes dec_inv dec_bits (\<lambda>s. read_runs n (?z - ?r) s) bs (map (\<lambda>i. rn ! i) (rev [1..<Suc n]), rn ! 0)"
    unfolding zr by blast
  have rev: "map (\<lambda>i. rn ! i) (rev [1..<Suc (Suc n)]) = ?r # map (\<lambda>i. rn ! i) (rev [1..<Suc n])" by simp
  have tail: "consumes dec_inv dec_bits (\<lambda>s. do { ((rs, left'), s2) \<leftarrow> read_runs n (?z - ?r) s; Some ((?r # rs, left'), s2) }) bs
      (map (\<lambda>i. rn ! i) (rev [1..<Suc (Suc n)]), rn ! 0)"
    using consumes_map [OF bs(2), where f = "\<lambda>(rs, left'). (?r # rs, left')", unfolded case_prod_conv, OF refl]
    unfolding rev by (simp add: case_prod_unfold)
  show ?case
  proof (cases "?z > 0")
    case True
    have "?r \<le> 14" "?r \<le> ?z" "1 \<le> ?z" using Suc.prems(4) z nn True by auto
    from RunBefore_coded [OF this(3) r this(2,1), of malloc] obtain cs where
      cs: "enc_emits (\<lambda>s. enc_ce_RunBefore malloc s ?r ?z) cs" "consumes dec_inv dec_bits (\<lambda>s. ce_RunBefore s ?z) cs ?r"
      unfolding coded_def by blast
    have "enc_emits (\<lambda>s. Option.bind (enc_ce_RunBefore malloc s ?r ?z)
        (\<lambda>(e, t). do { s1 \<leftarrow> put_runs malloc rn n (?z - ?r) t; Some (AVCENC_SUCCESS, s1) })) (cs @ bs)"
      by (rule emits_seq [where q = "\<lambda>e t. do { s1 \<leftarrow> put_runs malloc rn n (?z - ?r) t; Some (AVCENC_SUCCESS, s1) }", OF cs(1) bs(1)])
    then have "enc_emits (\<lambda>s. do { s1 \<leftarrow> put_runs malloc rn (Suc n) ?z s; Some (AVCENC_SUCCESS, s1) }) (cs @ bs)"
      using True by (simp add: case_prod_unfold)
    moreover have "consumes dec_inv dec_bits (\<lambda>s. Option.bind (ce_RunBefore s ?z) (\<lambda>(r, s1).
        do { ((rs, left'), s2) \<leftarrow> read_runs n (?z - r) s1; Some ((r # rs, left'), s2) })) (cs @ bs)
      (map (\<lambda>i. rn ! i) (rev [1..<Suc (Suc n)]), rn ! 0)"
      by (rule consumes_bind [where q = "\<lambda>r s1. do { ((rs, left'), s2) \<leftarrow> read_runs n (?z - r) s1; Some ((r # rs, left'), s2) }", OF cs(2) tail])
    then have "consumes dec_inv dec_bits (\<lambda>s. read_runs (Suc n) ?z s) (cs @ bs) (map (\<lambda>i. rn ! i) (rev [1..<Suc (Suc n)]), rn ! 0)"
      using True by (simp add: case_prod_unfold)
    ultimately show ?thesis by blast
  next
    case False
    then have zero: "?z = 0" "?r = 0" using z r nn by auto
    have "enc_emits (\<lambda>s. do { s1 \<leftarrow> put_runs malloc rn (Suc n) ?z s; Some (AVCENC_SUCCESS, s1) }) bs"
      using bs(1) zero by simp
    moreover have "consumes dec_inv dec_bits (\<lambda>s. read_runs (Suc n) ?z s) bs (map (\<lambda>i. rn ! i) (rev [1..<Suc (Suc n)]), rn ! 0)"
      using tail zero by simp
    ultimately show ?thesis by blast
  qed
qed


section \<open>The block\<close>

text \<open>What the transform leaves for a block of at most \<open>mx\<close> coefficients, \<open>c\<close> of them not zero.\<close>

definition coeffs_ok :: "int \<Rightarrow> int list \<Rightarrow> int list \<Rightarrow> nat \<Rightarrow> bool" where
  "coeffs_ok mx lv rn c \<longleftrightarrow> c \<le> length lv \<and> c \<le> length rn \<and> int c + sum_list (take c rn) \<le> mx
     \<and> list_all level_ok (take c lv) \<and> list_all (\<lambda>r. 0 \<le> r) (take c rn)"

definition trailing_of :: "int list \<Rightarrow> nat \<Rightarrow> nat" where
  "trailing_of lv c = min 3 (length (takeWhile (\<lambda>x. x = 1 \<or> x = - 1) (rev (take c lv))))"

lemma trailing_facts:
  assumes "c \<le> length lv" and t: "t = trailing_of lv c"
  shows "t \<le> 3" "t \<le> c" "\<And>j. j < t \<Longrightarrow> lv ! (c - 1 - j) = 1 \<or> lv ! (c - 1 - j) = - 1"
    "t < 3 \<Longrightarrow> t < c \<Longrightarrow> \<not> (lv ! (c - t - 1) = 1 \<or> lv ! (c - t - 1) = - 1)"
proof -
  let ?P = "\<lambda>x. x = 1 \<or> x = - (1 :: int)" and ?R = "rev (take c lv)"
  have len: "length ?R = c" using assms(1) by simp
  have nth: "?R ! j = lv ! (c - 1 - j)" if "j < c" for j using that assms(1) by (simp add: rev_nth)
  show "t \<le> 3" by (simp add: t trailing_of_def)
  show tc: "t \<le> c" using length_takeWhile_le [of ?P ?R] len by (auto simp: t trailing_of_def min_le_iff_disj)
  show "lv ! (c - 1 - j) = 1 \<or> lv ! (c - 1 - j) = - 1" if "j < t" for j
  proof -
    have j: "j < length (takeWhile ?P ?R)" using that by (simp add: t trailing_of_def)
    then have "?P (takeWhile ?P ?R ! j)" using nth_mem set_takeWhileD by fastforce
    then show ?thesis using nth [of j] takeWhile_nth [OF j] that tc by simp
  qed
  show "\<not> (lv ! (c - t - 1) = 1 \<or> lv ! (c - t - 1) = - 1)" if "t < 3" "t < c"
  proof -
    have "t = length (takeWhile ?P ?R)" using that(1) by (simp add: t trailing_of_def min_def split: if_splits)
    then have "\<not> ?P (?R ! t)" using nth_length_takeWhile [of ?P ?R] that(2) len by simp
    then show ?thesis using nth [OF that(2)] by (simp add: diff_commute)
  qed
qed


definition block_kind :: "bool \<Rightarrow> int \<Rightarrow> int \<Rightarrow> bool" where
  "block_kind cdc nC mx \<longleftrightarrow> (if cdc then nC < 0 \<and> mx = 4 else 0 \<le> nC \<and> (mx = 15 \<or> mx = 16))"

lemma trailing_code:
  assumes "block_kind cdc nC mx" "t \<le> 3" "t \<le> c" "int c \<le> mx"
  shows "\<exists>bs. enc_emits (\<lambda>s. if \<not> cdc then enc_ce_TotalCoeffTrailingOnes malloc s (int t) (int c) nC
        else enc_ce_TotalCoeffTrailingOnesChromaDC malloc s (int t) (int c)) bs
    \<and> consumes dec_inv dec_bits (\<lambda>s. if nC \<ge> 0 then ce_TotalCoeffTrailingOnes s nC else ce_TotalCoeffTrailingOnesChromaDC s) bs (int t, int c)"
  using TotalCoeffTrailingOnes_coded [of "int t" "int c" malloc nC] TotalCoeffTrailingOnesChromaDC_coded [of "int t" "int c" malloc] assms
  by (cases cdc) (auto simp: block_kind_def coded_def)

lemma zeros_code:
  assumes "block_kind cdc nC mx" "0 < c" "int c < mx" "0 \<le> z" "int c + z \<le> mx"
  shows "\<exists>bs. enc_emits (\<lambda>s. if \<not> cdc then enc_ce_TotalZeros malloc s z (int c) else enc_ce_TotalZerosChromaDC malloc s z (int c)) bs
    \<and> consumes dec_inv dec_bits (\<lambda>s. if nC \<ge> 0 then ce_TotalZeros s (int c) else ce_TotalZerosChromaDC s (int c)) bs z"
  using TotalZeros_coded [of "int c" z malloc] TotalZerosChromaDC_coded [of "int c" z malloc] assms
  by (cases cdc) (auto simp: block_kind_def coded_def)

lemma put_coeffs_eq:
  assumes "c \<le> length lv" "c \<le> length rn" and t: "t = trailing_of lv c"
  shows "put_coeffs malloc cdc nC lv rn (int c) mx = (\<lambda>s.
    do { (st, s1) \<leftarrow> (if \<not> cdc then enc_ce_TotalCoeffTrailingOnes malloc s (int t) (int c) nC
                      else enc_ce_TotalCoeffTrailingOnesChromaDC malloc s (int t) (int c));
         if c > 0 then
           do { (st2, s2) \<leftarrow> (if t \<noteq> 0 then BitstreamWriteBits malloc s1 (int t) (sign_flag lv (int c - 1) t 0) else Some (st, s1));
                (st3, s3) \<leftarrow> put_levels malloc lv (c - t) True (\<not> (int c > 3 \<and> int t = 3))
                              (if int c > 10 \<and> int t < 3 then 1 else 0) st2 s2;
                if st3 \<noteq> AVCENC_SUCCESS then Some (st3, s3)
                else do { (st4, s4) \<leftarrow> (if int c < mx then
                                          if \<not> cdc then enc_ce_TotalZeros malloc s3 (sum_list (take c rn)) (int c)
                                          else enc_ce_TotalZerosChromaDC malloc s3 (sum_list (take c rn)) (int c)
                                        else Some (st3, s3));
                          s5 \<leftarrow> put_runs malloc rn (c - 1) (if int c < mx then sum_list (take c rn) else 0) s4;
                          Some (st3, s5) } }
         else Some (st, s1) })"
proof -
  let ?ones = "int (length (takeWhile (\<lambda>x. x = 1 \<or> x = - 1) (rev (take c lv))))"
  have sc: "scan_back lv rn (nat (int c)) True (0, 0) = (?ones, sum_list (take c rn))"
    using scan_back_eq [of c lv rn True 0 0] assms by simp
  have t3: "(if ?ones > 3 then 3 else ?ones) = int t" by (simp add: t trailing_of_def min_def)
  have n: "nat (int c - int t) = c - t" "nat (int c - 1) = c - 1" "nat (int t) = t" by auto
  show ?thesis
    unfolding put_coeffs_def sc Let_def prod.case t3 n by (intro ext) (simp cong: if_cong)
qed


lemma consumes_opt:
  "(b \<Longrightarrow> consumes valid bits p bs x) \<Longrightarrow> (\<not> b \<Longrightarrow> x = y \<and> bs = []) \<Longrightarrow>
     consumes valid bits (\<lambda>s. if b then p s else Some (y, s)) bs x"
  by (cases b) (auto simp: consumes_return)

lemma emits_opt:
  "(b \<Longrightarrow> emits valid bits room p ok bs) \<Longrightarrow> (\<not> b \<Longrightarrow> bs = []) \<Longrightarrow>
     emits valid bits room (\<lambda>s. if b then p s else Some (ok, s)) ok bs"
  by (cases b) (auto simp: emits_return)

text \<open>The parts of a block that is not empty, each with its bits.\<close>

lemma rev_take_split:
  assumes "t \<le> c" "c \<le> length lv"
  shows "map (\<lambda>j. lv ! (c - 1 - j)) [0..<t] @ map (\<lambda>i. lv ! i) (rev [0..<c - t]) = rev (take c lv)"
proof (rule nth_equalityI)
  fix i assume "i < length (map (\<lambda>j. lv ! (c - 1 - j)) [0..<t] @ map (\<lambda>i. lv ! i) (rev [0..<c - t]))"
  then have i: "i < c" using assms by simp
  show "(map (\<lambda>j. lv ! (c - 1 - j)) [0..<t] @ map (\<lambda>i. lv ! i) (rev [0..<c - t])) ! i = rev (take c lv) ! i"
    using i assms by (cases "i < t") (simp_all add: nth_append rev_nth rev_map)
qed (use assms in simp)

lemma rev_take_runs:
  assumes "0 < c" "c \<le> length rn"
  shows "map (\<lambda>i. rn ! i) (rev [1..<Suc (c - 1)]) @ [rn ! 0] = rev (take c rn)"
proof -
  have "map (\<lambda>i. rn ! i) [0..<c] = take c rn" using assms(2) by (intro nth_equalityI) simp_all
  moreover have "[0..<c] = 0 # [1..<Suc (c - 1)]" using assms(1) by (simp add: upt_conv_Cons)
  ultimately show ?thesis by (metis list.simps(9) rev.simps(2) rev_map)
qed

lemma block_coded:
  assumes ok: "coeffs_ok mx lv rn c" and kind: "block_kind cdc nC mx"
  shows "\<exists>bs. coded (put_coeffs malloc cdc nC lv rn (int c) mx)
    (\<lambda>s. residual_block_cavlc s nC mx) (rev (take c lv), rev (take c rn), int c) bs"
proof -
  have len: "c \<le> length lv" "c \<le> length rn" using ok by (simp_all add: coeffs_ok_def)
  have nonneg: "0 \<le> rn ! i" if "i < c" for i using ok that len by (auto simp: coeffs_ok_def list_all_length)
  have lok: "level_ok (lv ! i)" if "i < c" for i using ok that len by (auto simp: coeffs_ok_def list_all_length)
  define z where "z = sum_list (take c rn)"
  have z: "0 \<le> z" "int c + z \<le> mx"
    using ok len by (auto simp: z_def coeffs_ok_def list_all_iff intro!: sum_list_nonneg)
  have mx: "mx \<le> 16" using kind by (auto simp: block_kind_def split: if_splits)
  define t where "t = trailing_of lv c"
  note t = trailing_facts [OF len(1) t_def]
  obtain b1 where b1: "enc_emits (\<lambda>s. if \<not> cdc then enc_ce_TotalCoeffTrailingOnes malloc s (int t) (int c) nC
        else enc_ce_TotalCoeffTrailingOnesChromaDC malloc s (int t) (int c)) b1"
      "consumes dec_inv dec_bits (\<lambda>s. if nC \<ge> 0 then ce_TotalCoeffTrailingOnes s nC else ce_TotalCoeffTrailingOnesChromaDC s) b1 (int t, int c)"
    using trailing_code [OF kind t(1,2)] z by auto
  note eq = put_coeffs_eq [OF len t_def, of malloc cdc nC mx, folded z_def]
  show ?thesis
  proof (cases "c = 0")
    case True
    have "enc_emits (put_coeffs malloc cdc nC lv rn (int c) mx) (b1 @ [])"
      unfolding eq by (rule emits_seq [OF b1(1)]) (simp add: True emits_return)
    moreover have "consumes dec_inv dec_bits (\<lambda>s. residual_block_cavlc s nC mx) (b1 @ []) ([], [], int c)"
      unfolding residual_block_cavlc_def case_prod_unfold
      by (rule consumes_bind [unfolded case_prod_unfold, OF b1(2)]) (simp add: True consumes_return)
    ultimately show ?thesis using True unfolding coded_def by auto
  next
    case False
    define b2 where "b2 = (if t \<noteq> 0 then signs lv c t else [])"
    have e2: "enc_emits (\<lambda>s. if t \<noteq> 0 then BitstreamWriteBits malloc s (int t) (sign_flag lv (int c - 1) t 0) else Some (AVCENC_SUCCESS, s)) b2"
      by (rule emits_opt) (use signs_coded(1) [OF t(1,2) _ t(3)] in \<open>auto simp: b2_def\<close>)
    have d2: "consumes dec_inv dec_bits (\<lambda>s. read_signs s (int t)) b2 (map (\<lambda>j. lv ! (c - 1 - j)) [0..<t])"
      using signs_coded(2) [OF t(1,2) _ t(3)] by (cases "t = 0") (auto simp: b2_def read_signs_def consumes_return)
    have lv: "level_ok (lv ! i)" if "i < c - t" for i using lok that by simp
    have big: "2 \<le> \<bar>lv ! (c - t - 1)\<bar>" if "t < 3" "0 < c - t"
    proof -
      have "lv ! (c - t - 1) \<noteq> 0" using lv [of "c - t - 1"] that by (simp add: level_ok_def)
      then show ?thesis using t(4) [OF that(1)] that(2) by linarith
    qed
    have ct: "c = c - t + t" using t(2) by simp
    obtain b3 where b3: "enc_emits (put_levels malloc lv (c - t) True (\<not> (int c > 3 \<and> int t = 3))
          (if int c > 10 \<and> int t < 3 then 1 else 0) AVCENC_SUCCESS) b3"
        "consumes dec_inv dec_bits (\<lambda>s. read_levels s (int c) (int t)) b3 (map (\<lambda>i. lv ! i) (rev [0..<c - t]))"
      using levels_coded [OF lv ct t(1) big] by blast
    define z' where "z' = (if int c < mx then z else 0)"
    have z': "z' = z" using z by (auto simp: z'_def)
    obtain b4 where b4: "enc_emits (\<lambda>s. if int c < mx then if \<not> cdc then enc_ce_TotalZeros malloc s z (int c)
          else enc_ce_TotalZerosChromaDC malloc s z (int c) else Some (AVCENC_SUCCESS, s)) b4"
        "consumes dec_inv dec_bits (\<lambda>s. read_zeros s nC mx (int c)) b4 z"
    proof (cases "int c < mx")
      case True
      then obtain bs where "enc_emits (\<lambda>s. if \<not> cdc then enc_ce_TotalZeros malloc s z (int c) else enc_ce_TotalZerosChromaDC malloc s z (int c)) bs"
          "consumes dec_inv dec_bits (\<lambda>s. if nC \<ge> 0 then ce_TotalZeros s (int c) else ce_TotalZerosChromaDC s (int c)) bs z"
        using zeros_code [OF kind _ True z] False by auto
      then show ?thesis using True by (intro that [of bs]) (simp_all add: read_zeros_def)
    next
      case full: False
      then have "z = 0" using z by simp
      then show ?thesis using full by (intro that [of "[]"]) (simp_all add: read_zeros_def emits_return consumes_return)
    qed
    have c: "take (Suc (c - 1)) rn = take c rn" "c - 1 < length rn" using False len by auto
    obtain b5 where b5: "enc_emits (\<lambda>s. do { s1 \<leftarrow> put_runs malloc rn (c - 1) z s; Some (AVCENC_SUCCESS, s1) }) b5"
        "consumes dec_inv dec_bits (\<lambda>s. read_runs (c - 1) z s) b5 (map (\<lambda>i. rn ! i) (rev [1..<Suc (c - 1)]), rn ! 0)"
    proof -
      have "0 \<le> rn ! i" if "i \<le> c - 1" for i using nonneg that False by simp
      moreover have "z \<le> 15" "c - 1 = 0 \<or> z \<le> 14" using z mx False by linarith+
      ultimately show ?thesis
        using runs_coded [of "c - 1" rn malloc, unfolded c(1), folded z_def, OF c(2)] that by blast
    qed
    have "enc_emits (put_coeffs malloc cdc nC lv rn (int c) mx) (b1 @ b2 @ b3 @ b4 @ b5)"
      unfolding eq
    proof (rule emits_seq [OF b1(1)])
      have tail: "enc_emits (\<lambda>s3. do { (st4, s4) \<leftarrow> (if int c < mx then if \<not> cdc then enc_ce_TotalZeros malloc s3 z (int c)
              else enc_ce_TotalZerosChromaDC malloc s3 z (int c) else Some (AVCENC_SUCCESS, s3));
            s5 \<leftarrow> put_runs malloc rn (c - 1) z s4; Some (AVCENC_SUCCESS, s5) }) (b4 @ b5)"
        by (rule emits_seq [OF b4(1)]) (rule b5(1))
      show "enc_emits (\<lambda>s1. if c > 0 then
           do { (st2, s2) \<leftarrow> (if t \<noteq> 0 then BitstreamWriteBits malloc s1 (int t) (sign_flag lv (int c - 1) t 0) else Some (AVCENC_SUCCESS, s1));
                (st3, s3) \<leftarrow> put_levels malloc lv (c - t) True (\<not> (int c > 3 \<and> int t = 3))
                              (if int c > 10 \<and> int t < 3 then 1 else 0) st2 s2;
                if st3 \<noteq> AVCENC_SUCCESS then Some (st3, s3)
                else do { (st4, s4) \<leftarrow> (if int c < mx then if \<not> cdc then enc_ce_TotalZeros malloc s3 z (int c)
                                          else enc_ce_TotalZerosChromaDC malloc s3 z (int c)
                                        else Some (st3, s3));
                          s5 \<leftarrow> put_runs malloc rn (c - 1) (if int c < mx then z else 0) s4;
                          Some (st3, s5) } }
         else Some (AVCENC_SUCCESS, s1)) (b2 @ b3 @ b4 @ b5)"
        unfolding z'_def [symmetric] z' if_P [OF False [unfolded neq0_conv]]
      proof (rule emits_seq [OF e2])
        show "enc_emits (\<lambda>s2. do { (st3, s3) \<leftarrow> put_levels malloc lv (c - t) True (\<not> (int c > 3 \<and> int t = 3))
                              (if int c > 10 \<and> int t < 3 then 1 else 0) AVCENC_SUCCESS s2;
                if st3 \<noteq> AVCENC_SUCCESS then Some (st3, s3)
                else do { (st4, s4) \<leftarrow> (if int c < mx then if \<not> cdc then enc_ce_TotalZeros malloc s3 z (int c)
                                          else enc_ce_TotalZerosChromaDC malloc s3 z (int c)
                                        else Some (st3, s3));
                          s5 \<leftarrow> put_runs malloc rn (c - 1) z s4;
                          Some (st3, s5) } }) (b3 @ b4 @ b5)"
          by (rule emits_seq [OF b3(1)]) (use tail in simp)
      qed
    qed
    moreover have "consumes dec_inv dec_bits (\<lambda>s. residual_block_cavlc s nC mx) (b1 @ b2 @ b3 @ b4 @ b5)
      (rev (take c lv), rev (take c rn), int c)"
      unfolding residual_block_cavlc_def
    proof (rule consumes_bind [OF b1(2)])
      have nz: "int c \<noteq> 0" "nat (int c - 1) = c - 1" using False by auto
      have runs: "consumes dec_inv dec_bits (\<lambda>s4. do { ((runs, left), s5) \<leftarrow> read_runs (c - 1) z s4;
            Some ((rev (take c lv), runs @ [if left < 0 then 0 else left], int c), s5) }) b5 (rev (take c lv), rev (take c rn), int c)"
        using consumes_map [OF b5(2), where f = "\<lambda>(runs, left). (rev (take c lv), runs @ [if left < 0 then 0 else left], int c)"]
          rev_take_runs [OF _ len(2)] nonneg [of 0] False by (simp add: case_prod_unfold)
      have "consumes dec_inv dec_bits (\<lambda>s1. do { (ones, s2) \<leftarrow> read_signs s1 (int t);
              (levels, s3) \<leftarrow> read_levels s2 (int c) (int t);
              (zerosLeft, s4) \<leftarrow> read_zeros s3 nC mx (int c);
              ((runs, left), s5) \<leftarrow> read_runs (c - 1) zerosLeft s4;
              Some ((ones @ levels, runs @ [if left < 0 then 0 else left], int c), s5) }) (b2 @ b3 @ b4 @ b5)
          (rev (take c lv), rev (take c rn), int c)"
        by (rule consumes_bind [OF d2], rule consumes_bind [OF b3(2)], rule consumes_bind [OF b4(2)])
          (use runs rev_take_split [OF t(2) len(1)] in simp)
      then show "consumes dec_inv dec_bits (case (int t, int c) of (TrailingOnes, TotalCoeff) \<Rightarrow> \<lambda>s1.
          if TotalCoeff = 0 then Some (([], [], 0), s1)
          else do { (ones, s2) \<leftarrow> read_signs s1 TrailingOnes;
                    (levels, s3) \<leftarrow> read_levels s2 TotalCoeff TrailingOnes;
                    (zerosLeft, s4) \<leftarrow> read_zeros s3 nC mx TotalCoeff;
                    ((runs, left), s5) \<leftarrow> read_runs (nat (TotalCoeff - 1)) zerosLeft s4;
                    Some ((ones @ levels, runs @ [if left < 0 then 0 else left], TotalCoeff), s5) }) (b2 @ b3 @ b4 @ b5)
          (rev (take c lv), rev (take c rn), int c)"
        using nz by simp
    qed
    ultimately show ?thesis unfolding coded_def by blast
  qed
qed

end
