(* ===== verification/TransformRoundtrip.thy ===== *)
theory TransformRoundtrip
  imports EncTransform DecTransform ResidualRoundtrip
begin

text \<open>
  A block that the encoder has quantised and the decoder has placed has the same coefficients, and both add it to the
  prediction in the same way. The transform of a residue of pixels is bounded, so its levels are in the range of the
  entropy code.
\<close>

section \<open>Placing what was quantised\<close>

lemma place_snoc:
  assumes "place_coeffs put limit cn xs B = Some (AVCDEC_SUCCESS, B')"
    and "n = cn + (\<Sum>x\<leftarrow>xs. snd x + 1) + (r + 1)" "0 \<le> n" "n \<le> limit"
  shows "place_coeffs put limit cn (xs @ [(v, r)]) B = Some (AVCDEC_SUCCESS, put (nat n) v B')"
  using assms
proof (induction xs arbitrary: cn B)
  case (Cons x xs)
  obtain v' r' where x: "x = (v', r')" by (cases x)
  have "\<not> cn + (r' + 1) > limit" "\<not> cn + (r' + 1) < 0" using Cons.prems(1) by (auto simp: x Let_def split: if_splits)
  then show ?case using Cons.prems Cons.IH [of "cn + (r' + 1)"] by (simp add: x Let_def algebra_simps)
qed simp

definition scan_cell :: "nat \<Rightarrow> nat \<Rightarrow> nat" where
  "scan_cell p k = p + ZZ_SCAN_BLOCK ! k"

lemma scan_inj: "k < 16 \<Longrightarrow> k' < 16 \<Longrightarrow> scan_cell p k = scan_cell p k' \<longleftrightarrow> k = k'"
proof -
  have "distinct ZZ_SCAN_BLOCK" "length ZZ_SCAN_BLOCK = 16" by (simp_all add: ZZ_SCAN_BLOCK_def)
  then show "k < 16 \<Longrightarrow> k' < 16 \<Longrightarrow> scan_cell p k = scan_cell p k' \<longleftrightarrow> k = k'"
    by (simp add: scan_cell_def nth_eq_iff_index_eq)
qed

lemma scan_less: "k < 16 \<Longrightarrow> p + 52 \<le> n \<Longrightarrow> scan_cell p k < n"
proof -
  assume "k < 16" "p + 52 \<le> n"
  moreover have "list_all (\<lambda>k. ZZ_SCAN_BLOCK ! k < 52) [0..<16]" by code_simp
  then have "\<forall>k<16. ZZ_SCAN_BLOCK ! k < 52" by (simp add: list_all_iff atLeast0LessThan)
  ultimately show "scan_cell p k < n" unfolding scan_cell_def by (meson add_less_cancel_left less_le_trans)
qed

text \<open>The state after the first scan positions, and what the decoder makes of the entries so far.\<close>

definition quant_so_far :: "nat \<Rightarrow> nat \<Rightarrow> nat \<Rightarrow> nat \<Rightarrow> int list \<Rightarrow> int list \<Rightarrow> nat \<Rightarrow> quant_state \<Rightarrow> bool" where
  "quant_so_far Rq Qq p k0 B D0 k st \<longleftrightarrow>
     length (q_coef st) = length B \<and> length (q_run st) = length (q_level st)
   \<and> (\<forall>i. k \<le> i \<and> i < 16 \<longrightarrow> q_coef st ! scan_cell p i = B ! scan_cell p i)
   \<and> list_all (\<lambda>r. 0 \<le> r) (q_run st) \<and> int k0 + int (length (q_level st)) + sum_list (q_run st) + int (q_zeros st) = int k
   \<and> (\<exists>D. place_coeffs (put_scaled Rq Qq p) 15 (int k0 - 1) (zip (q_level st) (q_run st)) D0 = Some (AVCDEC_SUCCESS, D)
        \<and> length D = length D0
        \<and> (\<forall>i. k0 \<le> i \<and> i < k \<longrightarrow> D ! scan_cell p i = q_coef st ! scan_cell p i)
        \<and> (\<forall>c. c \<notin> scan_cell p ` {k0..<k} \<longrightarrow> D ! c = D0 ! c))"

lemma quant_so_farI:
  assumes "length (q_coef st) = length B" "length (q_run st) = length (q_level st)" "list_all (\<lambda>r. 0 \<le> r) (q_run st)"
    "int k0 + int (length (q_level st)) + sum_list (q_run st) + int (q_zeros st) = int k"
    "\<And>i. k \<le> i \<Longrightarrow> i < 16 \<Longrightarrow> q_coef st ! scan_cell p i = B ! scan_cell p i"
    "place_coeffs (put_scaled Rq Qq p) 15 (int k0 - 1) (zip (q_level st) (q_run st)) D0 = Some (AVCDEC_SUCCESS, D)"
    "length D = length D0" "\<And>i. k0 \<le> i \<Longrightarrow> i < k \<Longrightarrow> D ! scan_cell p i = q_coef st ! scan_cell p i"
    "\<And>c. c \<notin> scan_cell p ` {k0..<k} \<Longrightarrow> D ! c = D0 ! c"
  shows "quant_so_far Rq Qq p k0 B D0 k st"
  unfolding quant_so_far_def using assms by blast

lemma sum_zip: "length rn = length lv \<Longrightarrow> (\<Sum>x\<leftarrow>zip lv rn. snd x + 1) = int (length lv) + sum_list rn"
  by (induction lv rn rule: list_induct2') simp_all

lemma quant_step_so_far:
  assumes s: "quant_so_far Rq Qq p k0 B D0 k st" and k: "k0 \<le> k" "k < 16" and len: "p + 52 \<le> length B" "p + 52 \<le> length D0"
    and zero: "D0 ! scan_cell p k = 0"
  shows "quant_so_far Rq Qq p k0 B D0 (Suc k) (quant_step Rq Qq c p k st)"
proof -
  let ?c = "scan_cell p k" and ?z = "int (q_zeros st)"
  obtain D where D: "place_coeffs (put_scaled Rq Qq p) 15 (int k0 - 1) (zip (q_level st) (q_run st)) D0 = Some (AVCDEC_SUCCESS, D)"
      "length D = length D0" "\<And>i. k0 \<le> i \<Longrightarrow> i < k \<Longrightarrow> D ! scan_cell p i = q_coef st ! scan_cell p i"
      "\<And>c. c \<notin> scan_cell p ` {k0..<k} \<Longrightarrow> D ! c = D0 ! c"
    using s unfolding quant_so_far_def by blast
  have q: "length (q_coef st) = length B" "length (q_run st) = length (q_level st)" "list_all (\<lambda>r. 0 \<le> r) (q_run st)"
      "int k0 + int (length (q_level st)) + sum_list (q_run st) + ?z = int k"
      "\<And>i. k \<le> i \<Longrightarrow> i < 16 \<Longrightarrow> q_coef st ! scan_cell p i = B ! scan_cell p i"
    using s by (simp_all add: quant_so_far_def)
  have c: "?c < length B" "?c < length D0" using scan_less [OF k(2)] len by blast+
  have other: "scan_cell p i \<noteq> ?c" if "i < 16" "i \<noteq> k" for i using scan_inj that k(2) by blast
  have later: "(q_coef st)[?c := x] ! scan_cell p i = B ! scan_cell p i" if "Suc k \<le> i" "i < 16" for i x
    using other [of i] q(5) [of i] that by simp
  have cells: "scan_cell p ` {k0..<Suc k} = insert ?c (scan_cell p ` {k0..<k})" using k(1) by (simp add: atLeastLessThanSuc)
  define lev where "lev = quant_level (quant_coef ! Rq ! k) (15 + Qq) c (q_coef st ! ?c)"
  define v where "v = (if q_coef st ! ?c > 0 then lev else - lev)"
  define w where "w = c_int16 (push_bit Qq (v * dequant_coefres ! Rq ! k))"
  show ?thesis
  proof (cases "lev = 0")
    case True
    then have st: "quant_step Rq Qq c p k st = st\<lparr>q_zeros := q_zeros st + 1, q_coef := (q_coef st)[?c := 0]\<rparr>"
      by (simp add: quant_step_def lev_def scan_cell_def Let_def)
    have "D ! ?c = 0" using D(4) [of ?c] zero scan_inj k by fastforce
    then have "D ! scan_cell p i = (q_coef st)[?c := 0] ! scan_cell p i" if "k0 \<le> i" "i < Suc k" for i
      using D(3) [of i] that other [of i] c q(1) k(2) by (cases "i = k") auto
    then show ?thesis unfolding st
      by (intro quant_so_farI [where D = D]) (use q D(1,2,4) later c cells k in simp_all)
  next
    case False
    then have st: "quant_step Rq Qq c p k st = st\<lparr>q_cost := q_cost (quant_step Rq Qq c p k st), q_level := q_level st @ [v],
        q_coef := (q_coef st)[?c := w], q_run := q_run st @ [?z], q_zeros := 0\<rparr>"
      by (simp add: quant_step_def lev_def v_def w_def scan_cell_def Let_def)
    have n: "int k = int k0 - 1 + (\<Sum>x\<leftarrow>zip (q_level st) (q_run st). snd x + 1) + (?z + 1)"
      using q(2,4) by (simp add: sum_zip)
    have "place_coeffs (put_scaled Rq Qq p) 15 (int k0 - 1) (zip (q_level st @ [v]) (q_run st @ [?z])) D0
        = Some (AVCDEC_SUCCESS, D[?c := w])"
      using place_snoc [OF D(1) n, of v] k(2) q(2) by (simp add: put_scaled_def w_def scan_cell_def)
    moreover have "D[?c := w] ! scan_cell p i = (q_coef st)[?c := w] ! scan_cell p i" if "k0 \<le> i" "i < Suc k" for i
      using D(2) D(3) [of i] that other [of i] c q(1) k(2) by (cases "i = k") auto
    ultimately show ?thesis
      by (subst st, intro quant_so_farI [where D = "D[?c := w]"]) (use q D(2,4) later c cells k in simp_all)
  qed
qed

lemma quantise_so_far:
  assumes "k0 \<le> k" "k \<le> 16" "p + 52 \<le> length B" "p + 52 \<le> length D0" and z: "\<forall>i\<in>{k0..<16}. D0 ! scan_cell p i = 0"
  shows "quant_so_far Rq Qq p k0 B D0 k (fold (quant_step Rq Qq c p) [k0..<k]
    \<lparr>q_coef = B, q_level = [], q_run = [], q_zeros = 0, q_cost = cost\<rparr>)"
  using assms(1,2)
proof (induction k rule: dec_induct)
  case base
  show ?case by (rule quant_so_farI [where D = D0]) simp_all
next
  case (step n)
  have "quant_so_far Rq Qq p k0 B D0 n (fold (quant_step Rq Qq c p) [k0..<n]
      \<lparr>q_coef = B, q_level = [], q_run = [], q_zeros = 0, q_cost = cost\<rparr>)"
    by (rule step) (use step in simp_all)
  from quant_step_so_far [OF this _ _ assms(3,4)] step z show ?case by simp
qed

text \<open>The levels in the range of the entropy code.\<close>

definition scan_bound :: "nat \<Rightarrow> int" where
  "scan_bound k = [4080, 6120, 9180] ! (of_bool (odd (ZZ_SCAN_BLOCK ! k div 16)) + of_bool (odd (ZZ_SCAN_BLOCK ! k mod 16)))"

lemma quant_bound_chk:
  "list_all (\<lambda>Rq. list_all (\<lambda>k. 0 \<le> quant_coef ! Rq ! k \<and> scan_bound k * quant_coef ! Rq ! k \<le> 2062 * 32768) [0..<16]) [0..<6]"
  by code_simp

lemma int_div_less:
  assumes "(x :: int) < a * d" "0 < d"
  shows "x div d < a"
proof -
  have "x div d * d \<le> x" using div_mult_mod_eq [of x d] pos_mod_sign [OF assms(2), of x] by linarith
  then have "x div d * d < a * d" using assms(1) by linarith
  then show ?thesis using assms(2) by simp
qed

lemma quant_level_range:
  assumes "\<bar>data\<bar> \<le> b" "0 \<le> quant" "b * quant \<le> 2062 * 32768" "0 \<le> c" "c < 2 ^ (15 + Qq)"
  shows "0 \<le> quant_level quant (15 + Qq) c data" "quant_level quant (15 + Qq) c data \<le> 2062"
proof -
  have eq: "quant_level quant (15 + Qq) c data = (\<bar>data\<bar> * quant + c) div 2 ^ (15 + Qq)"
    by (simp add: quant_level_def drop_bit_eq_div)
  have "0 \<le> \<bar>data\<bar> * quant" using assms(2) by simp
  then show "0 \<le> quant_level quant (15 + Qq) c data" unfolding eq using assms(4) by (simp add: pos_imp_zdiv_nonneg_iff)
  have "\<bar>data\<bar> * quant \<le> b * quant" by (rule mult_right_mono) (use assms in simp_all)
  also have "\<dots> \<le> 2062 * 32768" by (rule assms(3))
  also have "\<dots> \<le> 2062 * 2 ^ (15 + Qq)" by (simp add: power_add)
  finally have "\<bar>data\<bar> * quant + c < 2063 * 2 ^ (15 + Qq)" using assms(5) by simp
  then have "(\<bar>data\<bar> * quant + c) div 2 ^ (15 + Qq) < 2063"
    by (rule int_div_less) simp
  then show "quant_level quant (15 + Qq) c data \<le> 2062" unfolding eq by simp
qed

section \<open>Lines of a block\<close>

definition sel :: "nat \<Rightarrow> int \<times> int \<times> int \<times> int \<Rightarrow> int" where
  "sel k v = (case v of (a, b, c, d) \<Rightarrow> [a, b, c, d] ! k)"

lemma less_four: "k < 4 \<longleftrightarrow> k = 0 \<or> k = 1 \<or> k = 2 \<or> k = (3 :: nat)"
  by auto

lemma put4_nth:
  assumes "p + 3 * s < length B" "0 < s" "k < 4"
  shows "put4 p s v B ! (p + k * s) = c_int16 (sel k v)"
  using assms unfolding less_four by (cases v) (auto simp: put4_def sel_def)

lemma put4_other:
  assumes "\<And>k. k < 4 \<Longrightarrow> c \<noteq> p + k * s"
  shows "put4 p s v B ! c = B ! c"
  using assms [of 0] assms [of 1] assms [of 2] assms [of 3] by (cases v) (simp add: put4_def)

lemma put4_length [simp]: "length (put4 p s v B) = length B"
  by (cases v) (simp add: put4_def)

lemma line4_length [simp]: "length (line4 f p s B) = length B"
  by (simp add: line4_def)

text \<open>Lines at \<open>q 0, q 1, \<dots>\<close> that do not share a cell.\<close>

lemma lines_nth:
  assumes "0 < s" "\<And>j. j < n \<Longrightarrow> q j + 3 * s < length B"
    and apart: "\<And>j j' k k'. j < n \<Longrightarrow> j' < n \<Longrightarrow> k < 4 \<Longrightarrow> k' < 4 \<Longrightarrow> q j + k * s = q j' + k' * s \<Longrightarrow> j = j'"
  shows "j < n \<Longrightarrow> k < 4 \<Longrightarrow> fold (\<lambda>j. line4 (f j) (q j) s) [0..<n] B ! (q j + k * s)
      = c_int16 (sel k (f j (B ! q j) (B ! (q j + s)) (B ! (q j + 2 * s)) (B ! (q j + 3 * s))))"
    and "(\<And>j k. j < n \<Longrightarrow> k < 4 \<Longrightarrow> c \<noteq> q j + k * s) \<Longrightarrow> fold (\<lambda>j. line4 (f j) (q j) s) [0..<n] B ! c = B ! c"
    and "length (fold (\<lambda>j. line4 (f j) (q j) s) [0..<n] B) = length B"
proof -
  let ?F = "\<lambda>n. fold (\<lambda>j. line4 (f j) (q j) s) [0..<n] B"
  have len: "length (?F m) = length B" for m by (induction m) simp_all
  then show "length (?F n) = length B" .
  have keep: "?F m ! c = B ! c" if "\<And>j k. j < m \<Longrightarrow> k < 4 \<Longrightarrow> c \<noteq> q j + k * s" for m c
    using that by (induction m) (simp_all add: line4_def put4_other)
  then show "(\<And>j k. j < n \<Longrightarrow> k < 4 \<Longrightarrow> c \<noteq> q j + k * s) \<Longrightarrow> ?F n ! c = B ! c" .
  show "?F n ! (q j + k * s) = c_int16 (sel k (f j (B ! q j) (B ! (q j + s)) (B ! (q j + 2 * s)) (B ! (q j + 3 * s))))"
    if j: "j < n" and k: "k < 4"
  proof -
    have cells: "?F j ! (q j + k' * s) = B ! (q j + k' * s)" if "k' < 4" for k'
    proof (rule keep)
      fix j' k'' assume "j' < j" "k'' < (4 :: nat)"
      then show "q j + k' * s \<noteq> q j' + k'' * s" using apart [of j j' k' k''] that j by auto
    qed
    have "?F (Suc j) ! (q j + k * s) = c_int16 (sel k (f j (B ! q j) (B ! (q j + s)) (B ! (q j + 2 * s)) (B ! (q j + 3 * s))))"
      using put4_nth [of "q j" s "?F j" k] cells [of 0] cells [of 1] cells [of 2] cells [of 3] assms(1,2) j k len
      by (simp add: line4_def)
    moreover have "?F m ! (q j + k * s) = ?F (Suc j) ! (q j + k * s)" if "Suc j \<le> m" "m \<le> n" for m
      using that
    proof (induction m rule: dec_induct)
      case (step m)
      have "q j + k * s \<noteq> q m + k' * s" if "k' < 4" for k' using apart [of j m k k'] that step j k by auto
      then show ?case using step by (simp add: line4_def put4_other)
    qed simp
    ultimately show ?thesis using j by simp
  qed
qed

text \<open>The rows and the columns of the block at \<open>p\<close>.\<close>

lemma block_rows:
  assumes "p + 52 \<le> length B"
  shows "j < 4 \<Longrightarrow> i < 4 \<Longrightarrow> fold (\<lambda>j. line4 (f j) (p + 16 * j) 1) [0..<4] B ! (p + 16 * j + i)
      = c_int16 (sel i (f j (B ! (p + 16 * j)) (B ! (p + 16 * j + 1)) (B ! (p + 16 * j + 2)) (B ! (p + 16 * j + 3))))"
    and "length (fold (\<lambda>j. line4 (f j) (p + 16 * j) 1) [0..<4] B) = length B"
proof -
  have "p + 16 * j + 3 * 1 < length B" if "j < 4" for j using that assms by simp
  moreover have "j = j'" if "j < 4" "j' < 4" "k < 4" "k' < 4" "p + 16 * j + k * 1 = p + 16 * j' + k' * (1 :: nat)" for j j' k k' :: nat
    using that by simp
  ultimately show "j < 4 \<Longrightarrow> i < 4 \<Longrightarrow> fold (\<lambda>j. line4 (f j) (p + 16 * j) 1) [0..<4] B ! (p + 16 * j + i)
      = c_int16 (sel i (f j (B ! (p + 16 * j)) (B ! (p + 16 * j + 1)) (B ! (p + 16 * j + 2)) (B ! (p + 16 * j + 3))))"
    and "length (fold (\<lambda>j. line4 (f j) (p + 16 * j) 1) [0..<4] B) = length B"
    using lines_nth(1,3) [of 1 4 "\<lambda>j. p + 16 * j" B] by (simp_all del: upt_Suc)
qed

lemma block_cols:
  assumes "p + 52 \<le> length B" "j < 4" "i < 4"
  shows "fold (\<lambda>i. line4 f (p + i) 16) [0..<4] B ! (p + 16 * j + i)
      = c_int16 (sel j (f (B ! (p + i)) (B ! (p + i + 16)) (B ! (p + i + 32)) (B ! (p + i + 48))))"
proof -
  have apart: "i = i'" if "i < 4" "i' < 4" "p + i + k * 16 = p + i' + k' * (16 :: nat)" for i i' k k' :: nat
    using that mod_mult_self1 [of i k 16] mod_mult_self1 [of i' k' 16] by simp
  have "fold (\<lambda>i. line4 f (p + i) 16) [0..<4] B ! (p + i + j * 16)
      = c_int16 (sel j (f (B ! (p + i)) (B ! (p + i + 16)) (B ! (p + i + 2 * 16)) (B ! (p + i + 3 * 16))))"
  proof (rule lines_nth(1))
    show "p + i + 3 * 16 < length B" if "i < 4" for i using that assms(1) by simp
    show "i = i'" if "i < 4" "i' < 4" "p + i + k * 16 = p + i' + k' * 16" for i i' k k' :: nat by (rule apart [OF that])
  qed (use assms in simp_all)
  moreover have "p + i + j * 16 = p + 16 * j + i" by simp
  ultimately show ?thesis by (simp del: upt_Suc)
qed

text \<open>How much the forward transform can grow.\<close>

definition gain :: "nat \<Rightarrow> int" where
  "gain k = (if odd k then 6 else 4)"

lemma fwd1_bound:
  assumes "\<bar>a\<bar> \<le> M" "\<bar>b\<bar> \<le> M" "\<bar>c\<bar> \<le> M" "\<bar>d\<bar> \<le> M" "k < 4"
  shows "\<bar>sel k (fwd1 a b c d)\<bar> \<le> gain k * M"
  using assms unfolding less_four by (auto simp: sel_def fwd1_def gain_def Let_def push_bit_eq_mult)

lemma c_int16_small: "\<bar>x\<bar> \<le> b \<Longrightarrow> b \<le> 32767 \<Longrightarrow> \<bar>c_int16 x\<bar> \<le> b"
  by (simp add: c_int16_def signed_take_bit_int_eq_self)

lemma fwd_block_bound:
  assumes r: "\<And>j i. j < 4 \<Longrightarrow> i < 4 \<Longrightarrow> \<bar>px org j i - px pred j i\<bar> \<le> 255" and len: "p + 52 \<le> length B" and u: "u < 4" "i < 4"
  shows "\<bar>fwd_block org pred p B ! (p + 16 * u + i)\<bar> \<le> gain u * (gain i * 255)"
proof -
  define R where "R = fold (\<lambda>j. line4 (\<lambda>_ _ _ _. residue_row org pred j) (p + 16 * j) 1) [0..<4] B"
  have R: "\<bar>R ! (p + 16 * j + i)\<bar> \<le> gain i * 255" if "j < 4" for j
  proof -
    have "\<bar>sel i (residue_row org pred j)\<bar> \<le> gain i * 255"
      unfolding residue_row_def by (intro fwd1_bound r that u) simp_all
    then have "\<bar>c_int16 (sel i (residue_row org pred j))\<bar> \<le> gain i * 255"
      by (rule c_int16_small) (simp add: gain_def)
    then show ?thesis unfolding R_def using block_rows(1) [OF len that u(2)] by simp
  qed
  have eq: "fwd_block org pred p B = fold (\<lambda>i. line4 fwd1 (p + i) 16) [0..<4] R"
    unfolding fwd_block_def R_def line4_def ..
  have "length R = length B" unfolding R_def by (rule block_rows(2) [OF len])
  then have "fwd_block org pred p B ! (p + 16 * u + i)
      = c_int16 (sel u (fwd1 (R ! (p + i)) (R ! (p + i + 16)) (R ! (p + i + 32)) (R ! (p + i + 48))))"
    using block_cols [of p R u i fwd1] len u eq by simp
  moreover have "\<bar>sel u (fwd1 (R ! (p + i)) (R ! (p + i + 16)) (R ! (p + i + 32)) (R ! (p + i + 48)))\<bar> \<le> gain u * (gain i * 255)"
    using R [of 0] R [of 1] R [of 2] R [of 3] by (intro fwd1_bound u) (simp_all add: algebra_simps)
  moreover have "gain u * (gain i * 255) \<le> 32767" by (simp add: gain_def)
  ultimately show ?thesis using c_int16_small by simp
qed

lemma fwd_block_length: "length (fwd_block org pred p B) = length B"
proof -
  have "length (fold (\<lambda>j. put4 (p + 16 * j) 1 (v j)) xs B) = length B" for v xs and B :: "int list"
    by (induction xs arbitrary: B) simp_all
  moreover have "length (fold (\<lambda>i. line4 f (p + i) 16) xs B) = length B" for f xs and B :: "int list"
    by (induction xs arbitrary: B) simp_all
  ultimately show ?thesis by (simp add: fwd_block_def)
qed

lemma scan_split_chk:
  "list_all (\<lambda>k. let z = ZZ_SCAN_BLOCK ! k in z div 16 < 4 \<and> z mod 16 < 4 \<and> scan_bound k = gain (z div 16) * (gain (z mod 16) * 255)) [0..<16]"
  by code_simp

lemma scan_split:
  assumes "k < 16"
  shows "ZZ_SCAN_BLOCK ! k div 16 < 4" "ZZ_SCAN_BLOCK ! k mod 16 < 4"
    "scan_bound k = gain (ZZ_SCAN_BLOCK ! k div 16) * (gain (ZZ_SCAN_BLOCK ! k mod 16) * 255)"
  using scan_split_chk assms by (simp_all add: list_all_iff Let_def)

lemma fwd_block_scan_bound:
  assumes "\<And>j i. j < 4 \<Longrightarrow> i < 4 \<Longrightarrow> \<bar>px org j i - px pred j i\<bar> \<le> 255" "p + 52 \<le> length B" "k < 16"
  shows "\<bar>fwd_block org pred p B ! scan_cell p k\<bar> \<le> scan_bound k"
proof -
  let ?z = "ZZ_SCAN_BLOCK ! k"
  have "scan_cell p k = p + 16 * (?z div 16) + ?z mod 16" by (simp add: scan_cell_def)
  then show ?thesis
    using fwd_block_bound [OF assms(1,2) scan_split(1,2) [OF assms(3)]] scan_split(3) [OF assms(3)] by simp
qed

section \<open>The inverse transform\<close>

text \<open>Two coefficient arrays with the same block at \<open>p\<close>; the pixels of two blocks.\<close>

definition same_block :: "nat \<Rightarrow> int list \<Rightarrow> int list \<Rightarrow> bool" where
  "same_block p B D \<longleftrightarrow> (\<forall>j<4. \<forall>i<4. B ! (p + 16 * j + i) = D ! (p + 16 * j + i))"

definition pixels_ok :: "pixels \<Rightarrow> bool" where
  "pixels_ok pl \<longleftrightarrow> (case pl of (xs, o0, pitch) \<Rightarrow> 4 \<le> pitch \<and> o0 + 3 * pitch + 4 \<le> length xs)"

definition same_pixels :: "pixels \<Rightarrow> pixels \<Rightarrow> bool" where
  "same_pixels a b \<longleftrightarrow> (\<forall>j<4. \<forall>i<4. px a j i = px b j i)"

lemma same_block_rows:
  assumes "same_block p B D" "p + 52 \<le> length B" "p + 52 \<le> length D"
  shows "same_block p (inv_rows p B) (inv_rows p D)"
proof -
  have at: "B ! (p + 16 * j + i) = D ! (p + 16 * j + i)" if "j < 4" "i < 4" for j i using assms(1) that by (simp add: same_block_def)
  have "inv_rows p B ! (p + 16 * j + i) = inv_rows p D ! (p + 16 * j + i)" if "j < 4" "i < 4" for j i
    unfolding inv_rows_def block_rows(1) [OF assms(2) that] block_rows(1) [OF assms(3) that]
    using at [of j 0] at [of j 1] at [of j 2] at [of j 3] that by simp
  then show ?thesis by (simp add: same_block_def)
qed

lemma inv_column_cong:
  assumes "same_block p B D" "i < 4" "\<And>j. j < 4 \<Longrightarrow> f j = g j"
  shows "inv_column B (p + i) f = inv_column D (p + i) g"
proof -
  have at: "B ! (p + 16 * j + i) = D ! (p + 16 * j + i)" if "j < 4" for j using assms(1,2) that by (simp add: same_block_def)
  have "B ! (p + i) = D ! (p + i)" "B ! (p + i + 16) = D ! (p + i + 16)" "B ! (p + i + 32) = D ! (p + i + 32)"
    "B ! (p + i + 48) = D ! (p + i + 48)"
    using at [of 0] at [of 1] at [of 2] at [of 3] by (simp_all add: algebra_simps)
  then show ?thesis using assms(3) by (simp add: inv_column_def split: prod.splits)
qed

lemma px_put_column:
  assumes "pixels_ok pl" "j < 4" "i < 4" "i' < 4"
  shows "px (put_column i' v pl) j i = (if i = i' then sel j v else px pl j i)"
proof -
  obtain xs o0 pitch where pl: "pl = (xs, o0, pitch)" by (cases pl)
  have ok: "4 \<le> pitch" "o0 + 3 * pitch + 4 \<le> length xs" using assms(1) by (simp_all add: pixels_ok_def pl)
  show ?thesis using assms(2-4) ok unfolding less_four
    by (cases v) (elim disjE; simp add: px_def put_column_def pl sel_def nth_list_update)
qed

lemma put_column_ok: "pixels_ok pl \<Longrightarrow> pixels_ok (put_column i v pl)"
  by (cases v; cases pl) (simp add: pixels_ok_def put_column_def)

lemma columns_px:
  assumes ok: "pixels_ok cur" and ji: "j < 4" "i < 4"
    and cong: "\<And>i f g. i < 4 \<Longrightarrow> (\<And>j. j < 4 \<Longrightarrow> f j = g j) \<Longrightarrow> F i f = F i g"
  shows "px (fold (\<lambda>i cur. put_column i (F i (\<lambda>j. px cur j i)) cur) [0..<4] cur) j i = sel j (F i (\<lambda>j. px cur j i))"
proof -
  let ?G = "\<lambda>n. fold (\<lambda>i cur. put_column i (F i (\<lambda>j. px cur j i)) cur) [0..<n] cur"
  have "pixels_ok (?G n) \<and> (\<forall>j<4. \<forall>i<4. px (?G n) j i = (if i < n then sel j (F i (\<lambda>j. px cur j i)) else px cur j i))" if "n \<le> 4" for n
    using that
  proof (induction n)
    case (Suc n)
    have IH: "pixels_ok (?G n)" "\<And>j i. j < 4 \<Longrightarrow> i < 4 \<Longrightarrow> px (?G n) j i = (if i < n then sel j (F i (\<lambda>j. px cur j i)) else px cur j i)"
      using Suc by auto
    have "F n (\<lambda>j. px (?G n) j n) = F n (\<lambda>j. px cur j n)" by (rule cong) (use IH(2) Suc.prems in simp_all)
    then show ?case using IH Suc.prems put_column_ok [OF IH(1)] px_put_column [OF IH(1)] by (auto simp: less_Suc_eq)
  qed (simp add: ok)
  from this [of 4] show ?thesis using ji by simp
qed

lemma itrans_px:
  assumes "pixels_ok cur" "j < 4" "i < 4"
  shows "px (itrans p B cur) j i = sel j (inv_column (inv_rows p B) (p + i) (\<lambda>j. px cur j i))"
  unfolding itrans_def Let_def
  by (rule columns_px [OF assms]) (rule inv_column_cong, simp_all add: same_block_def)

lemma enc_recon_px:
  assumes "pixels_ok cur" "j < 4" "i < 4"
  shows "px (enc_recon p pred cur B) j i = sel j (inv_column B (p + i) (\<lambda>j. px pred j i))"
  unfolding enc_recon_def using columns_px [OF assms, of "\<lambda>i _. inv_column B (p + i) (\<lambda>j. px pred j i)"] by simp

lemma copy_pred_px:
  assumes "pixels_ok cur" "j < 4" "i < 4"
  shows "px (copy_pred pred cur) j i = px pred j i"
proof -
  have "px (copy_pred pred cur) j i = sel j (px pred 0 i, px pred 1 i, px pred 2 i, px pred 3 i)"
    unfolding copy_pred_def
    using columns_px [OF assms, of "\<lambda>i _. (px pred 0 i, px pred 1 i, px pred 2 i, px pred 3 i)"] by simp
  then show ?thesis using assms(2) unfolding less_four by (auto simp: sel_def)
qed

text \<open>Encoder and decoder add the same block to the same prediction.\<close>

lemma recon_same:
  assumes "same_block p B D" "p + 52 \<le> length B" "p + 52 \<le> length D" "pixels_ok cur" "pixels_ok dec" "same_pixels pred dec"
  shows "same_pixels (enc_recon p pred cur (inv_rows p B)) (itrans p D dec)"
proof -
  note rows = same_block_rows [OF assms(1-3)]
  have "inv_column (inv_rows p B) (p + i) (\<lambda>j. px pred j i) = inv_column (inv_rows p D) (p + i) (\<lambda>j. px dec j i)" if "i < 4" for i
    by (rule inv_column_cong [OF rows that]) (use assms(6) that in \<open>simp add: same_pixels_def\<close>)
  then show ?thesis using assms(4,5) by (simp add: same_pixels_def enc_recon_px itrans_px)
qed

section \<open>A luma block\<close>

lemma read_block_consumes:
  assumes "consumes dec_inv dec_bits (\<lambda>s. residual_block_cavlc s nC mx) bs (lv, rn, n)"
    and "place_coeffs put limit start (from_last lv rn) (mb_block (fst x)) = Some (AVCDEC_SUCCESS, D)"
  shows "consumes dec_inv dec_bits (read_block nC mx put limit start fin x) bs (AVCDEC_SUCCESS, fin n ((fst x)\<lparr>mb_block := D\<rparr>, snd x))"
proof -
  have "consumes dec_inv dec_bits (read_block nC mx put limit start fin x) (bs @ []) (AVCDEC_SUCCESS, fin n ((fst x)\<lparr>mb_block := D\<rparr>, snd x))"
    unfolding read_block_def [abs_def] by (rule consumes_bind [OF assms(1)]) (simp add: assms(2) Let_def consumes_return)
  then show ?thesis by simp
qed

lemma same_block_scan:
  assumes "\<And>k. k < 16 \<Longrightarrow> B ! scan_cell p k = D ! scan_cell p k"
  shows "same_block p B D"
proof -
  have chk: "list_all (\<lambda>j. list_all (\<lambda>i. list_ex (\<lambda>k. ZZ_SCAN_BLOCK ! k = 16 * j + i) [0..<16]) [0..<4]) [0..<4]" by code_simp
  have "\<exists>k<16. ZZ_SCAN_BLOCK ! k = 16 * j + i" if "j < 4" "i < 4" for j i
    using chk that by (fastforce simp: list_all_iff list_ex_iff)
  then have "\<exists>k<16. scan_cell p k = p + 16 * j + i" if "j < 4" "i < 4" for j i
    using that by (force simp: scan_cell_def)
  then show ?thesis unfolding same_block_def using assms by metis
qed

lemma quant_step_levels:
  assumes "list_all level_ok (q_level st)"
    and "0 \<le> quant_level (quant_coef ! Rq ! k) (15 + Qq) c (q_coef st ! scan_cell p k)"
      "quant_level (quant_coef ! Rq ! k) (15 + Qq) c (q_coef st ! scan_cell p k) \<le> 2062"
  shows "list_all level_ok (q_level (quant_step Rq Qq c p k st))"
  using assms by (simp add: quant_step_def scan_cell_def Let_def level_ok_def)

text \<open>The quantised block: its levels and runs are in range, and give the dequantised block again.\<close>

lemma quantised_block:
  assumes q: "q = quantise Rq Qq c p k0 B cost" and k0: "k0 \<le> 16" and Rq: "Rq < 6" and c: "0 \<le> c" "c < 2 ^ (15 + Qq)"
    and len: "p + 52 \<le> length B" "p + 52 \<le> length D0" and z: "\<forall>i\<in>{k0..<16}. D0 ! scan_cell p i = 0"
    and b: "\<And>k. k < 16 \<Longrightarrow> \<bar>B ! scan_cell p k\<bar> \<le> scan_bound k"
  shows "length (q_run q) = length (q_level q)" "coeffs_ok (16 - int k0) (q_level q) (q_run q) (length (q_level q))"
    "length (q_coef q) = length B"
    "\<exists>D. place_coeffs (put_scaled Rq Qq p) 15 (int k0 - 1) (zip (q_level q) (q_run q)) D0 = Some (AVCDEC_SUCCESS, D)
       \<and> length D = length D0 \<and> (\<forall>i\<in>{k0..<16}. D ! scan_cell p i = q_coef q ! scan_cell p i)
       \<and> (\<forall>c. c \<notin> scan_cell p ` {k0..<16} \<longrightarrow> D ! c = D0 ! c)"
proof -
  let ?Q = "\<lambda>k. fold (quant_step Rq Qq c p) [k0..<k] \<lparr>q_coef = B, q_level = [], q_run = [], q_zeros = 0, q_cost = cost\<rparr>"
  have sf: "quant_so_far Rq Qq p k0 B D0 k (?Q k)" if "k0 \<le> k" "k \<le> 16" for k by (rule quantise_so_far [OF that len z])
  have q16: "q = ?Q 16" using q by (simp add: quantise_def)
  have s: "quant_so_far Rq Qq p k0 B D0 16 q" unfolding q16 by (rule sf [OF k0]) simp
  show "length (q_run q) = length (q_level q)" "length (q_coef q) = length B" using s by (simp_all add: quant_so_far_def)
  have lev: "list_all level_ok (q_level (?Q k))" if "k0 \<le> k" "k \<le> 16" for k
    using that
  proof (induction k rule: dec_induct)
    case (step k)
    have st: "quant_so_far Rq Qq p k0 B D0 k (?Q k)" by (rule sf) (use step in simp_all)
    have data: "q_coef (?Q k) ! scan_cell p k = B ! scan_cell p k" using st step by (simp add: quant_so_far_def)
    have "0 \<le> quant_coef ! Rq ! k \<and> scan_bound k * quant_coef ! Rq ! k \<le> 2062 * 32768"
      using quant_bound_chk Rq step.prems by (simp add: list_all_iff)
    then have r: "0 \<le> quant_level (quant_coef ! Rq ! k) (15 + Qq) c (B ! scan_cell p k)"
      "quant_level (quant_coef ! Rq ! k) (15 + Qq) c (B ! scan_cell p k) \<le> 2062"
      using quant_level_range [OF b [of k] _ _ c] step.prems by simp_all
    have "list_all level_ok (q_level (?Q k))" by (rule step) (use step in simp_all)
    from quant_step_levels [OF this] r data step(1) show ?case by simp
  qed simp
  have "list_all level_ok (q_level q)" unfolding q16 by (rule lev [OF k0]) simp
  then show "coeffs_ok (16 - int k0) (q_level q) (q_run q) (length (q_level q))"
    using s by (simp add: coeffs_ok_def quant_so_far_def)
  obtain D where "place_coeffs (put_scaled Rq Qq p) 15 (int k0 - 1) (zip (q_level q) (q_run q)) D0 = Some (AVCDEC_SUCCESS, D)"
      "length D = length D0" "\<And>i. k0 \<le> i \<Longrightarrow> i < 16 \<Longrightarrow> D ! scan_cell p i = q_coef q ! scan_cell p i"
      "\<And>c. c \<notin> scan_cell p ` {k0..<16} \<Longrightarrow> D ! c = D0 ! c"
    using s unfolding quant_so_far_def by blast
  then show "\<exists>D. place_coeffs (put_scaled Rq Qq p) 15 (int k0 - 1) (zip (q_level q) (q_run q)) D0 = Some (AVCDEC_SUCCESS, D)
       \<and> length D = length D0 \<and> (\<forall>i\<in>{k0..<16}. D ! scan_cell p i = q_coef q ! scan_cell p i)
       \<and> (\<forall>c. c \<notin> scan_cell p ` {k0..<16} \<longrightarrow> D ! c = D0 ! c)"
    by (intro exI [of _ D]) simp
qed

definition byte_pixels :: "pixels \<Rightarrow> bool" where
  "byte_pixels pl \<longleftrightarrow> (\<forall>j<4. \<forall>i<4. 0 \<le> px pl j i \<and> px pl j i \<le> 255)"

lemma byte_residue:
  assumes "byte_pixels org" "byte_pixels pred" "j < 4" "i < 4"
  shows "\<bar>px org j i - px pred j i\<bar> \<le> 255"
proof -
  have "0 \<le> px org j i \<and> px org j i \<le> 255" "0 \<le> px pred j i \<and> px pred j i \<le> 255"
    using assms by (simp_all add: byte_pixels_def)
  then show ?thesis by arith
qed

text \<open>The block of the intra macroblock of the encoder and of a decoder with the same prediction.\<close>

lemma luma_block_roundtrip:
  fixes x :: coeff_state and i j :: nat
  defines "p \<equiv> 64 * j + 4 * i"
  assumes r: "r = dct_luma True Rq Qq c (4 * j + i) cur org pred cost B" and ji: "j < 4" "i < 4"
    and px: "byte_pixels org" "byte_pixels pred" "pixels_ok cur" "pixels_ok dec" "same_pixels pred dec"
    and qp: "Rq < 6" "0 \<le> c" "c < 2 ^ (15 + Qq)" "v_QPy_mod_6 (fst x) = int Rq" "v_QPy_div_6 (fst x) = int Qq"
    and len: "length B = 384" "length (mb_block (fst x)) = 384"
    and z: "\<forall>k<16. mb_block (fst x) ! scan_cell p k = 0" and nz: "0 \<le> predict_nnz (fst x) i j"
  shows "\<exists>bs D. coded (put_coeffs malloc False (predict_nnz (fst x) i j) (lr_level r) (lr_run r) (int (lr_numcoeff r)) 16)
      (residual_luma 0 (i, j) x) (AVCDEC_SUCCESS, set_nz (4 * j + i) (int (lr_numcoeff r)) ((fst x)\<lparr>mb_block := D\<rparr>, snd x)) bs
    \<and> same_pixels (lr_cur r) (if lr_numcoeff r \<noteq> 0 then itrans p D dec else dec)"
proof -
  let ?nC = "predict_nnz (fst x) i j" and ?F = "fwd_block org pred p B"
  have p: "4 * ((4 * j + i) mod 4) + 64 * ((4 * j + i) div 4) = p" using ji by (simp add: p_def)
  define q where "q = quantise Rq Qq c p 0 ?F cost"
  have r': "lr_level r = q_level q" "lr_run r = q_run q" "lr_numcoeff r = length (q_level q)"
    "lr_cur r = (if length (q_level q) \<noteq> 0 then enc_recon p pred cur (inv_rows p (q_coef q)) else copy_pred pred cur)"
    unfolding r dct_luma_def p q_def Let_def by simp_all
  have F: "p + 52 \<le> length ?F" "p + 52 \<le> length (mb_block (fst x))" using len ji by (simp_all add: fwd_block_length p_def)
  have b: "\<bar>?F ! scan_cell p k\<bar> \<le> scan_bound k" if "k < 16" for k
    by (rule fwd_block_scan_bound [OF byte_residue [OF px(1,2)] _ that]) (use F(1) in \<open>simp_all add: fwd_block_length\<close>)
  have z': "\<forall>k\<in>{0..<16}. mb_block (fst x) ! scan_cell p k = 0" using z by simp
  note qb = quantised_block [OF q_def _ qp(1-3) F z' b, simplified]
  obtain D where D: "place_coeffs (put_scaled Rq Qq p) 15 (- 1) (zip (q_level q) (q_run q)) (mb_block (fst x)) = Some (AVCDEC_SUCCESS, D)"
      "length D = 384" "\<And>k. k < 16 \<Longrightarrow> D ! scan_cell p k = q_coef q ! scan_cell p k"
    using qb(4) len(2) by auto
  have kind: "block_kind False ?nC 16" using nz by (simp add: block_kind_def)
  obtain bs where bs: "coded (put_coeffs malloc False ?nC (q_level q) (q_run q) (int (length (q_level q))) 16)
      (\<lambda>s. residual_block_cavlc s ?nC 16) (rev (q_level q), rev (q_run q), int (length (q_level q))) bs"
    using block_coded [OF qb(2) kind, of malloc] qb(1) by auto
  have "consumes dec_inv dec_bits (residual_luma 0 (i, j) x) bs
      (AVCDEC_SUCCESS, set_nz (4 * j + i) (int (length (q_level q))) ((fst x)\<lparr>mb_block := D\<rparr>, snd x))"
    unfolding residual_luma_def prod.case
    by (rule read_block_consumes [where lv = "rev (q_level q)" and rn = "rev (q_run q)"]) (use bs D(1) qp in \<open>simp_all add: coded_def from_last_def p_def algebra_simps\<close>)
  moreover have "same_pixels (lr_cur r) (if lr_numcoeff r \<noteq> 0 then itrans p D dec else dec)"
  proof (cases "length (q_level q) = 0")
    case True
    then show ?thesis using r' px(3,5) by (simp add: same_pixels_def copy_pred_px)
  next
    case False
    have "same_block p (q_coef q) D" by (rule same_block_scan) (use D(3) in simp)
    then have "same_pixels (enc_recon p pred cur (inv_rows p (q_coef q))) (itrans p D dec)"
      by (rule recon_same) (use F qb(3) D(2) len px in simp_all)
    then show ?thesis using r' False by simp
  qed
  ultimately show ?thesis using bs unfolding coded_def r'(1-3) by blast
qed

end
