(* ===== verification/MvRoundtrip.thy ===== *)
theory MvRoundtrip
  imports MbAccess
begin

text \<open>
  The decoder restores the motion vectors from the differences the encoder computes: every vector that enters the
  prediction of a partition belongs to another macroblock or to a partition that comes before it. The order of the
  partitions is checked for every division of a macroblock; the rest is an invariant of the loop over the partitions.
\<close>

section \<open>Divisions of a macroblock\<close>

definition sub_shape :: "AVCMacroblock \<Rightarrow> nat \<Rightarrow> nat \<times> nat \<times> nat" where
  "sub_shape m i = (NumSubMbPart m ! i, SubMbPartWidth m ! i, SubMbPartHeight m ! i)"

definition quarter_shapes :: "(nat \<times> nat \<times> nat) list" where
  "quarter_shapes = [(1, 8, 8), (2, 8, 4), (2, 4, 8), (4, 4, 4)]"

text \<open>The four divisions of an inter macroblock; the width of the only partition is not looked at.\<close>

definition inter_shape :: "AVCMacroblock \<Rightarrow> bool" where
  "inter_shape m \<longleftrightarrow>
     (NumMbPart m = 1 \<and> sub_shape m 0 = (1, 16, 16))
   \<or> (NumMbPart m = 2 \<and> MbPartWidth m = 16 \<and> sub_shape m 0 = (1, 16, 8) \<and> sub_shape m 1 = (1, 16, 8))
   \<or> (NumMbPart m = 2 \<and> MbPartWidth m = 8 \<and> sub_shape m 0 = (1, 8, 16) \<and> sub_shape m 1 = (1, 8, 16))
   \<or> (NumMbPart m = 4 \<and> MbPartWidth m = 8 \<and> list_all (\<lambda>i. sub_shape m i \<in> set quarter_shapes) [0, 1, 2, 3])"

text \<open>First block, last column and cells of a partition, and the cells its prediction may read.\<close>

definition rect_cells :: "nat \<Rightarrow> nat \<Rightarrow> nat \<Rightarrow> nat list" where
  "rect_cells k w h = concat (map (\<lambda>r. map (\<lambda>c. k + 4 * r + c) [0..<w]) [0..<h])"

definition shape_block :: "nat \<Rightarrow> nat \<Rightarrow> nat \<times> nat \<Rightarrow> nat \<times> nat" where
  "shape_block pw sw part =
     (let p = fst part + (if fst part = 0 then 0 else pw div 16); s = snd part + (if snd part = 0 then 0 else sw div 8)
      in ((p mod 2) * 2 + s mod 2, (p div 2 mod 2) * 2 + s div 2 mod 2))"

definition shape_cells :: "nat \<Rightarrow> nat \<Rightarrow> nat \<Rightarrow> nat \<times> nat \<Rightarrow> nat list" where
  "shape_cells pw sw sh part =
     (let (x, y) = shape_block pw sw part in rect_cells (y * 4 + x) (sw div 4) (sh div 4))"

definition block_reads :: "nat \<Rightarrow> nat \<Rightarrow> nat \<Rightarrow> nat list" where
  "block_reads x x' y =
     (if x \<noteq> 0 then [y * 4 + (x - 1)] else []) @ (if y \<noteq> 0 then [(y - 1) * 4 + x] else [])
     @ (if upper_right_before x' y then [(y - 1) * 4 + (x' + 1)] else [])
     @ (if x \<noteq> 0 \<and> y \<noteq> 0 then [(y - 1) * 4 + (x - 1)] else [])"

definition shape_reads :: "nat \<Rightarrow> nat \<Rightarrow> nat \<times> nat \<Rightarrow> nat list" where
  "shape_reads pw sw part = (let (x, y) = shape_block pw sw part in block_reads x (x + sw div 4 - 1) y)"

definition part_cells :: "AVCMacroblock \<Rightarrow> nat \<times> nat \<Rightarrow> nat list" where
  "part_cells m part = shape_cells (MbPartWidth m) (SubMbPartWidth m ! fst part) (SubMbPartHeight m ! fst part) part"

definition part_reads :: "AVCMacroblock \<Rightarrow> nat \<times> nat \<Rightarrow> nat list" where
  "part_reads m part = shape_reads (MbPartWidth m) (SubMbPartWidth m ! fst part) part"

section \<open>The order of the partitions\<close>

text \<open>Every partition reads cells that are written, and writes its own.\<close>

fun walk :: "('a \<Rightarrow> nat list) \<Rightarrow> ('a \<Rightarrow> nat list) \<Rightarrow> nat list \<Rightarrow> 'a list \<Rightarrow> bool" where
  "walk rd wr known [] = True"
| "walk rd wr known (p # ps) \<longleftrightarrow> list_all (List.member known) (rd p) \<and> walk rd wr (known @ wr p) ps"

lemma walk_mono: "walk rd wr known ps \<Longrightarrow> set known \<subseteq> set known' \<Longrightarrow> walk rd wr known' ps"
proof (induction ps arbitrary: known known')
  case (Cons p ps)
  have w: "walk rd wr (known @ wr p) ps" and rd: "list_all (List.member known) (rd p)" using Cons.prems(1) by simp_all
  have "walk rd wr (known' @ wr p) ps" by (rule Cons.IH [OF w]) (use Cons.prems(2) in auto)
  moreover have "list_all (List.member known') (rd p)"
    using rd Cons.prems(2) unfolding list_all_iff List.member_iff by blast
  ultimately show ?case by simp
qed simp

lemma walk_append: "walk rd wr known (ps @ qs) \<longleftrightarrow> walk rd wr known ps \<and> walk rd wr (known @ concat (map wr ps)) qs"
  by (induction ps arbitrary: known) auto

lemma walk_cong: "walk rd wr known ps \<Longrightarrow> (\<And>p. p \<in> set ps \<Longrightarrow> rd p = rd' p \<and> wr p = wr' p) \<Longrightarrow> walk rd' wr' known ps"
  by (induction ps arbitrary: known) auto

text \<open>A step is within the macroblock.\<close>

definition step_within :: "nat \<Rightarrow> nat \<Rightarrow> nat \<Rightarrow> nat \<times> nat \<Rightarrow> bool" where
  "step_within pw sw sh part \<longleftrightarrow>
     (let (x, y) = shape_block pw sw part
      in x < 4 \<and> y < 4 \<and> x + sw div 4 \<le> 4 \<and> y + sh div 4 \<le> 4 \<and> 0 < sw div 4 \<and> 0 < sh div 4)"

definition shape_chk :: "nat \<Rightarrow> nat \<times> nat \<times> nat \<Rightarrow> nat \<Rightarrow> nat list \<Rightarrow> nat list \<Rightarrow> bool" where
  "shape_chk pw sub i before after \<longleftrightarrow>
     (let (n, sw, sh) = sub; ps = map (Pair i) [0..<n]
      in walk (shape_reads pw sw) (shape_cells pw sw sh) before ps
         \<and> list_all (List.member (before @ concat (map (shape_cells pw sw sh) ps))) after
         \<and> list_all (step_within pw sw sh) ps)"

definition quarter_cells :: "nat \<Rightarrow> nat list" where
  "quarter_cells i = concat (map (\<lambda>q. rect_cells ((q div 2) * 8 + (q mod 2) * 2) 2 2) [0..<i])"

lemma quarters_chk:
  "list_all (\<lambda>i. list_all (\<lambda>sub. shape_chk 8 sub i (quarter_cells i) (quarter_cells (Suc i))) quarter_shapes) [0, 1, 2, 3]"
  by code_simp

lemma shapes_chk:
  "shape_chk 16 (1, 16, 16) 0 [] [0..<16]"
  "shape_chk 16 (1, 16, 8) 0 [] [0..<8]"
  "shape_chk 16 (1, 16, 8) 1 [0..<8] [0..<16]"
  "shape_chk 8 (1, 8, 16) 0 [] [0, 1, 4, 5, 8, 9, 12, 13]"
  "shape_chk 8 (1, 8, 16) 1 [0, 1, 4, 5, 8, 9, 12, 13] [0..<16]"
  by code_simp+

lemma shape_chk_first: "shape_chk pw sub 0 before after = shape_chk pw' sub 0 before after"
proof -
  have b: "shape_block pw sw (0, j) = shape_block pw' sw (0, j)" for sw j by (simp add: shape_block_def)
  obtain n sw sh where sub: "sub = (n, sw, sh)" by (metis prod_cases3)
  have r: "shape_reads pw sw p = shape_reads pw' sw p" "shape_cells pw sw sh p = shape_cells pw' sw sh p"
      "step_within pw sw sh p = step_within pw' sw sh p" if "p \<in> set (map (Pair 0) [0..<n])" for p
    using that b by (auto simp: shape_reads_def shape_cells_def step_within_def)
  have "walk (shape_reads pw sw) (shape_cells pw sw sh) before (map (Pair 0) [0..<n])
      = walk (shape_reads pw' sw) (shape_cells pw' sw sh) before (map (Pair 0) [0..<n])"
    using walk_cong [of "shape_reads pw sw" "shape_cells pw sw sh" before "map (Pair 0) [0..<n]" "shape_reads pw' sw" "shape_cells pw' sw sh"]
      walk_cong [of "shape_reads pw' sw" "shape_cells pw' sw sh" before "map (Pair 0) [0..<n]" "shape_reads pw sw" "shape_cells pw sw sh"] r
    by metis
  moreover have "map (shape_cells pw sw sh) (map (Pair 0) [0..<n]) = map (shape_cells pw' sw sh) (map (Pair 0) [0..<n])"
    using r(2) by (intro map_cong) auto
  ultimately show ?thesis using r(3) by (simp add: shape_chk_def sub list_all_iff Let_def)
qed

lemma quarter_cells_all: "list_all (List.member (quarter_cells 4)) [0..<16]"
  by code_simp


definition own_parts :: "AVCMacroblock \<Rightarrow> nat \<Rightarrow> (nat \<times> nat) list" where
  "own_parts m i = map (Pair i) [0..<NumSubMbPart m ! i]"

definition part_within :: "AVCMacroblock \<Rightarrow> nat \<times> nat \<Rightarrow> bool" where
  "part_within m p = step_within (MbPartWidth m) (SubMbPartWidth m ! fst p) (SubMbPartHeight m ! fst p) p"

lemma shape_chkD:
  assumes "shape_chk (MbPartWidth m) (sub_shape m i) i before after"
  shows "walk (part_reads m) (part_cells m) before (own_parts m i)
    \<and> set after \<subseteq> set before \<union> set (concat (map (part_cells m) (own_parts m i)))
    \<and> (\<forall>p\<in>set (own_parts m i). part_within m p)"
proof -
  let ?rd = "shape_reads (MbPartWidth m) (SubMbPartWidth m ! i)"
  let ?wr = "shape_cells (MbPartWidth m) (SubMbPartWidth m ! i) (SubMbPartHeight m ! i)"
  have eq: "?rd p = part_reads m p \<and> ?wr p = part_cells m p" if "p \<in> set (own_parts m i)" for p
    using that by (auto simp: own_parts_def part_reads_def part_cells_def)
  have w: "walk ?rd ?wr before (own_parts m i)"
    and c: "set after \<subseteq> set before \<union> set (concat (map ?wr (own_parts m i)))"
    and i: "\<forall>p\<in>set (own_parts m i). step_within (MbPartWidth m) (SubMbPartWidth m ! i) (SubMbPartHeight m ! i) p"
    using assms by (auto simp: shape_chk_def sub_shape_def own_parts_def Let_def list_all_iff)
  have "map ?wr (own_parts m i) = map (part_cells m) (own_parts m i)" using eq by (simp cong: map_cong)
  moreover have "\<forall>p\<in>set (own_parts m i). part_within m p" using i by (auto simp: part_within_def own_parts_def)
  ultimately show ?thesis using walk_cong [OF w eq] c by simp
qed

lemma shape_chain:
  assumes chk: "\<And>i. i < n \<Longrightarrow> shape_chk (MbPartWidth m) (sub_shape m i) i (F i) (F (Suc i))" and F: "F 0 = []"
  shows "walk (part_reads m) (part_cells m) [] (concat (map (own_parts m) [0..<n]))
    \<and> set (F n) \<subseteq> set (concat (map (part_cells m) (concat (map (own_parts m) [0..<n]))))
    \<and> (\<forall>p\<in>set (concat (map (own_parts m) [0..<n])). part_within m p)"
  using chk
proof (induction n)
  case (Suc n)
  let ?ps = "concat (map (own_parts m) [0..<n])"
  have IH: "walk (part_reads m) (part_cells m) [] ?ps"
      "set (F n) \<subseteq> set (concat (map (part_cells m) ?ps))" "\<forall>p\<in>set ?ps. part_within m p"
    using Suc by auto
  have n: "walk (part_reads m) (part_cells m) (F n) (own_parts m n)"
      "set (F (Suc n)) \<subseteq> set (F n) \<union> set (concat (map (part_cells m) (own_parts m n)))"
      "\<forall>p\<in>set (own_parts m n). part_within m p"
    using shape_chkD [OF Suc.prems [of n]] by auto
  have "walk (part_reads m) (part_cells m) (concat (map (part_cells m) ?ps)) (own_parts m n)"
    by (rule walk_mono [OF n(1) IH(2)])
  then have "walk (part_reads m) (part_cells m) [] (?ps @ own_parts m n)"
    by (simp add: walk_append IH(1) del: map_concat)
  moreover have "set (F (Suc n)) \<subseteq> set (concat (map (part_cells m) (?ps @ own_parts m n)))"
    using IH(2) n(2) by auto
  moreover have "\<forall>p\<in>set (?ps @ own_parts m n). part_within m p" using IH(3) n(3) by auto
  moreover have "concat (map (own_parts m) [0..<Suc n]) = ?ps @ own_parts m n" by simp
  ultimately show ?case by simp
qed (simp add: F)

definition mv_order :: "AVCMacroblock \<Rightarrow> bool" where
  "mv_order m \<longleftrightarrow> walk (part_reads m) (part_cells m) [] (partitions m)
     \<and> {..<16} \<subseteq> set (concat (map (part_cells m) (partitions m))) \<and> (\<forall>p\<in>set (partitions m). part_within m p)"

lemma mv_orderI:
  assumes "\<And>i. i < NumMbPart m \<Longrightarrow> shape_chk (MbPartWidth m) (sub_shape m i) i (F i) (F (Suc i))" "F 0 = []"
    and "{..<16} \<subseteq> set (F (NumMbPart m))"
  shows "mv_order m"
proof -
  have "partitions m = concat (map (own_parts m) [0..<NumMbPart m])"
    unfolding partitions_def by (rule arg_cong [where f = concat]) (simp add: own_parts_def)
  then show ?thesis
    using shape_chain [of "NumMbPart m" m F, OF assms(1,2)] assms(3) unfolding mv_order_def by auto
qed

lemma inter_shape_order: "inter_shape m \<Longrightarrow> mv_order m"
proof -
  assume "inter_shape m"
  have all: "{..<16} = set [0..<16 :: nat]" by auto
  consider "NumMbPart m = 1" "sub_shape m 0 = (1, 16, 16)"
    | "NumMbPart m = 2" "MbPartWidth m = 16" "sub_shape m 0 = (1, 16, 8)" "sub_shape m 1 = (1, 16, 8)"
    | "NumMbPart m = 2" "MbPartWidth m = 8" "sub_shape m 0 = (1, 8, 16)" "sub_shape m 1 = (1, 8, 16)"
    | "NumMbPart m = 4" "MbPartWidth m = 8" "list_all (\<lambda>i. sub_shape m i \<in> set quarter_shapes) [0, 1, 2, 3]"
    using \<open>inter_shape m\<close> by (auto simp: inter_shape_def)
  then show ?thesis
  proof cases
    case 1
    have "shape_chk (MbPartWidth m) (1, 16, 16) 0 [] [0..<16]" by (rule shape_chk_first [THEN iffD1, OF shapes_chk(1)])
    then show ?thesis
      by (intro mv_orderI [of m "\<lambda>i. [[], [0..<16]] ! i"]) (use 1 in \<open>auto simp: all simp del: set_upt\<close>)
  next
    case 2
    show ?thesis
      by (rule mv_orderI [of m "\<lambda>i. [[], [0..<8], [0..<16]] ! i"])
        (use 2 shapes_chk(2,3) in \<open>auto simp: all less_2_cases_iff simp del: set_upt\<close>)
  next
    case 3
    show ?thesis
      by (rule mv_orderI [of m "\<lambda>i. [[], [0, 1, 4, 5, 8, 9, 12, 13], [0..<16]] ! i"])
        (use 3 shapes_chk(4,5) in \<open>auto simp: all less_2_cases_iff simp del: set_upt\<close>)
  next
    case 4
    have "shape_chk 8 (sub_shape m i) i (quarter_cells i) (quarter_cells (Suc i))" if "i < 4" for i
    proof -
      have i: "i \<in> set [0, 1, 2, 3]" using that by auto
      then have "sub_shape m i \<in> set quarter_shapes" using 4(3) by (simp only: list_all_iff)
      then show ?thesis using quarters_chk i unfolding list_all_iff by blast
    qed
    then show ?thesis
      by (intro mv_orderI [of m quarter_cells])
        (use 4 quarter_cells_all in \<open>auto simp: quarter_cells_def [of 0] list_all_iff\<close>)
  qed
qed


section \<open>What the prediction reads\<close>

definition with_mv :: "mv list \<Rightarrow> AVCMbObj \<Rightarrow> AVCMbObj" where
  "with_mv M ob = upd_currMB (\<lambda>m. m\<lparr>mvL0 := M\<rparr>) ob"

text \<open>The available neighbours are other macroblocks, and the current one exists.\<close>

definition neighbours_apart :: "AVCMbObj \<Rightarrow> bool" where
  "neighbours_apart ob \<longleftrightarrow> currMbAddr ob < length (mblock ob)
     \<and> (mbAvailA ob \<longrightarrow> nat (mbAddrA ob) \<noteq> currMbAddr ob) \<and> (mbAvailB ob \<longrightarrow> nat (mbAddrB ob) \<noteq> currMbAddr ob)
     \<and> (mbAvailC ob \<longrightarrow> nat (mbAddrC ob) \<noteq> currMbAddr ob) \<and> (mbAvailD ob \<longrightarrow> nat (mbAddrD ob) \<noteq> currMbAddr ob)"

lemma with_mv_fields [simp]:
  "currMbAddr (with_mv M ob) = currMbAddr ob" "mvd_l0 (with_mv M ob) = mvd_l0 ob"
  "mbAvailA (with_mv M ob) = mbAvailA ob" "mbAvailB (with_mv M ob) = mbAvailB ob"
  "mbAvailC (with_mv M ob) = mbAvailC ob" "mbAvailD (with_mv M ob) = mbAvailD ob"
  "mbAddrA (with_mv M ob) = mbAddrA ob" "mbAddrB (with_mv M ob) = mbAddrB ob"
  "mbAddrC (with_mv M ob) = mbAddrC ob" "mbAddrD (with_mv M ob) = mbAddrD ob"
  by (simp_all add: with_mv_def upd_currMB_def)

lemma currMB_with_mv: "currMbAddr ob < length (mblock ob) \<Longrightarrow> currMB (with_mv M ob) = (currMB ob)\<lparr>mvL0 := M\<rparr>"
  by (simp add: with_mv_def upd_currMB_def currMB_def)

lemma other_with_mv: "k \<noteq> currMbAddr ob \<Longrightarrow> mblock (with_mv M ob) ! k = mblock ob ! k"
  by (simp add: with_mv_def upd_currMB_def)

lemma upd_currMB_with_mv:
  "currMbAddr ob < length (mblock ob) \<Longrightarrow> upd_currMB (\<lambda>m. m\<lparr>mvL0 := f (mvL0 m)\<rparr>) (with_mv M ob) = with_mv (f M) ob"
  by (simp add: with_mv_def upd_currMB_def currMB_def)

lemma with_mv_same: "currMbAddr ob < length (mblock ob) \<Longrightarrow> with_mv (mvL0 (currMB ob)) ob = ob"
  by (simp add: with_mv_def upd_currMB_def currMB_def)

text \<open>Two objects that agree on what the prediction uses, the vectors of the current macroblock aside.\<close>

definition mv_same :: "AVCMacroblock \<Rightarrow> AVCMacroblock \<Rightarrow> bool" where
  "mv_same a b \<longleftrightarrow> mvL0 a = mvL0 b \<and> ref_idx_L0 a = ref_idx_L0 b"

definition same_shape :: "AVCMacroblock \<Rightarrow> AVCMacroblock \<Rightarrow> bool" where
  "same_shape a b \<longleftrightarrow> NumMbPart a = NumMbPart b \<and> (NumMbPart a \<noteq> 1 \<longrightarrow> MbPartWidth a = MbPartWidth b)
     \<and> (\<forall>i<NumMbPart a. sub_shape a i = sub_shape b i) \<and> ref_idx_L0 a = ref_idx_L0 b"

lemma same_shape_fields:
  assumes "same_shape a b"
  shows "ref_idx_L0 b = ref_idx_L0 a" "NumMbPart b = NumMbPart a" "partitions b = partitions a"
    "fst p < NumMbPart a \<Longrightarrow> SubMbPartWidth b ! fst p = SubMbPartWidth a ! fst p"
    "fst p < NumMbPart a \<Longrightarrow> SubMbPartHeight b ! fst p = SubMbPartHeight a ! fst p"
    "fst p < NumMbPart a \<Longrightarrow> part_block b (fst p) (snd p) = part_block a (fst p) (snd p)"
proof -
  show n: "NumMbPart b = NumMbPart a" "ref_idx_L0 b = ref_idx_L0 a" using assms by (simp_all add: same_shape_def)
  have sub: "SubMbPartWidth b ! i = SubMbPartWidth a ! i" "SubMbPartHeight b ! i = SubMbPartHeight a ! i"
    "NumSubMbPart b ! i = NumSubMbPart a ! i" if "i < NumMbPart a" for i
    using assms that by (simp_all add: same_shape_def sub_shape_def)
  show "SubMbPartWidth b ! fst p = SubMbPartWidth a ! fst p" if "fst p < NumMbPart a" by (rule sub(1) [OF that])
  show "SubMbPartHeight b ! fst p = SubMbPartHeight a ! fst p" if "fst p < NumMbPart a" by (rule sub(2) [OF that])
  show "partitions b = partitions a" unfolding partitions_def n using sub(3) by (intro arg_cong [where f = concat] map_cong) auto
  show "part_block b (fst p) (snd p) = part_block a (fst p) (snd p)" if "fst p < NumMbPart a"
  proof -
    have "MbPartWidth b = MbPartWidth a \<or> fst p = 0" using assms that by (auto simp: same_shape_def)
    then show ?thesis using sub(1) [OF that] by (auto simp: part_block_def)
  qed
qed

definition same_avail :: "AVCMbObj \<Rightarrow> AVCMbObj \<Rightarrow> bool" where
  "same_avail E D \<longleftrightarrow> mbAvailA E = mbAvailA D \<and> mbAvailB E = mbAvailB D \<and> mbAvailC E = mbAvailC D \<and> mbAvailD E = mbAvailD D"

definition mv_around :: "AVCMbObj \<Rightarrow> AVCMbObj \<Rightarrow> bool" where
  "mv_around E D \<longleftrightarrow> same_avail E D
     \<and> (mbAvailA E \<longrightarrow> mv_same (mbA E) (mbA D)) \<and> (mbAvailB E \<longrightarrow> mv_same (mbB E) (mbB D))
     \<and> (mbAvailC E \<longrightarrow> mv_same (mbC E) (mbC D)) \<and> (mbAvailD E \<longrightarrow> mv_same (mbD E) (mbD D))"

definition mv_match :: "AVCMbObj \<Rightarrow> AVCMbObj \<Rightarrow> bool" where
  "mv_match E D \<longleftrightarrow> mv_around E D \<and> same_shape (currMB E) (currMB D)"

lemma same_shape_mv: "same_shape a b \<Longrightarrow> same_shape a (b\<lparr>mvL0 := M\<rparr>)"
  by (simp add: same_shape_def sub_shape_def)

lemma mv_match_with_mv: "mv_match E D \<Longrightarrow> neighbours_apart D \<Longrightarrow> mv_match E (with_mv M D)"
  unfolding mv_match_def mv_around_def same_avail_def neighbours_apart_def
  by (simp add: other_with_mv currMB_with_mv same_shape_mv)

lemma candidate_at_same: "mv_same a b \<Longrightarrow> candidate_at b x y = candidate_at a x y"
  by (simp add: mv_same_def candidate_at_def ref_at_def mv_at_def)

lemma candidate_at_cell:
  "same_shape a b \<Longrightarrow> mvL0 b ! (y * 4 + x) = mvL0 a ! (y * 4 + x) \<Longrightarrow> candidate_at b x y = candidate_at a x y"
  by (simp add: same_shape_def candidate_at_def ref_at_def mv_at_def)

lemma candidates_match:
  assumes m: "mv_match E D" and M: "\<And>c. c \<in> set (block_reads x x' y) \<Longrightarrow> mvL0 (currMB D) ! c = mvL0 (currMB E) ! c"
  shows "candidate_A D x y = candidate_A E x y" "candidate_B D x y = candidate_B E x y"
    "candidate_D D x y = candidate_D E x y" "candidate_C D x x' y = candidate_C E x x' y"
proof -
  have sh: "same_shape (currMB E) (currMB D)" using m by (simp add: mv_match_def)
  have A: "y * 4 + (x - 1) \<in> set (block_reads x x' y)" if "x \<noteq> 0"
    using that unfolding block_reads_def by (simp only: if_True set_append Un_iff list.set insert_iff simp_thms)
  have B: "(y - 1) * 4 + x \<in> set (block_reads x x' y)" if "y \<noteq> 0"
    using that unfolding block_reads_def by (simp only: if_True set_append Un_iff list.set insert_iff simp_thms)
  have C: "(y - 1) * 4 + (x' + 1) \<in> set (block_reads x x' y)" if "upper_right_before x' y"
    using that unfolding block_reads_def by (simp only: if_True set_append Un_iff list.set insert_iff simp_thms)
  have D: "(y - 1) * 4 + (x - 1) \<in> set (block_reads x x' y)" if "x \<noteq> 0" "y \<noteq> 0"
    using that unfolding block_reads_def by (simp only: if_True set_append Un_iff list.set insert_iff simp_thms)
  note at = candidate_at_cell [OF sh M [OF A]] candidate_at_cell [OF sh M [OF B]]
    candidate_at_cell [OF sh M [OF C]] candidate_at_cell [OF sh M [OF D]]
  note nb = m [unfolded mv_match_def mv_around_def same_avail_def]
  show "candidate_A D x y = candidate_A E x y"
    unfolding candidate_A_def using at(1) nb by (auto simp: candidate_at_same)
  show "candidate_B D x y = candidate_B E x y"
    unfolding candidate_B_def using at(2) nb by (auto simp: candidate_at_same)
  show "candidate_D D x y = candidate_D E x y"
    unfolding candidate_D_def using at(4) nb by (auto simp: candidate_at_same)
  then show "candidate_C D x x' y = candidate_C E x x' y"
    unfolding candidate_C_def using at(3) nb by (auto simp: candidate_at_same)
qed

lemma mv_predictor_match:
  assumes "mv_match E D" and "\<And>c. c \<in> set (block_reads x x' y) \<Longrightarrow> mvL0 (currMB D) ! c = mvL0 (currMB E) ! c"
  shows "mv_predictor D i x x' y = mv_predictor E i x x' y"
proof -
  have sh: "same_shape (currMB E) (currMB D)" using assms(1) by (simp add: mv_match_def)
  have "select_predictor 1 w i a b c r = median_predictor a b c r" for w a b c r
    by (cases a; cases b; cases c) (simp add: select_predictor_def)
  then have "select_predictor (NumMbPart (currMB E)) (MbPartWidth (currMB D)) i a b c r
      = select_predictor (NumMbPart (currMB E)) (MbPartWidth (currMB E)) i a b c r" for a b c r
    using sh by (cases "NumMbPart (currMB E) = 1") (auto simp: same_shape_def)
  then show ?thesis using same_shape_fields(1,2) [OF sh] by (simp add: mv_predictor_def candidates_match [OF assms] ref_at_def)
qed

section \<open>The loop of the encoder\<close>

text \<open>The difference of a partition, a function of the object before the loop.\<close>

definition mv_diff :: "AVCMbObj \<Rightarrow> nat \<times> nat \<Rightarrow> mv" where
  "mv_diff ob part =
     (let m = currMB ob; (x, y) = part_block m (fst part) (snd part);
          (px, py) = mv_predictor ob (fst part) x (x + SubMbPartWidth m ! fst part div 4 - 1) y; (vx, vy) = mv_at m x y
      in (vx - px, vy - py))"

definition put2 :: "nat \<times> nat \<Rightarrow> 'a \<Rightarrow> 'a list list \<Rightarrow> 'a list list" where
  "put2 part v d = d[fst part := (d ! fst part)[snd part := v]]"

lemma mvd_unread:
  "currMB (ob\<lparr>mvd_l0 := d\<rparr>) = currMB ob" "mv_predictor (ob\<lparr>mvd_l0 := d\<rparr>) i x x' y = mv_predictor ob i x x' y"
  by (simp_all add: currMB_def mv_predictor_def candidate_A_def candidate_B_def candidate_C_def candidate_D_def)

lemma mv_step_enc: "mv_step True part (ob\<lparr>mvd_l0 := d\<rparr>) = ob\<lparr>mvd_l0 := put2 part (mv_diff ob part) d\<rparr>"
  by (simp add: mv_step_def mvd_unread mv_diff_def put2_def Let_def split: prod.splits)

lemma mv_steps_enc:
  "fold (mv_step True) ps (ob\<lparr>mvd_l0 := d\<rparr>) = ob\<lparr>mvd_l0 := fold (\<lambda>p. put2 p (mv_diff ob p)) ps d\<rparr>"
  by (induction ps arbitrary: d) (simp_all add: mv_step_enc)

definition dims :: "nat \<Rightarrow> nat \<Rightarrow> 'a list list \<Rightarrow> bool" where
  "dims n k d \<longleftrightarrow> length d = n \<and> (\<forall>r\<in>set d. length r = k)"

lemma put2_dims: "dims n k d \<Longrightarrow> dims n k (put2 p v d)"
  by (cases "fst p < length d")
    (auto simp: dims_def put2_def list_update_beyond dest!: set_update_subset_insert [THEN subsetD])

lemma put2_nth:
  "dims n k d \<Longrightarrow> fst p < n \<Longrightarrow> snd p < k \<Longrightarrow>
     put2 p v d ! fst q ! snd q = (if q = p then v else d ! fst q ! snd q)"
  by (cases p; cases q) (auto simp: dims_def put2_def nth_list_update)

lemma put2s_nth:
  assumes "dims n k d" "\<forall>p\<in>set ps. fst p < n \<and> snd p < k" "q \<in> set ps"
  shows "fold (\<lambda>p. put2 p (f p)) ps d ! fst q ! snd q = f q"
proof -
  have "dims n k (fold (\<lambda>p. put2 p (f p)) ps d)
    \<and> (\<forall>q\<in>set ps. fold (\<lambda>p. put2 p (f p)) ps d ! fst q ! snd q = f q)"
    using assms(2)
  proof (induction ps rule: rev_induct)
    case (snoc p ps)
    have D: "dims n k (fold (\<lambda>p. put2 p (f p)) ps d)" using snoc by auto
    then have "put2 p (f p) (fold (\<lambda>p. put2 p (f p)) ps d) ! fst q ! snd q = f q" if "q \<in> set (ps @ [p])" for q
      using put2_nth [OF D, of p "f p" q] that snoc by auto
    then show ?case using D by (simp add: put2_dims)
  qed (simp add: assms(1))
  then show ?thesis using assms(3) by blast
qed


section \<open>The loop of the decoder\<close>

lemma fill_row_nth: "c < length xs \<Longrightarrow> fill_row k n v xs ! c = (if k \<le> c \<and> c < k + n then v else xs ! c)"
  by (induction k n v xs rule: fill_row.induct) (auto simp: nth_list_update Suc_le_eq)

lemma fill_row_length [simp]: "length (fill_row k n v xs) = length xs"
  by (induction k n v xs rule: fill_row.induct) auto

lemma fill_rect_length [simp]: "length (fill_rect k w h v xs) = length xs"
  by (induction k w h v xs rule: fill_rect.induct) auto

lemma rect_cells_mem: "c \<in> set (rect_cells k w h) \<longleftrightarrow> (\<exists>r<h. k + 4 * r \<le> c \<and> c < k + 4 * r + w)"
proof
  assume "\<exists>r<h. k + 4 * r \<le> c \<and> c < k + 4 * r + w"
  then obtain r where r: "r < h" "k + 4 * r \<le> c" "c < k + 4 * r + w" by blast
  then have "c = k + 4 * r + (c - (k + 4 * r))" "c - (k + 4 * r) < w" by auto
  then show "c \<in> set (rect_cells k w h)" using r(1) unfolding rect_cells_def by (auto intro!: bexI [of _ r])
qed (auto simp: rect_cells_def)

lemma fill_rect_nth:
  "c < length xs \<Longrightarrow> fill_rect k w h v xs ! c = (if c \<in> set (rect_cells k w h) then v else xs ! c)"
proof (induction k w h v xs rule: fill_rect.induct)
  case (2 k w h v xs)
  have "(\<exists>r<Suc h. k + 4 * r \<le> c \<and> c < k + 4 * r + w)
    \<longleftrightarrow> (k \<le> c \<and> c < k + w) \<or> (\<exists>r<h. k + 4 + 4 * r \<le> c \<and> c < k + 4 + 4 * r + w)"
    unfolding Ex_less_Suc2 by (simp add: add.assoc)
  then show ?case using 2 by (auto simp: rect_cells_mem fill_row_nth)
qed (simp add: rect_cells_def)

definition int16_mv :: "mv \<Rightarrow> bool" where
  "int16_mv v \<longleftrightarrow> - 32768 \<le> fst v \<and> fst v \<le> 32767 \<and> - 32768 \<le> snd v \<and> snd v \<le> 32767"

lemma c_int16_id: "- 32768 \<le> x \<Longrightarrow> x \<le> 32767 \<Longrightarrow> c_int16 x = x"
  by (simp add: c_int16_def signed_take_bit_int_eq_self)

text \<open>The vectors of a partition are equal: those the encoder's motion compensation leaves.\<close>

definition mv_constant :: "AVCMacroblock \<Rightarrow> bool" where
  "mv_constant m \<longleftrightarrow> list_all (\<lambda>p. let (x, y) = part_block m (fst p) (snd p) in
     list_all (\<lambda>c. mvL0 m ! c = mv_at m x y) (part_cells m p)) (partitions m)"

lemma mv_step_dec:
  assumes m: "mv_match E D" and ap: "neighbours_apart D"
    and M: "\<And>c. c \<in> set (part_reads (currMB E) p) \<Longrightarrow> M ! c = mvL0 (currMB E) ! c"
    and d: "mvd_l0 D ! fst p ! snd p = mv_diff E p" and part: "fst p < NumMbPart (currMB E)"
    and xy: "part_block (currMB E) (fst p) (snd p) = (x, y)" and v: "int16_mv (mv_at (currMB E) x y)"
  shows "mv_step False p (with_mv M D) = with_mv (fill_rect (y * 4 + x) (SubMbPartWidth (currMB E) ! fst p div 4)
    (SubMbPartHeight (currMB E) ! fst p div 4) (mv_at (currMB E) x y) M) D"
proof -
  have cur: "currMbAddr D < length (mblock D)" using ap by (simp add: neighbours_apart_def)
  have sh: "same_shape (currMB E) (currMB (with_mv M D))" using mv_match_with_mv [OF m ap] by (simp add: mv_match_def)
  note fields = same_shape_fields(4-6) [OF sh part]
  obtain i j where p: "p = (i, j)" by (cases p)
  have "shape_block (MbPartWidth (currMB E)) (SubMbPartWidth (currMB E) ! i) p = (x, y)"
    using xy p by (simp add: shape_block_def part_block_def)
  then have pred: "mv_predictor (with_mv M D) i x (x + SubMbPartWidth (currMB E) ! i div 4 - 1) y
      = mv_predictor E i x (x + SubMbPartWidth (currMB E) ! i div 4 - 1) y"
    using M p by (intro mv_predictor_match [OF mv_match_with_mv [OF m ap]]) (simp add: part_reads_def shape_reads_def currMB_with_mv [OF cur])
  show ?thesis
    using d xy v
    by (simp add: p mv_step_def Let_def fields [unfolded p fst_conv snd_conv] pred [unfolded One_nat_def] mv_diff_def upd_currMB_with_mv [OF cur]
        int16_mv_def c_int16_id split: prod.splits)
qed

lemma part_cells_block:
  "part_block m (fst p) (snd p) = (x, y) \<Longrightarrow>
     part_cells m p = rect_cells (y * 4 + x) (SubMbPartWidth m ! fst p div 4) (SubMbPartHeight m ! fst p div 4)"
  by (cases p) (simp add: part_cells_def shape_cells_def part_block_def shape_block_def Let_def)

lemma part_cells_less:
  assumes "part_within m p" "c \<in> set (part_cells m p)" shows "c < 16"
proof -
  obtain x y where xy: "shape_block (MbPartWidth m) (SubMbPartWidth m ! fst p) p = (x, y)" by fastforce
  obtain r where "r < SubMbPartHeight m ! fst p div 4" "c < y * 4 + x + 4 * r + SubMbPartWidth m ! fst p div 4"
    using assms(2) xy by (auto simp: part_cells_def shape_cells_def rect_cells_mem)
  moreover have "x + SubMbPartWidth m ! fst p div 4 \<le> 4" "y + SubMbPartHeight m ! fst p div 4 \<le> 4"
    using assms(1) xy by (auto simp: part_within_def step_within_def)
  ultimately show ?thesis by linarith
qed

lemma part_first_cell:
  assumes "part_within m p" "part_block m (fst p) (snd p) = (x, y)" shows "y * 4 + x < 16"
proof -
  have "shape_block (MbPartWidth m) (SubMbPartWidth m ! fst p) p = (x, y)"
    using assms(2) by (cases p) (simp add: part_block_def shape_block_def)
  then show ?thesis using assms(1) by (auto simp: part_within_def step_within_def)
qed

lemma mv_steps_dec:
  assumes m: "mv_match E D" and ap: "neighbours_apart D"
    and ps: "\<And>p. p \<in> set ps \<Longrightarrow> part_within (currMB E) p \<and> mvd_l0 D ! fst p ! snd p = mv_diff E p \<and> fst p < NumMbPart (currMB E)"
    and v: "\<And>c. c < 16 \<Longrightarrow> int16_mv (mvL0 (currMB E) ! c)"
    and const: "\<And>p x y c. p \<in> set ps \<Longrightarrow> part_block (currMB E) (fst p) (snd p) = (x, y) \<Longrightarrow>
      c \<in> set (part_cells (currMB E) p) \<Longrightarrow> mvL0 (currMB E) ! c = mv_at (currMB E) x y"
    and walk: "walk (part_reads (currMB E)) (part_cells (currMB E)) known ps"
    and M: "length M = 16" "\<And>c. c \<in> set known \<Longrightarrow> c < 16 \<and> M ! c = mvL0 (currMB E) ! c"
  shows "\<exists>M'. fold (mv_step False) ps (with_mv M D) = with_mv M' D \<and> length M' = 16
    \<and> (\<forall>c\<in>set (known @ concat (map (part_cells (currMB E)) ps)). M' ! c = mvL0 (currMB E) ! c)"
  using ps const walk M
proof (induction ps arbitrary: known M)
  case (Cons p ps)
  let ?m = "currMB E"
  obtain x y where xy: "part_block ?m (fst p) (snd p) = (x, y)" by fastforce
  let ?M = "fill_rect (y * 4 + x) (SubMbPartWidth ?m ! fst p div 4) (SubMbPartHeight ?m ! fst p div 4) (mv_at ?m x y) M"
  have p: "part_within ?m p" "mvd_l0 D ! fst p ! snd p = mv_diff E p" "fst p < NumMbPart ?m" using Cons.prems(1) by auto
  have reads: "M ! c = mvL0 ?m ! c" if "c \<in> set (part_reads ?m p)" for c
    using that Cons.prems(3,5) by (auto simp: list_all_iff)
  have mv: "int16_mv (mv_at ?m x y)" using v part_first_cell [OF p(1) xy] by (simp add: mv_at_def)
  have step: "mv_step False p (with_mv M D) = with_mv ?M D"
    by (rule mv_step_dec [OF m ap reads p(2,3) xy mv])
  have cells: "part_cells ?m p = rect_cells (y * 4 + x) (SubMbPartWidth ?m ! fst p div 4) (SubMbPartHeight ?m ! fst p div 4)"
    by (rule part_cells_block [OF xy])
  have M: "c < 16 \<and> ?M ! c = mvL0 ?m ! c" if c: "c \<in> set (known @ part_cells ?m p)" for c
  proof -
    have "c < 16" using c Cons.prems(5) part_cells_less [OF p(1)] by auto
    moreover have "?M ! c = mvL0 ?m ! c"
      using c Cons.prems(5) Cons.prems(2) [of p x y c] xy \<open>c < 16\<close>
      by (auto simp: fill_rect_nth Cons.prems(4) cells [symmetric])
    ultimately show ?thesis ..
  qed
  have "\<exists>M'. fold (mv_step False) ps (with_mv ?M D) = with_mv M' D \<and> length M' = 16
    \<and> (\<forall>c\<in>set ((known @ part_cells ?m p) @ concat (map (part_cells ?m) ps)). M' ! c = mvL0 ?m ! c)"
  proof (rule Cons.IH)
    show "mvL0 ?m ! c = mv_at ?m x y"
      if "p' \<in> set ps" "part_block ?m (fst p') (snd p') = (x, y)" "c \<in> set (part_cells ?m p')" for p' x y c
      by (rule Cons.prems(2) [OF _ that(2,3)]) (use that in simp)
  qed (use Cons.prems(1,3,4) M in auto)
  then show ?case by (simp add: step)
qed auto

text \<open>The vectors the encoder has chosen for an inter macroblock.\<close>

definition mv_target :: "AVCMacroblock \<Rightarrow> bool" where
  "mv_target m \<longleftrightarrow> length (mvL0 m) = 16 \<and> list_all int16_mv (mvL0 m) \<and> inter_shape m \<and> mv_constant m"

lemma mv_loop_restores:
  assumes m: "mv_match E D" and ap: "neighbours_apart D" and t: "mv_target (currMB E)" and M: "length (mvL0 (currMB D)) = 16"
    and d: "\<And>p. p \<in> set (partitions (currMB E)) \<Longrightarrow> mvd_l0 D ! fst p ! snd p = mv_diff E p"
  shows "fold (mv_step False) (partitions (currMB E)) D = with_mv (mvL0 (currMB E)) D"
proof -
  let ?m = "currMB E" and ?ps = "partitions (currMB E)"
  have cur: "currMbAddr D < length (mblock D)" using ap by (simp add: neighbours_apart_def)
  have t': "length (mvL0 ?m) = 16" "list_all int16_mv (mvL0 ?m)" "mv_constant ?m" "mv_order ?m"
    using t inter_shape_order by (simp_all add: mv_target_def)
  have "\<exists>M'. fold (mv_step False) ?ps (with_mv (mvL0 (currMB D)) D) = with_mv M' D \<and> length M' = 16
    \<and> (\<forall>c\<in>set ([] @ concat (map (part_cells ?m) ?ps)). M' ! c = mvL0 ?m ! c)"
  proof (rule mv_steps_dec [OF m ap])
    show "part_within ?m p \<and> mvd_l0 D ! fst p ! snd p = mv_diff E p \<and> fst p < NumMbPart ?m" if "p \<in> set ?ps" for p
      using that t'(4) d by (auto simp: mv_order_def partitions_def)
    show "int16_mv (mvL0 ?m ! c)" if "c < 16" for c using t'(1,2) that by (auto simp: list_all_length)
    show "mvL0 ?m ! c = mv_at ?m x y" if "p \<in> set ?ps" "part_block ?m (fst p) (snd p) = (x, y)" "c \<in> set (part_cells ?m p)" for p x y c
      using t'(3) that unfolding mv_constant_def list_all_iff by fastforce
    show "walk (part_reads ?m) (part_cells ?m) [] ?ps" using t'(4) unfolding mv_order_def by blast
  qed (use M in auto)
  then obtain M' where M': "fold (mv_step False) ?ps D = with_mv M' D" "length M' = 16"
      "\<And>c. c \<in> set (concat (map (part_cells ?m) ?ps)) \<Longrightarrow> M' ! c = mvL0 ?m ! c"
    unfolding with_mv_same [OF cur] by auto
  have "M' ! i = mvL0 ?m ! i" if "i < 16" for i
    using t'(4) that by (intro M'(3)) (auto simp: mv_order_def simp del: set_concat)
  then have "M' = mvL0 ?m" using M'(2) t'(1) by (intro nth_equalityI) auto
  then show ?thesis using M'(1) by simp
qed

section \<open>The whole operation\<close>

lemma inter_shape_parts: "inter_shape m \<Longrightarrow> p \<in> set (partitions m) \<Longrightarrow> fst p < 4 \<and> snd p < 4"
proof -
  assume m: "inter_shape m" and p: "p \<in> set (partitions m)"
  then have "fst p < NumMbPart m" "snd p < NumSubMbPart m ! fst p" by (auto simp: partitions_def)
  moreover have "NumMbPart m \<le> 4" using m by (auto simp: inter_shape_def)
  moreover have "NumSubMbPart m ! i \<le> 4" if "i < NumMbPart m" for i
  proof -
    have i: "i \<in> set [0, 1, 2, 3]" using that \<open>NumMbPart m \<le> 4\<close> by auto
    have "fst (sub_shape m i) \<le> 4"
    proof (cases "NumMbPart m = 4")
      case True
      then have "sub_shape m i \<in> set quarter_shapes" using m i unfolding inter_shape_def list_all_iff by auto
      then show ?thesis by (auto simp: quarter_shapes_def)
    next
      case False
      then have "i = 0 \<or> i = 1 \<and> NumMbPart m = 2" using m that by (auto simp: inter_shape_def)
      then show ?thesis using m False by (auto simp: inter_shape_def)
    qed
    then show ?thesis by (simp add: sub_shape_def)
  qed
  ultimately show ?thesis by (meson le_less_trans less_le_trans)
qed

text \<open>The differences after the encoder's run.\<close>

lemma GetMotionVectorPredictor_enc:
  assumes mode: "mbMode (currMB E) \<noteq> AVC_SKIP" and t: "inter_shape (currMB E)" and dims: "dims 4 4 (mvd_l0 E)"
  shows "GetMotionVectorPredictor True E = E\<lparr>mvd_l0 := mvd_l0 (GetMotionVectorPredictor True E)\<rparr>"
    "dims 4 4 (mvd_l0 (GetMotionVectorPredictor True E))"
    "p \<in> set (partitions (currMB E)) \<Longrightarrow> mvd_l0 (GetMotionVectorPredictor True E) ! fst p ! snd p = mv_diff E p"
proof -
  let ?ps = "partitions (currMB E)"
  have e: "GetMotionVectorPredictor True E = E\<lparr>mvd_l0 := fold (\<lambda>p. put2 p (mv_diff E p)) ?ps (mvd_l0 E)\<rparr>"
    using mode mv_steps_enc [where ps = ?ps and ob = E and d = "mvd_l0 E"] by (simp add: GetMotionVectorPredictor_def Let_def)
  then show "GetMotionVectorPredictor True E = E\<lparr>mvd_l0 := mvd_l0 (GetMotionVectorPredictor True E)\<rparr>" by simp
  have "dims 4 4 (fold (\<lambda>p. put2 p (mv_diff E p)) ps (mvd_l0 E))" for ps
    by (induction ps rule: rev_induct) (simp_all add: dims put2_dims)
  then show "dims 4 4 (mvd_l0 (GetMotionVectorPredictor True E))" unfolding e by simp
  have "\<forall>p\<in>set ?ps. fst p < 4 \<and> snd p < 4" using inter_shape_parts [OF t] by blast
  from put2s_nth [where f = "mv_diff E", OF dims this]
  show "p \<in> set ?ps \<Longrightarrow> mvd_l0 (GetMotionVectorPredictor True E) ! fst p ! snd p = mv_diff E p" unfolding e by simp
qed

lemma GetMotionVectorPredictor_restores:
  assumes m: "mv_match E D" and ap: "neighbours_apart D" and t: "mv_target (currMB E)" and M: "length (mvL0 (currMB D)) = 16"
    and dims: "dims 4 4 (mvd_l0 E)" and mode: "mbMode (currMB E) \<noteq> AVC_SKIP" "mbMode (currMB D) \<noteq> AVC_SKIP"
    and d: "\<And>p. p \<in> set (partitions (currMB E)) \<Longrightarrow>
      mvd_l0 D ! fst p ! snd p = mvd_l0 (GetMotionVectorPredictor True E) ! fst p ! snd p"
  shows "GetMotionVectorPredictor False D = with_mv (mvL0 (currMB E)) D"
proof -
  have "partitions (currMB D) = partitions (currMB E)"
    using m same_shape_fields(3) by (simp add: mv_match_def)
  then have "GetMotionVectorPredictor False D = fold (mv_step False) (partitions (currMB E)) D"
    using mode(2) by (simp add: GetMotionVectorPredictor_def Let_def)
  also have "\<dots> = with_mv (mvL0 (currMB E)) D"
    using d GetMotionVectorPredictor_enc(3) [OF mode(1) _ dims] t
    by (intro mv_loop_restores [OF m ap t M]) (simp add: mv_target_def)
  finally show ?thesis .
qed

end
