(* ===== verification/MbResidual.thy ===== *)
theory MbResidual
  imports EncMb TransformRoundtrip MvRoundtrip
begin

text \<open>
  The residual of a whole macroblock: the blocks that \<open>EncodeMB\<close> writes are those that \<open>residual\<close> of the decoder reads, in
  the same order and with the same number of neighbouring coefficients for each, although the decoder knows only the
  blocks before it.
\<close>

section \<open>One block after the other\<close>

lemma coded_seq:
  assumes "coded e d (AVCDEC_SUCCESS, x) bs" "coded f (g x) y cs"
  shows "coded (\<lambda>s. do { (st, s1) \<leftarrow> e s; if st \<noteq> AVCENC_SUCCESS then Some (st, s1) else f s1 }) (on_success d g) y (bs @ cs)"
proof -
  have "enc_emits (\<lambda>s. do { (st, s1) \<leftarrow> e s; if st \<noteq> AVCENC_SUCCESS then Some (st, s1) else f s1 }) (bs @ cs)"
    by (rule emits_seq) (use assms in \<open>simp_all add: coded_def\<close>)
  moreover have "consumes dec_inv dec_bits (on_success d g) (bs @ cs) y"
    unfolding on_success_def [abs_def] case_prod_unfold
    by (rule consumes_bind [where x = "(AVCDEC_SUCCESS, x)", unfolded case_prod_unfold]) (use assms in \<open>simp_all add: coded_def\<close>)
  ultimately show ?thesis by (simp add: coded_def)
qed

lemma coded_nil: "coded (\<lambda>s. Some (AVCENC_SUCCESS, s)) (\<lambda>s. Some (x, s)) x []"
  by (simp add: coded_def emits_return consumes_return)

lemma no_blocks:
  "enc_blocks malloc enc ob [] AVCENC_SUCCESS = (\<lambda>s. Some (AVCENC_SUCCESS, s))"
  "each_block f [] x = (\<lambda>s. Some ((AVCDEC_SUCCESS, x), s))"
  "each_block f (b # bs) x = on_success (f b x) (each_block f bs)"
  by (rule ext, simp)+

lemma enc_blocks_Cons:
  "enc_blocks malloc enc ob (b # bs) AVCENC_SUCCESS =
     (\<lambda>s. do { (st, s1) \<leftarrow> enc_residual_block malloc enc ob (fst b) (snd b) s;
               if st \<noteq> AVCENC_SUCCESS then Some (st, s1) else enc_blocks malloc enc ob bs AVCENC_SUCCESS s1 })"
  by (cases b) (auto simp: fun_eq_iff split: Option.bind_split)

lemma enc_blocks_append:
  "enc_blocks malloc enc ob (as @ bs) AVCENC_SUCCESS =
     (\<lambda>s. do { (st, s1) \<leftarrow> enc_blocks malloc enc ob as AVCENC_SUCCESS s;
               if st \<noteq> AVCENC_SUCCESS then Some (st, s1) else enc_blocks malloc enc ob bs AVCENC_SUCCESS s1 })"
proof (induction as)
  case (Cons a as)
  show ?case unfolding append_Cons enc_blocks_Cons Cons.IH by (auto simp: fun_eq_iff split: Option.bind_split)
qed (auto simp: fun_eq_iff)

section \<open>The coefficients of the decoder\<close>

definition with_coeffs :: "int list \<Rightarrow> int list \<Rightarrow> AVCMbObj \<Rightarrow> AVCMbObj" where
  "with_coeffs nz B D = (upd_currMB (\<lambda>m. m\<lparr>nz_coeff := nz\<rparr>) D)\<lparr>mb_block := B\<rparr>"

text \<open>Numbers of coefficients, coefficients, \<open>cbp4x4\<close>.\<close>

type_synonym coeff_triple = "int list \<times> int list \<times> uint"

definition dec_state :: "AVCMbObj \<Rightarrow> coeff_triple \<Rightarrow> coeff_state" where
  "dec_state D t = (case t of (nz, B, cbp) \<Rightarrow> (with_coeffs nz B D, cbp))"

lemma dec_state_parts: "fst (dec_state D (nz, B, cbp)) = with_coeffs nz B D" "snd (dec_state D (nz, B, cbp)) = cbp"
  by (simp_all add: dec_state_def)

lemma with_coeffs_fields [simp]:
  "mb_block (with_coeffs nz B D) = B" "currMbAddr (with_coeffs nz B D) = currMbAddr D"
  "v_QPy_div_6 (with_coeffs nz B D) = v_QPy_div_6 D" "v_QPy_mod_6 (with_coeffs nz B D) = v_QPy_mod_6 D"
  "v_QPc_div_6 (with_coeffs nz B D) = v_QPc_div_6 D" "v_QPc_mod_6 (with_coeffs nz B D) = v_QPc_mod_6 D"
  "mbAvailA (with_coeffs nz B D) = mbAvailA D" "mbAvailB (with_coeffs nz B D) = mbAvailB D"
  "mbAddrA (with_coeffs nz B D) = mbAddrA D" "mbAddrB (with_coeffs nz B D) = mbAddrB D"
  "(with_coeffs nz B D)\<lparr>mb_block := C\<rparr> = with_coeffs nz C D"
  by (simp_all add: with_coeffs_def upd_currMB_def)

lemma with_coeffs_nz:
  "currMbAddr D < length (mblock D) \<Longrightarrow> nz_coeff (currMB (with_coeffs nz B D)) = nz"
  "currMbAddr D < length (mblock D) \<Longrightarrow> upd_currMB (\<lambda>m. m\<lparr>nz_coeff := f (nz_coeff m)\<rparr>) (with_coeffs nz B D) = with_coeffs (f nz) B D"
  "k \<noteq> currMbAddr D \<Longrightarrow> mblock (with_coeffs nz B D) ! k = mblock D ! k"
  by (simp_all add: with_coeffs_def upd_currMB_def currMB_def)

definition place_of :: "(nat \<Rightarrow> int \<Rightarrow> int list \<Rightarrow> int list) \<Rightarrow> int \<Rightarrow> int \<Rightarrow> int list \<Rightarrow> int list \<Rightarrow> nat \<Rightarrow> int list \<Rightarrow> int list" where
  "place_of put limit start lv rn n B =
     (case place_coeffs put limit start (zip (take n lv) (take n rn)) B of Some (_, D) \<Rightarrow> D | None \<Rightarrow> B)"

text \<open>Nothing goes beyond the scan.\<close>

lemma place_total:
  assumes "list_all (\<lambda>r. 0 \<le> r) rn" "length rn = length lv" "- 1 \<le> start" "start + int (length lv) + sum_list rn \<le> limit"
  shows "\<exists>D. place_coeffs put limit start (zip lv rn) B = Some (AVCDEC_SUCCESS, D)"
  using assms
proof (induction lv arbitrary: rn start B)
  case (Cons v lv)
  then obtain r rs where rn: "rn = r # rs" by (cases rn) auto
  have "0 \<le> sum_list rs" using Cons.prems(1) rn by (auto simp: list_all_iff intro: sum_list_nonneg)
  then show ?case using Cons.prems Cons.IH [of rs "start + (r + 1)"] by (simp add: rn Let_def algebra_simps)
qed simp

lemma block_read:
  assumes ok: "coeffs_ok mx lv rn n" and kind: "block_kind cdc nC mx" and lim: "limit = start + mx" "- 1 \<le> start"
  shows "\<exists>bs. coded (put_coeffs malloc cdc nC lv rn (int n) mx) (read_block nC mx put limit start fin x)
    (AVCDEC_SUCCESS, fin (int n) ((fst x)\<lparr>mb_block := place_of put limit start lv rn n (mb_block (fst x))\<rparr>, snd x)) bs"
proof -
  obtain bs where bs: "coded (put_coeffs malloc cdc nC lv rn (int n) mx) (\<lambda>s. residual_block_cavlc s nC mx)
      (rev (take n lv), rev (take n rn), int n) bs"
    using block_coded [OF ok kind] by blast
  have len: "n \<le> length lv" "n \<le> length rn" "int n + sum_list (take n rn) \<le> mx" "list_all (\<lambda>r. 0 \<le> r) (take n rn)"
    using ok by (simp_all add: coeffs_ok_def)
  have "\<exists>D. place_coeffs put limit start (zip (take n lv) (take n rn)) (mb_block (fst x)) = Some (AVCDEC_SUCCESS, D)"
    by (rule place_total) (use len lim in simp_all)
  then obtain D where D: "place_coeffs put limit start (zip (take n lv) (take n rn)) (mb_block (fst x)) = Some (AVCDEC_SUCCESS, D)"
    by blast
  have "consumes dec_inv dec_bits (read_block nC mx put limit start fin x) bs (AVCDEC_SUCCESS, fin (int n) ((fst x)\<lparr>mb_block := D\<rparr>, snd x))"
    by (rule read_block_consumes) (use bs D in \<open>auto simp: coded_def from_last_def\<close>)
  then show ?thesis using bs D by (auto simp: coded_def place_of_def)
qed

section \<open>The number of neighbouring coefficients\<close>

definition nz_ok :: "AVCMacroblock \<Rightarrow> bool" where
  "nz_ok m \<longleftrightarrow> length (nz_coeff m) = 24 \<and> list_all (\<lambda>n. 0 \<le> n) (nz_coeff m)"

text \<open>The two objects have the same neighbours, as far as they are available.\<close>

definition nz_around :: "AVCMbObj \<Rightarrow> AVCMbObj \<Rightarrow> bool" where
  "nz_around E D \<longleftrightarrow> mbAvailA E = mbAvailA D \<and> mbAvailB E = mbAvailB D
     \<and> (mbAvailA E \<longrightarrow> nz_coeff (mbA E) = nz_coeff (mbA D) \<and> nz_ok (mbA E))
     \<and> (mbAvailB E \<longrightarrow> nz_coeff (mbB E) = nz_coeff (mbB D) \<and> nz_ok (mbB E))"

definition luma_at :: "nat \<Rightarrow> nat" where
  "luma_at k = (case coded_block_xy k of (i, j) \<Rightarrow> 4 * j + i)"

definition chroma_xy :: "nat \<Rightarrow> nat \<times> nat" where
  "chroma_xy k = (2 * (k div 4) + k mod 2, 4 + k mod 4 div 2)"

definition chroma_at :: "nat \<Rightarrow> nat" where
  "chroma_at k = (case chroma_xy k of (i, j) \<Rightarrow> 4 * j + i)"

text \<open>Blocks are coded after the blocks on their left and above.\<close>

definition luma_ok :: "nat \<Rightarrow> nat \<times> nat \<Rightarrow> bool" where
  "luma_ok k ij = (case ij of (i, j) \<Rightarrow> i < 4 \<and> j < 4
     \<and> (i \<noteq> 0 \<longrightarrow> list_ex (\<lambda>k'. luma_at k' = j * 4 + i - 1) [0..<k]) \<and> (j \<noteq> 0 \<longrightarrow> list_ex (\<lambda>k'. luma_at k' = (j - 1) * 4 + i) [0..<k])
     \<and> blk_at (int k) = Some (int (luma_at k)) \<and> luma_at k mod 4 = i \<and> luma_at k div 4 = j \<and> luma_at k < 16)"

definition chroma_ok :: "nat \<Rightarrow> nat \<times> nat \<Rightarrow> bool" where
  "chroma_ok k ij = (case ij of (i, j) \<Rightarrow> i < 4 \<and> 4 \<le> j \<and> j < 6
     \<and> (odd i \<longrightarrow> list_ex (\<lambda>k'. chroma_at k' = j * 4 + i - 1) [0..<k]) \<and> (odd j \<longrightarrow> list_ex (\<lambda>k'. chroma_at k' = (j - 1) * 4 + i) [0..<k])
     \<and> map_option (\<lambda>b. 16 + b) (blk_at (int k)) = Some (int (chroma_at k)) \<and> chroma_at k mod 4 = i \<and> chroma_at k div 4 = j
     \<and> 16 \<le> chroma_at k \<and> chroma_at k < 24)"

lemma order_chk:
  "list_all (\<lambda>k. luma_ok k (coded_block_xy k)) [0..<16]" "list_all (\<lambda>k. chroma_ok k (chroma_xy k)) [0..<8]"
  by code_simp+

lemma luma_order:
  assumes "k < 16" "coded_block_xy k = (i, j)"
  shows "i < 4" "j < 4" "i \<noteq> 0 \<Longrightarrow> \<exists>k'<k. luma_at k' = j * 4 + i - 1" "j \<noteq> 0 \<Longrightarrow> \<exists>k'<k. luma_at k' = (j - 1) * 4 + i"
    "blk_at (int k) = Some (int (luma_at k))" "luma_at k mod 4 = i" "luma_at k div 4 = j" "luma_at k < 16"
proof -
  have "luma_ok k (coded_block_xy k)" using order_chk(1) assms(1) by (simp add: list_all_iff)
  then have ok: "luma_ok k (i, j)" by (simp only: assms(2))
  show "i < 4" "j < 4" "i \<noteq> 0 \<Longrightarrow> \<exists>k'<k. luma_at k' = j * 4 + i - 1" "j \<noteq> 0 \<Longrightarrow> \<exists>k'<k. luma_at k' = (j - 1) * 4 + i"
    "blk_at (int k) = Some (int (luma_at k))" "luma_at k mod 4 = i" "luma_at k div 4 = j" "luma_at k < 16"
    using ok unfolding luma_ok_def prod.case list_ex_iff by auto
qed

lemma chroma_order:
  assumes "k < 8" "chroma_xy k = (i, j)"
  shows "i < 4" "4 \<le> j" "j < 6" "odd i \<Longrightarrow> \<exists>k'<k. chroma_at k' = j * 4 + i - 1" "odd j \<Longrightarrow> \<exists>k'<k. chroma_at k' = (j - 1) * 4 + i"
    "map_option (\<lambda>b. 16 + b) (blk_at (int k)) = Some (int (chroma_at k))" "chroma_at k mod 4 = i" "chroma_at k div 4 = j"
    "16 \<le> chroma_at k" "chroma_at k < 24"
proof -
  have "chroma_ok k (chroma_xy k)" using order_chk(2) assms(1) by (simp add: list_all_iff)
  then have ok: "chroma_ok k (i, j)" by (simp only: assms(2))
  show "i < 4" "4 \<le> j" "j < 6" "odd i \<Longrightarrow> \<exists>k'<k. chroma_at k' = j * 4 + i - 1" "odd j \<Longrightarrow> \<exists>k'<k. chroma_at k' = (j - 1) * 4 + i"
    "map_option (\<lambda>b. 16 + b) (blk_at (int k)) = Some (int (chroma_at k))" "chroma_at k mod 4 = i" "chroma_at k div 4 = j"
    "16 \<le> chroma_at k" "chroma_at k < 24"
    using ok unfolding chroma_ok_def prod.case list_ex_iff by auto
qed

lemma at_inj_chk:
  "list_all (\<lambda>k. list_all (\<lambda>k'. luma_at k = luma_at k' \<longrightarrow> k = k') [0..<16]) [0..<16]"
  "list_all (\<lambda>k. list_all (\<lambda>k'. chroma_at k = chroma_at k' \<longrightarrow> k = k') [0..<8]) [0..<8]"
  by code_simp+

lemma luma_inj: "k < 16 \<Longrightarrow> k' < 16 \<Longrightarrow> luma_at k = luma_at k' \<Longrightarrow> k = k'"
  and chroma_inj: "k < 8 \<Longrightarrow> k' < 8 \<Longrightarrow> chroma_at k = chroma_at k' \<Longrightarrow> k = k'"
  using at_inj_chk by (simp_all add: list_all_iff)

lemma predict_nnz_match:
  assumes "nz_around E D" "currMbAddr D < length (mblock D)" "neighbours_apart D"
    and "i \<noteq> 0 \<Longrightarrow> nz ! (j * 4 + i - 1) = nz_coeff (currMB E) ! (j * 4 + i - 1)"
    and "j \<noteq> 0 \<Longrightarrow> nz ! ((j - 1) * 4 + i) = nz_coeff (currMB E) ! ((j - 1) * 4 + i)"
  shows "predict_nnz (with_coeffs nz B D) i j = predict_nnz E i j"
  using assms unfolding predict_nnz_def
  by (cases "i = 0"; cases "j = 0") (simp_all add: nz_around_def with_coeffs_nz neighbours_apart_def)

lemma predict_nnz_chroma_match:
  assumes "nz_around E D" "currMbAddr D < length (mblock D)" "neighbours_apart D"
    and "odd i \<Longrightarrow> nz ! (j * 4 + i - 1) = nz_coeff (currMB E) ! (j * 4 + i - 1)"
    and "odd j \<Longrightarrow> nz ! ((j - 1) * 4 + i) = nz_coeff (currMB E) ! ((j - 1) * 4 + i)"
  shows "predict_nnz_chroma (with_coeffs nz B D) i j = predict_nnz_chroma E i j"
  using assms unfolding predict_nnz_chroma_def
  by (cases "odd i"; cases "odd j") (simp_all add: nz_around_def with_coeffs_nz neighbours_apart_def)

lemma nz_ok_nth: "nz_ok m \<Longrightarrow> k < 24 \<Longrightarrow> 0 \<le> nz_coeff m ! k"
  by (simp add: nz_ok_def list_all_length)

lemma nnz_nonneg_pair:
  fixes p :: "int \<times> nat" and q :: "int \<Rightarrow> nat \<Rightarrow> int \<times> nat"
  assumes "0 \<le> fst p" "\<And>a n. p = (a, n) \<Longrightarrow> 0 \<le> fst (q a n)"
  shows "0 \<le> (let (p, cnt) = p; (q, cnt') = q p cnt in if cnt' = 2 then (q + 1) div 2 else q)"
  using assms by (auto simp: Let_def split: prod.splits)

lemma predict_nnz_nonneg:
  assumes "nz_around E D" "nz_ok (currMB E)" "i < 4" "j < 4"
  shows "0 \<le> predict_nnz E i j"
proof -
  have A: "mbAvailA E \<Longrightarrow> nz_ok (mbA E)" "mbAvailB E \<Longrightarrow> nz_ok (mbB E)" using assms(1) by (simp_all add: nz_around_def)
  show ?thesis unfolding predict_nnz_def
    by (rule nnz_nonneg_pair)
      (use assms(3,4) in \<open>auto intro!: add_nonneg_nonneg nz_ok_nth assms(2) A split: if_splits dest: nz_ok_nth\<close>)
qed

lemma predict_nnz_chroma_nonneg:
  assumes "nz_around E D" "nz_ok (currMB E)" "i < 4" "j < 6"
  shows "0 \<le> predict_nnz_chroma E i j"
proof -
  have A: "mbAvailA E \<Longrightarrow> nz_ok (mbA E)" "mbAvailB E \<Longrightarrow> nz_ok (mbB E)" using assms(1) by (simp_all add: nz_around_def)
  have i: "even i \<Longrightarrow> j * 4 + i + 1 < 24" "j * 4 + i - 1 < 24" "(j - 1) * 4 + i < 24" "20 + i < 24" using assms(3,4) by (auto elim: evenE)
  show ?thesis unfolding predict_nnz_chroma_def
    by (rule nnz_nonneg_pair)
      (use i in \<open>auto intro!: add_nonneg_nonneg nz_ok_nth assms(2) A split: if_splits dest: nz_ok_nth\<close>)
qed

section \<open>A row of blocks\<close>

text \<open>The decoder has the numbers of the blocks \<open>0 \<dots> n - 1\<close> of \<open>N\<close>, and none yet for the others.\<close>

definition agree :: "nat \<Rightarrow> (nat \<Rightarrow> nat) \<Rightarrow> int list \<Rightarrow> nat \<Rightarrow> int list \<Rightarrow> bool" where
  "agree N bl nzE n nz \<longleftrightarrow> length nz = 24 \<and> (\<forall>k<n. nz ! bl k = nzE ! bl k) \<and> (\<forall>k. n \<le> k \<and> k < N \<longrightarrow> nz ! bl k = 0)"

lemma agree_next:
  assumes "agree N bl nzE n nz" "n < N" "inj_on bl {..<N}" "bl n < 24"
  shows "agree N bl nzE (Suc n) (nz[bl n := nzE ! bl n])"
proof -
  have "bl k \<noteq> bl n" if "k < N" "k \<noteq> n" for k using assms(2,3) that by (auto dest: inj_onD)
  moreover from this have "bl n \<noteq> bl k" if "k < N" "k \<noteq> n" for k using that by metis
  ultimately show ?thesis using assms by (auto simp: agree_def less_Suc_eq)
qed

lemma agree_skip: "agree N bl nzE n nz \<Longrightarrow> n < N \<Longrightarrow> nzE ! bl n = 0 \<Longrightarrow> agree N bl nzE (Suc n) nz"
  by (auto simp: agree_def less_Suc_eq)

definition block_step :: "nat \<Rightarrow> nat \<Rightarrow> int \<Rightarrow> AVCEncCoeffs \<Rightarrow> int list \<Rightarrow> nat \<Rightarrow> nat \<Rightarrow> coeff_triple \<Rightarrow> coeff_triple" where
  "block_step Rq Qq start enc nzE c b t = (case t of (nz, B, cbp) \<Rightarrow>
     (nz[b := nzE ! b],
      place_of (put_scaled Rq Qq (64 * (b div 4) + 4 * (b mod 4))) 15 (start - 1) (enc_level enc ! c) (AVCEncCoeffs.enc_run enc ! c) (nat (nzE ! b)) B,
      if nzE ! b \<noteq> 0 then cbp OR push_bit b 1 else cbp))"

lemma block_step_nz: "fst (block_step Rq Qq start enc nzE c b t) = (fst t)[b := nzE ! b]"
  by (cases t) (simp add: block_step_def)

lemma blocks_coded:
  assumes inj: "inj_on bl {..<N}" "\<And>k. k < N \<Longrightarrow> bl k < 24"
    and skip: "\<And>k. k < N \<Longrightarrow> \<not> P k \<Longrightarrow> nzE ! bl k = 0"
    and read: "\<And>k t. k < N \<Longrightarrow> P k \<Longrightarrow> agree N bl nzE k (fst t) \<Longrightarrow>
      \<exists>bs. coded (enc_residual_block malloc enc E ty (cx k)) (dpar (xy k) (dec_state D t))
        (AVCDEC_SUCCESS, dec_state D (block_step Rq Qq start enc nzE (c k) (bl k) t)) bs"
    and t: "agree N bl nzE 0 (fst t)"
  shows "(\<exists>bs. coded (enc_blocks malloc enc E (map (\<lambda>k. (ty, cx k)) (filter P [0..<N])) AVCENC_SUCCESS)
      (each_block dpar (map xy (filter P [0..<N])) (dec_state D t))
      (AVCDEC_SUCCESS, dec_state D (fold (\<lambda>k. block_step Rq Qq start enc nzE (c k) (bl k)) (filter P [0..<N]) t)) bs)
    \<and> agree N bl nzE N (fst (fold (\<lambda>k. block_step Rq Qq start enc nzE (c k) (bl k)) (filter P [0..<N]) t))"
proof -
  let ?R = "\<lambda>n t. fold (\<lambda>k. block_step Rq Qq start enc nzE (c k) (bl k)) (filter P [n..<N]) t"
  have "(\<exists>bs. coded (enc_blocks malloc enc E (map (\<lambda>k. (ty, cx k)) (filter P [n..<N])) AVCENC_SUCCESS)
      (each_block dpar (map xy (filter P [n..<N])) (dec_state D t)) (AVCDEC_SUCCESS, dec_state D (?R n t)) bs)
    \<and> agree N bl nzE N (fst (?R n t))" if "n \<le> N" "agree N bl nzE n (fst t)" for n t
    using that
  proof (induction n arbitrary: t rule: inc_induct)
    case base
    have "coded (enc_blocks malloc enc E [] AVCENC_SUCCESS) (each_block dpar [] (dec_state D t)) (AVCDEC_SUCCESS, dec_state D t) []"
      unfolding no_blocks by (rule coded_nil)
    then show ?case using base by (auto simp del: enc_blocks.simps each_block.simps)
  next
    case (step n)
    have ns: "[n..<N] = n # [Suc n..<N]" using step.hyps by (simp add: upt_conv_Cons)
    show ?case
    proof (cases "P n")
      case True
      let ?t = "block_step Rq Qq start enc nzE (c n) (bl n) t"
      obtain as where a: "coded (enc_residual_block malloc enc E ty (cx n)) (dpar (xy n) (dec_state D t)) (AVCDEC_SUCCESS, dec_state D ?t) as"
        using read [OF _ True step.prems] step.hyps by blast
      have "agree N bl nzE (Suc n) (fst ?t)"
        using agree_next [OF step.prems _ inj(1) inj(2)] step.hyps by (simp add: block_step_nz)
      from step.IH [OF this] obtain bs where
        b: "coded (enc_blocks malloc enc E (map (\<lambda>k. (ty, cx k)) (filter P [Suc n..<N])) AVCENC_SUCCESS)
          (each_block dpar (map xy (filter P [Suc n..<N])) (dec_state D ?t)) (AVCDEC_SUCCESS, dec_state D (?R (Suc n) ?t)) bs"
        and c: "agree N bl nzE N (fst (?R (Suc n) ?t))" by blast
      show ?thesis using coded_seq [OF a, where g = "each_block dpar (map xy (filter P [Suc n..<N]))", OF b] c True
        by (auto simp: ns enc_blocks_Cons no_blocks(3))
    next
      case False
      have "agree N bl nzE (Suc n) (fst t)" using agree_skip [OF step.prems] skip [OF _ False] step.hyps by simp
      then show ?thesis using step.IH [of t] False by (simp add: ns)
    qed
  qed
  from this [of 0 t] t show ?thesis by simp
qed

section \<open>The coefficients of the encoder\<close>

definition luma_coded :: "AVCMacroblock \<Rightarrow> nat \<Rightarrow> bool" where
  "luma_coded m k \<longleftrightarrow> CBP m AND push_bit (k div 4) 1 \<noteq> 0"

definition chroma_dc_coded :: "AVCMacroblock \<Rightarrow> bool" where
  "chroma_dc_coded m \<longleftrightarrow> CBP m AND push_bit 4 3 \<noteq> 0"

definition chroma_ac_coded :: "AVCMacroblock \<Rightarrow> bool" where
  "chroma_ac_coded m \<longleftrightarrow> CBP m AND push_bit 4 2 \<noteq> 0"

definition luma_size :: "AVCMacroblock \<Rightarrow> int" where
  "luma_size m = (if mbMode m = AVC_I16 then 15 else 16)"

text \<open>What transform and quantisation leave: the numbers of the blocks that are not coded are zero.\<close>

definition coeffs_valid :: "AVCEncCoeffs \<Rightarrow> AVCMacroblock \<Rightarrow> bool" where
  "coeffs_valid enc m \<longleftrightarrow> nz_ok m \<and> length (enc_level enc) = 24 \<and> length (AVCEncCoeffs.enc_run enc) = 24
   \<and> list_all (\<lambda>k. if luma_coded m k
        then coeffs_ok (luma_size m) (enc_level enc ! k) (AVCEncCoeffs.enc_run enc ! k) (nat (nz_coeff m ! luma_at k))
        else nz_coeff m ! luma_at k = 0) [0..<16]
   \<and> list_all (\<lambda>k. if chroma_ac_coded m
        then coeffs_ok 15 (enc_level enc ! (16 + k)) (AVCEncCoeffs.enc_run enc ! (16 + k)) (nat (nz_coeff m ! chroma_at k))
        else nz_coeff m ! chroma_at k = 0) [0..<8]
   \<and> (mbMode m = AVC_I16 \<longrightarrow> 0 \<le> numcoefdc enc \<and> coeffs_ok 16 (leveldc enc) (rundc enc) (nat (numcoefdc enc)))
   \<and> (chroma_dc_coded m \<longrightarrow> list_all (\<lambda>c. 0 \<le> numcoefcdc enc ! c \<and> numcoefcdc enc ! c \<le> 4
        \<and> coeffs_ok 4 (drop (4 * c) (levelcdc enc)) (drop (4 * c) (runcdc enc)) (nat (numcoefcdc enc ! c))) [0, 1])"

definition chroma_dc_step :: "nat \<Rightarrow> nat \<Rightarrow> AVCEncCoeffs \<Rightarrow> nat \<Rightarrow> coeff_triple \<Rightarrow> coeff_triple" where
  "chroma_dc_step Rq Qq enc c t = (case t of (nz, B, cbp) \<Rightarrow>
     let n = numcoefcdc enc ! c;
         D = place_of (put_dc_chroma (256 + 8 * c)) 3 (- 1) (drop (4 * c) (levelcdc enc)) (drop (4 * c) (runcdc enc)) (nat n) B
     in if n \<noteq> 0 then (nz, ChromaDCTrans (256 + 8 * c) Qq Rq D, cbp OR (if c \<noteq> 0 then 0xcc0000 else 0x330000)) else (nz, D, cbp))"

definition dc16_step :: "nat \<Rightarrow> nat \<Rightarrow> AVCEncCoeffs \<Rightarrow> coeff_triple \<Rightarrow> coeff_triple" where
  "dc16_step Rq Qq enc t = (case t of (nz, B, cbp) \<Rightarrow>
     let D = place_of put_dc16 15 (- 1) (leveldc enc) (rundc enc) (nat (numcoefdc enc)) B
     in if numcoefdc enc \<noteq> 0 then (nz, Intra16DCTrans Qq Rq D, 0xFFFF) else (nz, D, cbp))"

text \<open>The coefficients that the levels and runs of the macroblock stand for.\<close>

definition luma_step :: "nat \<Rightarrow> nat \<Rightarrow> AVCEncCoeffs \<Rightarrow> AVCMacroblock \<Rightarrow> nat \<Rightarrow> coeff_triple \<Rightarrow> coeff_triple" where
  "luma_step Rq Qq enc m k = block_step Rq Qq (of_bool (mbMode m = AVC_I16)) enc (nz_coeff m) k (luma_at k)"

definition chroma_step :: "nat \<Rightarrow> nat \<Rightarrow> AVCEncCoeffs \<Rightarrow> AVCMacroblock \<Rightarrow> nat \<Rightarrow> coeff_triple \<Rightarrow> coeff_triple" where
  "chroma_step Rq Qq enc m k = block_step Rq Qq 1 enc (nz_coeff m) (16 + k) (chroma_at k)"

definition coeffs_of :: "AVCEncCoeffs \<Rightarrow> AVCMacroblock \<Rightarrow> AVCMbObj \<Rightarrow> coeff_triple" where
  "coeffs_of enc m D =
     (let Ry = nat (v_QPy_mod_6 D); Qy = nat (v_QPy_div_6 D); Rc = nat (v_QPc_mod_6 D); Qc = nat (v_QPc_div_6 D);
          t0 = (replicate 24 0, replicate 384 0, 0);
          t1 = (if mbMode m = AVC_I16 then dc16_step Ry Qy enc t0 else t0);
          t2 = fold (luma_step Ry Qy enc m) (filter (luma_coded m) [0..<16]) t1;
          t3 = fold (chroma_dc_step Rc Qc enc) (if chroma_dc_coded m then [0, 1] else []) t2
      in fold (chroma_step Rc Qc enc m) (filter (\<lambda>_. chroma_ac_coded m) [0..<8]) t3)"

text \<open>A decoder that has read the header of the macroblock.\<close>

definition residual_match :: "AVCMbObj \<Rightarrow> AVCMbObj \<Rightarrow> bool" where
  "residual_match E D \<longleftrightarrow> neighbours_apart D \<and> nz_around E D \<and> CBP (currMB D) = CBP (currMB E)
     \<and> (mbMode (currMB D) = AVC_I16 \<longleftrightarrow> mbMode (currMB E) = AVC_I16)"

lemma set_nz_state:
  assumes "currMbAddr D < length (mblock D)"
  shows "set_nz k n (with_coeffs nz B D, cbp) = dec_state D (nz[k := n], B, if n \<noteq> 0 then cbp OR push_bit k 1 else cbp)"
  using with_coeffs_nz(2) [OF assms, of "\<lambda>nz. nz[k := n]"] by (simp add: set_nz_def dec_state_def)

lemma nat_int_4: "nat (int x mod 4) = x mod 4" "nat (int x div 4) = x div 4"
  by (simp_all add: nat_mod_distrib nat_div_distrib)

lemma luma_read:
  assumes v: "coeffs_valid enc (currMB E)" and m: "residual_match E D" and k: "k < 16" "luma_coded (currMB E) k"
    and a: "agree 16 luma_at (nz_coeff (currMB E)) k (fst t)"
  shows "\<exists>bs. coded (enc_residual_block malloc enc E (if mbMode (currMB E) = AVC_I16 then AVC_Intra16AC else AVC_Luma) (int k))
      (residual_luma (of_bool (mbMode (currMB E) = AVC_I16)) (coded_block_xy k) (dec_state D t))
      (AVCDEC_SUCCESS, dec_state D (luma_step (nat (v_QPy_mod_6 D)) (nat (v_QPy_div_6 D)) enc (currMB E) k t)) bs"
proof -
  obtain i j where ij: "coded_block_xy k = (i, j)" by (cases "coded_block_xy k")
  obtain nz B cbp where t: "t = (nz, B, cbp)" by (cases t)
  note o = luma_order [OF k(1) ij]
  let ?m = "currMB E" and ?i16 = "mbMode (currMB E) = AVC_I16"
  define n where "n = nat (nz_coeff ?m ! luma_at k)"
  have nzE: "nz_ok ?m" "length (enc_level enc) = 24" "length (AVCEncCoeffs.enc_run enc) = 24" using v by (simp_all add: coeffs_valid_def)
  have n: "nz_coeff ?m ! luma_at k = int n" using nz_ok_nth [OF nzE(1)] o(8) by (simp add: n_def)
  have ok: "coeffs_ok (luma_size ?m) (enc_level enc ! k) (AVCEncCoeffs.enc_run enc ! k) n"
    using v k by (simp add: coeffs_valid_def list_all_iff n_def)
  have D: "currMbAddr D < length (mblock D)" "neighbours_apart D" "nz_around E D" using m by (simp_all add: residual_match_def neighbours_apart_def)
  have nC: "predict_nnz (with_coeffs nz B D) i j = predict_nnz E i j"
    by (rule predict_nnz_match [OF D(3,1,2)]) (use o(3,4) a t in \<open>auto simp: agree_def\<close>)
  have kind: "block_kind False (predict_nnz E i j) (luma_size ?m)"
    using predict_nnz_nonneg [OF D(3) nzE(1) o(1,2)] by (simp add: block_kind_def luma_size_def)
  have enc: "enc_residual_block malloc enc E (if ?i16 then AVC_Intra16AC else AVC_Luma) (int k)
      = put_coeffs malloc False (predict_nnz E i j) (enc_level enc ! k) (AVCEncCoeffs.enc_run enc ! k) (int n) (luma_size ?m)"
    using o(5-8) k(1) nzE n by (auto simp: fun_eq_iff enc_residual_block_def Let_def luma_size_def nz_ok_def nat_int_4)
  let ?put = "put_scaled (nat (v_QPy_mod_6 D)) (nat (v_QPy_div_6 D)) (64 * j + 4 * i)"
  have dec: "residual_luma (of_bool ?i16) (coded_block_xy k) (dec_state D t)
      = read_block (predict_nnz E i j) (luma_size ?m) ?put 15 (of_bool ?i16 - 1) (set_nz (luma_at k)) (dec_state D t)"
    using nC by (simp add: ij residual_luma_def dec_state_def t luma_size_def luma_at_def)
  have res: "set_nz (luma_at k) (int n) ((fst (dec_state D t))\<lparr>mb_block := place_of ?put 15 (of_bool ?i16 - 1) (enc_level enc ! k)
        (AVCEncCoeffs.enc_run enc ! k) n (mb_block (fst (dec_state D t)))\<rparr>, snd (dec_state D t))
      = dec_state D (luma_step (nat (v_QPy_mod_6 D)) (nat (v_QPy_div_6 D)) enc ?m k t)"
    using n o(6,7) by (simp add: dec_state_parts t luma_step_def block_step_def set_nz_state [OF D(1)])
  from block_read [OF ok kind, where limit = 15 and start = "of_bool ?i16 - 1" and put = ?put and fin = "set_nz (luma_at k)" and x = "dec_state D t"]
  show ?thesis unfolding enc dec res by (simp add: luma_size_def)
qed

lemma chroma_read:
  assumes v: "coeffs_valid enc (currMB E)" and m: "residual_match E D" and k: "k < 8" "chroma_ac_coded (currMB E)"
    and a: "agree 8 chroma_at (nz_coeff (currMB E)) k (fst t)"
  shows "\<exists>bs. coded (enc_residual_block malloc enc E AVC_ChromaAC (int (16 + k))) (residual_chroma (chroma_xy k) (dec_state D t))
      (AVCDEC_SUCCESS, dec_state D (chroma_step (nat (v_QPc_mod_6 D)) (nat (v_QPc_div_6 D)) enc (currMB E) k t)) bs"
proof -
  obtain i j where ij: "chroma_xy k = (i, j)" by (cases "chroma_xy k")
  obtain nz B cbp where t: "t = (nz, B, cbp)" by (cases t)
  note o = chroma_order [OF k(1) ij]
  let ?m = "currMB E"
  define n where "n = nat (nz_coeff ?m ! chroma_at k)"
  have nzE: "nz_ok ?m" "length (enc_level enc) = 24" "length (AVCEncCoeffs.enc_run enc) = 24" using v by (simp_all add: coeffs_valid_def)
  have n: "nz_coeff ?m ! chroma_at k = int n" using nz_ok_nth [OF nzE(1)] o(10) by (simp add: n_def)
  have ok: "coeffs_ok 15 (enc_level enc ! (16 + k)) (AVCEncCoeffs.enc_run enc ! (16 + k)) n"
    using v k by (simp add: coeffs_valid_def list_all_iff n_def)
  have D: "currMbAddr D < length (mblock D)" "neighbours_apart D" "nz_around E D" using m by (simp_all add: residual_match_def neighbours_apart_def)
  have nC: "predict_nnz_chroma (with_coeffs nz B D) i j = predict_nnz_chroma E i j"
    by (rule predict_nnz_chroma_match [OF D(3,1,2)]) (use o(4,5) a t in \<open>auto simp: agree_def\<close>)
  have kind: "block_kind False (predict_nnz_chroma E i j) 15"
    using predict_nnz_chroma_nonneg [OF D(3) nzE(1) o(1,3)] by (simp add: block_kind_def)
  obtain b0 where b0: "blk_at (int k) = Some b0" "16 + b0 = int (chroma_at k)" using o(6) by (cases "blk_at (int k)") auto
  have enc: "enc_residual_block malloc enc E AVC_ChromaAC (int (16 + k))
      = put_coeffs malloc False (predict_nnz_chroma E i j) (enc_level enc ! (16 + k)) (AVCEncCoeffs.enc_run enc ! (16 + k)) (int n) 15"
    using o(7-10) k(1) nzE n b0 by (auto simp: fun_eq_iff enc_residual_block_def Let_def nz_ok_def nat_int_4 nat_add_distrib)
  let ?put = "put_scaled (nat (v_QPc_mod_6 D)) (nat (v_QPc_div_6 D)) (64 * j + 4 * i)"
  have dec: "residual_chroma (chroma_xy k) (dec_state D t)
      = read_block (predict_nnz_chroma E i j) 15 ?put 15 0 (set_nz (chroma_at k)) (dec_state D t)"
    using nC by (simp add: ij residual_chroma_def dec_state_def t chroma_at_def)
  have res: "set_nz (chroma_at k) (int n) ((fst (dec_state D t))\<lparr>mb_block := place_of ?put 15 0 (enc_level enc ! (16 + k))
        (AVCEncCoeffs.enc_run enc ! (16 + k)) n (mb_block (fst (dec_state D t)))\<rparr>, snd (dec_state D t))
      = dec_state D (chroma_step (nat (v_QPc_mod_6 D)) (nat (v_QPc_div_6 D)) enc ?m k t)"
    using n o(7,8) by (simp add: dec_state_parts t chroma_step_def block_step_def set_nz_state [OF D(1)])
  from block_read [OF ok kind, where limit = 15 and start = 0 and put = ?put and fin = "set_nz (chroma_at k)" and x = "dec_state D t"]
  show ?thesis unfolding enc dec res by simp
qed

lemma dc16_read:
  assumes v: "coeffs_valid enc (currMB E)" and m: "residual_match E D" and i16: "mbMode (currMB E) = AVC_I16"
  shows "\<exists>bs. coded (enc_residual_block malloc enc E AVC_Intra16DC (numcoefdc enc)) (residual_dc16 (dec_state D t))
      (AVCDEC_SUCCESS, dec_state D (dc16_step (nat (v_QPy_mod_6 D)) (nat (v_QPy_div_6 D)) enc t)) bs"
proof -
  obtain nz B cbp where t: "t = (nz, B, cbp)" by (cases t)
  define n where "n = nat (numcoefdc enc)"
  have ok: "coeffs_ok 16 (leveldc enc) (rundc enc) n" and n: "numcoefdc enc = int n" using v i16 by (simp_all add: coeffs_valid_def n_def)
  have D: "currMbAddr D < length (mblock D)" "neighbours_apart D" "nz_around E D" using m by (simp_all add: residual_match_def neighbours_apart_def)
  have nC: "predict_nnz (with_coeffs nz B D) 0 0 = predict_nnz E 0 0" by (rule predict_nnz_match [OF D(3,1,2)]) simp_all
  have kind: "block_kind False (predict_nnz E 0 0) 16"
    using predict_nnz_nonneg [OF D(3), of 0 0] v by (simp add: block_kind_def coeffs_valid_def)
  have enc: "enc_residual_block malloc enc E AVC_Intra16DC (numcoefdc enc)
      = put_coeffs malloc False (predict_nnz E 0 0) (leveldc enc) (rundc enc) (int n) 16"
    by (simp add: fun_eq_iff enc_residual_block_def n)
  let ?fin = "\<lambda>n (ob :: AVCMbObj, cbp :: uint). if n \<noteq> (0 :: int)
          then (ob\<lparr>mb_block := Intra16DCTrans (nat (v_QPy_div_6 ob)) (nat (v_QPy_mod_6 ob)) (mb_block ob)\<rparr>, 0xFFFF)
          else (ob, cbp)"
  have dec: "residual_dc16 (dec_state D t) = read_block (predict_nnz E 0 0) 16 put_dc16 15 (- 1) ?fin (dec_state D t)"
    using nC by (simp add: residual_dc16_def t dec_state_def)
  have res: "?fin (int n) ((fst (dec_state D t))\<lparr>mb_block := place_of put_dc16 15 (- 1) (leveldc enc) (rundc enc) n (mb_block (fst (dec_state D t)))\<rparr>,
      snd (dec_state D t)) = dec_state D (dc16_step (nat (v_QPy_mod_6 D)) (nat (v_QPy_div_6 D)) enc t)"
    by (simp add: t dec_state_def dc16_step_def n Let_def)
  from block_read [OF ok kind, where limit = 15 and start = "- 1" and put = put_dc16 and x = "dec_state D t" and fin = ?fin]
  show ?thesis unfolding enc dec res by simp
qed

lemma chroma_dc_read:
  assumes v: "coeffs_valid enc (currMB E)" and dc: "chroma_dc_coded (currMB E)" and c: "c < 2"
  shows "\<exists>bs. coded (enc_residual_block malloc enc E AVC_ChromaDC (numcoefcdc enc ! c + int (8 * c))) (residual_dc_chroma c (dec_state D t))
      (AVCDEC_SUCCESS, dec_state D (chroma_dc_step (nat (v_QPc_mod_6 D)) (nat (v_QPc_div_6 D)) enc c t)) bs"
proof -
  obtain nz B cbp where t: "t = (nz, B, cbp)" by (cases t)
  define n where "n = nat (numcoefcdc enc ! c)"
  have c': "c = 0 \<or> c = 1" using c by auto
  have ok: "coeffs_ok 4 (drop (4 * c) (levelcdc enc)) (drop (4 * c) (runcdc enc)) n" and n: "numcoefcdc enc ! c = int n" "n \<le> 4"
    using v dc c' by (auto simp: coeffs_valid_def n_def)
  have kind: "block_kind True (- 1) 4" by (simp add: block_kind_def)
  have enc: "enc_residual_block malloc enc E AVC_ChromaDC (numcoefcdc enc ! c + int (8 * c))
      = put_coeffs malloc True (- 1) (drop (4 * c) (levelcdc enc)) (drop (4 * c) (runcdc enc)) (int n) 4"
    using c' n by (auto simp: fun_eq_iff enc_residual_block_def)
  let ?fin = "\<lambda>n (ob :: AVCMbObj, cbp :: uint). if n \<noteq> (0 :: int)
          then (ob\<lparr>mb_block := ChromaDCTrans (256 + 8 * c) (nat (v_QPc_div_6 ob)) (nat (v_QPc_mod_6 ob)) (mb_block ob)\<rparr>,
                cbp OR (if c \<noteq> 0 then 0xcc0000 else 0x330000))
          else (ob, cbp)"
  let ?lv = "drop (4 * c) (levelcdc enc)" and ?rn = "drop (4 * c) (runcdc enc)"
  have res: "?fin (int n) ((fst (dec_state D t))\<lparr>mb_block := place_of (put_dc_chroma (256 + 8 * c)) 3 (- 1) ?lv ?rn n (mb_block (fst (dec_state D t)))\<rparr>,
      snd (dec_state D t)) = dec_state D (chroma_dc_step (nat (v_QPc_mod_6 D)) (nat (v_QPc_div_6 D)) enc c t)"
    by (simp add: t dec_state_def chroma_dc_step_def n Let_def)
  from block_read [OF ok kind, where limit = 3 and start = "- 1" and put = "put_dc_chroma (256 + 8 * c)" and x = "dec_state D t" and fin = ?fin]
  show ?thesis unfolding enc residual_dc_chroma_def res by simp
qed

section \<open>The macroblock\<close>

lemma four_blocks: "[0..<4] = [0, 1, 2, 3 :: nat]"
  by code_simp

lemma quarters_filter:
  "concat (map (\<lambda>q. if P q then map (\<lambda>b. f (4 * q + b)) [0..<4] else []) [0..<4]) = map f (filter (\<lambda>k. P (k div 4)) [0..<16])"
proof -
  have "[0..<4] = [0, 1, 2, 3 :: nat]" "[0..<16] = [0, 1, 2, 3, 4, 5, 6, 7, 8, 9, 10, 11, 12, 13, 14, 15 :: nat]" by code_simp+
  then show ?thesis by simp
qed

lemma residual_blocks_eq:
  "residual_blocks m enc =
     (if mbMode m = AVC_I16 then [(AVC_Intra16DC, numcoefdc enc)] else [])
     @ map (\<lambda>k. (if mbMode m = AVC_I16 then AVC_Intra16AC else AVC_Luma, int k)) (filter (luma_coded m) [0..<16])
     @ map (\<lambda>c. (AVC_ChromaDC, numcoefcdc enc ! c + int (8 * c))) (if chroma_dc_coded m then [0, 1] else [])
     @ map (\<lambda>k. (AVC_ChromaAC, int (16 + k))) (filter (\<lambda>_. chroma_ac_coded m) [0..<8])"
proof -
  have "[0..<2] = [0, 1 :: nat]" "filter (\<lambda>_. chroma_ac_coded m) [0..<8] = (if chroma_ac_coded m then [0, 1, 2, 3, 4, 5, 6, 7] else [])"
    by (simp, code_simp) (cases "chroma_ac_coded m"; simp; code_simp)
  moreover note quarters_filter [where P = "\<lambda>q. CBP m AND push_bit q 1 \<noteq> 0"
      and f = "\<lambda>k. (if mbMode m = AVC_I16 then AVC_Intra16AC else AVC_Luma, int k)"]
  ultimately show ?thesis
    unfolding residual_blocks_def Let_def luma_coded_def [abs_def] chroma_dc_coded_def chroma_ac_coded_def
    by (simp only:) (simp add: four_blocks)
qed

lemma luma_blocks_eq: "luma_blocks (CBP m) = map coded_block_xy (filter (luma_coded m) [0..<16])"
proof -
  have "luma_blocks (CBP m) = concat (map (\<lambda>q. if CBP m AND push_bit q 1 \<noteq> 0 then map (\<lambda>b. coded_block_xy (4 * q + b)) [0..<4] else []) [0..<4])"
    unfolding luma_blocks_def by (simp add: four_blocks coded_block_xy_def)
  also have "\<dots> = map coded_block_xy (filter (luma_coded m) [0..<16])"
    unfolding luma_coded_def [abs_def] by (rule quarters_filter)
  finally show ?thesis .
qed

lemma chroma_blocks_eq: "chroma_blocks = map chroma_xy [0..<8]"
  by code_simp

lemma fold_block_nz:
  assumes "\<And>k t. fst (f k t) = (fst t)[bl k := nzE ! bl k]"
  shows "length (fst (fold f ks t)) = length (fst t)" "b \<notin> bl ` set ks \<Longrightarrow> fst (fold f ks t) ! b = fst t ! b"
  by (induction ks arbitrary: t) (simp_all add: assms)

lemma blocks_cover_chk: "list_all (\<lambda>b. list_ex (\<lambda>k. luma_at k = b) [0..<16] \<or> list_ex (\<lambda>k. chroma_at k = b) [0..<8]) [0..<24]"
  by code_simp

lemma blocks_cover: "b < 24 \<Longrightarrow> (\<exists>k<16. luma_at k = b) \<or> (\<exists>k<8. chroma_at k = b)"
  using blocks_cover_chk by (fastforce simp: list_all_iff list_ex_iff)

lemma luma_at_less: "k < 16 \<Longrightarrow> luma_at k < 16" and chroma_at_less: "k < 8 \<Longrightarrow> 16 \<le> chroma_at k \<and> chroma_at k < 24"
  using luma_order(8) chroma_order(9,10) by (metis surj_pair)+

lemma chroma_dcs_coded:
  assumes v: "coeffs_valid enc (currMB E)" and dc: "chroma_dc_coded (currMB E)" and ks: "set ks \<subseteq> {0, 1}"
  shows "\<exists>bs. coded (enc_blocks malloc enc E (map (\<lambda>c. (AVC_ChromaDC, numcoefcdc enc ! c + int (8 * c))) ks) AVCENC_SUCCESS)
      (each_block residual_dc_chroma ks (dec_state D t))
      (AVCDEC_SUCCESS, dec_state D (fold (chroma_dc_step (nat (v_QPc_mod_6 D)) (nat (v_QPc_div_6 D)) enc) ks t)) bs"
  using ks
proof (induction ks arbitrary: t)
  case Nil
  have "coded (enc_blocks malloc enc E [] AVCENC_SUCCESS) (each_block residual_dc_chroma [] (dec_state D t)) (AVCDEC_SUCCESS, dec_state D t) []"
    unfolding no_blocks by (rule coded_nil)
  then show ?case by (auto simp del: enc_blocks.simps each_block.simps)
next
  case (Cons c ks)
  let ?t = "chroma_dc_step (nat (v_QPc_mod_6 D)) (nat (v_QPc_div_6 D)) enc c t"
  have "c < 2" using Cons.prems by auto
  from chroma_dc_read [OF v dc this] obtain as where
    a: "coded (enc_residual_block malloc enc E AVC_ChromaDC (numcoefcdc enc ! c + int (8 * c))) (residual_dc_chroma c (dec_state D t))
      (AVCDEC_SUCCESS, dec_state D ?t) as" by blast
  from Cons.IH [of ?t] Cons.prems obtain bs where
    b: "coded (enc_blocks malloc enc E (map (\<lambda>c. (AVC_ChromaDC, numcoefcdc enc ! c + int (8 * c))) ks) AVCENC_SUCCESS)
      (each_block residual_dc_chroma ks (dec_state D ?t))
      (AVCDEC_SUCCESS, dec_state D (fold (chroma_dc_step (nat (v_QPc_mod_6 D)) (nat (v_QPc_div_6 D)) enc) ks ?t)) bs" by auto
  show ?case unfolding list.map enc_blocks_Cons no_blocks(3) fst_conv snd_conv fold_simps
    using coded_seq [OF a, where g = "each_block residual_dc_chroma ks", OF b] by blast
qed

lemma dec_start:
  assumes "currMbAddr D < length (mblock D)"
  shows "(D\<lparr>mb_block := B\<rparr>, cbp) = dec_state D (nz_coeff (currMB D), B, cbp)"
  using assms by (simp add: dec_state_def with_coeffs_def upd_currMB_def currMB_def)

lemma clear_nz_state:
  assumes "currMbAddr D < length (mblock D)"
  shows "clear_nz (dec_state D (nz, B, cbp)) = dec_state D (replicate 24 0, B, cbp)"
  using with_coeffs_nz(2) [OF assms, of "\<lambda>_. replicate 24 0"] by (simp add: clear_nz_def dec_state_def)

lemma inj_luma: "inj_on luma_at {..<16}" and inj_chroma: "inj_on chroma_at {..<8}"
  by (rule inj_onI, rule luma_inj chroma_inj; simp)+

lemma fold_keeps_nz: "(\<And>k t. fst (f k t) = fst t) \<Longrightarrow> fst (fold f ks t) = fst t"
  by (induction ks arbitrary: t) simp_all

lemma consumes_after:
  assumes "consumes dec_inv dec_bits p bs x" "\<And>s. q s = Option.bind (p s) (\<lambda>(x, t). Some (f x, t))"
  shows "consumes dec_inv dec_bits q bs (f x)"
proof -
  have "consumes dec_inv dec_bits (\<lambda>s. Option.bind (p s) (\<lambda>(x, t). Some (f x, t))) (bs @ []) (f x)"
    by (rule consumes_bind [OF assms(1)]) (rule consumes_return)
  then show ?thesis using consumes_cong [of q] assms(2) by simp
qed

lemma agree_start:
  assumes "length nz = 24" "\<And>k. k < N \<Longrightarrow> nz ! bl k = 0"
  shows "agree N bl nzE 0 nz"
  using assms by (simp add: agree_def)

text \<open>The four parts of the residual: the 16 luma DC coefficients, the luma blocks, the chroma DC and AC coefficients.\<close>

lemma dc16_row:
  assumes "coeffs_valid enc (currMB E)" "residual_match E D"
  shows "\<exists>bs. coded (enc_blocks malloc enc E (if mbMode (currMB E) = AVC_I16 then [(AVC_Intra16DC, numcoefdc enc)] else []) AVCENC_SUCCESS)
      ((if mbMode (currMB E) = AVC_I16 then residual_dc16 else (\<lambda>x s. Some ((AVCDEC_SUCCESS, x), s))) (dec_state D t))
      (AVCDEC_SUCCESS, dec_state D (if mbMode (currMB E) = AVC_I16 then dc16_step (nat (v_QPy_mod_6 D)) (nat (v_QPy_div_6 D)) enc t else t)) bs"
proof (cases "mbMode (currMB E) = AVC_I16")
  case True
  have "enc_blocks malloc enc E [(AVC_Intra16DC, numcoefdc enc)] AVCENC_SUCCESS = enc_residual_block malloc enc E AVC_Intra16DC (numcoefdc enc)"
    by (auto simp: fun_eq_iff split: Option.bind_split)
  then show ?thesis using dc16_read [OF assms True, of malloc t] True by auto
next
  case False
  then show ?thesis by (simp add: no_blocks del: enc_blocks.simps) (rule exI, rule coded_nil)
qed

lemma luma_row:
  assumes v: "coeffs_valid enc (currMB E)" and m: "residual_match E D" and t: "fst t = replicate 24 0"
  shows "(\<exists>bs. coded (enc_blocks malloc enc E (map (\<lambda>k. (if mbMode (currMB E) = AVC_I16 then AVC_Intra16AC else AVC_Luma, int k))
        (filter (luma_coded (currMB E)) [0..<16])) AVCENC_SUCCESS)
      (each_block (residual_luma (of_bool (mbMode (currMB E) = AVC_I16))) (map coded_block_xy (filter (luma_coded (currMB E)) [0..<16])) (dec_state D t))
      (AVCDEC_SUCCESS, dec_state D (fold (luma_step (nat (v_QPy_mod_6 D)) (nat (v_QPy_div_6 D)) enc (currMB E)) (filter (luma_coded (currMB E)) [0..<16]) t)) bs)
    \<and> agree 16 luma_at (nz_coeff (currMB E)) 16
        (fst (fold (luma_step (nat (v_QPy_mod_6 D)) (nat (v_QPy_div_6 D)) enc (currMB E)) (filter (luma_coded (currMB E)) [0..<16]) t))"
  unfolding luma_step_def [abs_def]
proof (rule blocks_coded [OF inj_luma])
  show "nz_coeff (currMB E) ! luma_at k = 0" if "k < 16" "\<not> luma_coded (currMB E) k" for k
    using v that by (simp add: coeffs_valid_def list_all_iff)
  show "agree 16 luma_at (nz_coeff (currMB E)) 0 (fst t)"
    by (rule agree_start) (use luma_at_less in \<open>fastforce simp: t\<close>)+
  show "luma_at k < 24" if "k < 16" for k using luma_at_less [OF that] by simp
qed (use luma_read [OF v m, unfolded luma_step_def] in blast)

lemma chroma_row:
  assumes v: "coeffs_valid enc (currMB E)" and m: "residual_match E D"
    and t: "length (fst t) = 24" "\<And>b. 16 \<le> b \<Longrightarrow> b < 24 \<Longrightarrow> fst t ! b = 0"
  shows "(\<exists>bs. coded (enc_blocks malloc enc E (map (\<lambda>k. (AVC_ChromaAC, int (16 + k))) (filter (\<lambda>_. chroma_ac_coded (currMB E)) [0..<8])) AVCENC_SUCCESS)
      (each_block residual_chroma (map chroma_xy (filter (\<lambda>_. chroma_ac_coded (currMB E)) [0..<8])) (dec_state D t))
      (AVCDEC_SUCCESS, dec_state D (fold (chroma_step (nat (v_QPc_mod_6 D)) (nat (v_QPc_div_6 D)) enc (currMB E))
        (filter (\<lambda>_. chroma_ac_coded (currMB E)) [0..<8]) t)) bs)
    \<and> agree 8 chroma_at (nz_coeff (currMB E)) 8
        (fst (fold (chroma_step (nat (v_QPc_mod_6 D)) (nat (v_QPc_div_6 D)) enc (currMB E)) (filter (\<lambda>_. chroma_ac_coded (currMB E)) [0..<8]) t))"
  unfolding chroma_step_def [abs_def]
proof (rule blocks_coded [OF inj_chroma])
  show "nz_coeff (currMB E) ! chroma_at k = 0" if "k < 8" "\<not> chroma_ac_coded (currMB E)" for k
    using v that by (simp add: coeffs_valid_def list_all_iff)
  show "agree 8 chroma_at (nz_coeff (currMB E)) 0 (fst t)"
    by (rule agree_start) (use t chroma_at_less in auto)
  show "chroma_at k < 24" if "k < 8" for k using chroma_at_less [OF that] by simp
qed (use chroma_read [OF v m, unfolded chroma_step_def] in blast)

lemma chroma_dc_row:
  assumes "coeffs_valid enc (currMB E)"
  shows "\<exists>bs. coded (enc_blocks malloc enc E (map (\<lambda>c. (AVC_ChromaDC, numcoefcdc enc ! c + int (8 * c))) (if chroma_dc_coded (currMB E) then [0, 1] else [])) AVCENC_SUCCESS)
      (each_block residual_dc_chroma (if chroma_dc_coded (currMB E) then [0, 1] else []) (dec_state D t))
      (AVCDEC_SUCCESS, dec_state D (fold (chroma_dc_step (nat (v_QPc_mod_6 D)) (nat (v_QPc_div_6 D)) enc) (if chroma_dc_coded (currMB E) then [0, 1] else []) t)) bs"
proof (cases "chroma_dc_coded (currMB E)")
  case True
  then show ?thesis using chroma_dcs_coded [OF assms True, of "[0, 1]" malloc D t] by auto
next
  case False
  then show ?thesis by (simp add: no_blocks del: enc_blocks.simps each_block.simps) (rule exI, rule coded_nil)
qed

text \<open>Together the rows give every number of coefficients.\<close>

lemma rows_agree:
  assumes "length nzE = 24" "agree 16 luma_at nzE 16 nz2" "agree 8 chroma_at nzE 8 nz4"
    and "\<And>b. b \<notin> chroma_at ` {..<8} \<Longrightarrow> nz4 ! b = nz2 ! b"
  shows "nz4 = nzE"
proof (rule nth_equalityI)
  show "length nz4 = length nzE" using assms(1,3) by (simp add: agree_def)
  fix b assume "b < length nz4"
  then have b: "b < 24" using assms(3) by (simp add: agree_def)
  then consider k where "k < 16" "luma_at k = b" | k where "k < 8" "chroma_at k = b"
    using blocks_cover b by blast
  then show "nz4 ! b = nzE ! b"
  proof cases
    case (1 k)
    then have "b \<notin> chroma_at ` {..<8}" using luma_at_less [of k] chroma_at_less by fastforce
    then show ?thesis using 1 assms(2,4) by (auto simp: agree_def)
  next
    case (2 k)
    then show ?thesis using assms(3) by (auto simp: agree_def)
  qed
qed

lemma residual_seq:
  assumes "currMbAddr D < length (mblock D)" "CBP (currMB D) = CBP m" "mbMode (currMB D) = AVC_I16 \<longleftrightarrow> mbMode m = AVC_I16"
  shows "residual D s = Option.bind
     (on_success ((if mbMode m = AVC_I16 then residual_dc16 else (\<lambda>x s. Some ((AVCDEC_SUCCESS, x), s))) (dec_state D (nz_coeff (currMB D), replicate 384 0, 0)))
       (\<lambda>x. on_success (each_block (residual_luma (of_bool (mbMode m = AVC_I16))) (map coded_block_xy (filter (luma_coded m) [0..<16])) (clear_nz x))
       (\<lambda>x. on_success (each_block residual_dc_chroma (if chroma_dc_coded m then [0, 1] else []) x)
         (each_block residual_chroma (map chroma_xy (filter (\<lambda>_. chroma_ac_coded m) [0..<8]))))) s)
     (\<lambda>(r, t). Some (case r of (st, x) \<Rightarrow> if st \<noteq> AVCDEC_SUCCESS then (AVCDEC_FAIL, fst x) else (AVCDEC_SUCCESS, (fst x)\<lparr>cbp4x4 := snd x\<rparr>), t))"
  unfolding residual_def Let_def dec_start [OF assms(1)] assms(2,3) luma_blocks_eq chroma_dc_coded_def chroma_ac_coded_def chroma_blocks_eq
  by (cases "CBP m AND push_bit 4 2 \<noteq> 0") (simp_all add: case_prod_unfold split: Option.bind_split)

lemma residual_coded:
  assumes v: "coeffs_valid enc (currMB E)" and m: "residual_match E D"
  shows "\<exists>bs B cbp. coeffs_of enc (currMB E) D = (nz_coeff (currMB E), B, cbp)
    \<and> coded (enc_blocks malloc enc E (residual_blocks (currMB E) enc) AVCENC_SUCCESS) (residual D)
        (AVCDEC_SUCCESS, (with_coeffs (nz_coeff (currMB E)) B D)\<lparr>cbp4x4 := cbp\<rparr>) bs"
proof -
  let ?m = "currMB E" and ?i16 = "mbMode (currMB E) = AVC_I16" and ?nz = "nz_coeff (currMB E)"
  let ?Ry = "nat (v_QPy_mod_6 D)" and ?Qy = "nat (v_QPy_div_6 D)" and ?Rc = "nat (v_QPc_mod_6 D)" and ?Qc = "nat (v_QPc_div_6 D)"
  have D: "currMbAddr D < length (mblock D)" "CBP (currMB D) = CBP ?m" "mbMode (currMB D) = AVC_I16 \<longleftrightarrow> ?i16"
    using m by (simp_all add: residual_match_def neighbours_apart_def)
  define s0 :: coeff_triple where "s0 = (nz_coeff (currMB D), replicate 384 0, 0)"
  define s1 where "s1 = (if ?i16 then dc16_step ?Ry ?Qy enc s0 else s0)"
  define t1 where "t1 = (replicate 24 (0 :: int), snd s1)"
  define t2 where "t2 = fold (luma_step ?Ry ?Qy enc ?m) (filter (luma_coded ?m) [0..<16]) t1"
  define t3 where "t3 = fold (chroma_dc_step ?Rc ?Qc enc) (if chroma_dc_coded ?m then [0, 1] else []) t2"
  define t4 where "t4 = fold (chroma_step ?Rc ?Qc enc ?m) (filter (\<lambda>_. chroma_ac_coded ?m) [0..<8]) t3"
  have of: "coeffs_of enc ?m D = t4"
    by (simp add: coeffs_of_def t1_def t2_def t3_def t4_def s1_def s0_def dc16_step_def Let_def)
  have clear: "clear_nz (dec_state D s1) = dec_state D t1" by (cases s1) (simp add: clear_nz_state [OF D(1)] t1_def)
  obtain b1 where b1: "coded (enc_blocks malloc enc E (if ?i16 then [(AVC_Intra16DC, numcoefdc enc)] else []) AVCENC_SUCCESS)
      ((if ?i16 then residual_dc16 else (\<lambda>x s. Some ((AVCDEC_SUCCESS, x), s))) (dec_state D s0)) (AVCDEC_SUCCESS, dec_state D s1) b1"
    using dc16_row [OF v m, of malloc s0] by (auto simp: s1_def)
  note luma = luma_row [OF v m, of t1 malloc, folded t2_def]
  then obtain b2 where b2: "coded (enc_blocks malloc enc E (map (\<lambda>k. (if ?i16 then AVC_Intra16AC else AVC_Luma, int k)) (filter (luma_coded ?m) [0..<16])) AVCENC_SUCCESS)
      (each_block (residual_luma (of_bool ?i16)) (map coded_block_xy (filter (luma_coded ?m) [0..<16])) (dec_state D t1)) (AVCDEC_SUCCESS, dec_state D t2) b2"
    by (auto simp: t1_def)
  obtain b3 where b3: "coded (enc_blocks malloc enc E (map (\<lambda>c. (AVC_ChromaDC, numcoefcdc enc ! c + int (8 * c))) (if chroma_dc_coded ?m then [0, 1] else [])) AVCENC_SUCCESS)
      (each_block residual_dc_chroma (if chroma_dc_coded ?m then [0, 1] else []) (dec_state D t2)) (AVCDEC_SUCCESS, dec_state D t3) b3"
    using chroma_dc_row [OF v, of malloc D t2] by (auto simp: t3_def)
  have nz2: "length (fst t2) = 24" "fst t2 ! b = 0" if "16 \<le> b" "b < 24" for b
  proof -
    have "length (fst t2) = length (fst t1)" "b \<notin> luma_at ` set (filter (luma_coded ?m) [0..<16]) \<Longrightarrow> fst t2 ! b = fst t1 ! b"
      unfolding t2_def by (rule fold_block_nz [where nzE = ?nz]; simp add: luma_step_def block_step_nz)+
    then show "length (fst t2) = 24" "fst t2 ! b = 0" using that luma_at_less by (fastforce simp: t1_def)+
  qed
  have t3: "fst t3 = fst t2" unfolding t3_def by (rule fold_keeps_nz) (auto simp: chroma_dc_step_def Let_def split: prod.splits)
  note chroma = chroma_row [OF v m, of t3 malloc, unfolded t3, OF nz2(1) [of 16] nz2(2), simplified, folded t4_def]
  then obtain b4 where b4: "coded (enc_blocks malloc enc E (map (\<lambda>k. (AVC_ChromaAC, int (16 + k))) (filter (\<lambda>_. chroma_ac_coded ?m) [0..<8])) AVCENC_SUCCESS)
      (each_block residual_chroma (map chroma_xy (filter (\<lambda>_. chroma_ac_coded ?m) [0..<8])) (dec_state D t3)) (AVCDEC_SUCCESS, dec_state D t4) b4"
    by auto
  have "b \<notin> chroma_at ` set (filter (\<lambda>_. chroma_ac_coded ?m) [0..<8]) \<Longrightarrow> fst t4 ! b = fst t3 ! b" for b
    unfolding t4_def by (rule fold_block_nz(2) [where nzE = ?nz]) (simp_all add: chroma_step_def block_step_nz)
  then have "fst t4 = ?nz"
    by (intro rows_agree [where ?nz2.0 = "fst t2"]) (use v luma chroma t3 in \<open>auto simp: coeffs_valid_def nz_ok_def t1_def\<close>)
  then obtain B cbp where t4: "t4 = (?nz, B, cbp)" by (cases t4) simp
  have seq: "coded (enc_blocks malloc enc E (residual_blocks ?m enc) AVCENC_SUCCESS)
     (on_success ((if ?i16 then residual_dc16 else (\<lambda>x s. Some ((AVCDEC_SUCCESS, x), s))) (dec_state D s0))
       (\<lambda>x. on_success (each_block (residual_luma (of_bool ?i16)) (map coded_block_xy (filter (luma_coded ?m) [0..<16])) (clear_nz x))
       (\<lambda>x. on_success (each_block residual_dc_chroma (if chroma_dc_coded ?m then [0, 1] else []) x)
         (each_block residual_chroma (map chroma_xy (filter (\<lambda>_. chroma_ac_coded ?m) [0..<8]))))))
     (AVCDEC_SUCCESS, dec_state D t4) (b1 @ b2 @ b3 @ b4)"
    unfolding residual_blocks_eq enc_blocks_append
    by (rule coded_seq [OF b1], unfold clear, rule coded_seq [OF b2], rule coded_seq [OF b3], rule b4)
  have "consumes dec_inv dec_bits (residual D) (b1 @ b2 @ b3 @ b4)
      (AVCDEC_SUCCESS, (fst (dec_state D t4))\<lparr>cbp4x4 := snd (dec_state D t4)\<rparr>)"
    using consumes_after [OF _ residual_seq [OF D], where x = "(AVCDEC_SUCCESS, dec_state D t4)"] seq by (simp add: coded_def s0_def)
  then show ?thesis using seq t4 of by (auto simp: coded_def dec_state_def)
qed

end
