(* ===== verification/MacroblockProps.thy ===== *)
theory MacroblockProps
  imports MvRoundtrip ResidualRoundtrip EncMb StreamProps
begin

text \<open>The properties of the macroblock layer.\<close>

section \<open>Neighbours\<close>

text \<open>The macroblock at an offset from the current one: in the picture and in the same slice, or not available.\<close>

definition at_offset :: "int \<Rightarrow> int \<Rightarrow> AVCMbObj \<Rightarrow> int \<Rightarrow> int \<Rightarrow> int option" where
  "at_offset w h ob dx dy =
     (let x = mb_x ob + dx; y = mb_y ob + dy; a = y * w + x
      in if 0 \<le> x \<and> x < w \<and> 0 \<le> y \<and> y < h \<and> slice_id (mblock ob ! nat a) = slice_id (currMB ob) then Some a else None)"

definition if_avail :: "bool \<Rightarrow> int \<Rightarrow> int option" where
  "if_avail b a = (if b then Some a else None)"

definition placed :: "int \<Rightarrow> int \<Rightarrow> AVCMbObj \<Rightarrow> bool" where
  "placed w h ob \<longleftrightarrow> 0 \<le> mb_x ob \<and> mb_x ob < w \<and> 0 \<le> mb_y ob \<and> mb_y ob < h \<and> int (length (mblock ob)) = w * h
     \<and> currMbAddr ob = nat (mb_y ob * w + mb_x ob)"

lemma raster_bound:
  assumes "0 \<le> x" "x < w" "0 \<le> y" "y < (h :: int)"
  shows "0 \<le> y * w + x" "y * w + x < w * h"
proof -
  show "0 \<le> y * w + x" using assms by simp
  have "y * w + w = (y + 1) * w" by (simp add: distrib_right)
  also have "\<dots> \<le> h * w" by (rule mult_right_mono) (use assms in simp_all)
  finally show "y * w + x < w * h" using assms(2) by (simp add: mult.commute)
qed

lemma same_slice_at:
  assumes "placed w h ob" "0 \<le> mb_x ob + dx" "mb_x ob + dx < w" "0 \<le> mb_y ob + dy" "mb_y ob + dy < h"
  shows "same_slice ob ((mb_y ob + dy) * w + (mb_x ob + dx)) = Some (at_offset w h ob dx dy \<noteq> None)"
  using raster_bound [OF assms(2-5)] assms by (simp add: same_slice_def at_offset_def placed_def nth_opt_def Let_def)

lemma at_offset_Some: "at_offset w h ob dx dy \<noteq> None \<Longrightarrow> at_offset w h ob dx dy = Some ((mb_y ob + dy) * w + (mb_x ob + dx))"
  by (simp add: at_offset_def Let_def split: if_splits)

lemma at_offset_before:
  assumes ob: "placed w h ob" and a: "at_offset w h ob dx dy \<noteq> None" and d: "dy = - 1 \<and> \<bar>dx\<bar> \<le> 1 \<or> dy = 0 \<and> dx = - 1"
  shows "nat ((mb_y ob + dy) * w + (mb_x ob + dx)) \<noteq> currMbAddr ob"
proof -
  let ?a = "(mb_y ob + dy) * w + (mb_x ob + dx)"
  have g: "0 \<le> mb_x ob + dx" "mb_x ob + dx < w" "0 \<le> mb_y ob + dy" "mb_y ob + dy < h"
    using a by (simp_all add: at_offset_def Let_def split: if_splits)
  have p: "0 \<le> mb_x ob" "mb_x ob < w" "0 \<le> mb_y ob" "mb_y ob < h" using ob by (simp_all add: placed_def)
  have "?a = mb_y ob * w + mb_x ob + (dy * w + dx)" by (simp add: distrib_right)
  moreover have "dy * w + dx < 0" using d g p by auto
  ultimately have "?a < mb_y ob * w + mb_x ob" by simp
  moreover have "0 \<le> ?a" by (rule raster_bound [OF g])
  ultimately show ?thesis using ob by (simp add: placed_def)
qed

text \<open>C26: \<open>InitNeighborAvailability\<close> reads no macroblock outside the picture and finds, for each of the four
  neighbours, its address if it is in the picture and in the slice of the current macroblock, and that it is not available
  otherwise; the neighbours come before the current macroblock.\<close>

theorem InitNeighborAvailability_finds:
  assumes ob: "placed w h ob"
  shows "\<exists>ob'. InitNeighborAvailability w (int (currMbAddr ob)) ob = Some ob'
    \<and> if_avail (mbAvailA ob') (mbAddrA ob') = at_offset w h ob (- 1) 0
    \<and> if_avail (mbAvailB ob') (mbAddrB ob') = at_offset w h ob 0 (- 1)
    \<and> if_avail (mbAvailC ob') (mbAddrC ob') = at_offset w h ob 1 (- 1)
    \<and> if_avail (mbAvailD ob') (mbAddrD ob') = at_offset w h ob (- 1) (- 1)
    \<and> neighbours_apart ob'"
proof -
  let ?n = "mb_y ob * w + mb_x ob"
  have g: "0 \<le> mb_x ob" "mb_x ob < w" "0 \<le> mb_y ob" "mb_y ob < h" using ob by (simp_all add: placed_def)
  have n: "int (currMbAddr ob) = ?n" "?n < int (length (mblock ob))"
    using raster_bound [OF g] ob by (simp_all add: placed_def)
  have A: "(if mb_x ob \<noteq> 0 then same_slice ob (?n - 1) else Some False) = Some (at_offset w h ob (- 1) 0 \<noteq> None)"
    using same_slice_at [OF ob, of "- 1" 0] g by (cases "mb_x ob = 0") (simp_all add: at_offset_def algebra_simps)
  have B: "(if mb_y ob \<noteq> 0 then same_slice ob (?n - w) else Some False) = Some (at_offset w h ob 0 (- 1) \<noteq> None)"
    using same_slice_at [OF ob, of 0 "- 1"] g by (cases "mb_y ob = 0") (simp_all add: at_offset_def algebra_simps)
  have C: "(if mb_y ob \<noteq> 0 \<and> mb_x ob < w - 1 then same_slice ob (?n - w + 1) else Some False) = Some (at_offset w h ob 1 (- 1) \<noteq> None)"
    using same_slice_at [OF ob, of 1 "- 1"] g
    by (cases "mb_y ob \<noteq> 0 \<and> mb_x ob < w - 1") (auto simp: at_offset_def algebra_simps)
  have D: "(if mb_x ob \<noteq> 0 \<and> mb_y ob \<noteq> 0 then same_slice ob (?n - w - 1) else Some False) = Some (at_offset w h ob (- 1) (- 1) \<noteq> None)"
    using same_slice_at [OF ob, of "- 1" "- 1"] g
    by (cases "mb_x ob \<noteq> 0 \<and> mb_y ob \<noteq> 0") (auto simp: at_offset_def algebra_simps)
  let ?r = "ob\<lparr>mbAddrA := ?n - 1, mbAddrB := ?n - w, mbAddrC := ?n - w + 1, mbAddrD := ?n - w - 1,
      mbAvailA := at_offset w h ob (- 1) 0 \<noteq> None, mbAvailB := at_offset w h ob 0 (- 1) \<noteq> None,
      mbAvailC := at_offset w h ob 1 (- 1) \<noteq> None, mbAvailD := at_offset w h ob (- 1) (- 1) \<noteq> None\<rparr>"
  have "InitNeighborAvailability w (int (currMbAddr ob)) ob = Some ?r"
    unfolding InitNeighborAvailability_def n(1) Let_def A B C D by simp
  moreover have "if_avail (at_offset w h ob dx dy \<noteq> None) ((mb_y ob + dy) * w + (mb_x ob + dx)) = at_offset w h ob dx dy" for dx dy
    using at_offset_Some [of w h ob dx dy] by (auto simp: if_avail_def)
  note f = this [of "- 1" 0] this [of 0 "- 1"] this [of 1 "- 1"] this [of "- 1" "- 1"]
  have e: "(mb_y ob - 1) * w = mb_y ob * w - w" "currMbAddr ob < length (mblock ob)"
    using n by (simp_all add: left_diff_distrib)
  have "neighbours_apart ?r"
    using at_offset_before [OF ob, of "- 1" 0] at_offset_before [OF ob, of 0 "- 1"] at_offset_before [OF ob, of 1 "- 1"]
      at_offset_before [OF ob, of "- 1" "- 1"] e(2) ob
    by (simp add: neighbours_apart_def placed_def e(1) algebra_simps)
  ultimately show ?thesis using f by (intro exI [of _ ?r]) (simp add: e algebra_simps)
qed

text \<open>The last macroblock of a picture of two by two, all in one slice but the first.\<close>

definition demo_ob :: AVCMbObj where
  "demo_ob = \<lparr>mblock = [blank_mb\<lparr>slice_id := 1\<rparr>, blank_mb, blank_mb, blank_mb], currMbAddr = 3, mb_x = 1, mb_y = 1,
     mbAddrA = 0, mbAddrB = 0, mbAddrC = 0, mbAddrD = 0, mbAvailA = False, mbAvailB = False, mbAvailC = False, mbAvailD = False,
     intraAvailA = False, intraAvailB = False, intraAvailC = False, intraAvailD = False, mvd_l0 = replicate 4 (replicate 4 (0, 0)),
     mb_skip_run = - 1, QPy = 26, QPc = 26, v_QPy_div_6 = 4, v_QPy_mod_6 = 2, v_QPc_div_6 = 4, v_QPc_mod_6 = 2,
     mb_block = replicate 384 0, cbp4x4 = 0\<rparr>"

lemma demo_ob_placed: "placed 2 2 demo_ob"
  by (simp add: placed_def demo_ob_def)

lemma InitNeighborAvailability_finds_witness:
  "\<exists>ob'. InitNeighborAvailability 2 (int (currMbAddr demo_ob)) demo_ob = Some ob'
    \<and> if_avail (mbAvailA ob') (mbAddrA ob') = at_offset 2 2 demo_ob (- 1) 0
    \<and> if_avail (mbAvailB ob') (mbAddrB ob') = at_offset 2 2 demo_ob 0 (- 1)
    \<and> if_avail (mbAvailC ob') (mbAddrC ob') = at_offset 2 2 demo_ob 1 (- 1)
    \<and> if_avail (mbAvailD ob') (mbAddrD ob') = at_offset 2 2 demo_ob (- 1) (- 1)
    \<and> neighbours_apart ob'"
  by (rule InitNeighborAvailability_finds [OF demo_ob_placed])

section \<open>Motion vectors\<close>

text \<open>C4: the motion vector differences that the encoder computes for an inter macroblock of any partition make the
  decoder's \<open>GetMotionVectorPredictor\<close>, which fills in the vectors of the partitions one after the other and predicts from
  those it has, restore the encoder's sixteen vectors.\<close>

theorem Motion_vectors_restored:
  assumes "mv_match E D" "neighbours_apart D" "mv_target (currMB E)" "length (mvL0 (currMB D)) = 16"
    and "dims 4 4 (mvd_l0 E)" "mbMode (currMB E) \<noteq> AVC_SKIP" "mbMode (currMB D) \<noteq> AVC_SKIP"
    and "\<forall>p \<in> set (partitions (currMB E)). mvd_l0 D ! fst p ! snd p = mvd_l0 (GetMotionVectorPredictor True E) ! fst p ! snd p"
  shows "mvL0 (currMB (GetMotionVectorPredictor False D)) = mvL0 (currMB E)"
proof -
  have "GetMotionVectorPredictor False D = with_mv (mvL0 (currMB E)) D"
    using GetMotionVectorPredictor_restores [OF assms(1-7)] assms(8) by blast
  then show ?thesis using assms(2) by (simp add: currMB_with_mv neighbours_apart_def)
qed

text \<open>Two halves of 16x8 beside a macroblock with vectors; the decoder knows the differences only.\<close>

definition demo_E :: AVCMbObj where
  "demo_E = demo_ob\<lparr>mblock := [blank_mb, blank_mb, blank_mb\<lparr>mvL0 := replicate 16 (5, - 7)\<rparr>,
     (set_parts 2 16 8 blank_mb)\<lparr>mvL0 := replicate 8 (3, 4) @ replicate 8 (- 2, 9), mbMode := AVC_P16x8\<rparr>],
     mbAddrA := 2, mbAddrB := 1, mbAvailA := True, mbAvailB := True\<rparr>"

definition demo_D :: AVCMbObj where
  "demo_D = with_mv (replicate 16 (0, 0)) demo_E\<lparr>mvd_l0 := mvd_l0 (GetMotionVectorPredictor True demo_E)\<rparr>"

lemma demo_D_facts:
  "currMB demo_D = (currMB demo_E)\<lparr>mvL0 := replicate 16 (0, 0)\<rparr>" "mvd_l0 demo_D = mvd_l0 (GetMotionVectorPredictor True demo_E)"
  "neighbours_apart demo_D" "mv_around demo_E demo_D"
  by (simp_all add: demo_D_def demo_E_def demo_ob_def with_mv_def upd_currMB_def currMB_def neighbours_apart_def mv_around_def
      same_avail_def mv_same_def)

lemma demo_E_cur: "currMB demo_E = (set_parts 2 16 8 blank_mb)\<lparr>mvL0 := replicate 8 (3, 4) @ replicate 8 (- 2, 9), mbMode := AVC_P16x8\<rparr>"
  by (simp add: demo_E_def demo_ob_def currMB_def)

lemma demo_E_target: "mv_target (currMB demo_E)"
  unfolding demo_E_cur by code_simp

lemma Motion_vectors_restored_witness:
  "mvL0 (currMB (GetMotionVectorPredictor False demo_D)) = replicate 8 (3, 4) @ replicate 8 (- 2, 9)"
proof -
  have "mvL0 (currMB (GetMotionVectorPredictor False demo_D)) = mvL0 (currMB demo_E)"
  proof (rule Motion_vectors_restored)
    show "mv_match demo_E demo_D"
      using demo_D_facts by (simp add: mv_match_def same_shape_def sub_shape_def)
    show "dims 4 4 (mvd_l0 demo_E)" by (simp add: demo_E_def demo_ob_def dims_def)
    show "mv_target (currMB demo_E)" by (rule demo_E_target)
  qed (simp_all add: demo_D_facts demo_E_cur)
  then show ?thesis by (simp add: demo_E_cur)
qed

section \<open>Residual blocks\<close>

text \<open>C3: a block of coefficients that the encoder writes, luma, chroma or DC, with up to sixteen levels of either sign and
  their runs of zeros, is what \<open>residual_block_cavlc\<close> answers, whatever follows it: the same levels and runs, from the last
  coefficient to the first, and their number.\<close>

theorem Residual_block_roundtrip:
  assumes "coeffs_ok mx lv rn c" "block_kind cdc nC mx"
  shows "\<exists>bs. coded (put_coeffs malloc cdc nC lv rn (int c) mx)
    (\<lambda>s. residual_block_cavlc s nC mx) (rev (take c lv), rev (take c rn), int c) bs"
  by (rule block_coded [OF assms])

lemma Residual_block_roundtrip_witness:
  "\<exists>bs. coded (put_coeffs demo_malloc False 2 [40, - 3, 0, 7] [0, 2, 0, 9] (int 2) 16)
    (\<lambda>s. residual_block_cavlc s 2 16) ([- 3, 40], [2, 0], int 2) bs"
  using Residual_block_roundtrip [of 16 "[40, - 3, 0, 7]" "[0, 2, 0, 9]" 2 False 2 demo_malloc]
  by (simp add: coeffs_ok_def level_ok_def block_kind_def numeral_2_eq_2)

end
