(* ===== verification/ResidualProps.thy ===== *)
theory ResidualProps
  imports MbResidual MacroblockProps
begin

text \<open>The properties of the residual of a macroblock, from the coefficients to the reconstructed blocks.\<close>

section \<open>The residual of a macroblock\<close>








section \<open>Reconstruction\<close>

text \<open>C6: a luma block that the intra macroblock of the encoder transforms, quantises and reconstructs with \<open>dct_luma\<close> is, in the
  bits written for its levels and runs, the block that \<open>residual_luma\<close> of the decoder reads; the decoder's inverse transform
  on its own copy of the prediction gives every pixel of the encoder's reconstruction: the two do not drift apart.\<close>

theorem Luma_block_reconstructed:
  fixes x :: coeff_state and i j :: nat
  assumes "r = dct_luma True Rq Qq c (4 * j + i) cur org pred cost B" "j < 4" "i < 4"
    and "byte_pixels org" "byte_pixels pred" "pixels_ok cur" "pixels_ok dec" "same_pixels pred dec"
    and "Rq < 6" "0 \<le> c" "c < 2 ^ (15 + Qq)" "v_QPy_mod_6 (fst x) = int Rq" "v_QPy_div_6 (fst x) = int Qq"
    and "length B = 384" "length (mb_block (fst x)) = 384"
    and "\<forall>k<16. mb_block (fst x) ! scan_cell (64 * j + 4 * i) k = 0" "0 \<le> predict_nnz (fst x) i j"
  shows "\<exists>bs D. coded (put_coeffs malloc False (predict_nnz (fst x) i j) (lr_level r) (lr_run r) (int (lr_numcoeff r)) 16)
      (residual_luma 0 (i, j) x) (AVCDEC_SUCCESS, set_nz (4 * j + i) (int (lr_numcoeff r)) ((fst x)\<lparr>mb_block := D\<rparr>, snd x)) bs
    \<and> same_pixels (lr_cur r) (if lr_numcoeff r \<noteq> 0 then itrans (64 * j + 4 * i) D dec else dec)"
  by (rule luma_block_roundtrip) (rule assms)+

text \<open>An edge on a flat prediction, at quantisation parameter 26.\<close>

definition demo_org :: pixels where
  "demo_org = ([90, 100, 200, 210, 91, 103, 198, 213, 95, 99, 180, 220, 90, 90, 190, 255], 0, 4)"

definition demo_flat :: pixels where
  "demo_flat = (replicate 16 128, 0, 4)"

definition demo_luma :: luma_result where
  "demo_luma = dct_luma True 2 4 174762 0 demo_flat demo_org demo_flat 0 (replicate 384 0)"

lemma demo_luma_levels: "0 < lr_numcoeff demo_luma" "lr_cur demo_luma \<noteq> demo_flat"
  by code_simp+

lemma demo_pixels:
  "byte_pixels demo_org" "byte_pixels demo_flat" "pixels_ok demo_flat" "same_pixels demo_flat demo_flat"
proof -
  have "list_all (\<lambda>j. list_all (\<lambda>i. 0 \<le> px demo_org j i \<and> px demo_org j i \<le> 255 \<and> 0 \<le> px demo_flat j i \<and> px demo_flat j i \<le> 255)
      [0..<4]) [0..<4]" by code_simp
  then show "byte_pixels demo_org" "byte_pixels demo_flat" by (simp_all add: byte_pixels_def list_all_iff)
qed (simp_all add: pixels_ok_def same_pixels_def demo_flat_def)

lemma demo_block: "\<forall>k<16. mb_block (fst (demo_ob, 0 :: uint)) ! scan_cell (64 * 0 + 4 * 0) k = 0"
proof -
  have "list_all (\<lambda>k. mb_block demo_ob ! scan_cell 0 k = 0) [0..<16]" by code_simp
  then show ?thesis by (simp add: list_all_iff)
qed

lemma Luma_block_reconstructed_witness:
  "\<exists>bs D. coded (put_coeffs demo_malloc False 0 (lr_level demo_luma) (lr_run demo_luma) (int (lr_numcoeff demo_luma)) 16)
      (residual_luma 0 (0, 0) (demo_ob, 0)) (AVCDEC_SUCCESS, set_nz 0 (int (lr_numcoeff demo_luma)) (demo_ob\<lparr>mb_block := D\<rparr>, 0)) bs
    \<and> same_pixels (lr_cur demo_luma) (itrans 0 D demo_flat)"
proof -
  have nnz: "predict_nnz demo_ob 0 0 = 0" by code_simp
  have "demo_luma = dct_luma True 2 4 174762 (4 * 0 + 0) demo_flat demo_org demo_flat 0 (replicate 384 0)"
    by (simp add: demo_luma_def)
  from Luma_block_reconstructed [OF this _ _ demo_pixels(1-3) demo_pixels(3,4), of "(demo_ob, 0)" demo_malloc, OF _ _ _ _ _ _ _ _ _ demo_block]
  show ?thesis using demo_luma_levels nnz by (simp add: demo_ob_def)
qed

end
