(* ===== verification/Spec2Isabelle.thy ===== *)
theory Spec2Isabelle
  imports StreamProps HeaderProps SliceProps CavlcProps DpbProps RefListProps PocProps OutputProps ResidualProps
begin

text \<open>
  A verification library of the AVC (H.264) codec of ftke, the directory
  \<open>opencore-linux/codecs_v2/video/avc_h264\<close> (below: \<open>common\<close>, \<open>dec\<close>, \<open>enc\<close>).

  \<^bold>\<open>Parts of the program and their theories.\<close> An encoder writes NAL units, a decoder reads them; both keep a
  buffer of decoded pictures that later pictures refer to. From the bits upwards:

    \<^item> \<open>AvcPrelude\<close>: C integers, array reads, words as bit lists. \<open>BitIO\<close>: the interfaces between a
      bitstream and the coders on top of it, the locales \<open>bit_source\<close> and \<open>bit_sink\<close>.
    \<^item> \<open>DecBitstream\<close> (\<open>dec/src/avc_bitstream.cpp\<close>): the two-word cache of the decoder, an interpretation of
      \<open>bit_source\<close>. \<open>EncBitstream\<close> (\<open>enc/src/bitstream_io.cpp\<close>): the writer with emulation prevention and
      overrun buffer, an interpretation of \<open>bit_sink\<close>. \<open>NalUnit\<close> (\<open>dec/src/avcdec_api.cpp\<close>): framing and
      escaping.
    \<^item> \<open>ExpGolomb\<close>, \<open>DecVlc\<close>, \<open>DecCavlc\<close> (\<open>dec/src/vlc.cpp\<close>), \<open>EncVlc\<close> (\<open>enc/src/vlc_encode.cpp\<close>), \<open>CavlcRoundtrip\<close>,
      \<open>SyntaxElements\<close>: the entropy codes, their tables and their round trips.
    \<^item> \<open>ParamSets\<close> (\<open>common/include/avcint_common.h\<close>): the parameter sets and the slice header. \<open>HeaderSyntax\<close>: the syntax that
      both directions share; \<open>DecHeader\<close>, \<open>DecSliceHeader\<close> (\<open>dec/src/header.cpp\<close>) and \<open>EncHeader\<close>, \<open>EncSliceHeader\<close>
      (\<open>enc/src/header.cpp\<close>): sequence and picture parameter sets and slice headers; \<open>HeaderRoundtrip\<close>, \<open>SliceRoundtrip\<close>: what is
      written is read; \<open>HeaderTypes\<close>: the ranges that the tables of the decoder keep whatever is read.
    \<^item> \<open>MbData\<close>, \<open>MbAccess\<close> (\<open>common/src/mb_access.cpp\<close>): macroblocks, their neighbours, the prediction of modes, of numbers of
      coefficients and of motion vectors; \<open>MvRoundtrip\<close>: prediction in the decoder undoes the differences of the encoder.
      \<open>DecMb\<close> (\<open>dec/src/slice.cpp\<close>), \<open>EncMb\<close> (\<open>enc/src/slice.cpp\<close>): the syntax of macroblocks.
    \<^item> \<open>DecResidual\<close> (\<open>dec/src/residual.cpp\<close>), \<open>EncResidual\<close> (\<open>enc/src/residual.cpp\<close>), \<open>ResidualRoundtrip\<close>: levels and runs of one
      block. \<open>Transform\<close>, \<open>EncTransform\<close> (\<open>enc/src/block.cpp\<close>), \<open>DecTransform\<close> (\<open>dec/src/itrans.cpp\<close> and \<open>residual\<close>),
      \<open>TransformRoundtrip\<close>: transform, quantisation, reconstruction. \<open>MbResidual\<close>: the residual of a whole macroblock.
    \<^item> \<open>Dpb\<close>, \<open>DpbMarking\<close> (\<open>common/src/dpb.cpp\<close>): the decoded picture buffer; \<open>Output\<close> (\<open>dec/src/avcdec_api.cpp\<close>, \<open>dec/src/header.cpp\<close>):
      the life of its frames, output and gaps in the frame numbers. \<open>RefList\<close>, \<open>RefListOrder\<close> (\<open>common/src/reflist.cpp\<close>): the
      reference lists, with the locale \<open>sort_order\<close> for the seven sorts.
    \<^item> \<open>Fmo\<close> (\<open>common/src/fmo.cpp\<close>): slice group maps. \<open>Poc\<close> (\<open>dec/src/header.cpp\<close>, \<open>enc/src/header.cpp\<close>): picture
      order counts.
    \<^item> \<open>StreamProps\<close>, \<open>HeaderProps\<close>, \<open>SliceProps\<close>, \<open>CavlcProps\<close>, \<open>MacroblockProps\<close>, \<open>ResidualProps\<close>, \<open>DpbProps\<close>, \<open>OutputProps\<close>,
      \<open>RefListProps\<close>, \<open>PocProps\<close>: the properties, each with a witness; \<open>Samples\<close>: the concrete values of the witnesses.

  \<^bold>\<open>How the parts meet.\<close> Every coder is shown against the interface of the bitstream: \<open>emits\<close> says that a writer appends exactly
  some bits, \<open>consumes\<close> that a reader takes exactly these bits from the front of any stream and answers a value, \<open>coded\<close> both.
  The laws for sequences of the two locales compose the syntax elements into headers and macroblocks, and the interpretations on
  the caches of the code turn them into statements on bytes. Buffer, lists and output share the record of \<open>Dpb\<close>.

  \<^bold>\<open>Conventions.\<close> \<open>None\<close> is undefined behaviour of the C code (or a loop that does not end, for the
  \<open>partial_function\<close>s, which say so); a status code is a datatype value. \<open>uint\<close> is a 32-bit word, \<open>int\<close> is an
  integer with the conversions written out; overflow of \<open>int\<close> arithmetic is not modelled. Coefficients are cut to sixteen bits
  where the code stores them. Recursions are structural or have a measure; where a loop runs over a table its fuel is the length
  of the table, which the code uses as its bound.

  \<^bold>\<open>Not modelled.\<close> The samples of I_PCM macroblocks, intra and inter prediction of pixels, deblocking, the transforms of the encoder
  other than \<open>dct_luma\<close>: arithmetic on whole planes, without which \<open>DecodeSlice\<close> and \<open>AVCEncodeSlice\<close> have no state to run on.
  Motion search, mode decision and rate control: heuristics with no contract to state. The variants for B, SI and SP slices, which
  the profile has not and no caller reaches. Outside the directory: the other codecs, the OpenMAX components, the engines, nodes,
  file formats and protocols of the framework, and the vendored graphics libraries.
\<close>

end
